(* ===== verification/Acme_Prelude.thy ===== *)
theory Acme_Prelude
  imports Main "HOL-Library.AList" "HOL-Library.Word" "HOL-Library.State_Monad"
begin

section \<open>Prelude: types, strings and lemmas shared by the components\<close>

text \<open>
  The types and helper functions every component theory uses: instants and durations, the
  wrap-around of Go's 64-bit integers, the functions of Go's \<^verbatim>\<open>strings\<close> and \<^verbatim>\<open>slices\<close> packages the
  server calls, sum-valued results and association lists for the maps whose size or iteration
  matters.  The named collections below gather the facts that component proofs pass to the
  simplifier and the classical reasoner.
\<close>

named_theorems go_simps "unfolding equations of the modelled standard library"
named_theorems store_simps "what one store operation does to each table"
named_theorems inv_intros "preservation of a component invariant"

subsection \<open>Instants, durations and 64-bit integers\<close>

text \<open>
  A \<^verbatim>\<open>time.Time\<close> is an \<open>int\<close>: nanoseconds since the zero time, which is \<open>0\<close>.  \<^verbatim>\<open>t.After(u)\<close> is
  \<open>u < t\<close>, \<^verbatim>\<open>t.Before(u)\<close> is \<open>t < u\<close>, \<^verbatim>\<open>t.Add(d)\<close> is \<open>t + d\<close> and \<^verbatim>\<open>t.IsZero()\<close> is \<open>t = 0\<close>.  A
  \<^verbatim>\<open>time.Duration\<close> is an \<open>int\<close> in nanoseconds; where the code multiplies durations the result is
  reduced to 64 bits by \<open>i64\<close>, as Go's \<^verbatim>\<open>int64\<close> arithmetic does.
\<close>

type_synonym time = int
type_synonym duration = int
type_synonym byte = "8 word"
type_synonym bytes = "byte list"

abbreviation IsZero :: "time \<Rightarrow> bool" where
  "IsZero t \<equiv> t = 0"

abbreviation After :: "time \<Rightarrow> time \<Rightarrow> bool" where
  "After t u \<equiv> u < t"

abbreviation Before :: "time \<Rightarrow> time \<Rightarrow> bool" where
  "Before t u \<equiv> t < u"

text \<open>The byte with a given value, for values below 256.\<close>

definition mk_byte :: "nat \<Rightarrow> byte" where
  "mk_byte n = of_nat n"

lemma byte_less [simp]: "unat (a :: byte) < 256"
  using unsigned_less [of a, where ?'a = nat] by simp

lemma unat_mk_byte [simp]: "n < 256 \<Longrightarrow> unat (mk_byte n) = n"
  by (simp add: mk_byte_def unat_of_nat)

lemma mk_byte_unat [simp]: "mk_byte (unat a) = a"
  by (simp add: mk_byte_def)

definition second :: duration where
  "second = 1000000000"

definition i64 :: "int \<Rightarrow> int" where
  "i64 n = (n + 2 ^ 63) mod 2 ^ 64 - 2 ^ 63"

lemma i64_range: "- (2 ^ 63) \<le> i64 n \<and> i64 n < 2 ^ 63"
  by (auto simp: i64_def)

lemma i64_id [simp]: "- (2 ^ 63) \<le> n \<Longrightarrow> n < 2 ^ 63 \<Longrightarrow> i64 n = n"
  by (simp add: i64_def)

subsection \<open>Results\<close>

text \<open>A Go function that returns a value and an error is a sum: \<open>Inl\<close> the error, \<open>Inr\<close> the value.\<close>

fun and_then :: "'e + 'a \<Rightarrow> ('a \<Rightarrow> 'e + 'b) \<Rightarrow> 'e + 'b" where
  "and_then (Inl e) f = Inl e"
| "and_then (Inr x) f = f x"

lemma and_then_Inr_iff [simp]: "and_then r f = Inr y \<longleftrightarrow> (\<exists>x. r = Inr x \<and> f x = Inr y)"
  by (cases r) auto

lemma and_then_Inl_iff: "and_then r f = Inl e \<longleftrightarrow> r = Inl e \<or> (\<exists>x. r = Inr x \<and> f x = Inl e)"
  by (cases r) auto

lemma and_then_cong [fundef_cong]:
  "r = r' \<Longrightarrow> (\<And>x. r' = Inr x \<Longrightarrow> f x = g x) \<Longrightarrow> and_then r f = and_then r' g"
  by (cases r') simp_all

text \<open>A guard with an early return: the operation succeeds only past it.\<close>

lemma guard_Inr [simp]: "(if c then Inl x else r) = Inr y \<longleftrightarrow> \<not> c \<and> r = Inr y"
  by simp

text \<open>Case distinctions whose other branch is an error.\<close>

lemma case_Inr:
  "(case r of Inl e \<Rightarrow> Inl (g e) | Inr y \<Rightarrow> f y) = Inr z \<longleftrightarrow> (\<exists>y. r = Inr y \<and> f y = Inr z)"
  "(case p of None \<Rightarrow> Inl e' | Some y \<Rightarrow> f y) = Inr z \<longleftrightarrow> (\<exists>y. p = Some y \<and> f y = Inr z)"
  "(case q of Some e \<Rightarrow> Inl (h e) | None \<Rightarrow> r') = Inr z \<longleftrightarrow> q = None \<and> r' = Inr z"
  by (auto split: sum.splits option.splits)

subsection \<open>Strings\<close>

text \<open>
  A Go string is a list of bytes, here \<open>string\<close>, a list of 8-bit characters.  \<open>ord\<close> is the value of
  the byte.
\<close>

abbreviation ord :: "char \<Rightarrow> nat" where
  "ord c \<equiv> of_char c"

definition lower_char :: "char \<Rightarrow> char" where
  "lower_char c = (if 65 \<le> ord c \<and> ord c \<le> 90 then char_of (ord c + 32) else c)"

text \<open>\<^verbatim>\<open>strings.ToLower\<close> on ASCII text; bytes from \<^verbatim>\<open>0x80\<close> on are kept.\<close>

definition to_lower :: "string \<Rightarrow> string" where
  "to_lower = map lower_char"

definition equal_fold :: "string \<Rightarrow> string \<Rightarrow> bool" where
  "equal_fold s t \<longleftrightarrow> to_lower s = to_lower t"

fun has_prefix :: "string \<Rightarrow> string \<Rightarrow> bool" where
  "has_prefix s [] = True"
| "has_prefix [] (p # ps) = False"
| "has_prefix (c # cs) (p # ps) = (c = p \<and> has_prefix cs ps)"

definition trim_prefix :: "string \<Rightarrow> string \<Rightarrow> string" where
  "trim_prefix s p = (if has_prefix s p then drop (length p) s else s)"

definition cut_prefix :: "string \<Rightarrow> string \<Rightarrow> string option" where
  "cut_prefix s p = (if has_prefix s p then Some (drop (length p) s) else None)"

text \<open>\<^verbatim>\<open>strings.Cut\<close> at a single character: the text before and after its first occurrence.\<close>

fun cut :: "string \<Rightarrow> char \<Rightarrow> (string \<times> string) option" where
  "cut [] c = None"
| "cut (x # xs) c =
     (if x = c then Some ([], xs)
      else case cut xs c of None \<Rightarrow> None | Some (a, b) \<Rightarrow> Some (x # a, b))"

text \<open>\<^verbatim>\<open>strings.Split\<close> at a single character.\<close>

fun split_on :: "char \<Rightarrow> string \<Rightarrow> string list" where
  "split_on c [] = [[]]"
| "split_on c (x # xs) =
     (if x = c then [] # split_on c xs
      else case split_on c xs of [] \<Rightarrow> [[x]] | y # ys \<Rightarrow> (x # y) # ys)"

lemma has_prefix_iff: "has_prefix s p \<longleftrightarrow> (\<exists>r. s = p @ r)"
  by (induction s p rule: has_prefix.induct) auto

lemma has_prefix_append [simp]: "has_prefix (p @ s) p"
  by (simp add: has_prefix_iff)

lemma trim_prefix_append [simp]: "trim_prefix (p @ s) p = s"
  by (simp add: trim_prefix_def)

lemma cut_prefix_Some [simp]: "cut_prefix s p = Some r \<longleftrightarrow> s = p @ r"
  by (auto simp: cut_prefix_def has_prefix_iff)

lemma ord_less [simp]: "ord c < 256"
  using of_char_mod_256 [of c] by (metis mod_less_divisor zero_less_numeral)

lemma ord_inject: "ord c = ord d \<longleftrightarrow> c = d"
  by (metis char_of_char)

lemma ord_char_of [simp]: "n < 256 \<Longrightarrow> ord (char_of n) = n"
  by simp

lemma ord_eq_iff: "n < 256 \<Longrightarrow> ord c = n \<longleftrightarrow> c = char_of n"
  by (metis char_of_char ord_char_of)

lemma lower_char_idem [simp]: "lower_char (lower_char c) = lower_char c"
  by (simp add: lower_char_def)

lemma length_to_lower [simp]: "length (to_lower s) = length s"
  by (simp add: to_lower_def)

lemma to_lower_idem [simp]: "to_lower (to_lower s) = to_lower s"
  by (simp add: to_lower_def comp_def)

lemma to_lower_append: "to_lower (s @ t) = to_lower s @ to_lower t"
  by (simp add: to_lower_def)

lemma equal_fold_refl [simp]: "equal_fold s s"
  by (simp add: equal_fold_def)

lemma split_on_not_Nil [simp]: "split_on c s \<noteq> []"
  by (induction s) (auto split: list.splits)

lemma split_on_concat: "concat (map (\<lambda>l. l @ [c]) (split_on c s)) = s @ [c]"
proof (induction s)
  case Nil
  show ?case by simp
next
  case (Cons x s)
  obtain y ys where "split_on c s = y # ys"
    using split_on_not_Nil [of c s] by (cases "split_on c s") auto
  with Cons.IH show ?case by simp
qed

lemma cut_Some: "cut s c = Some (a, b) \<Longrightarrow> s = a @ c # b \<and> c \<notin> set a"
  by (induction s c arbitrary: a rule: cut.induct) (auto split: if_splits option.splits)

lemma cut_append: "c \<notin> set a \<Longrightarrow> cut (a @ c # b) c = Some (a, b)"
  by (induction a) auto

subsection \<open>Lists\<close>

text \<open>\<^verbatim>\<open>slices.Contains\<close> and \<^verbatim>\<open>slices.Index\<close>.\<close>

abbreviation contains :: "'a list \<Rightarrow> 'a \<Rightarrow> bool" where
  "contains xs x \<equiv> List.member xs x"

fun index_of :: "'a list \<Rightarrow> 'a \<Rightarrow> nat option" where
  "index_of [] a = None"
| "index_of (x # xs) a = (if x = a then Some 0 else map_option Suc (index_of xs a))"

lemma index_of_Some:
  "index_of xs a = Some i \<Longrightarrow> i < length xs \<and> xs ! i = a \<and> a \<notin> set (take i xs)"
  by (induction xs arbitrary: i) (auto split: if_splits)

lemma index_of_None [simp]: "index_of xs a = None \<longleftrightarrow> a \<notin> set xs"
  by (induction xs) auto

lemma index_of_append_mid: "a \<notin> set xs \<Longrightarrow> index_of (xs @ a # ys) a = Some (length xs)"
  by (induction xs) auto

subsection \<open>Association lists\<close>

text \<open>
  Maps whose size or whose elements the code enumerates are association lists with distinct keys:
  \<open>alist_put\<close> is \<^verbatim>\<open>m[k] = v\<close> and \<open>alist_del\<close> is \<^verbatim>\<open>delete(m, k)\<close>.
\<close>

abbreviation alist_put :: "'k \<Rightarrow> 'v \<Rightarrow> ('k \<times> 'v) list \<Rightarrow> ('k \<times> 'v) list" where
  "alist_put \<equiv> AList.update"

abbreviation alist_del :: "'k \<Rightarrow> ('k \<times> 'v) list \<Rightarrow> ('k \<times> 'v) list" where
  "alist_del \<equiv> AList.delete"

abbreviation keys_distinct :: "('k \<times> 'v) list \<Rightarrow> bool" where
  "keys_distinct m \<equiv> distinct (map fst m)"

lemma map_of_put [simp]: "map_of (alist_put k v m) = (map_of m)(k \<mapsto> v)"
  by (simp add: update_conv')

lemma map_of_del [simp]: "map_of (alist_del k m) = (map_of m)(k := None)"
  by (simp add: delete_conv')

lemma keys_distinct_put [simp]: "keys_distinct m \<Longrightarrow> keys_distinct (alist_put k v m)"
  by (rule distinct_update)

lemma keys_distinct_del [simp]: "keys_distinct m \<Longrightarrow> keys_distinct (alist_del k m)"
  by (rule distinct_delete)

lemma length_put_le: "length (alist_put k v m) \<le> Suc (length m)"
  by (induction m) auto

lemma length_put_new: "map_of m k = None \<Longrightarrow> length (alist_put k v m) = Suc (length m)"
  by (induction m) (auto split: if_splits)

lemma length_del_le [simp]: "length (alist_del k m) \<le> length m"
  by (rule length_delete_le)

lemma length_del_less: "map_of m k = Some v \<Longrightarrow> length (alist_del k m) < length m"
proof (induction m)
  case Nil
  then show ?case by simp
next
  case (Cons p m)
  then show ?case
    by (cases p) (auto simp: less_Suc_eq_le split: if_splits)
qed

lemma alist_del_absent: "map_of m k = None \<Longrightarrow> alist_del k m = m"
  by (simp add: map_of_eq_None_iff delete_idem)

subsection \<open>Secondary indexes\<close>

text \<open>
  \<open>idx\<close> is a secondary index of the primary map \<open>m\<close>: it maps a key to the entry that carries it, where an
  entry may carry no key.  Then no two entries share a key.
\<close>

definition indexes :: "('k \<rightharpoonup> 'i) \<Rightarrow> ('i \<rightharpoonup> 'v) \<Rightarrow> ('v \<Rightarrow> 'k option) \<Rightarrow> bool" where
  "indexes idx m key \<longleftrightarrow> (\<forall>k i. idx k = Some i \<longleftrightarrow> (\<exists>v. m i = Some v \<and> key v = Some k))"

definition index_put :: "'k option \<Rightarrow> 'i \<Rightarrow> ('k \<rightharpoonup> 'i) \<Rightarrow> ('k \<rightharpoonup> 'i)" where
  "index_put k i idx = (case k of None \<Rightarrow> idx | Some k \<Rightarrow> idx(k \<mapsto> i))"

lemma indexes_empty [simp]: "indexes Map.empty Map.empty key"
  by (simp add: indexes_def)

lemma indexes_unique:
  "indexes idx m key \<Longrightarrow> m i = Some v \<Longrightarrow> m j = Some w \<Longrightarrow> key v = Some k \<Longrightarrow> key w = Some k \<Longrightarrow> i = j"
  unfolding indexes_def by (metis option.inject)

lemma indexes_lookup: "indexes idx m key \<Longrightarrow> idx k = Some i \<Longrightarrow> \<exists>v. m i = Some v \<and> key v = Some k"
  by (simp add: indexes_def)

lemma indexes_update:
  assumes ix: "indexes idx m key"
    and free: "\<And>k j. key v = Some k \<Longrightarrow> idx k = Some j \<Longrightarrow> j = i"
    and del: "\<And>k. del k \<longleftrightarrow> (\<exists>w. m i = Some w \<and> key w = Some k)"
  shows "indexes (index_put (key v) i (\<lambda>k. if del k then None else idx k)) (m(i \<mapsto> v)) key"
  unfolding indexes_def
proof (intro allI)
  fix k j
  have ix': "idx k = Some j \<longleftrightarrow> (\<exists>v. m j = Some v \<and> key v = Some k)"
    using ix by (simp add: indexes_def)
  show "index_put (key v) i (\<lambda>k. if del k then None else idx k) k = Some j \<longleftrightarrow>
    (\<exists>u. (m(i \<mapsto> v)) j = Some u \<and> key u = Some k)"
  proof (cases "key v = Some k")
    case True
    then have "j = i" if "m j = Some u" "key u = Some k" for u
      using free ix' that by blast
    with True show ?thesis
      by (auto simp: index_put_def)
  next
    case False
    then have "index_put (key v) i (\<lambda>k. if del k then None else idx k) k = (if del k then None else idx k)"
      by (auto simp: index_put_def split: option.split)
    moreover have "j = i" if "m j = Some u" "key u = Some k" "del k" for u
      using that ix del indexes_unique [OF ix] by blast
    ultimately show ?thesis
      using False ix' del by auto
  qed
qed

lemma indexes_create:
  assumes "indexes idx m key" "m i = None" "\<And>k. key v = Some k \<Longrightarrow> idx k = None"
  shows "indexes (index_put (key v) i idx) (m(i \<mapsto> v)) key"
  using indexes_update [of idx m key v i "\<lambda>_. False"] assms by simp

end
