(* ===== verification/Acme_Status.thy ===== *)
theory Acme_Status
  imports Acme_Prelude
begin

section \<open>Resource statuses\<close>

text \<open>
  The status types of \<^verbatim>\<open>status.go\<close> with their \<^verbatim>\<open>Known\<close>, \<^verbatim>\<open>Terminal\<close> and \<^verbatim>\<open>CanTransition\<close> methods.
  In Go a status is a string, so each type has one more constructor for every string the protocol
  does not define.  The locale \<open>status_graph\<close> states what the other components rely on: transitions
  stay among the known statuses, they end exactly in the terminal ones and they climb a rank.  It is
  interpreted for the four resource types.
\<close>

subsection \<open>The statuses of \<^verbatim>\<open>status.go\<close>\<close>

datatype AccountStatus =
    AccountValid | AccountDeactivated | AccountRevoked
  | AccountStatusOther string

fun account_Known :: "AccountStatus \<Rightarrow> bool" where
  "account_Known AccountValid = True"
| "account_Known AccountDeactivated = True"
| "account_Known AccountRevoked = True"
| "account_Known (AccountStatusOther _) = False"

definition account_CanTransition :: "AccountStatus \<Rightarrow> AccountStatus \<Rightarrow> bool" where
  "account_CanTransition s t \<longleftrightarrow> s = AccountValid \<and> (t = AccountDeactivated \<or> t = AccountRevoked)"

datatype OrderStatus =
    OrderPending | OrderReady | OrderProcessing | OrderValid | OrderInvalid
  | OrderStatusOther string

fun order_Known :: "OrderStatus \<Rightarrow> bool" where
  "order_Known (OrderStatusOther _) = False"
| "order_Known _ = True"

definition order_Terminal :: "OrderStatus \<Rightarrow> bool" where
  "order_Terminal s \<longleftrightarrow> s = OrderValid \<or> s = OrderInvalid"

fun order_CanTransition :: "OrderStatus \<Rightarrow> OrderStatus \<Rightarrow> bool" where
  "order_CanTransition OrderPending t = (t = OrderReady \<or> t = OrderInvalid)"
| "order_CanTransition OrderReady t = (t = OrderProcessing \<or> t = OrderInvalid)"
| "order_CanTransition OrderProcessing t = (t = OrderValid \<or> t = OrderInvalid)"
| "order_CanTransition OrderValid t = False"
| "order_CanTransition OrderInvalid t = False"
| "order_CanTransition (OrderStatusOther _) t = False"

datatype AuthorizationStatus =
    AuthorizationPending | AuthorizationValid | AuthorizationInvalid
  | AuthorizationDeactivated | AuthorizationExpired | AuthorizationRevoked
  | AuthorizationStatusOther string

fun authz_Known :: "AuthorizationStatus \<Rightarrow> bool" where
  "authz_Known (AuthorizationStatusOther _) = False"
| "authz_Known _ = True"

definition authz_Terminal :: "AuthorizationStatus \<Rightarrow> bool" where
  "authz_Terminal s \<longleftrightarrow> authz_Known s \<and> s \<noteq> AuthorizationPending \<and> s \<noteq> AuthorizationValid"

fun authz_CanTransition :: "AuthorizationStatus \<Rightarrow> AuthorizationStatus \<Rightarrow> bool" where
  "authz_CanTransition AuthorizationPending t =
     (t = AuthorizationValid \<or> t = AuthorizationInvalid \<or>
      t = AuthorizationDeactivated \<or> t = AuthorizationExpired)"
| "authz_CanTransition AuthorizationValid t =
     (t = AuthorizationDeactivated \<or> t = AuthorizationExpired \<or> t = AuthorizationRevoked)"
| "authz_CanTransition AuthorizationInvalid t = False"
| "authz_CanTransition AuthorizationDeactivated t = False"
| "authz_CanTransition AuthorizationExpired t = False"
| "authz_CanTransition AuthorizationRevoked t = False"
| "authz_CanTransition (AuthorizationStatusOther _) t = False"

datatype ChallengeStatus =
    ChallengePending | ChallengeProcessing | ChallengeValid | ChallengeInvalid
  | ChallengeStatusOther string

fun challenge_Known :: "ChallengeStatus \<Rightarrow> bool" where
  "challenge_Known (ChallengeStatusOther _) = False"
| "challenge_Known _ = True"

definition challenge_Terminal :: "ChallengeStatus \<Rightarrow> bool" where
  "challenge_Terminal s \<longleftrightarrow> s = ChallengeValid \<or> s = ChallengeInvalid"

fun challenge_CanTransition :: "ChallengeStatus \<Rightarrow> ChallengeStatus \<Rightarrow> bool" where
  "challenge_CanTransition ChallengePending t =
     (t = ChallengeProcessing \<or> t = ChallengeValid \<or> t = ChallengeInvalid)"
| "challenge_CanTransition ChallengeProcessing t = (t = ChallengeValid \<or> t = ChallengeInvalid)"
| "challenge_CanTransition ChallengeValid t = False"
| "challenge_CanTransition ChallengeInvalid t = False"
| "challenge_CanTransition (ChallengeStatusOther _) t = False"

text \<open>The wire form of a status, the string constants of \<^verbatim>\<open>status.go\<close>.\<close>

fun account_status_string :: "AccountStatus \<Rightarrow> string" where
  "account_status_string AccountValid = ''valid''"
| "account_status_string AccountDeactivated = ''deactivated''"
| "account_status_string AccountRevoked = ''revoked''"
| "account_status_string (AccountStatusOther s) = s"

fun order_status_string :: "OrderStatus \<Rightarrow> string" where
  "order_status_string OrderPending = ''pending''"
| "order_status_string OrderReady = ''ready''"
| "order_status_string OrderProcessing = ''processing''"
| "order_status_string OrderValid = ''valid''"
| "order_status_string OrderInvalid = ''invalid''"
| "order_status_string (OrderStatusOther s) = s"

fun authz_status_string :: "AuthorizationStatus \<Rightarrow> string" where
  "authz_status_string AuthorizationPending = ''pending''"
| "authz_status_string AuthorizationValid = ''valid''"
| "authz_status_string AuthorizationInvalid = ''invalid''"
| "authz_status_string AuthorizationDeactivated = ''deactivated''"
| "authz_status_string AuthorizationExpired = ''expired''"
| "authz_status_string AuthorizationRevoked = ''revoked''"
| "authz_status_string (AuthorizationStatusOther s) = s"

subsection \<open>What a status graph promises\<close>

locale status_graph =
  fixes known :: "'s \<Rightarrow> bool"
    and terminal :: "'s \<Rightarrow> bool"
    and can :: "'s \<Rightarrow> 's \<Rightarrow> bool"
    and rank :: "'s \<Rightarrow> nat"
    and height :: nat
  assumes can_known: "can s t \<Longrightarrow> known s \<and> known t"
    and terminal_known: "terminal s \<Longrightarrow> known s"
    and terminal_stuck: "known s \<Longrightarrow> terminal s \<longleftrightarrow> (\<forall>t. \<not> can s t)"
    and can_rank: "can s t \<Longrightarrow> rank s < rank t"
    and rank_height: "known s \<Longrightarrow> rank s \<le> height"
begin

lemma path_rank:
  "successively can (s # p) \<Longrightarrow> rank s + length p \<le> rank (last (s # p))"
proof (induction p arbitrary: s)
  case Nil
  then show ?case by simp
next
  case (Cons t p)
  from Cons.prems have "can s t" and path: "successively can (t # p)"
    by simp_all
  then have "rank s < rank t" by (simp add: can_rank)
  moreover have "rank t + length p \<le> rank (last (t # p))"
    using path by (rule Cons.IH)
  ultimately show ?case by simp
qed

lemma path_known: "known s \<Longrightarrow> successively can (s # p) \<Longrightarrow> known (last (s # p))"
proof (induction p arbitrary: s)
  case (Cons t p)
  then have "can s t" and "successively can (t # p)" by simp_all
  moreover from this have "known t" using can_known by blast
  ultimately show ?case using Cons.IH by simp
qed simp

lemma path_bounded:
  assumes "known s" and "successively can (s # p)"
  shows "length p \<le> height"
  using path_rank [OF assms(2)] rank_height [OF path_known [OF assms]] by linarith

lemma no_return: "can\<^sup>+\<^sup>+ s t \<Longrightarrow> s \<noteq> t"
proof -
  assume "can\<^sup>+\<^sup>+ s t"
  then have "rank s < rank t"
    by (induction rule: tranclp_induct) (auto dest: can_rank)
  then show ?thesis by auto
qed

lemma terminal_final: "terminal s \<Longrightarrow> can\<^sup>*\<^sup>* s t \<Longrightarrow> t = s"
  by (metis converse_rtranclpE terminal_known terminal_stuck)

lemma terminal_reachable:
  assumes "known s"
  shows "\<exists>t. can\<^sup>*\<^sup>* s t \<and> terminal t"
  using assms
proof (induction "height - rank s" arbitrary: s rule: less_induct)
  case less
  show ?case
  proof (cases "terminal s")
    case True
    then show ?thesis by blast
  next
    case False
    with less.prems obtain t where t: "can s t" using terminal_stuck by blast
    then have "known t" "rank s < rank t" using can_known can_rank by blast+
    moreover from this have "height - rank t < height - rank s"
      using rank_height [of t] by linarith
    ultimately obtain u where "can\<^sup>*\<^sup>* t u" "terminal u" using less.hyps by blast
    with t show ?thesis by (meson converse_rtranclp_into_rtranclp)
  qed
qed

end

subsection \<open>The four graphs\<close>

definition account_Terminal :: "AccountStatus \<Rightarrow> bool" where
  "account_Terminal s \<longleftrightarrow> s = AccountDeactivated \<or> s = AccountRevoked"

fun account_rank :: "AccountStatus \<Rightarrow> nat" where
  "account_rank AccountValid = 0"
| "account_rank _ = 1"

fun order_rank :: "OrderStatus \<Rightarrow> nat" where
  "order_rank OrderPending = 0"
| "order_rank OrderReady = 1"
| "order_rank OrderProcessing = 2"
| "order_rank _ = 3"

fun authz_rank :: "AuthorizationStatus \<Rightarrow> nat" where
  "authz_rank AuthorizationPending = 0"
| "authz_rank AuthorizationValid = 1"
| "authz_rank _ = 2"

fun challenge_rank :: "ChallengeStatus \<Rightarrow> nat" where
  "challenge_rank ChallengePending = 0"
| "challenge_rank ChallengeProcessing = 1"
| "challenge_rank _ = 2"

interpretation account_graph:
  status_graph account_Known account_Terminal account_CanTransition account_rank 1
proof
  show "account_Known s \<Longrightarrow> account_Terminal s \<longleftrightarrow> (\<forall>t. \<not> account_CanTransition s t)" for s
    by (cases s) (auto simp: account_Terminal_def account_CanTransition_def)
  show "account_Known s \<Longrightarrow> account_rank s \<le> 1" for s
    by (cases s) auto
qed (auto simp: account_CanTransition_def account_Terminal_def)

interpretation order_graph:
  status_graph order_Known order_Terminal order_CanTransition order_rank 3
proof
  show "order_CanTransition s t \<Longrightarrow> order_Known s \<and> order_Known t" for s t
    by (cases s) auto
  show "order_Terminal s \<Longrightarrow> order_Known s" for s
    by (auto simp: order_Terminal_def)
  show "order_Known s \<Longrightarrow> order_Terminal s \<longleftrightarrow> (\<forall>t. \<not> order_CanTransition s t)" for s
    by (cases s) (auto simp: order_Terminal_def)
  show "order_CanTransition s t \<Longrightarrow> order_rank s < order_rank t" for s t
    by (cases s) auto
  show "order_Known s \<Longrightarrow> order_rank s \<le> 3" for s
    by (cases s) auto
qed

interpretation authz_graph:
  status_graph authz_Known authz_Terminal authz_CanTransition authz_rank 2
proof
  show "authz_CanTransition s t \<Longrightarrow> authz_Known s \<and> authz_Known t" for s t
    by (cases s) auto
  show "authz_Terminal s \<Longrightarrow> authz_Known s" for s
    by (auto simp: authz_Terminal_def)
  show "authz_Known s \<Longrightarrow> authz_Terminal s \<longleftrightarrow> (\<forall>t. \<not> authz_CanTransition s t)" for s
    by (cases s) (auto simp: authz_Terminal_def)
  show "authz_CanTransition s t \<Longrightarrow> authz_rank s < authz_rank t" for s t
    by (cases s) auto
  show "authz_Known s \<Longrightarrow> authz_rank s \<le> 2" for s
    by (cases s) auto
qed

interpretation challenge_graph:
  status_graph challenge_Known challenge_Terminal challenge_CanTransition challenge_rank 2
proof
  show "challenge_CanTransition s t \<Longrightarrow> challenge_Known s \<and> challenge_Known t" for s t
    by (cases s) auto
  show "challenge_Terminal s \<Longrightarrow> challenge_Known s" for s
    by (auto simp: challenge_Terminal_def)
  show "challenge_Known s \<Longrightarrow> challenge_Terminal s \<longleftrightarrow> (\<forall>t. \<not> challenge_CanTransition s t)" for s
    by (cases s) (auto simp: challenge_Terminal_def)
  show "challenge_CanTransition s t \<Longrightarrow> challenge_rank s < challenge_rank t" for s t
    by (cases s) auto
  show "challenge_Known s \<Longrightarrow> challenge_rank s \<le> 2" for s
    by (cases s) auto
qed

end
