(* ===== verification/Acme_Problem.thy ===== *)
theory Acme_Problem
  imports Acme_Prelude
begin

section \<open>Identifiers, problem documents and errors\<close>

text \<open>
  The data of \<^verbatim>\<open>identifier.go\<close> and the whole of \<^verbatim>\<open>problem.go\<close>: ACME error types with their HTTP
  statuses, problem documents, their JSON members, and the Go error values the server passes around
  with the three questions it asks of an error chain (\<^verbatim>\<open>errors.Is\<close>, \<^verbatim>\<open>AsProblem\<close> and the search for a
  \<^verbatim>\<open>RetryableError\<close>).  Shown: every problem is written with a status, reading back a written problem
  gives the same problem, and a problem in the chain of an error always wins over a retry.
\<close>

subsection \<open>Identifiers\<close>

text \<open>An identifier type is a string in Go; the last constructor stands for every other string.\<close>

datatype IdentifierType =
    IdentifierDNS | IdentifierIP | IdentifierTNAuthList | IdentifierNfInstanceID | IdentifierURI
  | IdentifierTypeOther string

fun identifier_type_string :: "IdentifierType \<Rightarrow> string" where
  "identifier_type_string IdentifierDNS = ''dns''"
| "identifier_type_string IdentifierIP = ''ip''"
| "identifier_type_string IdentifierTNAuthList = ''TNAuthList''"
| "identifier_type_string IdentifierNfInstanceID = ''NfInstanceId''"
| "identifier_type_string IdentifierURI = ''uri''"
| "identifier_type_string (IdentifierTypeOther s) = s"

record Identifier =
  id_Type :: IdentifierType
  id_Value :: string

definition mk_id :: "IdentifierType \<Rightarrow> string \<Rightarrow> Identifier" where
  "mk_id t v = \<lparr>id_Type = t, id_Value = v\<rparr>"

lemma mk_id_sel [simp]: "id_Type (mk_id t v) = t" "id_Value (mk_id t v) = v"
  by (simp_all add: mk_id_def)

lemma mk_id_eq [simp]: "mk_id t v = mk_id t' v' \<longleftrightarrow> t = t' \<and> v = v'"
  by (simp add: mk_id_def)

definition identifier_String :: "Identifier \<Rightarrow> string" where
  "identifier_String i = identifier_type_string (id_Type i) @ '':'' @ id_Value i"

definition IsWildcard :: "Identifier \<Rightarrow> bool" where
  "IsWildcard i \<longleftrightarrow> id_Type i = IdentifierDNS \<and> has_prefix (id_Value i) ''*.''"

subsection \<open>Error types\<close>

datatype ErrorType =
     ErrorAccountDoesNotExist | ErrorAlreadyReplaced | ErrorAlreadyRevoked | ErrorBadCSR
   | ErrorBadNonce | ErrorBadPublicKey | ErrorBadRevocationReason | ErrorBadSignatureAlgorithm
   | ErrorCAA | ErrorCompound | ErrorConnection | ErrorDNS | ErrorDNSSEC
   | ErrorExternalAccountRequired | ErrorIncorrectResponse | ErrorInvalidContact
   | ErrorInvalidProfile | ErrorMalformed | ErrorOrderNotReady | ErrorRateLimited
   | ErrorRejectedIdentifier | ErrorServerInternal | ErrorTLS | ErrorUnauthorized
   | ErrorUnsupportedContact | ErrorUnsupportedIdentifier | ErrorUserActionRequired
  | ErrorTypeOther string

fun error_type_string :: "ErrorType \<Rightarrow> string" where
  "error_type_string ErrorAccountDoesNotExist = ''accountDoesNotExist''"
| "error_type_string ErrorAlreadyReplaced = ''alreadyReplaced''"
| "error_type_string ErrorAlreadyRevoked = ''alreadyRevoked''"
| "error_type_string ErrorBadCSR = ''badCSR''"
| "error_type_string ErrorBadNonce = ''badNonce''"
| "error_type_string ErrorBadPublicKey = ''badPublicKey''"
| "error_type_string ErrorBadRevocationReason = ''badRevocationReason''"
| "error_type_string ErrorBadSignatureAlgorithm = ''badSignatureAlgorithm''"
| "error_type_string ErrorCAA = ''caa''"
| "error_type_string ErrorCompound = ''compound''"
| "error_type_string ErrorConnection = ''connection''"
| "error_type_string ErrorDNS = ''dns''"
| "error_type_string ErrorDNSSEC = ''dnssec''"
| "error_type_string ErrorExternalAccountRequired = ''externalAccountRequired''"
| "error_type_string ErrorIncorrectResponse = ''incorrectResponse''"
| "error_type_string ErrorInvalidContact = ''invalidContact''"
| "error_type_string ErrorInvalidProfile = ''invalidProfile''"
| "error_type_string ErrorMalformed = ''malformed''"
| "error_type_string ErrorOrderNotReady = ''orderNotReady''"
| "error_type_string ErrorRateLimited = ''rateLimited''"
| "error_type_string ErrorRejectedIdentifier = ''rejectedIdentifier''"
| "error_type_string ErrorServerInternal = ''serverInternal''"
| "error_type_string ErrorTLS = ''tls''"
| "error_type_string ErrorUnauthorized = ''unauthorized''"
| "error_type_string ErrorUnsupportedContact = ''unsupportedContact''"
| "error_type_string ErrorUnsupportedIdentifier = ''unsupportedIdentifier''"
| "error_type_string ErrorUserActionRequired = ''userActionRequired''"
| "error_type_string (ErrorTypeOther s) = s"

definition error_type_table :: "(string \<times> ErrorType) list" where
  "error_type_table = map (\<lambda>t. (error_type_string t, t))
    [ErrorAccountDoesNotExist, ErrorAlreadyReplaced, ErrorAlreadyRevoked,
     ErrorBadCSR, ErrorBadNonce, ErrorBadPublicKey,
     ErrorBadRevocationReason, ErrorBadSignatureAlgorithm, ErrorCAA,
     ErrorCompound, ErrorConnection, ErrorDNS,
     ErrorDNSSEC, ErrorExternalAccountRequired, ErrorIncorrectResponse,
     ErrorInvalidContact, ErrorInvalidProfile, ErrorMalformed,
     ErrorOrderNotReady, ErrorRateLimited, ErrorRejectedIdentifier,
     ErrorServerInternal, ErrorTLS, ErrorUnauthorized,
     ErrorUnsupportedContact, ErrorUnsupportedIdentifier, ErrorUserActionRequired]"

text \<open>The conversion \<^verbatim>\<open>ErrorType(s)\<close> of a string.\<close>

definition error_type_of_string :: "string \<Rightarrow> ErrorType" where
  "error_type_of_string s =
     (case map_of error_type_table s of Some t \<Rightarrow> t | None \<Rightarrow> ErrorTypeOther s)"

definition ProblemNamespace :: string where
  "ProblemNamespace = ''urn:ietf:params:acme:error:''"

definition URN :: "ErrorType \<Rightarrow> string" where
  "URN t = ProblemNamespace @ error_type_string t"

text \<open>The table of default HTTP statuses.\<close>

fun defaultStatus :: "ErrorType \<Rightarrow> int option" where
  "defaultStatus ErrorAccountDoesNotExist = Some 400"
| "defaultStatus ErrorAlreadyReplaced = Some 409"
| "defaultStatus ErrorAlreadyRevoked = Some 400"
| "defaultStatus ErrorBadCSR = Some 400"
| "defaultStatus ErrorBadNonce = Some 400"
| "defaultStatus ErrorBadPublicKey = Some 400"
| "defaultStatus ErrorBadRevocationReason = Some 400"
| "defaultStatus ErrorBadSignatureAlgorithm = Some 400"
| "defaultStatus ErrorCAA = Some 403"
| "defaultStatus ErrorCompound = Some 400"
| "defaultStatus ErrorConnection = Some 400"
| "defaultStatus ErrorDNS = Some 400"
| "defaultStatus ErrorDNSSEC = Some 400"
| "defaultStatus ErrorExternalAccountRequired = Some 403"
| "defaultStatus ErrorIncorrectResponse = Some 400"
| "defaultStatus ErrorInvalidContact = Some 400"
| "defaultStatus ErrorInvalidProfile = Some 400"
| "defaultStatus ErrorMalformed = Some 400"
| "defaultStatus ErrorOrderNotReady = Some 403"
| "defaultStatus ErrorRateLimited = Some 429"
| "defaultStatus ErrorRejectedIdentifier = Some 400"
| "defaultStatus ErrorServerInternal = Some 500"
| "defaultStatus ErrorTLS = Some 400"
| "defaultStatus ErrorUnauthorized = Some 403"
| "defaultStatus ErrorUnsupportedContact = Some 400"
| "defaultStatus ErrorUnsupportedIdentifier = Some 400"
| "defaultStatus ErrorUserActionRequired = Some 403"
| "defaultStatus (ErrorTypeOther _) = None"

subsection \<open>Problems\<close>

text \<open>
  The struct \<^verbatim>\<open>Problem\<close>.  The members are, in order: type, detail, HTTP status override, identifier,
  subproblems (a slice of pointers, each possibly nil), algorithms, and the retry delay.
\<close>

datatype Problem = Problem
  (p_Type: ErrorType) (p_Detail: string) (p_Status: int) (p_Identifier: "Identifier option")
  (p_Subproblems: "Problem option list") (p_Algorithms: "string list") (p_RetryAfter: duration)

definition NewProblem :: "ErrorType \<Rightarrow> string \<Rightarrow> Problem" where
  "NewProblem t detail = Problem t detail 0 None [] [] 0"

definition Compound :: "string \<Rightarrow> Problem option list \<Rightarrow> Problem" where
  "Compound detail subproblems = Problem ErrorCompound detail 0 None subproblems [] 0"

definition problem_Error :: "Problem \<Rightarrow> string" where
  "problem_Error p =
     (if p_Detail p = [] then URN (p_Type p) else URN (p_Type p) @ '': '' @ p_Detail p)"

definition HTTPStatus :: "Problem \<Rightarrow> int" where
  "HTTPStatus p =
     (if p_Status p \<noteq> 0 then p_Status p
      else case defaultStatus (p_Type p) of Some status \<Rightarrow> status | None \<Rightarrow> 500)"

fun WithStatus :: "Problem \<Rightarrow> int \<Rightarrow> Problem" where
  "WithStatus (Problem t d s i sub alg r) status = Problem t d status i sub alg r"

fun WithIdentifier :: "Problem \<Rightarrow> Identifier \<Rightarrow> Problem" where
  "WithIdentifier (Problem t d s i sub alg r) ident = Problem t d s (Some ident) sub alg r"

fun WithRetryAfter :: "Problem \<Rightarrow> duration \<Rightarrow> Problem" where
  "WithRetryAfter (Problem t d s i sub alg r) delay = Problem t d s i sub alg delay"

fun WithAlgorithms :: "Problem \<Rightarrow> string list \<Rightarrow> Problem" where
  "WithAlgorithms (Problem t d s i sub alg r) algs = Problem t d s i sub algs r"

lemma NewProblem_sel [simp]:
  "p_Type (NewProblem t d) = t" "p_Detail (NewProblem t d) = d" "p_Status (NewProblem t d) = 0"
  "p_Subproblems (NewProblem t d) = []" "p_RetryAfter (NewProblem t d) = 0"
  by (simp_all add: NewProblem_def)

lemma With_Type [simp]:
  "p_Type (WithStatus p s) = p_Type p" "p_Type (WithIdentifier p i) = p_Type p"
  "p_Type (WithRetryAfter p r) = p_Type p" "p_Type (WithAlgorithms p a) = p_Type p"
  by (cases p, simp)+

lemma WithStatus_Status [simp]: "p_Status (WithStatus p s) = s"
  by (cases p) simp

lemma HTTPStatus_range:
  assumes "p_Status p = 0 \<or> 400 \<le> p_Status p \<and> p_Status p < 600"
  shows "400 \<le> HTTPStatus p \<and> HTTPStatus p < 600"
  using assms by (cases "p_Type p") (auto simp: HTTPStatus_def)

subsection \<open>The JSON members of a problem document\<close>

text \<open>
  The members of \<^verbatim>\<open>problemJSON\<close> and \<^verbatim>\<open>subproblemJSON\<close>: type, detail, status, identifier, subproblems and
  algorithms.  A member that \<^verbatim>\<open>omitempty\<close> leaves out is read back as its zero value, so an absent
  member and a zero one are the same value here.
\<close>

datatype problem_json = problem_json
  (j_type: string) (j_detail: string) (j_status: int) (j_identifier: "Identifier option")
  (j_subproblems: "problem_json option list") (j_algorithms: "string list")

definition subproblem_json :: "Problem \<Rightarrow> problem_json" where
  "subproblem_json sub = problem_json (URN (p_Type sub)) (p_Detail sub) 0 (p_Identifier sub) [] []"

definition MarshalJSON :: "Problem \<Rightarrow> problem_json" where
  "MarshalJSON p =
     problem_json (URN (p_Type p)) (p_Detail p) (HTTPStatus p) (p_Identifier p)
       (map Some (map subproblem_json (List.map_filter id (p_Subproblems p)))) (p_Algorithms p)"

primrec UnmarshalJSON :: "problem_json \<Rightarrow> Problem" where
  "UnmarshalJSON (problem_json t d s i subs algs) =
     Problem (error_type_of_string (trim_prefix t ProblemNamespace)) d s i
       (map (map_option UnmarshalJSON) subs) algs 0"

lemma trim_URN [simp]: "trim_prefix (URN t) ProblemNamespace = error_type_string t"
  by (simp add: URN_def)

definition proper_type :: "ErrorType \<Rightarrow> bool" where
  "proper_type t \<longleftrightarrow> error_type_of_string (error_type_string t) = t"

lemma proper_type_known: "defaultStatus t \<noteq> None \<Longrightarrow> proper_type t"
  by (cases t) (simp_all add: proper_type_def error_type_of_string_def error_type_table_def)

lemma Unmarshal_subproblem:
  "proper_type (p_Type sub) \<Longrightarrow>
   UnmarshalJSON (subproblem_json sub) =
     Problem (p_Type sub) (p_Detail sub) 0 (p_Identifier sub) [] [] 0"
  by (simp add: subproblem_json_def proper_type_def)

text \<open>What a client can read back from a written problem.\<close>

definition visible_problem :: "Problem \<Rightarrow> Problem" where
  "visible_problem p =
     Problem (p_Type p) (p_Detail p) (HTTPStatus p) (p_Identifier p)
       (map (\<lambda>sub. Some (Problem (p_Type sub) (p_Detail sub) 0 (p_Identifier sub) [] [] 0))
         (List.map_filter id (p_Subproblems p))) (p_Algorithms p) 0"

lemma Unmarshal_Marshal:
  assumes "proper_type (p_Type p)"
    and "\<And>sub. Some sub \<in> set (p_Subproblems p) \<Longrightarrow> proper_type (p_Type sub)"
  shows "UnmarshalJSON (MarshalJSON p) = visible_problem p"
proof -
  have "\<And>sub. sub \<in> set (List.map_filter id (p_Subproblems p)) \<Longrightarrow> proper_type (p_Type sub)"
    using assms(2) by (auto simp: List.map_filter_def)
  with assms(1) show ?thesis
    by (auto simp: MarshalJSON_def visible_problem_def proper_type_def Unmarshal_subproblem)
qed

subsection \<open>Errors\<close>

text \<open>
  The error values the code distinguishes: the four sentinel errors of \<^verbatim>\<open>store.go\<close>, a plain message, a
  \<^verbatim>\<open>*Problem\<close>, a \<^verbatim>\<open>*RetryableError\<close> with its problem and cause (either possibly nil) and a message
  wrapping another error with \<^verbatim>\<open>%w\<close>.
\<close>

datatype error =
    ErrNotFound | ErrConflict | ErrRevisionMismatch | ErrAlreadyReplaced
  | ErrorNew string
  | ErrProblem Problem
  | ErrRetryable "Problem option" "error option"
  | ErrWrap string error

text \<open>\<^verbatim>\<open>errors.Is\<close> for a sentinel.\<close>

fun errors_Is :: "error \<Rightarrow> error \<Rightarrow> bool" where
  "errors_Is (ErrRetryable p (Some e)) target =
     (ErrRetryable p (Some e) = target \<or> errors_Is e target)"
| "errors_Is (ErrWrap m e) target = (ErrWrap m e = target \<or> errors_Is e target)"
| "errors_Is e target = (e = target)"

fun AsProblem :: "error \<Rightarrow> Problem option" where
  "AsProblem (ErrProblem p) = Some p"
| "AsProblem (ErrRetryable _ (Some e)) = AsProblem e"
| "AsProblem (ErrRetryable _ None) = None"
| "AsProblem (ErrWrap _ e) = AsProblem e"
| "AsProblem _ = None"

text \<open>The first \<^verbatim>\<open>*RetryableError\<close> of a chain, as its problem.\<close>

fun AsRetryable :: "error \<Rightarrow> Problem option option" where
  "AsRetryable (ErrRetryable p _) = Some p"
| "AsRetryable (ErrWrap _ e) = AsRetryable e"
| "AsRetryable _ = None"

text \<open>\<^verbatim>\<open>Retryable\<close> of \<^verbatim>\<open>problem.go\<close>.\<close>

definition Retryable :: "Problem \<Rightarrow> error \<Rightarrow> error" where
  "Retryable p e = ErrRetryable (Some p) (Some e)"

fun retryable_Unwrap :: "error \<Rightarrow> error option" where
  "retryable_Unwrap (ErrRetryable _ e) = e"
| "retryable_Unwrap _ = None"

text \<open>
  \<^verbatim>\<open>retryProblem\<close> of \<^verbatim>\<open>worker.go\<close>: the problem a client sees for a failure that may clear on a later
  attempt.
\<close>

definition retryProblem :: "error \<Rightarrow> string \<Rightarrow> Problem" where
  "retryProblem err fallback =
     (case AsRetryable err of
        Some (Some p) \<Rightarrow> p
      | _ \<Rightarrow> NewProblem ErrorServerInternal fallback)"

text \<open>
  \<^verbatim>\<open>hostProblem\<close> of \<^verbatim>\<open>account.go\<close>: the problem for an error of a host interface, without its log line.
\<close>

definition hostProblem :: "error option \<Rightarrow> string \<Rightarrow> Problem option" where
  "hostProblem err what =
     (case err of
        None \<Rightarrow> None
      | Some e \<Rightarrow>
          (case AsProblem e of
             Some p \<Rightarrow> Some p
           | None \<Rightarrow> Some (NewProblem ErrorServerInternal (what @ '' failed''))))"

text \<open>\<^verbatim>\<open>notFound\<close> of \<^verbatim>\<open>server.go\<close> and \<^verbatim>\<open>storeProblem\<close> of \<^verbatim>\<open>wire.go\<close>.\<close>

definition notFound :: Problem where
  "notFound = WithStatus (NewProblem ErrorMalformed ''unknown resource'') 404"

definition storeProblem :: "error \<Rightarrow> string \<Rightarrow> Problem" where
  "storeProblem err resource =
     (if errors_Is err ErrNotFound then notFound
      else NewProblem ErrorServerInternal (resource @ '' lookup failed''))"

text \<open>\<^verbatim>\<open>InvalidAuthorizationProblem\<close> of \<^verbatim>\<open>store.go\<close>.\<close>

definition InvalidAuthorizationProblem :: Problem where
  "InvalidAuthorizationProblem =
     NewProblem ErrorUnauthorized ''an order authorization is no longer valid''"

lemma AsProblem_Retryable [simp]: "AsProblem (Retryable p e) = AsProblem e"
  by (simp add: Retryable_def)

lemma errors_Is_refl [simp]: "errors_Is e e"
  by (cases e rule: AsProblem.cases) auto

lemma sentinel_not_problem:
  assumes "errors_Is e t" and "t \<in> {ErrNotFound, ErrConflict, ErrRevisionMismatch, ErrAlreadyReplaced}"
  shows "AsProblem e = None"
  using assms by (induction e t rule: errors_Is.induct) auto

lemma retryProblem_type:
  "p_Type (retryProblem e d) = ErrorServerInternal \<or> AsRetryable e = Some (Some (retryProblem e d))"
  by (auto simp: retryProblem_def split: option.splits)

end
