(* ===== verification/Acme_Resource.thy ===== *)
theory Acme_Resource
  imports Acme_Status Acme_Problem
begin

section \<open>Stored resources\<close>

text \<open>
  The structs of \<^verbatim>\<open>resource.go\<close>, \<^verbatim>\<open>work.go\<close> and the request and result structs of \<^verbatim>\<open>issuer.go\<close>, with the
  methods that derive the status a client sees (\<^verbatim>\<open>StatusAt\<close>, \<^verbatim>\<open>effectiveAuthzStatus\<close>) and the views of
  \<^verbatim>\<open>wire.go\<close>.  Pointers to structs that may be nil are options; the zero time is \<open>0\<close>.  Revisions, fences
  and the task sequence are \<^verbatim>\<open>uint64\<close> counters that only ever grow by one; they are \<open>nat\<close>, that is, the
  model does not reach the \<open>2^64\<close>-th update of one resource.
\<close>

subsection \<open>Structs\<close>

datatype ChallengeType =
    ChallengeHTTP01 | ChallengeDNS01 | ChallengeTLSALPN01 | ChallengeTKAuth01
  | ChallengeTypeOther string

fun challenge_type_string :: "ChallengeType \<Rightarrow> string" where
  "challenge_type_string ChallengeHTTP01 = ''http-01''"
| "challenge_type_string ChallengeDNS01 = ''dns-01''"
| "challenge_type_string ChallengeTLSALPN01 = ''tls-alpn-01''"
| "challenge_type_string ChallengeTKAuth01 = ''tkauth-01''"
| "challenge_type_string (ChallengeTypeOther s) = s"

text \<open>The public keys the server accepts for accounts; any other Go key is the last constructor.\<close>

datatype curve = P256 | P384 | P521

datatype PublicKey =
    ECKey curve bytes bytes
  | RSAKey nat nat
  | Ed25519Key bytes
  | OtherKey bytes

record Account =
  acc_ID :: string
  acc_Status :: AccountStatus
  acc_Key :: PublicKey
  acc_KeyThumbprint :: string
  acc_Contact :: "string list"
  acc_TermsOfServiceAgreed :: bool
  acc_ExternalAccountID :: string
  acc_ExternalAccountClaim :: string
  acc_CreatedAt :: time
  acc_Revision :: nat

text \<open>How one identifier of an order was validated.\<close>

record Validation =
  v_Identifier :: Identifier
  v_Type :: "ChallengeType option"
  v_Validated :: time
  v_CACertificate :: bool
  v_GrantExpires :: time
  v_Names :: "Identifier list"
  v_NFType :: string
  v_PreApproved :: bool

record IssuanceState =
  is_OperationID :: string
  is_AuthorizedAt :: time
  is_Deadline :: time
  is_Validations :: "Validation list"

record IssueResult =
  ir_Chain :: "bytes list"
  ir_CAReference :: string
  ir_Pending :: bool
  ir_RetryAfter :: duration
  ir_Rejected :: "Problem option"

record Order =
  ord_ID :: string
  ord_AccountID :: string
  ord_Status :: OrderStatus
  ord_Expires :: time
  ord_Identifiers :: "Identifier list"
  ord_NotBefore :: time
  ord_NotAfter :: time
  ord_AuthorizationIDs :: "string list"
  ord_Error :: "Problem option"
  ord_CSR :: bytes
  ord_CertificateID :: string
  ord_Issuance :: "IssuanceState option"
  ord_UnpublishedResult :: "IssueResult option"
  ord_Replaces :: string
  ord_Profile :: string
  ord_CreatedAt :: time
  ord_Revision :: nat

record Authorization =
  az_ID :: string
  az_AccountID :: string
  az_OrderID :: string
  az_Identifier :: Identifier
  az_Status :: AuthorizationStatus
  az_Expires :: time
  az_Wildcard :: bool
  az_ChallengeIDs :: "string list"
  az_CACertificate :: bool
  az_GrantExpires :: time
  az_GrantNames :: "Identifier list"
  az_GrantNFType :: string
  az_PreApproved :: bool
  az_CreatedAt :: time
  az_Revision :: nat

record Challenge =
  ch_ID :: string
  ch_AuthorizationID :: string
  ch_AccountID :: string
  ch_Type :: ChallengeType
  ch_Status :: ChallengeStatus
  ch_Token :: string
  ch_AuthorityToken :: string
  ch_KeyThumbprint :: string
  ch_Validated :: time
  ch_Error :: "Problem option"
  ch_Revision :: nat

record Certificate =
  crt_ID :: string
  crt_AccountID :: string
  crt_OrderID :: string
  crt_CAReference :: string
  crt_Chain :: "bytes list"
  crt_NotBefore :: time
  crt_NotAfter :: time
  crt_Revoked :: bool
  crt_RevokedAt :: time
  crt_RevocationReason :: int
  crt_RevocationOperationID :: string
  crt_RevocationRequestedAt :: time
  crt_RenewalID :: string
  crt_ReplacedByOrderID :: string
  crt_Validations :: "Validation list"
  crt_CreatedAt :: time
  crt_Revision :: nat

datatype TaskKind = TaskValidate | TaskIssue | TaskKindOther string

record Task =
  tsk_ID :: string
  tsk_Kind :: TaskKind
  tsk_TargetID :: string
  tsk_AccountID :: string
  tsk_RunAt :: time
  tsk_Attempts :: int
  tsk_LeaseUntil :: time
  tsk_Fence :: nat
  tsk_CreatedAt :: time

subsection \<open>Statuses at an instant\<close>

text \<open>\<^verbatim>\<open>Order.StatusAt\<close>, which \<^verbatim>\<open>effectiveOrderStatus\<close> of \<^verbatim>\<open>wire.go\<close> calls.\<close>

definition StatusAt :: "Order \<Rightarrow> time \<Rightarrow> OrderStatus" where
  "StatusAt o1 now =
     (if (ord_Status o1 = OrderPending \<or> ord_Status o1 = OrderReady) \<and> \<not> After (ord_Expires o1) now
      then OrderInvalid else ord_Status o1)"

definition effectiveAuthzStatus :: "Authorization \<Rightarrow> time \<Rightarrow> AuthorizationStatus" where
  "effectiveAuthzStatus a now =
     (if (az_Status a = AuthorizationPending \<or> az_Status a = AuthorizationValid) \<and>
         \<not> After (az_Expires a) now
      then AuthorizationExpired else az_Status a)"

definition orderIdentifier :: "Authorization \<Rightarrow> Identifier" where
  "orderIdentifier a =
     (if az_Wildcard a then (az_Identifier a)\<lparr>id_Value := ''*.'' @ id_Value (az_Identifier a)\<rparr>
      else az_Identifier a)"

text \<open>A status seen by a client is the stored one or one transition further on.\<close>

lemma StatusAt_step: "StatusAt o1 now = ord_Status o1 \<or>
    order_CanTransition (ord_Status o1) (StatusAt o1 now)"
  by (auto simp: StatusAt_def)

lemma effectiveAuthzStatus_step: "effectiveAuthzStatus a now = az_Status a \<or>
    authz_CanTransition (az_Status a) (effectiveAuthzStatus a now)"
  by (auto simp: effectiveAuthzStatus_def)

lemma effective_valid_iff:
  "effectiveAuthzStatus a now = AuthorizationValid \<longleftrightarrow>
     az_Status a = AuthorizationValid \<and> After (az_Expires a) now"
  by (auto simp: effectiveAuthzStatus_def)

lemma effective_pending_iff:
  "effectiveAuthzStatus a now = AuthorizationPending \<longleftrightarrow>
     az_Status a = AuthorizationPending \<and> After (az_Expires a) now"
  by (auto simp: effectiveAuthzStatus_def)

lemma effective_mono:
  assumes "effectiveAuthzStatus a now \<in> {AuthorizationPending, AuthorizationValid}" "t \<le> now"
  shows "effectiveAuthzStatus a t = effectiveAuthzStatus a now"
  using assms by (auto simp: effectiveAuthzStatus_def split: if_splits)

subsection \<open>Views\<close>

text \<open>
  The JSON objects of \<^verbatim>\<open>wire.go\<close>.  A timestamp is the instant itself (\<open>0\<close> when the member is
  omitted); a resource link is the base URL followed by the path of the resource.
\<close>

record accountJSON =
  aj_Status :: AccountStatus
  aj_Contact :: "string list"
  aj_TermsOfServiceAgreed :: bool
  aj_Orders :: string

record orderJSON =
  oj_Status :: OrderStatus
  oj_Expires :: time
  oj_Identifiers :: "Identifier list"
  oj_NotBefore :: time
  oj_NotAfter :: time
  oj_Error :: "Problem option"
  oj_Authorizations :: "string list"
  oj_Finalize :: string
  oj_Certificate :: string
  oj_Replaces :: string
  oj_Profile :: string

record challengeJSON =
  cj_Type :: ChallengeType
  cj_URL :: string
  cj_Status :: ChallengeStatus
  cj_Token :: string
  cj_TKAuthType :: string
  cj_TokenAuthority :: string
  cj_Validated :: time
  cj_Error :: "Problem option"

record authorizationJSON =
  zj_Identifier :: Identifier
  zj_Status :: AuthorizationStatus
  zj_Expires :: time
  zj_Challenges :: "challengeJSON list"
  zj_Wildcard :: bool

definition TKAuthTypeATC :: string where
  "TKAuthTypeATC = ''atc''"

definition accountURL :: "string \<Rightarrow> string \<Rightarrow> string" where
  "accountURL baseURL i = baseURL @ ''acct/'' @ i"

definition accountView :: "string \<Rightarrow> Account \<Rightarrow> accountJSON" where
  "accountView baseURL a =
     \<lparr>aj_Status = acc_Status a, aj_Contact = acc_Contact a,
      aj_TermsOfServiceAgreed = acc_TermsOfServiceAgreed a,
      aj_Orders = accountURL baseURL (acc_ID a) @ ''/orders''\<rparr>"

definition orderView :: "string \<Rightarrow> Order \<Rightarrow> time \<Rightarrow> orderJSON" where
  "orderView baseURL o1 now =
     (let status = StatusAt o1 now in
      \<lparr>oj_Status = status, oj_Expires = ord_Expires o1, oj_Identifiers = ord_Identifiers o1,
       oj_NotBefore = ord_NotBefore o1, oj_NotAfter = ord_NotAfter o1, oj_Error = ord_Error o1,
       oj_Authorizations = map (\<lambda>i. baseURL @ ''authz/'' @ i) (ord_AuthorizationIDs o1),
       oj_Finalize = baseURL @ ''order/'' @ ord_ID o1 @ ''/finalize'',
       oj_Certificate =
         (if ord_CertificateID o1 \<noteq> [] \<and> status = OrderValid
          then baseURL @ ''cert/'' @ ord_CertificateID o1 else []),
       oj_Replaces = ord_Replaces o1, oj_Profile = ord_Profile o1\<rparr>)"

definition challengeView :: "string \<Rightarrow> string \<Rightarrow> Challenge \<Rightarrow> challengeJSON" where
  "challengeView baseURL tokenAuthority c =
     \<lparr>cj_Type = ch_Type c, cj_URL = baseURL @ ''chall/'' @ ch_ID c, cj_Status = ch_Status c,
      cj_Token = ch_Token c,
      cj_TKAuthType = (if ch_Type c = ChallengeTKAuth01 then TKAuthTypeATC else []),
      cj_TokenAuthority = (if ch_Type c = ChallengeTKAuth01 then tokenAuthority else []),
      cj_Validated = ch_Validated c, cj_Error = ch_Error c\<rparr>"

definition authorizationView ::
    "string \<Rightarrow> string \<Rightarrow> Authorization \<Rightarrow> Challenge list \<Rightarrow> time \<Rightarrow> authorizationJSON" where
  "authorizationView baseURL tokenAuthority a challenges now =
     (let status = effectiveAuthzStatus a now in
      \<lparr>zj_Identifier = az_Identifier a, zj_Status = status, zj_Expires = az_Expires a,
       zj_Challenges =
         map (challengeView baseURL tokenAuthority)
           (filter (\<lambda>c. \<not> (status = AuthorizationValid \<and> ch_Status c \<noteq> ChallengeValid)) challenges),
       zj_Wildcard = az_Wildcard a\<rparr>)"

text \<open>A certificate link is shown only on a valid order, and a valid authorization shows only the
  challenges that validated it.\<close>

lemma orderView_certificate:
  "oj_Certificate (orderView b o1 now) \<noteq> [] \<Longrightarrow>
     ord_Status o1 = OrderValid \<and> ord_CertificateID o1 \<noteq> []"
  by (auto simp: orderView_def Let_def StatusAt_def split: if_splits)

lemma authorizationView_valid:
  assumes "zj_Status (authorizationView b t a cs now) = AuthorizationValid"
    and "c \<in> set (zj_Challenges (authorizationView b t a cs now))"
  shows "cj_Status c = ChallengeValid"
  using assms by (auto simp: authorizationView_def challengeView_def Let_def)

end
