(* ===== verification/Memstore.thy ===== *)
theory Memstore
  imports Acme_Resource
begin

section \<open>The in-memory store\<close>

text \<open>
  \<^verbatim>\<open>memstore/memstore.go\<close>, operation by operation.  The struct \<^verbatim>\<open>Store\<close> is the record \<open>Store\<close>; a Go map that
  is only looked up is a partial function, the map of tasks is an association list because
  \<^verbatim>\<open>ClaimTask\<close> and the counters range over it (in an order Go does not fix, here the order of the list).
  Each operation runs under the store's mutex and is one function from a store to a result
  and a new store.  An operation that writes the revision back into its argument returns the updated
  argument (\<^verbatim>\<open>CompleteIssuance\<close> also sets the revision of the caller's certificate, which no caller reads).
  The argument \<open>ctx\<close> of every operation is the result of \<^verbatim>\<open>ctx.Err()\<close>; dereferencing a nil
  entry of an index, which panics in Go, is the error \<open>nil_dereference\<close>.
\<close>

record Store =
  st_accounts :: "string \<rightharpoonup> Account"
  st_accountByKey :: "string \<rightharpoonup> string"
  st_accountByClaim :: "string \<rightharpoonup> string"
  st_orders :: "string \<rightharpoonup> Order"
  st_orderIDs :: "string \<Rightarrow> string list"
  st_authzs :: "string \<rightharpoonup> Authorization"
  st_authzIndex :: "string \<times> Identifier \<Rightarrow> string list"
  st_challenges :: "string \<rightharpoonup> Challenge"
  st_certificates :: "string \<rightharpoonup> Certificate"
  st_certByRenewal :: "string \<rightharpoonup> string"
  st_tasks :: "(string \<times> Task) list"
  st_taskSequence :: nat
  st_taskInsertion :: "string \<rightharpoonup> nat"

definition nil_dereference :: error where
  "nil_dereference = ErrorNew ''invalid memory address or nil pointer dereference''"

definition empty_store :: Store where
  "empty_store =
     \<lparr>st_accounts = Map.empty, st_accountByKey = Map.empty, st_accountByClaim = Map.empty,
      st_orders = Map.empty, st_orderIDs = (\<lambda>_. []), st_authzs = Map.empty,
      st_authzIndex = (\<lambda>_. []), st_challenges = Map.empty, st_certificates = Map.empty,
      st_certByRenewal = Map.empty, st_tasks = [], st_taskSequence = 0,
      st_taskInsertion = Map.empty\<rparr>"

text \<open>The first statement of every operation.\<close>

definition with_ctx :: "error option \<Rightarrow> error + 'a \<Rightarrow> error + 'a" where
  "with_ctx ctx r = (case ctx of Some e \<Rightarrow> Inl e | None \<Rightarrow> r)"

subsection \<open>Copies\<close>

text \<open>
  Every value that enters or leaves the store is copied deeply, so that a caller cannot change stored
  state through a shared pointer.  On values the copies are identities (\<open>clone_id\<close>), which is what lets
  the model pass values instead of addresses.
\<close>

definition clonePublicKey :: "PublicKey \<Rightarrow> PublicKey" where
  "clonePublicKey key =
     (case key of
        ECKey c x y \<Rightarrow> ECKey c x y
      | RSAKey n e \<Rightarrow> RSAKey n e
      | Ed25519Key k \<Rightarrow> Ed25519Key k
      | OtherKey k \<Rightarrow> OtherKey k)"

fun cloneProblem :: "Problem \<Rightarrow> Problem" where
  "cloneProblem (Problem t d st i subs algs r) =
     Problem t d st i (map (map_option cloneProblem) subs) algs r"

definition cloneValidations :: "Validation list \<Rightarrow> Validation list" where
  "cloneValidations validations = map (\<lambda>v. v\<lparr>v_Names := v_Names v\<rparr>) validations"

definition cloneChain :: "bytes list \<Rightarrow> bytes list" where
  "cloneChain chain = map (\<lambda>der. der) chain"

definition cloneAccount :: "Account \<Rightarrow> Account" where
  "cloneAccount a = a\<lparr>acc_Contact := acc_Contact a, acc_Key := clonePublicKey (acc_Key a)\<rparr>"

definition cloneOrder :: "Order \<Rightarrow> Order" where
  "cloneOrder o1 =
     o1\<lparr>ord_Error := map_option cloneProblem (ord_Error o1),
        ord_Issuance := map_option
          (\<lambda>state. state\<lparr>is_Validations := cloneValidations (is_Validations state)\<rparr>) (ord_Issuance o1),
        ord_UnpublishedResult := map_option
          (\<lambda>r. r\<lparr>ir_Chain := cloneChain (ir_Chain r),
                 ir_Rejected := map_option cloneProblem (ir_Rejected r)\<rparr>) (ord_UnpublishedResult o1)\<rparr>"

definition cloneAuthorization :: "Authorization \<Rightarrow> Authorization" where
  "cloneAuthorization a =
     a\<lparr>az_ChallengeIDs := az_ChallengeIDs a, az_GrantNames := az_GrantNames a\<rparr>"

definition cloneChallenge :: "Challenge \<Rightarrow> Challenge" where
  "cloneChallenge c = c\<lparr>ch_Error := map_option cloneProblem (ch_Error c)\<rparr>"

definition cloneCertificate :: "Certificate \<Rightarrow> Certificate" where
  "cloneCertificate c =
     c\<lparr>crt_Chain := cloneChain (crt_Chain c), crt_Validations := cloneValidations (crt_Validations c)\<rparr>"

definition cloneTask :: "Task \<Rightarrow> Task" where
  "cloneTask t = t"

lemma cloneProblem_id [simp]: "cloneProblem p = p"
proof (induction p)
  case (Problem t d st i subs algs r)
  have "map_option cloneProblem q = q" if "q \<in> set subs" for q
    using Problem [OF that] by (cases q) simp_all
  then show ?case
    by (simp add: map_idI)
qed

lemma clone_parts [simp]:
  "clonePublicKey k = k" "cloneValidations vs = vs" "cloneChain ch = ch"
  by (simp_all add: clonePublicKey_def cloneValidations_def cloneChain_def split: PublicKey.split)

lemma map_option_same [simp]: "map_option (\<lambda>x. x) v = v"
  by (cases v) simp_all

lemma cloneProblem_fun: "cloneProblem = (\<lambda>p. p)"
  by (rule ext) simp

lemma clone_id [simp]:
  "cloneAccount a = a" "cloneOrder o1 = o1" "cloneAuthorization z = z" "cloneChallenge c = c"
  "cloneCertificate crt = crt" "cloneTask t = t"
  by (simp_all add: cloneAccount_def cloneOrder_def cloneAuthorization_def cloneChallenge_def
      cloneCertificate_def cloneTask_def cloneProblem_fun)

subsection \<open>Accounts\<close>

definition CreateAccount :: "error option \<Rightarrow> Account \<Rightarrow> Store \<Rightarrow> error + Account \<times> Store" where
  "CreateAccount ctx account s = with_ctx ctx
     (if acc_ID account = [] \<or> acc_KeyThumbprint account = []
      then Inl (ErrorNew ''memstore: account needs an ID and a key thumbprint'')
      else if st_accounts s (acc_ID account) \<noteq> None then Inl ErrConflict
      else if st_accountByKey s (acc_KeyThumbprint account) \<noteq> None then Inl ErrConflict
      else if st_accountByClaim s (acc_ExternalAccountClaim account) \<noteq> None \<and>
              acc_ExternalAccountClaim account \<noteq> [] then Inl ErrConflict
      else
        let account' = account\<lparr>acc_Revision := 1\<rparr>;
            s' = s\<lparr>st_accounts := (st_accounts s)(acc_ID account \<mapsto> cloneAccount account'),
                   st_accountByKey := (st_accountByKey s)(acc_KeyThumbprint account \<mapsto> acc_ID account)\<rparr>
        in Inr (account',
             if acc_ExternalAccountClaim account \<noteq> []
             then s'\<lparr>st_accountByClaim :=
                      (st_accountByClaim s)(acc_ExternalAccountClaim account \<mapsto> acc_ID account)\<rparr>
             else s'))"

definition get_Account :: "error option \<Rightarrow> string \<Rightarrow> Store \<Rightarrow> error + Account" where
  "get_Account ctx i s = with_ctx ctx
     (case st_accounts s i of None \<Rightarrow> Inl ErrNotFound | Some account \<Rightarrow> Inr (cloneAccount account))"

definition AccountByKey :: "error option \<Rightarrow> string \<Rightarrow> Store \<Rightarrow> error + Account" where
  "AccountByKey ctx thumbprint s = with_ctx ctx
     (case st_accountByKey s thumbprint of
        None \<Rightarrow> Inl ErrNotFound
      | Some i \<Rightarrow>
          (case st_accounts s i of None \<Rightarrow> Inl nil_dereference | Some account \<Rightarrow> Inr (cloneAccount account)))"

definition UpdateAccount :: "error option \<Rightarrow> Account \<Rightarrow> Store \<Rightarrow> error + Account \<times> Store" where
  "UpdateAccount ctx account s = with_ctx ctx
     (if acc_KeyThumbprint account = []
      then Inl (ErrorNew ''memstore: account needs a key thumbprint'')
      else case st_accounts s (acc_ID account) of
        None \<Rightarrow> Inl ErrNotFound
      | Some stored \<Rightarrow>
          if acc_Revision stored \<noteq> acc_Revision account then Inl ErrRevisionMismatch
          else if acc_KeyThumbprint account \<noteq> acc_KeyThumbprint stored \<and>
                  (\<exists>owner \<in> set_option (st_accountByKey s (acc_KeyThumbprint account)).
                     owner \<noteq> acc_ID account)
          then Inl ErrConflict
          else if acc_ExternalAccountClaim account \<noteq> acc_ExternalAccountClaim stored \<and>
                  acc_ExternalAccountClaim account \<noteq> [] \<and>
                  (\<exists>owner \<in> set_option (st_accountByClaim s (acc_ExternalAccountClaim account)).
                     owner \<noteq> acc_ID account)
          then Inl ErrConflict
          else
            let byKey = ((st_accountByKey s)(acc_KeyThumbprint stored := None))
                          (acc_KeyThumbprint account \<mapsto> acc_ID account);
                byClaim = (st_accountByClaim s)(acc_ExternalAccountClaim stored := None);
                byClaim' = (if acc_ExternalAccountClaim account \<noteq> []
                            then byClaim(acc_ExternalAccountClaim account \<mapsto> acc_ID account)
                            else byClaim);
                account' = account\<lparr>acc_Revision := acc_Revision account + 1\<rparr>
            in Inr (account',
                 s\<lparr>st_accounts := (st_accounts s)(acc_ID account \<mapsto> cloneAccount account'),
                   st_accountByKey := byKey, st_accountByClaim := byClaim'\<rparr>))"

subsection \<open>Revision and fence checks\<close>

definition checkOrder :: "Order \<Rightarrow> Store \<Rightarrow> error + unit" where
  "checkOrder order s =
     (case st_orders s (ord_ID order) of
        None \<Rightarrow> Inl ErrNotFound
      | Some stored \<Rightarrow>
          if ord_Revision stored \<noteq> ord_Revision order then Inl ErrRevisionMismatch else Inr ())"

definition checkAuthorization :: "Authorization \<Rightarrow> Store \<Rightarrow> error + unit" where
  "checkAuthorization authz s =
     (case st_authzs s (az_ID authz) of
        None \<Rightarrow> Inl ErrNotFound
      | Some stored \<Rightarrow>
          if az_Revision stored \<noteq> az_Revision authz then Inl ErrRevisionMismatch else Inr ())"

definition checkChallenge :: "Challenge \<Rightarrow> Store \<Rightarrow> error + unit" where
  "checkChallenge challenge s =
     (case st_challenges s (ch_ID challenge) of
        None \<Rightarrow> Inl ErrNotFound
      | Some stored \<Rightarrow>
          if ch_Revision stored \<noteq> ch_Revision challenge then Inl ErrRevisionMismatch else Inr ())"

definition checkNewTask :: "Task \<Rightarrow> Store \<Rightarrow> error + unit" where
  "checkNewTask task s =
     (if tsk_ID task = [] then Inl (ErrorNew ''memstore: task needs an ID'')
      else if map_of (st_tasks s) (tsk_ID task) \<noteq> None then Inl ErrConflict
      else Inr ())"

definition checkTask :: "Task \<Rightarrow> Store \<Rightarrow> error + Task" where
  "checkTask task s =
     (case map_of (st_tasks s) (tsk_ID task) of
        None \<Rightarrow> Inl ErrNotFound
      | Some stored \<Rightarrow>
          if tsk_Fence stored \<noteq> tsk_Fence task then Inl ErrRevisionMismatch else Inr stored)"

definition insertTask :: "Task \<Rightarrow> Store \<Rightarrow> Task \<times> Store" where
  "insertTask task s =
     (let task' = task\<lparr>tsk_Fence := 0, tsk_Attempts := 0, tsk_LeaseUntil := 0\<rparr>;
          sequence = st_taskSequence s + 1
      in (task',
          s\<lparr>st_taskSequence := sequence,
            st_taskInsertion := (st_taskInsertion s)(tsk_ID task \<mapsto> sequence),
            st_tasks := alist_put (tsk_ID task) (cloneTask task') (st_tasks s)\<rparr>))"

definition removeTask :: "string \<Rightarrow> Store \<Rightarrow> Store" where
  "removeTask i s =
     s\<lparr>st_tasks := alist_del i (st_tasks s),
       st_taskInsertion := (st_taskInsertion s)(i := None)\<rparr>"

text \<open>Writing an updated resource back under the next revision.\<close>

definition bump_order :: "Order \<Rightarrow> Order" where
  "bump_order o1 = o1\<lparr>ord_Revision := ord_Revision o1 + 1\<rparr>"

definition bump_authz :: "Authorization \<Rightarrow> Authorization" where
  "bump_authz a = a\<lparr>az_Revision := az_Revision a + 1\<rparr>"

definition bump_challenge :: "Challenge \<Rightarrow> Challenge" where
  "bump_challenge c = c\<lparr>ch_Revision := ch_Revision c + 1\<rparr>"

definition put_order :: "Order \<Rightarrow> Store \<Rightarrow> Store" where
  "put_order o1 s = s\<lparr>st_orders := (st_orders s)(ord_ID o1 \<mapsto> cloneOrder o1)\<rparr>"

definition put_authz :: "Authorization \<Rightarrow> Store \<Rightarrow> Store" where
  "put_authz a s = s\<lparr>st_authzs := (st_authzs s)(az_ID a \<mapsto> cloneAuthorization a)\<rparr>"

definition put_challenge :: "Challenge \<Rightarrow> Store \<Rightarrow> Store" where
  "put_challenge c s = s\<lparr>st_challenges := (st_challenges s)(ch_ID c \<mapsto> cloneChallenge c)\<rparr>"

definition put_task :: "Task \<Rightarrow> Store \<Rightarrow> Store" where
  "put_task t s = s\<lparr>st_tasks := alist_put (tsk_ID t) t (st_tasks s)\<rparr>"

subsection \<open>Orders\<close>

definition authorizationIndexKey :: "Authorization \<Rightarrow> string \<times> Identifier" where
  "authorizationIndexKey a =
     (az_AccountID a,
      if az_Wildcard a then (az_Identifier a)\<lparr>id_Value := ''*.'' @ id_Value (az_Identifier a)\<rparr>
      else az_Identifier a)"

definition claimReplacement :: "Order \<Rightarrow> Store \<Rightarrow> error + Store" where
  "claimReplacement order s =
     (case st_certByRenewal s (ord_Replaces order) of
        None \<Rightarrow> Inl ErrNotFound
      | Some i \<Rightarrow>
          (case st_certificates s i of
             None \<Rightarrow> Inl nil_dereference
           | Some cert \<Rightarrow>
               (case st_orders s (crt_ReplacedByOrderID cert) of
                  Some previous \<Rightarrow>
                    if StatusAt previous (ord_CreatedAt order) \<noteq> OrderInvalid
                    then Inl ErrAlreadyReplaced
                    else Inr (s\<lparr>st_certificates := (st_certificates s)(i \<mapsto>
                           cert\<lparr>crt_ReplacedByOrderID := ord_ID order,
                                crt_Revision := crt_Revision cert + 1\<rparr>)\<rparr>)
                | None \<Rightarrow>
                    Inr (s\<lparr>st_certificates := (st_certificates s)(i \<mapsto>
                           cert\<lparr>crt_ReplacedByOrderID := ord_ID order,
                                crt_Revision := crt_Revision cert + 1\<rparr>)\<rparr>))))"

definition store_new_authz :: "Authorization \<Rightarrow> Store \<Rightarrow> Store" where
  "store_new_authz a s =
     s\<lparr>st_authzs := (st_authzs s)(az_ID a \<mapsto> cloneAuthorization a),
       st_authzIndex := (st_authzIndex s)
         (authorizationIndexKey a := st_authzIndex s (authorizationIndexKey a) @ [az_ID a])\<rparr>"

definition CreateOrder ::
    "error option \<Rightarrow> Order \<Rightarrow> Authorization list \<Rightarrow> Challenge list \<Rightarrow> Store \<Rightarrow>
     error + (Order \<times> Authorization list \<times> Challenge list) \<times> Store" where
  "CreateOrder ctx order authzs challenges s = with_ctx ctx
     (if ord_ID order = [] \<or> ord_AccountID order = []
      then Inl (ErrorNew ''memstore: order needs an ID and an account ID'')
      else if st_orders s (ord_ID order) \<noteq> None then Inl ErrConflict
      else if list_ex (\<lambda>a. st_authzs s (az_ID a) \<noteq> None \<or> az_ID a = []) authzs then Inl ErrConflict
      else if list_ex (\<lambda>c. st_challenges s (ch_ID c) \<noteq> None \<or> ch_ID c = []) challenges
      then Inl ErrConflict
      else and_then (if ord_Replaces order \<noteq> [] then claimReplacement order s else Inr s)
        (\<lambda>s1.
          let order' = order\<lparr>ord_Revision := 1\<rparr>;
              authzs' = map (\<lambda>a. a\<lparr>az_Revision := 1\<rparr>) authzs;
              challenges' = map (\<lambda>c. c\<lparr>ch_Revision := 1\<rparr>) challenges;
              s2 = s1\<lparr>st_orders := (st_orders s1)(ord_ID order \<mapsto> cloneOrder order'),
                      st_orderIDs := (st_orderIDs s1)
                        (ord_AccountID order := st_orderIDs s1 (ord_AccountID order) @ [ord_ID order])\<rparr>;
              s3 = fold store_new_authz authzs' s2;
              s4 = fold put_challenge challenges' s3
          in Inr ((order', authzs', challenges'), s4)))"

definition get_Order :: "error option \<Rightarrow> string \<Rightarrow> Store \<Rightarrow> error + Order" where
  "get_Order ctx i s = with_ctx ctx
     (case st_orders s i of None \<Rightarrow> Inl ErrNotFound | Some order \<Rightarrow> Inr (cloneOrder order))"

text \<open>\<^verbatim>\<open>ids[start:min(start+limit, len(ids))]\<close>, where the addition wraps and a bad bound panics.\<close>

definition slice_limit :: "string list \<Rightarrow> nat \<Rightarrow> int \<Rightarrow> error + string list" where
  "slice_limit ids start limit =
     (let e = min (i64 (int start + limit)) (int (length ids))
      in if e < int start then Inl (ErrorNew ''slice bounds out of range'')
         else Inr (take (nat e - start) (drop start ids)))"

definition OrderIDs ::
    "error option \<Rightarrow> string \<Rightarrow> string \<Rightarrow> int \<Rightarrow> Store \<Rightarrow> error + string list" where
  "OrderIDs ctx accountID after limit s = with_ctx ctx
     (if limit \<le> 0 then Inl (ErrorNew ''memstore: limit must be positive'')
      else
        let ids = st_orderIDs s accountID in
        if after \<noteq> [] then
          (case index_of ids after of
             None \<Rightarrow> Inl ErrNotFound
           | Some pos \<Rightarrow> slice_limit ids (pos + 1) limit)
        else slice_limit ids 0 limit)"

definition get_Authorization :: "error option \<Rightarrow> string \<Rightarrow> Store \<Rightarrow> error + Authorization" where
  "get_Authorization ctx i s = with_ctx ctx
     (case st_authzs s i of None \<Rightarrow> Inl ErrNotFound | Some authz \<Rightarrow> Inr (cloneAuthorization authz))"

definition undispatched :: "Order \<Rightarrow> bool" where
  "undispatched order \<longleftrightarrow>
     ord_Status order = OrderPending \<or> ord_Status order = OrderReady \<or>
     ord_Status order = OrderProcessing \<and> ord_Issuance order = None"

definition UpdateAuthorization ::
    "error option \<Rightarrow> Authorization \<Rightarrow> Store \<Rightarrow> error + Authorization \<times> Store" where
  "UpdateAuthorization ctx authz s = with_ctx ctx
     (and_then (checkAuthorization authz s) (\<lambda>_.
        let authz' = bump_authz authz;
            s1 = put_authz authz' s
        in Inr (authz',
             if authz_Terminal (az_Status authz) then
               (case st_orders s1 (az_OrderID authz) of
                  None \<Rightarrow> s1
                | Some order \<Rightarrow>
                    if undispatched order
                    then s1\<lparr>st_orders := (st_orders s1)(az_OrderID authz \<mapsto>
                           order\<lparr>ord_Status := OrderInvalid,
                                 ord_Error := Some InvalidAuthorizationProblem,
                                 ord_Revision := ord_Revision order + 1\<rparr>)\<rparr>
                    else s1)
             else s1)))"

fun check_snapshot ::
    "IssuanceState \<Rightarrow> Authorization list \<Rightarrow> string list \<Rightarrow> Store \<Rightarrow> error + unit" where
  "check_snapshot state [] ids s = Inr ()"
| "check_snapshot state (a # authzs) [] s = Inl nil_dereference"
| "check_snapshot state (a # authzs) (i # ids) s =
     and_then (checkAuthorization a s) (\<lambda>_.
       if az_ID a \<noteq> i \<or> az_Status a \<noteq> AuthorizationValid \<or>
          \<not> After (az_Expires a) (is_AuthorizedAt state)
       then Inl ErrRevisionMismatch
       else check_snapshot state authzs ids s)"

definition BeginIssuance ::
    "error option \<Rightarrow> Task \<Rightarrow> Order \<Rightarrow> Account \<Rightarrow> Authorization list \<Rightarrow> Store \<Rightarrow> error + Order \<times> Store" where
  "BeginIssuance ctx task order account authzs s = with_ctx ctx
     (and_then (checkTask task s) (\<lambda>_.
      and_then (checkOrder order s) (\<lambda>_.
        case (st_accounts s (acc_ID account), ord_Issuance order, st_orders s (ord_ID order)) of
          (Some stored, Some state, Some current) \<Rightarrow>
            if acc_Revision stored \<noteq> acc_Revision account \<or> acc_Status stored \<noteq> AccountValid
            then Inl ErrRevisionMismatch
            else if ord_Status current \<noteq> OrderProcessing \<or> ord_Issuance current \<noteq> None \<or>
                    length authzs \<noteq> length (ord_AuthorizationIDs order)
            then Inl ErrRevisionMismatch
            else and_then (check_snapshot state authzs (ord_AuthorizationIDs order) s) (\<lambda>_.
              let order' = bump_order order in Inr (order', put_order order' s))
        | _ \<Rightarrow> Inl ErrRevisionMismatch)))"

fun authorized_by :: "string list \<Rightarrow> time \<Rightarrow> Store \<Rightarrow> error + bool" where
  "authorized_by [] now s = Inr False"
| "authorized_by (i # ids) now s =
     (case st_authzs s i of
        None \<Rightarrow> Inl nil_dereference
      | Some a \<Rightarrow>
          if az_Status a = AuthorizationValid \<and> \<not> az_PreApproved a \<and> After (az_Expires a) now
          then Inr True else authorized_by ids now s)"

fun authorized_all :: "string \<Rightarrow> Identifier list \<Rightarrow> time \<Rightarrow> Store \<Rightarrow> error + bool" where
  "authorized_all accountID [] now s = Inr True"
| "authorized_all accountID (identifier # rest) now s =
     and_then (authorized_by (st_authzIndex s (accountID, identifier)) now s) (\<lambda>valid.
       if \<not> valid then Inr False else authorized_all accountID rest now s)"

definition AuthorizedFor ::
    "error option \<Rightarrow> string \<Rightarrow> Identifier list \<Rightarrow> time \<Rightarrow> Store \<Rightarrow> error + bool" where
  "AuthorizedFor ctx accountID identifiers now s = with_ctx ctx
     (case st_accounts s accountID of
        None \<Rightarrow> Inr False
      | Some account \<Rightarrow>
          if acc_Status account \<noteq> AccountValid \<or> identifiers = [] then Inr False
          else authorized_all accountID identifiers now s)"

definition get_Challenge :: "error option \<Rightarrow> string \<Rightarrow> Store \<Rightarrow> error + Challenge" where
  "get_Challenge ctx i s = with_ctx ctx
     (case st_challenges s i of None \<Rightarrow> Inl ErrNotFound | Some challenge \<Rightarrow> Inr (cloneChallenge challenge))"

subsection \<open>Certificates\<close>

definition get_Certificate :: "error option \<Rightarrow> string \<Rightarrow> Store \<Rightarrow> error + Certificate" where
  "get_Certificate ctx i s = with_ctx ctx
     (case st_certificates s i of None \<Rightarrow> Inl ErrNotFound | Some cert \<Rightarrow> Inr (cloneCertificate cert))"

definition CertificateByRenewalID :: "error option \<Rightarrow> string \<Rightarrow> Store \<Rightarrow> error + Certificate" where
  "CertificateByRenewalID ctx renewal s = with_ctx ctx
     (case st_certByRenewal s renewal of
        None \<Rightarrow> Inl ErrNotFound
      | Some i \<Rightarrow>
          if renewal = [] then Inl ErrNotFound
          else (case st_certificates s i of None \<Rightarrow> Inl nil_dereference | Some cert \<Rightarrow> Inr (cloneCertificate cert)))"

definition UpdateCertificate ::
    "error option \<Rightarrow> Certificate \<Rightarrow> Store \<Rightarrow> error + Certificate \<times> Store" where
  "UpdateCertificate ctx cert s = with_ctx ctx
     (case st_certificates s (crt_ID cert) of
        None \<Rightarrow> Inl ErrNotFound
      | Some stored \<Rightarrow>
          if crt_Revision stored \<noteq> crt_Revision cert then Inl ErrRevisionMismatch
          else
            let cert' = cert\<lparr>crt_Revision := crt_Revision cert + 1\<rparr>
            in Inr (cert', s\<lparr>st_certificates := (st_certificates s)(crt_ID cert \<mapsto> cloneCertificate cert')\<rparr>))"

subsection \<open>Work\<close>

definition AcceptChallenge ::
    "error option \<Rightarrow> Challenge \<Rightarrow> Task \<Rightarrow> Store \<Rightarrow> error + (Challenge \<times> Task) \<times> Store" where
  "AcceptChallenge ctx challenge task s = with_ctx ctx
     (and_then (checkChallenge challenge s) (\<lambda>_.
      and_then (checkNewTask task s) (\<lambda>_.
        let challenge' = bump_challenge challenge;
            (task', s') = insertTask task (put_challenge challenge' s)
        in Inr ((challenge', task'), s'))))"

definition FinalizeOrder ::
    "error option \<Rightarrow> Order \<Rightarrow> Task \<Rightarrow> Store \<Rightarrow> error + (Order \<times> Task) \<times> Store" where
  "FinalizeOrder ctx order task s = with_ctx ctx
     (and_then (checkOrder order s) (\<lambda>_.
      and_then (checkNewTask task s) (\<lambda>_.
        let order' = bump_order order;
            (task', s') = insertTask task (put_order order' s)
        in Inr ((order', task'), s'))))"

definition runnable :: "time \<Rightarrow> Task \<Rightarrow> bool" where
  "runnable now t \<longleftrightarrow>
     \<not> (After (tsk_RunAt t) now \<or> (\<not> IsZero (tsk_LeaseUntil t) \<and> After (tsk_LeaseUntil t) now))"

definition insertion :: "Store \<Rightarrow> string \<Rightarrow> nat" where
  "insertion s i = (case st_taskInsertion s i of Some n \<Rightarrow> n | None \<Rightarrow> 0)"

definition task_before :: "Store \<Rightarrow> Task \<Rightarrow> Task \<Rightarrow> bool" where
  "task_before s t best \<longleftrightarrow>
     Before (tsk_RunAt t) (tsk_RunAt best) \<or>
     tsk_RunAt t = tsk_RunAt best \<and> insertion s (tsk_ID t) < insertion s (tsk_ID best)"

fun best_task :: "Store \<Rightarrow> time \<Rightarrow> Task option \<Rightarrow> Task list \<Rightarrow> Task option" where
  "best_task s now best [] = best"
| "best_task s now best (t # ts) =
     (if \<not> runnable now t then best_task s now best ts
      else case best of
             None \<Rightarrow> best_task s now (Some t) ts
           | Some b \<Rightarrow> best_task s now (if task_before s t b then Some t else best) ts)"

definition ClaimTask ::
    "error option \<Rightarrow> time \<Rightarrow> time \<Rightarrow> Store \<Rightarrow> error + Task \<times> Store" where
  "ClaimTask ctx now leaseUntil s = with_ctx ctx
     (case best_task s now None (map snd (st_tasks s)) of
        None \<Rightarrow> Inl ErrNotFound
      | Some best \<Rightarrow>
          let best' = best\<lparr>tsk_LeaseUntil := leaseUntil, tsk_Fence := tsk_Fence best + 1,
                           tsk_Attempts := tsk_Attempts best + 1\<rparr>
          in Inr (cloneTask best', put_task best' s))"

definition release_task :: "Task \<Rightarrow> Task \<Rightarrow> Task" where
  "release_task task stored = stored\<lparr>tsk_RunAt := tsk_RunAt task, tsk_LeaseUntil := 0\<rparr>"

definition RescheduleTask :: "error option \<Rightarrow> Task \<Rightarrow> Store \<Rightarrow> error + Task \<times> Store" where
  "RescheduleTask ctx task s = with_ctx ctx
     (and_then (checkTask task s) (\<lambda>stored.
        Inr (task\<lparr>tsk_LeaseUntil := 0\<rparr>, put_task (release_task task stored) s)))"

definition RetryValidation ::
    "error option \<Rightarrow> Task \<Rightarrow> Challenge \<Rightarrow> Store \<Rightarrow> error + (Task \<times> Challenge) \<times> Store" where
  "RetryValidation ctx task challenge s = with_ctx ctx
     (and_then (checkTask task s) (\<lambda>stored.
      and_then (checkChallenge challenge s) (\<lambda>_.
        let challenge' = bump_challenge challenge
        in Inr ((task\<lparr>tsk_LeaseUntil := 0\<rparr>, challenge'),
                put_task (release_task task stored) (put_challenge challenge' s)))))"

definition FinishTask :: "error option \<Rightarrow> Task \<Rightarrow> Store \<Rightarrow> error + unit \<times> Store" where
  "FinishTask ctx task s = with_ctx ctx
     (and_then (checkTask task s) (\<lambda>_. Inr ((), removeTask (tsk_ID task) s)))"

definition CompleteValidation ::
    "error option \<Rightarrow> Task \<Rightarrow> Challenge \<Rightarrow> Authorization \<Rightarrow> Order \<Rightarrow> Store \<Rightarrow>
     error + (Challenge \<times> Authorization \<times> Order) \<times> Store" where
  "CompleteValidation ctx task challenge authz order s = with_ctx ctx
     (and_then (checkTask task s) (\<lambda>_.
      and_then (checkChallenge challenge s) (\<lambda>_.
      and_then (checkAuthorization authz s) (\<lambda>_.
      and_then (checkOrder order s) (\<lambda>_.
        let challenge' = bump_challenge challenge;
            authz' = bump_authz authz;
            order' = bump_order order
        in Inr ((challenge', authz', order'),
                removeTask (tsk_ID task)
                  (put_order order' (put_authz authz' (put_challenge challenge' s)))))))))"

definition store_certificate :: "Certificate \<Rightarrow> Store \<Rightarrow> error + Store" where
  "store_certificate cert s =
     (if crt_ID cert = [] then Inl (ErrorNew ''memstore: certificate needs an ID'')
      else if st_certificates s (crt_ID cert) \<noteq> None then Inl ErrConflict
      else if st_certByRenewal s (crt_RenewalID cert) \<noteq> None \<and> crt_RenewalID cert \<noteq> []
      then Inl ErrConflict
      else
        let cert' = cert\<lparr>crt_Revision := 1\<rparr>;
            s' = s\<lparr>st_certificates := (st_certificates s)(crt_ID cert \<mapsto> cloneCertificate cert')\<rparr>
        in Inr (if crt_RenewalID cert \<noteq> []
                then s'\<lparr>st_certByRenewal := (st_certByRenewal s)(crt_RenewalID cert \<mapsto> crt_ID cert)\<rparr>
                else s'))"

definition CompleteIssuance ::
    "error option \<Rightarrow> Task \<Rightarrow> Order \<Rightarrow> Certificate option \<Rightarrow> Store \<Rightarrow> error + Order \<times> Store" where
  "CompleteIssuance ctx task order cert s = with_ctx ctx
     (and_then (checkTask task s) (\<lambda>_.
      and_then (checkOrder order s) (\<lambda>_.
      and_then (case cert of None \<Rightarrow> Inr s | Some c \<Rightarrow> store_certificate c s) (\<lambda>s1.
        let order' = bump_order order
        in Inr (order', removeTask (tsk_ID task) (put_order order' s1))))))"

definition PendingTasks :: "error option \<Rightarrow> time \<Rightarrow> Store \<Rightarrow> error + nat" where
  "PendingTasks ctx before s = with_ctx ctx
     (Inr (length (filter (\<lambda>t. \<not> After (tsk_RunAt t) before \<and>
         (IsZero (tsk_LeaseUntil t) \<or> \<not> After (tsk_LeaseUntil t) before)) (map snd (st_tasks s)))))"

definition LeasedTasks :: "error option \<Rightarrow> time \<Rightarrow> Store \<Rightarrow> error + nat" where
  "LeasedTasks ctx now s = with_ctx ctx
     (Inr (length (filter (\<lambda>t. After (tsk_LeaseUntil t) now) (map snd (st_tasks s)))))"

definition AccountValidations :: "error option \<Rightarrow> string \<Rightarrow> Store \<Rightarrow> error + nat" where
  "AccountValidations ctx accountID s = with_ctx ctx
     (Inr (length (filter (\<lambda>t. tsk_Kind t = TaskValidate \<and> tsk_AccountID t = accountID)
         (map snd (st_tasks s)))))"

end
