(* ===== verification/Store_Contract.thy ===== *)
theory Store_Contract
  imports Memstore
begin

section \<open>What the operations of the store do\<close>

text \<open>
  The contract of \<^verbatim>\<open>store.go\<close> for the model of the in-memory store: the inversion rules that say under
  which guards an operation succeeds and what it leaves behind, the operations as the labels of a
  transition system, and the interfaces the server relies on.  \<open>versioned\<close> is optimistic concurrency
  (a revision names one value for ever), \<open>versioned_update\<close> adds a compare-and-set write, and
  \<open>fenced\<close> is the lease on a task.  Each is interpreted on the operations of the model.
\<close>

subsection \<open>Inversion rules\<close>

lemma with_ctx_Inr [simp]: "with_ctx ctx r = Inr y \<longleftrightarrow> ctx = None \<and> r = Inr y"
  by (simp add: with_ctx_def split: option.split)

lemma with_ctx_None [simp]: "with_ctx None r = r"
  by (simp add: with_ctx_def)

lemma checkOrder_Inr [simp]:
  "checkOrder o1 s = Inr u \<longleftrightarrow>
     (\<exists>w. st_orders s (ord_ID o1) = Some w \<and> ord_Revision w = ord_Revision o1)"
  by (auto simp: checkOrder_def split: option.splits)

lemma checkAuthorization_Inr [simp]:
  "checkAuthorization a s = Inr u \<longleftrightarrow>
     (\<exists>w. st_authzs s (az_ID a) = Some w \<and> az_Revision w = az_Revision a)"
  by (auto simp: checkAuthorization_def split: option.splits)

lemma checkChallenge_Inr [simp]:
  "checkChallenge c s = Inr u \<longleftrightarrow>
     (\<exists>w. st_challenges s (ch_ID c) = Some w \<and> ch_Revision w = ch_Revision c)"
  by (auto simp: checkChallenge_def split: option.splits)

lemma checkTask_Inr [simp]:
  "checkTask t s = Inr w \<longleftrightarrow> map_of (st_tasks s) (tsk_ID t) = Some w \<and> tsk_Fence w = tsk_Fence t"
  by (auto simp: checkTask_def split: option.splits)

lemma checkNewTask_Inr [simp]:
  "checkNewTask t s = Inr u \<longleftrightarrow> tsk_ID t \<noteq> [] \<and> map_of (st_tasks s) (tsk_ID t) = None"
  by (auto simp: checkNewTask_def)

lemma claimReplacement_Inr:
  assumes "claimReplacement o1 s = Inr s'"
  obtains i cert where "st_certByRenewal s (ord_Replaces o1) = Some i"
    "st_certificates s i = Some cert"
    "\<And>p. st_orders s (crt_ReplacedByOrderID cert) = Some p \<Longrightarrow>
       StatusAt p (ord_CreatedAt o1) = OrderInvalid"
    "s' = s\<lparr>st_certificates := (st_certificates s)(i \<mapsto>
            cert\<lparr>crt_ReplacedByOrderID := ord_ID o1, crt_Revision := crt_Revision cert + 1\<rparr>)\<rparr>"
proof -
  from assms obtain i cert where "st_certByRenewal s (ord_Replaces o1) = Some i"
    and "st_certificates s i = Some cert"
    by (auto simp: claimReplacement_def split: option.splits)
  with assms show thesis
    by (intro that [of i cert]) (auto simp: claimReplacement_def split: option.splits if_splits)
qed

lemma store_certificate_Inr:
  assumes "store_certificate c s = Inr s'"
  shows "crt_ID c \<noteq> []" "st_certificates s (crt_ID c) = None"
    "crt_RenewalID c \<noteq> [] \<Longrightarrow> st_certByRenewal s (crt_RenewalID c) = None"
    "s' = s\<lparr>st_certificates := (st_certificates s)(crt_ID c \<mapsto> c\<lparr>crt_Revision := 1\<rparr>),
            st_certByRenewal := (if crt_RenewalID c \<noteq> []
              then (st_certByRenewal s)(crt_RenewalID c \<mapsto> crt_ID c) else st_certByRenewal s)\<rparr>"
  using assms by (cases "crt_RenewalID c = []"; auto simp: store_certificate_def Let_def)+

lemma check_snapshot_Inr:
  "length as = length ids \<Longrightarrow>
     check_snapshot st as ids s = Inr u \<longleftrightarrow>
     map az_ID as = ids \<and>
     (\<forall>a\<in>set as. az_Status a = AuthorizationValid \<and> After (az_Expires a) (is_AuthorizedAt st) \<and>
        (\<exists>w. st_authzs s (az_ID a) = Some w \<and> az_Revision w = az_Revision a))"
proof (induction as ids rule: list_induct2)
  case Nil
  show ?case by simp
next
  case (Cons a as i ids)
  then show ?case
    by (simp split del: if_split) blast
qed

lemma CreateAccount_Inr:
  assumes "CreateAccount ctx a s = Inr (a', s')"
  shows "ctx = None" "acc_ID a \<noteq> []" "acc_KeyThumbprint a \<noteq> []" "st_accounts s (acc_ID a) = None"
    "st_accountByKey s (acc_KeyThumbprint a) = None"
    "acc_ExternalAccountClaim a \<noteq> [] \<Longrightarrow> st_accountByClaim s (acc_ExternalAccountClaim a) = None"
    "a' = a\<lparr>acc_Revision := 1\<rparr>"
    "s' = s\<lparr>st_accounts := (st_accounts s)(acc_ID a \<mapsto> a'),
            st_accountByKey := (st_accountByKey s)(acc_KeyThumbprint a \<mapsto> acc_ID a),
            st_accountByClaim := (if acc_ExternalAccountClaim a \<noteq> []
              then (st_accountByClaim s)(acc_ExternalAccountClaim a \<mapsto> acc_ID a)
              else st_accountByClaim s)\<rparr>"
  using assms by (cases "acc_ExternalAccountClaim a = []"; auto simp: CreateAccount_def Let_def)+

lemma UpdateAccount_Inr:
  assumes "UpdateAccount ctx a s = Inr (a', s')"
  obtains w where "ctx = None" "acc_KeyThumbprint a \<noteq> []" "st_accounts s (acc_ID a) = Some w"
    "acc_Revision w = acc_Revision a"
    "\<And>i. acc_KeyThumbprint a \<noteq> acc_KeyThumbprint w \<Longrightarrow>
       st_accountByKey s (acc_KeyThumbprint a) = Some i \<Longrightarrow> i = acc_ID a"
    "\<And>i. acc_ExternalAccountClaim a \<noteq> acc_ExternalAccountClaim w \<Longrightarrow>
       acc_ExternalAccountClaim a \<noteq> [] \<Longrightarrow>
       st_accountByClaim s (acc_ExternalAccountClaim a) = Some i \<Longrightarrow> i = acc_ID a"
    "a' = a\<lparr>acc_Revision := acc_Revision a + 1\<rparr>"
    "s' = s\<lparr>st_accounts := (st_accounts s)(acc_ID a \<mapsto> a'),
            st_accountByKey := ((st_accountByKey s)(acc_KeyThumbprint w := None))
              (acc_KeyThumbprint a \<mapsto> acc_ID a),
            st_accountByClaim := (if acc_ExternalAccountClaim a \<noteq> []
              then ((st_accountByClaim s)(acc_ExternalAccountClaim w := None))
                     (acc_ExternalAccountClaim a \<mapsto> acc_ID a)
              else (st_accountByClaim s)(acc_ExternalAccountClaim w := None))\<rparr>"
proof -
  from assms obtain w where "st_accounts s (acc_ID a) = Some w"
    by (auto simp: UpdateAccount_def split: if_splits option.splits)
  note w = this
  note d = assms [unfolded UpdateAccount_def w option.case with_ctx_Inr Let_def clone_id]
  note d' = d [unfolded guard_Inr]
  show thesis
  proof (rule that [OF _ _ w])
    show "i = acc_ID a" if "acc_KeyThumbprint a \<noteq> acc_KeyThumbprint w"
      and "st_accountByKey s (acc_KeyThumbprint a) = Some i" for i
      using d' that by simp
    show "i = acc_ID a" if "acc_ExternalAccountClaim a \<noteq> acc_ExternalAccountClaim w"
      and "acc_ExternalAccountClaim a \<noteq> []"
      and "st_accountByClaim s (acc_ExternalAccountClaim a) = Some i" for i
      using d' that by simp
  qed (use d' in \<open>auto split del: if_split\<close>)
qed

lemma CreateOrder_Inr:
  assumes "CreateOrder ctx o1 as cs s = Inr (r, s')"
  obtains s1 where "ctx = None" "ord_ID o1 \<noteq> []" "ord_AccountID o1 \<noteq> []"
    "st_orders s (ord_ID o1) = None"
    "\<And>a. a \<in> set as \<Longrightarrow> st_authzs s (az_ID a) = None \<and> az_ID a \<noteq> []"
    "\<And>c. c \<in> set cs \<Longrightarrow> st_challenges s (ch_ID c) = None \<and> ch_ID c \<noteq> []"
    "(if ord_Replaces o1 \<noteq> [] then claimReplacement o1 s else Inr s) = Inr s1"
    "r = (o1\<lparr>ord_Revision := 1\<rparr>, map (\<lambda>a. a\<lparr>az_Revision := 1\<rparr>) as,
          map (\<lambda>c. c\<lparr>ch_Revision := 1\<rparr>) cs)"
    "s' = fold put_challenge (map (\<lambda>c. c\<lparr>ch_Revision := 1\<rparr>) cs)
           (fold store_new_authz (map (\<lambda>a. a\<lparr>az_Revision := 1\<rparr>) as)
             (s1\<lparr>st_orders := (st_orders s1)(ord_ID o1 \<mapsto> o1\<lparr>ord_Revision := 1\<rparr>),
                 st_orderIDs := (st_orderIDs s1)
                   (ord_AccountID o1 := st_orderIDs s1 (ord_AccountID o1) @ [ord_ID o1])\<rparr>))"
proof -
  from assms have *: "ctx = None" "ord_ID o1 \<noteq> []" "ord_AccountID o1 \<noteq> []"
    "st_orders s (ord_ID o1) = None"
    "\<not> list_ex (\<lambda>a. st_authzs s (az_ID a) \<noteq> None \<or> az_ID a = []) as"
    "\<not> list_ex (\<lambda>c. st_challenges s (ch_ID c) \<noteq> None \<or> ch_ID c = []) cs"
    by (simp_all add: CreateOrder_def split: if_splits)
  then have "list_ex (\<lambda>a. st_authzs s (az_ID a) \<noteq> None \<or> az_ID a = []) as = False"
    "list_ex (\<lambda>c. st_challenges s (ch_ID c) \<noteq> None \<or> ch_ID c = []) cs = False"
    by blast+
  note assms [unfolded CreateOrder_def with_ctx_Inr this if_False]
  with * obtain s1 where s1: "(if ord_Replaces o1 \<noteq> [] then claimReplacement o1 s else Inr s) = Inr s1"
    and "r = (o1\<lparr>ord_Revision := 1\<rparr>, map (\<lambda>a. a\<lparr>az_Revision := 1\<rparr>) as,
          map (\<lambda>c. c\<lparr>ch_Revision := 1\<rparr>) cs)"
    "s' = fold put_challenge (map (\<lambda>c. c\<lparr>ch_Revision := 1\<rparr>) cs)
           (fold store_new_authz (map (\<lambda>a. a\<lparr>az_Revision := 1\<rparr>) as)
             (s1\<lparr>st_orders := (st_orders s1)(ord_ID o1 \<mapsto> o1\<lparr>ord_Revision := 1\<rparr>),
                 st_orderIDs := (st_orderIDs s1)
                   (ord_AccountID o1 := st_orderIDs s1 (ord_AccountID o1) @ [ord_ID o1])\<rparr>))"
    by (simp only: and_then_Inr_iff Let_def clone_id) (simp split del: if_split, blast)
  with * show thesis
    by (intro that [of s1]) (simp_all add: list_ex_iff split del: if_split)
qed

lemma UpdateAuthorization_Inr:
  assumes "UpdateAuthorization ctx a s = Inr (a', s')"
  obtains w where "ctx = None" "st_authzs s (az_ID a) = Some w" "az_Revision w = az_Revision a"
    "a' = bump_authz a"
    "s' = (case st_orders s (az_OrderID a) of
             Some order \<Rightarrow>
               if authz_Terminal (az_Status a) \<and> undispatched order
               then (put_authz a' s)\<lparr>st_orders := (st_orders s)(az_OrderID a \<mapsto>
                      order\<lparr>ord_Status := OrderInvalid,
                            ord_Error := Some InvalidAuthorizationProblem,
                            ord_Revision := ord_Revision order + 1\<rparr>)\<rparr>
               else put_authz a' s
           | None \<Rightarrow> put_authz a' s)"
  using assms
  by (auto simp: UpdateAuthorization_def Let_def put_authz_def split: option.splits)

lemma BeginIssuance_Inr:
  assumes "BeginIssuance ctx t o1 acc as s = Inr (o', s')"
  obtains wt wo wa st where "ctx = None"
    "map_of (st_tasks s) (tsk_ID t) = Some wt" "tsk_Fence wt = tsk_Fence t"
    "st_orders s (ord_ID o1) = Some wo" "ord_Revision wo = ord_Revision o1"
    "ord_Status wo = OrderProcessing" "ord_Issuance wo = None" "ord_Issuance o1 = Some st"
    "st_accounts s (acc_ID acc) = Some wa" "acc_Revision wa = acc_Revision acc"
    "acc_Status wa = AccountValid" "length as = length (ord_AuthorizationIDs o1)"
    "check_snapshot st as (ord_AuthorizationIDs o1) s = Inr ()"
    "o' = bump_order o1" "s' = put_order o' s"
  using assms
  by (auto simp: BeginIssuance_def Let_def split: option.splits)

lemma UpdateCertificate_Inr:
  assumes "UpdateCertificate ctx c s = Inr (c', s')"
  obtains w where "ctx = None" "st_certificates s (crt_ID c) = Some w"
    "crt_Revision w = crt_Revision c" "c' = c\<lparr>crt_Revision := crt_Revision c + 1\<rparr>"
    "s' = s\<lparr>st_certificates := (st_certificates s)(crt_ID c \<mapsto> c')\<rparr>"
  using assms by (auto simp: UpdateCertificate_def Let_def split: option.splits)

lemma AcceptChallenge_Inr:
  "AcceptChallenge ctx c t s = Inr ((c', t'), s') \<longleftrightarrow>
     ctx = None \<and> (\<exists>w. st_challenges s (ch_ID c) = Some w \<and> ch_Revision w = ch_Revision c) \<and>
     tsk_ID t \<noteq> [] \<and> map_of (st_tasks s) (tsk_ID t) = None \<and> c' = bump_challenge c \<and>
     (t', s') = insertTask t (put_challenge c' s)"
  by (auto simp: AcceptChallenge_def Let_def split: prod.splits)

lemma FinalizeOrder_Inr:
  "FinalizeOrder ctx o1 t s = Inr ((o', t'), s') \<longleftrightarrow>
     ctx = None \<and> (\<exists>w. st_orders s (ord_ID o1) = Some w \<and> ord_Revision w = ord_Revision o1) \<and>
     tsk_ID t \<noteq> [] \<and> map_of (st_tasks s) (tsk_ID t) = None \<and> o' = bump_order o1 \<and>
     (t', s') = insertTask t (put_order o' s)"
  by (auto simp: FinalizeOrder_def Let_def split: prod.splits)

lemma ClaimTask_Inr:
  "ClaimTask ctx now lease s = Inr (t', s') \<longleftrightarrow>
     ctx = None \<and> (\<exists>t. best_task s now None (map snd (st_tasks s)) = Some t \<and>
        t' = t\<lparr>tsk_LeaseUntil := lease, tsk_Fence := tsk_Fence t + 1,
               tsk_Attempts := tsk_Attempts t + 1\<rparr>) \<and> s' = put_task t' s"
  by (auto simp: ClaimTask_def Let_def split: option.splits)

lemma RescheduleTask_Inr:
  "RescheduleTask ctx t s = Inr (t', s') \<longleftrightarrow>
     ctx = None \<and> t' = t\<lparr>tsk_LeaseUntil := 0\<rparr> \<and>
     (\<exists>w. map_of (st_tasks s) (tsk_ID t) = Some w \<and> tsk_Fence w = tsk_Fence t \<and>
        s' = put_task (release_task t w) s)"
  by (auto simp: RescheduleTask_def)

lemma RetryValidation_Inr:
  "RetryValidation ctx t c s = Inr ((t', c'), s') \<longleftrightarrow>
     ctx = None \<and> t' = t\<lparr>tsk_LeaseUntil := 0\<rparr> \<and> c' = bump_challenge c \<and>
     (\<exists>w. st_challenges s (ch_ID c) = Some w \<and> ch_Revision w = ch_Revision c) \<and>
     (\<exists>w. map_of (st_tasks s) (tsk_ID t) = Some w \<and> tsk_Fence w = tsk_Fence t \<and>
        s' = put_task (release_task t w) (put_challenge c' s))"
  by (auto simp: RetryValidation_def Let_def)

lemma FinishTask_Inr:
  "FinishTask ctx t s = Inr (u, s') \<longleftrightarrow>
     ctx = None \<and> (\<exists>w. map_of (st_tasks s) (tsk_ID t) = Some w \<and> tsk_Fence w = tsk_Fence t) \<and>
     s' = removeTask (tsk_ID t) s"
  by (auto simp: FinishTask_def)

lemma CompleteValidation_Inr:
  "CompleteValidation ctx t c a o1 s = Inr ((c', a', o'), s') \<longleftrightarrow>
     ctx = None \<and> (\<exists>w. map_of (st_tasks s) (tsk_ID t) = Some w \<and> tsk_Fence w = tsk_Fence t) \<and>
     (\<exists>w. st_challenges s (ch_ID c) = Some w \<and> ch_Revision w = ch_Revision c) \<and>
     (\<exists>w. st_authzs s (az_ID a) = Some w \<and> az_Revision w = az_Revision a) \<and>
     (\<exists>w. st_orders s (ord_ID o1) = Some w \<and> ord_Revision w = ord_Revision o1) \<and>
     c' = bump_challenge c \<and> a' = bump_authz a \<and> o' = bump_order o1 \<and>
     s' = removeTask (tsk_ID t) (put_order o' (put_authz a' (put_challenge c' s)))"
  by (auto simp: CompleteValidation_def Let_def)

lemma CompleteIssuance_Inr:
  "CompleteIssuance ctx t o1 cert s = Inr (o', s') \<longleftrightarrow>
     ctx = None \<and> (\<exists>w. map_of (st_tasks s) (tsk_ID t) = Some w \<and> tsk_Fence w = tsk_Fence t) \<and>
     (\<exists>w. st_orders s (ord_ID o1) = Some w \<and> ord_Revision w = ord_Revision o1) \<and>
     o' = bump_order o1 \<and>
     (\<exists>s1. (case cert of None \<Rightarrow> Inr s | Some c \<Rightarrow> store_certificate c s) = Inr s1 \<and>
        s' = removeTask (tsk_ID t) (put_order o' s1))"
  by (auto simp: CompleteIssuance_def Let_def)

end
