(* ===== verification/Store_Invariants.thy ===== *)
theory Store_Invariants
  imports Store_Contract
begin

section \<open>The store as a transition system\<close>

text \<open>
  The operations that write, as the labels of a transition system: \<open>exec\<close> is the effect of one call,
  and an operation that fails leaves the store alone, as every error return of \<^verbatim>\<open>memstore.go\<close> precedes its
  first write.  Requests and workers interleave at the granularity of these calls, since each runs under
  the store's mutex.  \<open>store_ok\<close> is the invariant of the store: the primary maps are keyed by the
  identifier of what they hold, every secondary index agrees with its primary map, and tasks carry
  distinct insertion numbers.  It holds in every reachable store, so no lookup through an index meets a
  nil entry.
\<close>

subsection \<open>Operations and reachable stores\<close>

datatype StoreOp =
    OpCreateAccount Account
  | OpUpdateAccount Account
  | OpCreateOrder Order "Authorization list" "Challenge list"
  | OpUpdateAuthorization Authorization
  | OpBeginIssuance Task Order Account "Authorization list"
  | OpUpdateCertificate Certificate
  | OpAcceptChallenge Challenge Task
  | OpFinalizeOrder Order Task
  | OpClaimTask time time
  | OpRescheduleTask Task
  | OpRetryValidation Task Challenge
  | OpFinishTask Task
  | OpCompleteValidation Task Challenge Authorization Order
  | OpCompleteIssuance Task Order "Certificate option"

definition after_op :: "error + 'a \<times> Store \<Rightarrow> Store \<Rightarrow> Store" where
  "after_op r s = (case r of Inl _ \<Rightarrow> s | Inr (_, s') \<Rightarrow> s')"

fun exec :: "StoreOp \<Rightarrow> Store \<Rightarrow> Store" where
  "exec (OpCreateAccount a) s = after_op (CreateAccount None a s) s"
| "exec (OpUpdateAccount a) s = after_op (UpdateAccount None a s) s"
| "exec (OpCreateOrder o1 as cs) s = after_op (CreateOrder None o1 as cs s) s"
| "exec (OpUpdateAuthorization a) s = after_op (UpdateAuthorization None a s) s"
| "exec (OpBeginIssuance t o1 acc as) s = after_op (BeginIssuance None t o1 acc as s) s"
| "exec (OpUpdateCertificate c) s = after_op (UpdateCertificate None c s) s"
| "exec (OpAcceptChallenge c t) s = after_op (AcceptChallenge None c t s) s"
| "exec (OpFinalizeOrder o1 t) s = after_op (FinalizeOrder None o1 t s) s"
| "exec (OpClaimTask now lease) s = after_op (ClaimTask None now lease s) s"
| "exec (OpRescheduleTask t) s = after_op (RescheduleTask None t s) s"
| "exec (OpRetryValidation t c) s = after_op (RetryValidation None t c s) s"
| "exec (OpFinishTask t) s = after_op (FinishTask None t s) s"
| "exec (OpCompleteValidation t c a o1) s = after_op (CompleteValidation None t c a o1 s) s"
| "exec (OpCompleteIssuance t o1 cert) s = after_op (CompleteIssuance None t o1 cert s) s"

text \<open>One store evolves into another through operations that satisfy \<open>P\<close>.\<close>

inductive evolves :: "(StoreOp \<Rightarrow> bool) \<Rightarrow> Store \<Rightarrow> Store \<Rightarrow> bool" for P where
  evolves_refl [intro, simp]: "evolves P s s"
| evolves_step: "evolves P s t \<Longrightarrow> P op \<Longrightarrow> evolves P s (exec op t)"

abbreviation later :: "Store \<Rightarrow> Store \<Rightarrow> bool" where
  "later \<equiv> evolves (\<lambda>_. True)"

definition reachable :: "Store \<Rightarrow> bool" where
  "reachable s \<longleftrightarrow> later empty_store s"

lemma evolves_trans: "evolves P t u \<Longrightarrow> evolves P s t \<Longrightarrow> evolves P s u"
  by (induction rule: evolves.induct) (auto intro: evolves_step)

lemma evolves_mono: "evolves P s t \<Longrightarrow> (\<And>op. P op \<Longrightarrow> Q op) \<Longrightarrow> evolves Q s t"
  by (induction rule: evolves.induct) (auto intro: evolves_step)

lemma evolves_exec [intro]: "P op \<Longrightarrow> evolves P s (exec op s)"
  by (rule evolves_step) simp_all

lemma evolves_fold: "list_all P ops \<Longrightarrow> evolves P s (fold exec ops s)"
  by (induction ops arbitrary: s) (auto intro: evolves_trans [OF _ evolves_exec])

lemma after_op_cases:
  obtains e where "r = Inl e" "after_op r s = s" | x s' where "r = Inr (x, s')" "after_op r s = s'"
  by (cases r) (auto simp: after_op_def)

lemma after_op_Inr [simp]: "after_op (Inr (x, s')) s = s'"
  by (simp add: after_op_def)

lemma after_op_Inl [simp]: "after_op (Inl e) s = s"
  by (simp add: after_op_def)

text \<open>A property of one call carries over to its effect.\<close>

lemma after_op_rel:
  assumes "R s s" and "\<And>x s'. r = Inr (x, s') \<Longrightarrow> R s s'"
  shows "R s (after_op r s)"
  using assms by (cases r) (auto simp: after_op_def)

lemma exec_rel_cases:
  assumes refl: "R s s"
    and "\<And>a x s'. CreateAccount None a s = Inr (x, s') \<Longrightarrow> R s s'"
    and "\<And>a x s'. UpdateAccount None a s = Inr (x, s') \<Longrightarrow> R s s'"
    and "\<And>o1 as cs x s'. CreateOrder None o1 as cs s = Inr (x, s') \<Longrightarrow> R s s'"
    and "\<And>a x s'. UpdateAuthorization None a s = Inr (x, s') \<Longrightarrow> R s s'"
    and "\<And>t o1 acc as x s'. BeginIssuance None t o1 acc as s = Inr (x, s') \<Longrightarrow> R s s'"
    and "\<And>c x s'. UpdateCertificate None c s = Inr (x, s') \<Longrightarrow> R s s'"
    and "\<And>c t x y s'. AcceptChallenge None c t s = Inr ((x, y), s') \<Longrightarrow> R s s'"
    and "\<And>o1 t x y s'. FinalizeOrder None o1 t s = Inr ((x, y), s') \<Longrightarrow> R s s'"
    and "\<And>now lease x s'. ClaimTask None now lease s = Inr (x, s') \<Longrightarrow> R s s'"
    and "\<And>t x s'. RescheduleTask None t s = Inr (x, s') \<Longrightarrow> R s s'"
    and "\<And>t c x y s'. RetryValidation None t c s = Inr ((x, y), s') \<Longrightarrow> R s s'"
    and "\<And>t x s'. FinishTask None t s = Inr (x, s') \<Longrightarrow> R s s'"
    and "\<And>t c a o1 x y z s'. CompleteValidation None t c a o1 s = Inr ((x, y, z), s') \<Longrightarrow> R s s'"
    and "\<And>t o1 cert x s'. CompleteIssuance None t o1 cert s = Inr (x, s') \<Longrightarrow> R s s'"
  shows "R s (exec op s)"
proof (cases op)
  case (OpAcceptChallenge c t)
  then show ?thesis using assms(8) by (auto intro!: after_op_rel [of R, OF refl])
next
  case (OpFinalizeOrder o1 t)
  then show ?thesis using assms(9) by (auto intro!: after_op_rel [of R, OF refl])
next
  case (OpRetryValidation t c)
  then show ?thesis using assms(12) by (auto intro!: after_op_rel [of R, OF refl])
next
  case (OpCompleteValidation t c a o1)
  then show ?thesis using assms(14) by (auto intro!: after_op_rel [of R, OF refl])
next
  case (OpFinishTask t)
  then show ?thesis using assms(13) by (auto intro!: after_op_rel [of R, OF refl])
qed (simp_all add: after_op_rel [of R, OF refl] assms)

subsection \<open>The invariant\<close>

definition account_key :: "Account \<Rightarrow> string option" where
  "account_key a = Some (acc_KeyThumbprint a)"

definition account_claim :: "Account \<Rightarrow> string option" where
  "account_claim a =
     (if acc_ExternalAccountClaim a = [] then None else Some (acc_ExternalAccountClaim a))"

definition accounts_ok :: "Store \<Rightarrow> bool" where
  "accounts_ok s \<longleftrightarrow>
     (\<forall>i a. st_accounts s i = Some a \<longrightarrow>
        acc_ID a = i \<and> i \<noteq> [] \<and> acc_KeyThumbprint a \<noteq> [] \<and> 0 < acc_Revision a) \<and>
     indexes (st_accountByKey s) (st_accounts s) account_key \<and>
     indexes (st_accountByClaim s) (st_accounts s) account_claim"

definition orders_ok :: "Store \<Rightarrow> bool" where
  "orders_ok s \<longleftrightarrow>
     (\<forall>i w. st_orders s i = Some w \<longrightarrow> ord_ID w = i \<and> i \<noteq> [] \<and> 0 < ord_Revision w) \<and>
     (\<forall>acc. distinct (st_orderIDs s acc)) \<and>
     (\<forall>i. st_orders s i \<noteq> None \<longleftrightarrow> (\<exists>acc. i \<in> set (st_orderIDs s acc))) \<and>
     (\<forall>acc acc' i. i \<in> set (st_orderIDs s acc) \<longrightarrow> i \<in> set (st_orderIDs s acc') \<longrightarrow> acc = acc')"

definition authzs_ok :: "Store \<Rightarrow> bool" where
  "authzs_ok s \<longleftrightarrow>
     (\<forall>i w. st_authzs s i = Some w \<longrightarrow> az_ID w = i \<and> i \<noteq> [] \<and> 0 < az_Revision w) \<and>
     (\<forall>k i. i \<in> set (st_authzIndex s k) \<longrightarrow> st_authzs s i \<noteq> None)"

definition challenges_ok :: "Store \<Rightarrow> bool" where
  "challenges_ok s \<longleftrightarrow>
     (\<forall>i w. st_challenges s i = Some w \<longrightarrow> ch_ID w = i \<and> i \<noteq> [] \<and> 0 < ch_Revision w)"

definition certificates_ok :: "Store \<Rightarrow> bool" where
  "certificates_ok s \<longleftrightarrow>
     (\<forall>i w. st_certificates s i = Some w \<longrightarrow> crt_ID w = i \<and> i \<noteq> [] \<and> 0 < crt_Revision w) \<and>
     (\<forall>r i. st_certByRenewal s r = Some i \<longrightarrow> r \<noteq> [] \<and> st_certificates s i \<noteq> None)"

definition tasks_ok :: "Store \<Rightarrow> bool" where
  "tasks_ok s \<longleftrightarrow>
     keys_distinct (st_tasks s) \<and>
     (\<forall>i t. map_of (st_tasks s) i = Some t \<longrightarrow> tsk_ID t = i \<and> i \<noteq> []) \<and>
     dom (st_taskInsertion s) = dom (map_of (st_tasks s)) \<and>
     (\<forall>i n. st_taskInsertion s i = Some n \<longrightarrow> 0 < n \<and> n \<le> st_taskSequence s) \<and>
     inj_on (st_taskInsertion s) (dom (st_taskInsertion s))"

definition store_ok :: "Store \<Rightarrow> bool" where
  "store_ok s \<longleftrightarrow> accounts_ok s \<and> orders_ok s \<and> authzs_ok s \<and> challenges_ok s \<and>
     certificates_ok s \<and> tasks_ok s"

subsection \<open>The writes of the operations keep the invariant\<close>

lemmas put_defs = put_order_def put_authz_def put_challenge_def put_task_def removeTask_def
  insertTask_def store_new_authz_def Let_def

lemma accounts_ok_frame [simp]:
  "accounts_ok (s\<lparr>st_orders := a\<rparr>) = accounts_ok s"
  "accounts_ok (s\<lparr>st_orderIDs := b\<rparr>) = accounts_ok s"
  "accounts_ok (s\<lparr>st_authzs := c\<rparr>) = accounts_ok s"
  "accounts_ok (s\<lparr>st_authzIndex := d\<rparr>) = accounts_ok s"
  "accounts_ok (s\<lparr>st_challenges := e\<rparr>) = accounts_ok s"
  "accounts_ok (s\<lparr>st_certificates := f\<rparr>) = accounts_ok s"
  "accounts_ok (s\<lparr>st_certByRenewal := g\<rparr>) = accounts_ok s"
  "accounts_ok (s\<lparr>st_tasks := h\<rparr>) = accounts_ok s"
  "accounts_ok (s\<lparr>st_taskSequence := i\<rparr>) = accounts_ok s"
  "accounts_ok (s\<lparr>st_taskInsertion := j\<rparr>) = accounts_ok s"
  by (simp_all add: accounts_ok_def)

lemma orders_ok_frame [simp]:
  "orders_ok (s\<lparr>st_accounts := a\<rparr>) = orders_ok s"
  "orders_ok (s\<lparr>st_accountByKey := b\<rparr>) = orders_ok s"
  "orders_ok (s\<lparr>st_accountByClaim := b\<rparr>) = orders_ok s"
  "orders_ok (s\<lparr>st_authzs := c\<rparr>) = orders_ok s"
  "orders_ok (s\<lparr>st_authzIndex := d\<rparr>) = orders_ok s"
  "orders_ok (s\<lparr>st_challenges := e\<rparr>) = orders_ok s"
  "orders_ok (s\<lparr>st_certificates := f\<rparr>) = orders_ok s"
  "orders_ok (s\<lparr>st_certByRenewal := g\<rparr>) = orders_ok s"
  "orders_ok (s\<lparr>st_tasks := h\<rparr>) = orders_ok s"
  "orders_ok (s\<lparr>st_taskSequence := i\<rparr>) = orders_ok s"
  "orders_ok (s\<lparr>st_taskInsertion := j\<rparr>) = orders_ok s"
  by (simp_all add: orders_ok_def)

lemma authzs_ok_frame [simp]:
  "authzs_ok (s\<lparr>st_accounts := a\<rparr>) = authzs_ok s"
  "authzs_ok (s\<lparr>st_accountByKey := b\<rparr>) = authzs_ok s"
  "authzs_ok (s\<lparr>st_accountByClaim := b\<rparr>) = authzs_ok s"
  "authzs_ok (s\<lparr>st_orders := k\<rparr>) = authzs_ok s"
  "authzs_ok (s\<lparr>st_orderIDs := l\<rparr>) = authzs_ok s"
  "authzs_ok (s\<lparr>st_challenges := e\<rparr>) = authzs_ok s"
  "authzs_ok (s\<lparr>st_certificates := f\<rparr>) = authzs_ok s"
  "authzs_ok (s\<lparr>st_certByRenewal := g\<rparr>) = authzs_ok s"
  "authzs_ok (s\<lparr>st_tasks := h\<rparr>) = authzs_ok s"
  "authzs_ok (s\<lparr>st_taskSequence := i\<rparr>) = authzs_ok s"
  "authzs_ok (s\<lparr>st_taskInsertion := j\<rparr>) = authzs_ok s"
  by (simp_all add: authzs_ok_def)

lemma challenges_ok_frame [simp]:
  "challenges_ok (s\<lparr>st_accounts := a\<rparr>) = challenges_ok s"
  "challenges_ok (s\<lparr>st_accountByKey := b\<rparr>) = challenges_ok s"
  "challenges_ok (s\<lparr>st_accountByClaim := b\<rparr>) = challenges_ok s"
  "challenges_ok (s\<lparr>st_orders := k\<rparr>) = challenges_ok s"
  "challenges_ok (s\<lparr>st_orderIDs := l\<rparr>) = challenges_ok s"
  "challenges_ok (s\<lparr>st_authzs := c\<rparr>) = challenges_ok s"
  "challenges_ok (s\<lparr>st_authzIndex := d\<rparr>) = challenges_ok s"
  "challenges_ok (s\<lparr>st_certificates := f\<rparr>) = challenges_ok s"
  "challenges_ok (s\<lparr>st_certByRenewal := g\<rparr>) = challenges_ok s"
  "challenges_ok (s\<lparr>st_tasks := h\<rparr>) = challenges_ok s"
  "challenges_ok (s\<lparr>st_taskSequence := i\<rparr>) = challenges_ok s"
  "challenges_ok (s\<lparr>st_taskInsertion := j\<rparr>) = challenges_ok s"
  by (simp_all add: challenges_ok_def)

lemma certificates_ok_frame [simp]:
  "certificates_ok (s\<lparr>st_accounts := a\<rparr>) = certificates_ok s"
  "certificates_ok (s\<lparr>st_accountByKey := b\<rparr>) = certificates_ok s"
  "certificates_ok (s\<lparr>st_accountByClaim := b\<rparr>) = certificates_ok s"
  "certificates_ok (s\<lparr>st_orders := k\<rparr>) = certificates_ok s"
  "certificates_ok (s\<lparr>st_orderIDs := l\<rparr>) = certificates_ok s"
  "certificates_ok (s\<lparr>st_authzs := c\<rparr>) = certificates_ok s"
  "certificates_ok (s\<lparr>st_authzIndex := d\<rparr>) = certificates_ok s"
  "certificates_ok (s\<lparr>st_challenges := e\<rparr>) = certificates_ok s"
  "certificates_ok (s\<lparr>st_tasks := h\<rparr>) = certificates_ok s"
  "certificates_ok (s\<lparr>st_taskSequence := i\<rparr>) = certificates_ok s"
  "certificates_ok (s\<lparr>st_taskInsertion := j\<rparr>) = certificates_ok s"
  by (simp_all add: certificates_ok_def)

lemma tasks_ok_frame [simp]:
  "tasks_ok (s\<lparr>st_accounts := a\<rparr>) = tasks_ok s"
  "tasks_ok (s\<lparr>st_accountByKey := b\<rparr>) = tasks_ok s"
  "tasks_ok (s\<lparr>st_accountByClaim := b\<rparr>) = tasks_ok s"
  "tasks_ok (s\<lparr>st_orders := k\<rparr>) = tasks_ok s"
  "tasks_ok (s\<lparr>st_orderIDs := l\<rparr>) = tasks_ok s"
  "tasks_ok (s\<lparr>st_authzs := c\<rparr>) = tasks_ok s"
  "tasks_ok (s\<lparr>st_authzIndex := d\<rparr>) = tasks_ok s"
  "tasks_ok (s\<lparr>st_challenges := e\<rparr>) = tasks_ok s"
  "tasks_ok (s\<lparr>st_certificates := f\<rparr>) = tasks_ok s"
  "tasks_ok (s\<lparr>st_certByRenewal := g\<rparr>) = tasks_ok s"
  by (simp_all add: tasks_ok_def)

lemma orders_ok_write:
  assumes "orders_ok s" "st_orders s i \<noteq> None" "ord_ID w = i" "0 < ord_Revision w"
  shows "orders_ok (s\<lparr>st_orders := (st_orders s)(i \<mapsto> w)\<rparr>)"
proof -
  from assms(1,2) have "i \<noteq> []" and "\<exists>acc. i \<in> set (st_orderIDs s acc)"
    unfolding orders_ok_def by blast+
  with assms show ?thesis
    unfolding orders_ok_def by simp
qed

lemma orders_ok_create:
  assumes "orders_ok s" "st_orders s i = None" "i \<noteq> []" "ord_ID w = i" "0 < ord_Revision w"
  shows "orders_ok (s\<lparr>st_orders := (st_orders s)(i \<mapsto> w),
                      st_orderIDs := (st_orderIDs s)(acc := st_orderIDs s acc @ [i])\<rparr>)"
proof -
  from assms have "i \<notin> set (st_orderIDs s acc')" for acc'
    unfolding orders_ok_def by metis
  moreover have "(\<exists>acc'. j \<in> set (((st_orderIDs s)(acc := st_orderIDs s acc @ [i])) acc')) \<longleftrightarrow>
      j = i \<or> (\<exists>acc'. j \<in> set (st_orderIDs s acc'))" for j
    by (auto split: if_splits)
  ultimately show ?thesis
    using assms unfolding orders_ok_def by (simp del: fun_upd_apply) (auto split: if_splits)
qed

lemma authzs_ok_write:
  "authzs_ok s \<Longrightarrow> az_ID w = i \<Longrightarrow> i \<noteq> [] \<Longrightarrow> 0 < az_Revision w \<Longrightarrow>
     authzs_ok (s\<lparr>st_authzs := (st_authzs s)(i \<mapsto> w)\<rparr>)"
  unfolding authzs_ok_def by auto

lemma authzs_ok_new:
  "authzs_ok s \<Longrightarrow> az_ID w \<noteq> [] \<Longrightarrow> 0 < az_Revision w \<Longrightarrow> authzs_ok (store_new_authz w s)"
  unfolding authzs_ok_def store_new_authz_def
  by (auto simp del: split_paired_All split: if_splits)

lemma authzs_ok_fold_new:
  "authzs_ok s \<Longrightarrow> (\<And>a. a \<in> set as \<Longrightarrow> az_ID a \<noteq> [] \<and> 0 < az_Revision a) \<Longrightarrow>
     authzs_ok (fold store_new_authz as s)"
  by (induction as arbitrary: s) (auto intro: authzs_ok_new)

lemma challenges_ok_write:
  "challenges_ok s \<Longrightarrow> ch_ID w = i \<Longrightarrow> i \<noteq> [] \<Longrightarrow> 0 < ch_Revision w \<Longrightarrow>
     challenges_ok (s\<lparr>st_challenges := (st_challenges s)(i \<mapsto> w)\<rparr>)"
  unfolding challenges_ok_def by auto

lemma challenges_ok_fold_new:
  "challenges_ok s \<Longrightarrow> (\<And>c. c \<in> set cs \<Longrightarrow> ch_ID c \<noteq> [] \<and> 0 < ch_Revision c) \<Longrightarrow>
     challenges_ok (fold put_challenge cs s)"
  by (induction cs arbitrary: s) (auto simp: put_challenge_def intro: challenges_ok_write)

lemma certificates_ok_write:
  "certificates_ok s \<Longrightarrow> crt_ID w = i \<Longrightarrow> i \<noteq> [] \<Longrightarrow> 0 < crt_Revision w \<Longrightarrow>
     certificates_ok (s\<lparr>st_certificates := (st_certificates s)(i \<mapsto> w)\<rparr>)"
  unfolding certificates_ok_def by auto

lemma tasks_ok_put:
  assumes "tasks_ok s" "map_of (st_tasks s) (tsk_ID t) \<noteq> None"
  shows "tasks_ok (put_task t s)"
proof -
  from assms(2) have "insert (tsk_ID t) (dom (map_of (st_tasks s))) = dom (map_of (st_tasks s))"
    by auto
  moreover from assms have "tsk_ID t \<noteq> []"
    unfolding tasks_ok_def by blast
  ultimately show ?thesis
    using assms by (auto simp: tasks_ok_def put_task_def)
qed

lemma tasks_ok_remove: "tasks_ok s \<Longrightarrow> tasks_ok (removeTask i s)"
  unfolding tasks_ok_def removeTask_def by (auto simp: inj_on_def split: if_splits)

lemma tasks_ok_insert:
  assumes "tasks_ok s" "map_of (st_tasks s) (tsk_ID t) = None" "tsk_ID t \<noteq> []"
  shows "tasks_ok (snd (insertTask t s))"
proof -
  from assms have le: "n \<le> st_taskSequence s" if "st_taskInsertion s i = Some n" for i n
    using that by (auto simp: tasks_ok_def)
  then have "st_taskInsertion s i \<noteq> Some (Suc (st_taskSequence s))" for i
    using not_less_eq_eq by blast
  then have "inj_on (\<lambda>i. if i = tsk_ID t then Some (Suc (st_taskSequence s))
      else st_taskInsertion s i) (insert (tsk_ID t) (dom (st_taskInsertion s)))"
    using assms(1) by (force simp: tasks_ok_def inj_on_def)
  with assms le show ?thesis
    by (auto simp: tasks_ok_def insertTask_def Let_def fun_upd_def [symmetric] le_SucI)
qed

lemma accounts_ok_create:
  assumes ok: "accounts_ok s" and c: "CreateAccount ctx a s = Inr (a', s')"
  shows "accounts_ok s'"
proof -
  note d = CreateAccount_Inr [OF c]
  have k: "account_key a' = Some (acc_KeyThumbprint a)"
    "account_claim a' = (if acc_ExternalAccountClaim a = [] then None
       else Some (acc_ExternalAccountClaim a))"
    by (simp_all add: d(7) account_key_def account_claim_def)
  have "indexes (index_put (account_key a') (acc_ID a) (st_accountByKey s))
      ((st_accounts s)(acc_ID a \<mapsto> a')) account_key"
    by (rule indexes_create) (use ok d(4,5) k in \<open>auto simp: accounts_ok_def\<close>)
  moreover have "indexes (index_put (account_claim a') (acc_ID a) (st_accountByClaim s))
      ((st_accounts s)(acc_ID a \<mapsto> a')) account_claim"
    by (rule indexes_create) (use ok d(4,6) k in \<open>auto simp: accounts_ok_def split: if_splits\<close>)
  ultimately show ?thesis
    using ok d(2,3) k by (auto simp: d(7,8) accounts_ok_def index_put_def)
qed

lemma accounts_ok_update:
  assumes ok: "accounts_ok s" and c: "UpdateAccount ctx a s = Inr (a', s')"
  shows "accounts_ok s'"
  using c
proof (rule UpdateAccount_Inr)
  fix w
  assume d: "acc_KeyThumbprint a \<noteq> []" "st_accounts s (acc_ID a) = Some w"
    "\<And>i. acc_KeyThumbprint a \<noteq> acc_KeyThumbprint w \<Longrightarrow>
       st_accountByKey s (acc_KeyThumbprint a) = Some i \<Longrightarrow> i = acc_ID a"
    "\<And>i. acc_ExternalAccountClaim a \<noteq> acc_ExternalAccountClaim w \<Longrightarrow>
       acc_ExternalAccountClaim a \<noteq> [] \<Longrightarrow>
       st_accountByClaim s (acc_ExternalAccountClaim a) = Some i \<Longrightarrow> i = acc_ID a"
    "a' = a\<lparr>acc_Revision := acc_Revision a + 1\<rparr>"
    and s': "s' = s\<lparr>st_accounts := (st_accounts s)(acc_ID a \<mapsto> a'),
            st_accountByKey := ((st_accountByKey s)(acc_KeyThumbprint w := None))
              (acc_KeyThumbprint a \<mapsto> acc_ID a),
            st_accountByClaim := (if acc_ExternalAccountClaim a \<noteq> []
              then ((st_accountByClaim s)(acc_ExternalAccountClaim w := None))
                     (acc_ExternalAccountClaim a \<mapsto> acc_ID a)
              else (st_accountByClaim s)(acc_ExternalAccountClaim w := None))\<rparr>"
  have k: "account_key a' = Some (acc_KeyThumbprint a)" "account_claim a' = account_claim a"
    by (simp_all add: d(5) account_key_def account_claim_def)
  from ok have ix: "indexes (st_accountByKey s) (st_accounts s) account_key"
    "indexes (st_accountByClaim s) (st_accounts s) account_claim"
    by (simp_all add: accounts_ok_def)
  have own: "st_accountByKey s (acc_KeyThumbprint w) = Some (acc_ID a)"
    using ix(1) d(2) by (auto simp: indexes_def account_key_def)
  have "st_accountByClaim s [] = None"
    using indexes_lookup [OF ix(2), of "[]"]
    by (cases "st_accountByClaim s []") (auto simp: account_claim_def split: if_splits)
  then have own': "st_accountByClaim s (acc_ExternalAccountClaim w) =
      (if acc_ExternalAccountClaim w = [] then None else Some (acc_ID a))"
    using ix(2) d(2) by (auto simp: indexes_def account_claim_def)
  have free: "j = acc_ID a" if "st_accountByKey s (acc_KeyThumbprint a) = Some j" for j
    using that own d(3) by (cases "acc_KeyThumbprint a = acc_KeyThumbprint w") auto
  have free': "j = acc_ID a" if "account_claim a = Some k" "st_accountByClaim s k = Some j" for j k
    using that own' d(4)
    by (cases "acc_ExternalAccountClaim a = acc_ExternalAccountClaim w")
      (auto simp: account_claim_def split: if_splits)
  have "indexes (index_put (account_key a') (acc_ID a)
        (\<lambda>k. if k = acc_KeyThumbprint w then None else st_accountByKey s k))
      ((st_accounts s)(acc_ID a \<mapsto> a')) account_key"
    by (rule indexes_update [OF ix(1)])
      (use d(2) k free in \<open>auto simp: account_key_def\<close>)
  moreover have "indexes (index_put (account_claim a') (acc_ID a)
        (\<lambda>k. if account_claim w = Some k then None else st_accountByClaim s k))
      ((st_accounts s)(acc_ID a \<mapsto> a')) account_claim"
    by (rule indexes_update [OF ix(2)])
      (use d(2) k free' in auto)
  moreover have "(\<lambda>k. if account_claim w = Some k then None else st_accountByClaim s k) =
      (st_accountByClaim s)(acc_ExternalAccountClaim w := None)"
    using own' by (auto simp: account_claim_def fun_eq_iff)
  moreover from ok d(2) have "acc_ID a \<noteq> []"
    unfolding accounts_ok_def by blast
  ultimately show ?thesis
    using ok d(1,5) k unfolding accounts_ok_def s'
    by (auto simp: index_put_def account_claim_def fun_upd_def)
qed

lemma best_task_SomeD:
  "best_task s now b ts = Some t \<Longrightarrow> (t \<in> set ts \<and> runnable now t) \<or> b = Some t"
  by (induction ts arbitrary: b) (auto split: if_splits option.splits)

lemma claimed_task:
  assumes "tasks_ok s" and "best_task s now None (map snd (st_tasks s)) = Some t"
  shows "map_of (st_tasks s) (tsk_ID t) = Some t" and "runnable now t"
proof -
  from best_task_SomeD [OF assms(2)] obtain i where "(i, t) \<in> set (st_tasks s)" and "runnable now t"
    by auto
  with assms(1) show "map_of (st_tasks s) (tsk_ID t) = Some t" and "runnable now t"
    by (auto simp: tasks_ok_def)
qed

subsection \<open>Every operation keeps the invariant\<close>

lemma bump_simps [simp]:
  "ord_ID (bump_order o1) = ord_ID o1" "ord_Revision (bump_order o1) = Suc (ord_Revision o1)"
  "ord_Status (bump_order o1) = ord_Status o1" "ord_Issuance (bump_order o1) = ord_Issuance o1"
  "az_ID (bump_authz a) = az_ID a" "az_Revision (bump_authz a) = Suc (az_Revision a)"
  "az_Status (bump_authz a) = az_Status a" "az_OrderID (bump_authz a) = az_OrderID a"
  "ch_ID (bump_challenge c) = ch_ID c" "ch_Revision (bump_challenge c) = Suc (ch_Revision c)"
  "ch_Status (bump_challenge c) = ch_Status c"
  "tsk_ID (release_task t w) = tsk_ID w" "tsk_Fence (release_task t w) = tsk_Fence w"
  by (simp_all add: bump_order_def bump_authz_def bump_challenge_def release_task_def)

lemma put_ok:
  "store_ok s \<Longrightarrow> st_orders s (ord_ID w) \<noteq> None \<Longrightarrow> 0 < ord_Revision w \<Longrightarrow> store_ok (put_order w s)"
  "store_ok s \<Longrightarrow> st_authzs s (az_ID a) \<noteq> None \<Longrightarrow> 0 < az_Revision a \<Longrightarrow> store_ok (put_authz a s)"
  "store_ok s \<Longrightarrow> st_challenges s (ch_ID c) \<noteq> None \<Longrightarrow> 0 < ch_Revision c \<Longrightarrow>
     store_ok (put_challenge c s)"
  "store_ok s \<Longrightarrow> map_of (st_tasks s) (tsk_ID t) \<noteq> None \<Longrightarrow> store_ok (put_task t s)"
  "store_ok s \<Longrightarrow> store_ok (removeTask i s)"
  "store_ok s \<Longrightarrow> map_of (st_tasks s) (tsk_ID t) = None \<Longrightarrow> tsk_ID t \<noteq> [] \<Longrightarrow>
     store_ok (snd (insertTask t s))"
proof -
  show "store_ok (put_order w s)"
    if "store_ok s" "st_orders s (ord_ID w) \<noteq> None" "0 < ord_Revision w"
    using that by (simp add: store_ok_def put_order_def orders_ok_write)
  show "store_ok (put_authz a s)"
    if "store_ok s" "st_authzs s (az_ID a) \<noteq> None" "0 < az_Revision a"
  proof -
    from that have "az_ID a \<noteq> []" by (auto simp: store_ok_def authzs_ok_def)
    with that show ?thesis by (simp add: store_ok_def put_authz_def authzs_ok_write)
  qed
  show "store_ok (put_challenge c s)"
    if "store_ok s" "st_challenges s (ch_ID c) \<noteq> None" "0 < ch_Revision c"
  proof -
    from that have "ch_ID c \<noteq> []" by (auto simp: store_ok_def challenges_ok_def)
    with that show ?thesis by (simp add: store_ok_def put_challenge_def challenges_ok_write)
  qed
  show "store_ok (put_task t s)" if "store_ok s" "map_of (st_tasks s) (tsk_ID t) \<noteq> None"
    using that tasks_ok_put [of s t] by (simp add: store_ok_def) (simp add: put_task_def)
  show "store_ok (removeTask i s)" if "store_ok s"
    using that tasks_ok_remove [of s i] by (simp add: store_ok_def) (simp add: removeTask_def)
  show "store_ok (snd (insertTask t s))"
    if "store_ok s" "map_of (st_tasks s) (tsk_ID t) = None" "tsk_ID t \<noteq> []"
    using that tasks_ok_insert [of s t] by (simp add: store_ok_def) (simp add: insertTask_def Let_def)
qed

lemma put_fields [simp]:
  "st_accounts (put_order w s) = st_accounts s" "st_authzs (put_order w s) = st_authzs s"
  "st_challenges (put_order w s) = st_challenges s" "st_tasks (put_order w s) = st_tasks s"
  "st_certificates (put_order w s) = st_certificates s"
  "st_certByRenewal (put_order w s) = st_certByRenewal s"
  "st_orders (put_order w s) = (st_orders s)(ord_ID w \<mapsto> w)"
  "st_accounts (put_authz a s) = st_accounts s" "st_orders (put_authz a s) = st_orders s"
  "st_challenges (put_authz a s) = st_challenges s" "st_tasks (put_authz a s) = st_tasks s"
  "st_certificates (put_authz a s) = st_certificates s"
  "st_authzs (put_authz a s) = (st_authzs s)(az_ID a \<mapsto> a)"
  "st_accounts (put_challenge c s) = st_accounts s" "st_orders (put_challenge c s) = st_orders s"
  "st_authzs (put_challenge c s) = st_authzs s" "st_tasks (put_challenge c s) = st_tasks s"
  "st_certificates (put_challenge c s) = st_certificates s"
  "st_challenges (put_challenge c s) = (st_challenges s)(ch_ID c \<mapsto> c)"
  "st_accounts (put_task t s) = st_accounts s" "st_orders (put_task t s) = st_orders s"
  "st_authzs (put_task t s) = st_authzs s" "st_challenges (put_task t s) = st_challenges s"
  "st_certificates (put_task t s) = st_certificates s"
  "map_of (st_tasks (put_task t s)) = (map_of (st_tasks s))(tsk_ID t \<mapsto> t)"
  "st_accounts (removeTask i s) = st_accounts s" "st_orders (removeTask i s) = st_orders s"
  "st_authzs (removeTask i s) = st_authzs s" "st_challenges (removeTask i s) = st_challenges s"
  "st_certificates (removeTask i s) = st_certificates s"
  "map_of (st_tasks (removeTask i s)) = (map_of (st_tasks s))(i := None)"
  "st_accounts (snd (insertTask t s)) = st_accounts s" "st_orders (snd (insertTask t s)) = st_orders s"
  "st_authzs (snd (insertTask t s)) = st_authzs s"
  "st_challenges (snd (insertTask t s)) = st_challenges s"
  "st_certificates (snd (insertTask t s)) = st_certificates s"
  "map_of (st_tasks (snd (insertTask t s))) = (map_of (st_tasks s))(tsk_ID t \<mapsto> fst (insertTask t s))"
  by (simp_all add: put_defs)

lemma fold_new_authz_fields [simp]:
  "st_accounts (fold store_new_authz as s) = st_accounts s"
  "st_orders (fold store_new_authz as s) = st_orders s"
  "st_challenges (fold store_new_authz as s) = st_challenges s"
  "st_certificates (fold store_new_authz as s) = st_certificates s"
  "st_tasks (fold store_new_authz as s) = st_tasks s"
  by (induction as arbitrary: s) (simp_all add: store_new_authz_def)

lemma fold_new_challenge_fields [simp]:
  "st_accounts (fold put_challenge cs s) = st_accounts s"
  "st_orders (fold put_challenge cs s) = st_orders s"
  "st_authzs (fold put_challenge cs s) = st_authzs s"
  "st_certificates (fold put_challenge cs s) = st_certificates s"
  "st_tasks (fold put_challenge cs s) = st_tasks s"
  by (induction cs arbitrary: s) simp_all

lemma fold_new_authz_ok [simp]:
  "accounts_ok (fold store_new_authz as s) = accounts_ok s"
  "orders_ok (fold store_new_authz as s) = orders_ok s"
  "challenges_ok (fold store_new_authz as s) = challenges_ok s"
  "certificates_ok (fold store_new_authz as s) = certificates_ok s"
  "tasks_ok (fold store_new_authz as s) = tasks_ok s"
  by (induction as arbitrary: s) (simp_all add: store_new_authz_def)

lemma fold_new_challenge_ok [simp]:
  "accounts_ok (fold put_challenge cs s) = accounts_ok s"
  "orders_ok (fold put_challenge cs s) = orders_ok s"
  "authzs_ok (fold put_challenge cs s) = authzs_ok s"
  "certificates_ok (fold put_challenge cs s) = certificates_ok s"
  "tasks_ok (fold put_challenge cs s) = tasks_ok s"
  by (induction cs arbitrary: s) (simp_all add: put_challenge_def)

lemma claimReplacement_ok:
  assumes "store_ok s" and "claimReplacement o1 s = Inr s1"
  shows "store_ok s1" and "st_orders s1 = st_orders s" and "st_authzs s1 = st_authzs s"
    and "st_challenges s1 = st_challenges s" and "st_accounts s1 = st_accounts s"
    and "st_tasks s1 = st_tasks s"
proof -
  from assms(2) obtain i cert where c: "st_certificates s i = Some cert"
    and s1: "s1 = s\<lparr>st_certificates := (st_certificates s)(i \<mapsto>
      cert\<lparr>crt_ReplacedByOrderID := ord_ID o1, crt_Revision := crt_Revision cert + 1\<rparr>)\<rparr>"
    by (rule claimReplacement_Inr)
  from assms(1) c have "crt_ID cert = i" "i \<noteq> []"
    by (auto simp: store_ok_def certificates_ok_def)
  then show "store_ok s1"
    using assms(1) by (simp add: store_ok_def s1 certificates_ok_write)
  show "st_orders s1 = st_orders s" "st_authzs s1 = st_authzs s" "st_tasks s1 = st_tasks s"
    "st_challenges s1 = st_challenges s" "st_accounts s1 = st_accounts s"
    by (simp_all add: s1)
qed

lemma CreateOrder_ok:
  assumes ok: "store_ok s" and c: "CreateOrder ctx o1 as cs s = Inr (r, s')"
  shows "store_ok s'"
  using c
proof (rule CreateOrder_Inr)
  fix s1
  assume d: "ord_ID o1 \<noteq> []" "st_orders s (ord_ID o1) = None"
    "\<And>a. a \<in> set as \<Longrightarrow> st_authzs s (az_ID a) = None \<and> az_ID a \<noteq> []"
    "\<And>c. c \<in> set cs \<Longrightarrow> st_challenges s (ch_ID c) = None \<and> ch_ID c \<noteq> []"
    "(if ord_Replaces o1 \<noteq> [] then claimReplacement o1 s else Inr s) = Inr s1"
    and s': "s' = fold put_challenge (map (\<lambda>c. c\<lparr>ch_Revision := 1\<rparr>) cs)
           (fold store_new_authz (map (\<lambda>a. a\<lparr>az_Revision := 1\<rparr>) as)
             (s1\<lparr>st_orders := (st_orders s1)(ord_ID o1 \<mapsto> o1\<lparr>ord_Revision := 1\<rparr>),
                 st_orderIDs := (st_orderIDs s1)
                   (ord_AccountID o1 := st_orderIDs s1 (ord_AccountID o1) @ [ord_ID o1])\<rparr>))"
  from ok d(5) have "store_ok s1" "st_orders s1 = st_orders s"
    by (auto simp: claimReplacement_ok split: if_splits)
  then show ?thesis
    using d(1-4) orders_ok_create [of s1 "ord_ID o1" "o1\<lparr>ord_Revision := 1\<rparr>" "ord_AccountID o1"]
    unfolding s' store_ok_def
    by (auto intro!: authzs_ok_fold_new challenges_ok_fold_new)
qed

lemma store_certificate_ok:
  assumes "store_ok s" and "store_certificate c s = Inr s'"
  shows "store_ok s'"
  using assms(1) store_certificate_Inr(1,3) [OF assms(2)]
  unfolding store_certificate_Inr(4) [OF assms(2)] store_ok_def
  by (simp add: certificates_ok_def)

lemma UpdateAuthorization_ok:
  assumes ok: "store_ok s" and c: "UpdateAuthorization ctx a s = Inr (a', s')"
  shows "store_ok s'"
  using c
proof (rule UpdateAuthorization_Inr)
  fix w
  assume w: "st_authzs s (az_ID a) = Some w" and a': "a' = bump_authz a"
    and s': "s' = (case st_orders s (az_OrderID a) of
             Some order \<Rightarrow>
               if authz_Terminal (az_Status a) \<and> undispatched order
               then (put_authz a' s)\<lparr>st_orders := (st_orders s)(az_OrderID a \<mapsto>
                      order\<lparr>ord_Status := OrderInvalid,
                            ord_Error := Some InvalidAuthorizationProblem,
                            ord_Revision := ord_Revision order + 1\<rparr>)\<rparr>
               else put_authz a' s
           | None \<Rightarrow> put_authz a' s)"
  have ok': "store_ok (put_authz a' s)"
    using ok w by (intro put_ok) (simp_all add: a')
  show ?thesis
  proof (cases "st_orders s (az_OrderID a)")
    case None
    with ok' s' show ?thesis by simp
  next
    case (Some order)
    with ok have "ord_ID order = az_OrderID a"
      by (auto simp: store_ok_def orders_ok_def)
    then have "store_ok ((put_authz a' s)\<lparr>st_orders := (st_orders (put_authz a' s))(az_OrderID a \<mapsto>
        order\<lparr>ord_Status := OrderInvalid, ord_Error := Some InvalidAuthorizationProblem,
              ord_Revision := ord_Revision order + 1\<rparr>)\<rparr>)"
      using ok' Some orders_ok_write [of "put_authz a' s" "az_OrderID a"
        "order\<lparr>ord_Status := OrderInvalid, ord_Error := Some InvalidAuthorizationProblem,
              ord_Revision := ord_Revision order + 1\<rparr>"]
      by (simp add: store_ok_def del: fun_upd_apply)
    with ok' s' Some show ?thesis by simp
  qed
qed

lemma exec_ok: "store_ok s \<Longrightarrow> store_ok (exec op s)"
proof (rule exec_rel_cases [where R = "\<lambda>_ s'. store_ok s'"])
  assume ok: "store_ok s"
  show "store_ok s" by (rule ok)
  show "store_ok s'" if "CreateAccount None a s = Inr (x, s')" for a x s'
    using ok that accounts_ok_create [OF _ that] by (auto simp: store_ok_def CreateAccount_Inr(8) [OF that])
  show "store_ok s'" if "UpdateAccount None a s = Inr (x, s')" for a x s'
    using that accounts_ok_update [OF _ that] ok by (auto simp: store_ok_def elim!: UpdateAccount_Inr)
  show "store_ok s'" if "CreateOrder None o1 as cs s = Inr (x, s')" for o1 as cs x s'
    using ok that by (rule CreateOrder_ok)
  show "store_ok s'" if "UpdateAuthorization None a s = Inr (x, s')" for a x s'
    using ok that by (rule UpdateAuthorization_ok)
  show "store_ok s'" if "BeginIssuance None t o1 acc as s = Inr (x, s')" for t o1 acc as x s'
    using that ok by (auto elim!: BeginIssuance_Inr intro!: put_ok)
  show "store_ok s'" if "UpdateCertificate None c s = Inr (x, s')" for c x s'
    using that
  proof (rule UpdateCertificate_Inr)
    fix w
    assume w: "st_certificates s (crt_ID c) = Some w" "x = c\<lparr>crt_Revision := crt_Revision c + 1\<rparr>"
      and s': "s' = s\<lparr>st_certificates := (st_certificates s)(crt_ID c \<mapsto> x)\<rparr>"
    from ok w(1) have "crt_ID c \<noteq> []"
      by (auto simp: store_ok_def certificates_ok_def)
    with ok w show "store_ok s'"
      by (simp add: store_ok_def s' certificates_ok_write)
  qed
  show "store_ok s'" if "AcceptChallenge None c t s = Inr ((x, y), s')" for c t x y s'
    using that ok by (auto simp: AcceptChallenge_Inr prod_eq_iff intro!: put_ok)
  show "store_ok s'" if "FinalizeOrder None o1 t s = Inr ((x, y), s')" for o1 t x y s'
    using that ok by (auto simp: FinalizeOrder_Inr prod_eq_iff intro!: put_ok)
  show "store_ok s'" if "ClaimTask None now lease s = Inr (x, s')" for now lease x s'
  proof -
    from ok have "tasks_ok s" by (simp add: store_ok_def)
    with that ok show ?thesis
      by (auto simp: ClaimTask_Inr dest: claimed_task(1) intro!: put_ok)
  qed
  show "store_ok s'" if "RescheduleTask None t s = Inr (x, s')" for t x s'
  proof -
    from ok have "tasks_ok s" by (simp add: store_ok_def)
    with that ok show ?thesis
      by (auto simp: RescheduleTask_Inr tasks_ok_def intro!: put_ok)
  qed
  show "store_ok s'" if "RetryValidation None t c s = Inr ((x, y), s')" for t c x y s'
  proof -
    from ok have "tasks_ok s" by (simp add: store_ok_def)
    with that ok show ?thesis
      by (auto simp: RetryValidation_Inr tasks_ok_def intro!: put_ok)
  qed
  show "store_ok s'" if "FinishTask None t s = Inr (x, s')" for t x s'
    using that ok by (auto simp: FinishTask_Inr intro!: put_ok)
  show "store_ok s'" if "CompleteValidation None t c a o1 s = Inr ((x, y, z), s')" for t c a o1 x y z s'
    using that ok by (auto simp: CompleteValidation_Inr intro!: put_ok)
  show "store_ok s'" if "CompleteIssuance None t o1 cert s = Inr (x, s')" for t o1 cert x s'
    using that ok
    by (auto simp: CompleteIssuance_Inr intro!: put_ok split: option.splits
        dest: store_certificate_ok store_certificate_Inr(4))
qed

lemma empty_store_ok: "store_ok empty_store"
  by (simp add: store_ok_def empty_store_def accounts_ok_def orders_ok_def authzs_ok_def
      challenges_ok_def certificates_ok_def tasks_ok_def)

lemma later_ok: "evolves P s t \<Longrightarrow> store_ok s \<Longrightarrow> store_ok t"
  by (induction rule: evolves.induct) (auto intro: exec_ok)

lemma reachable_ok: "reachable s \<Longrightarrow> store_ok s"
  unfolding reachable_def using later_ok empty_store_ok by blast

end
