(* ===== verification/Store_Versions.thy ===== *)
theory Store_Versions
  imports Store_Invariants
begin

section \<open>Optimistic concurrency and leases\<close>

text \<open>
  The two interfaces of \<^verbatim>\<open>store.go\<close> the server relies on when requests and workers interleave.

  \<open>versioned\<close>: a resource read at some revision is, at any later time, either unchanged or at a higher
  revision, so equal revisions mean equal values.  \<open>versioned_update\<close> adds a write that compares the
  revision: of the writers that read one revision at most one succeeds.  Both are interpreted on the five
  kinds of resources of the in-memory store and on its writes.

  \<open>fenced\<close>: a claim hands out a task under a new fence number.  Until the identifier of the task is
  enqueued again, no operation presented with an older fence succeeds.
\<close>

subsection \<open>Interfaces\<close>

locale versioned =
  fixes get :: "'s \<Rightarrow> 'k \<Rightarrow> 'v option"
    and vsn :: "'v \<Rightarrow> nat"
    and upd :: "'s \<Rightarrow> 's \<Rightarrow> bool"
  assumes upd_newer: "upd s t \<Longrightarrow> get s k = Some v \<Longrightarrow>
    \<exists>w. get t k = Some w \<and> (w = v \<or> vsn v < vsn w)"
begin

lemma upds_newer:
  "upd\<^sup>*\<^sup>* s t \<Longrightarrow> get s k = Some v \<Longrightarrow> \<exists>w. get t k = Some w \<and> (w = v \<or> vsn v < vsn w)"
proof (induction rule: rtranclp_induct)
  case base
  then show ?case by simp
next
  case (step t u)
  then obtain w where "get t k = Some w" "w = v \<or> vsn v < vsn w" by blast
  with upd_newer [OF step.hyps(2)] obtain x where "get u k = Some x" "x = w \<or> vsn w < vsn x" by blast
  with \<open>w = v \<or> vsn v < vsn w\<close> show ?case by auto
qed

lemma never_lost: "upd\<^sup>*\<^sup>* s t \<Longrightarrow> get s k = Some v \<Longrightarrow> get t k \<noteq> None"
  using upds_newer by fastforce

lemma same_revision_same_value:
  assumes "upd\<^sup>*\<^sup>* s t" "get s k = Some v" "get t k = Some w" "vsn w = vsn v"
  shows "w = v"
  using upds_newer [OF assms(1,2)] assms(3,4) by auto

lemma revision_mono:
  assumes "upd\<^sup>*\<^sup>* s t" "get s k = Some v" "get t k = Some w"
  shows "vsn v \<le> vsn w"
  using upds_newer [OF assms(1,2)] assms(3) by auto

end

locale versioned_update = versioned +
  fixes key :: "'v \<Rightarrow> 'k"
    and put :: "'v \<Rightarrow> 's \<Rightarrow> error + 'v \<times> 's"
  assumes put_checks: "put v s = Inr r \<Longrightarrow> \<exists>w. get s (key v) = Some w \<and> vsn w = vsn v"
    and put_stores: "put v s = Inr (v', s') \<Longrightarrow> get s' (key v) = Some v' \<and> vsn v' = Suc (vsn v)"
begin

lemma stale_write_fails:
  assumes "put v s = Inr (v', s')" "upd\<^sup>*\<^sup>* s' t" "key u = key v" "vsn u \<le> vsn v"
  shows "\<exists>e. put u t = Inl e"
proof (cases "put u t")
  case (Inr r)
  from put_stores [OF assms(1)] have v': "get s' (key u) = Some v'" "vsn v' = Suc (vsn v)"
    by (simp_all add: assms(3))
  from put_checks [OF Inr] obtain w where "get t (key u) = Some w" "vsn w = vsn u" by blast
  with revision_mono [OF assms(2) v'(1)] v'(2) assms(4) show ?thesis by simp
qed simp

lemma no_lost_update:
  assumes "get s k = Some v" "upd\<^sup>*\<^sup>* s t" "put u t = Inr r" "key u = k" "vsn u = vsn v"
  shows "get t k = Some v"
  using put_checks [OF assms(3)] same_revision_same_value [OF assms(2,1)] assms(4,5) by auto

end

locale fenced =
  fixes lookup :: "'s \<Rightarrow> 't option"
    and fence :: "'t \<Rightarrow> nat"
    and upd :: "'s \<Rightarrow> 's \<Rightarrow> bool"
  assumes upd_fence: "upd s t \<Longrightarrow> lookup t = Some y \<Longrightarrow>
    \<exists>x. lookup s = Some x \<and> fence x \<le> fence y"
begin

lemma fence_mono:
  "upd\<^sup>*\<^sup>* s t \<Longrightarrow> lookup t = Some y \<Longrightarrow> \<exists>x. lookup s = Some x \<and> fence x \<le> fence y"
proof (induction arbitrary: y rule: rtranclp_induct)
  case base
  then show ?case by simp
next
  case (step t u)
  from upd_fence [OF step.hyps(2) step.prems] obtain x where
    "lookup t = Some x" "fence x \<le> fence y" by blast
  with step.IH [of x] show ?case by force
qed

lemma stale_fence:
  assumes "lookup s = Some x" "upd\<^sup>*\<^sup>* s t" "f < fence x" "lookup t = Some y"
  shows "fence y \<noteq> f"
  using fence_mono [OF assms(2,4)] assms(1,3) by auto

end

subsection \<open>Revisions only grow\<close>

definition newer :: "('v \<Rightarrow> nat) \<Rightarrow> ('k \<rightharpoonup> 'v) \<Rightarrow> ('k \<rightharpoonup> 'v) \<Rightarrow> bool" where
  "newer vsn m m' \<longleftrightarrow>
     (\<forall>k v. m k = Some v \<longrightarrow> (\<exists>w. m' k = Some w \<and> (w = v \<or> vsn v < vsn w)))"

lemma newer_refl [simp, intro]: "newer vsn m m"
  by (simp add: newer_def)

lemma newer_write: "m k = Some v \<Longrightarrow> vsn v < vsn w \<Longrightarrow> newer vsn m (m(k \<mapsto> w))"
  by (simp add: newer_def)

lemma newer_create: "m k = None \<Longrightarrow> newer vsn m (m(k \<mapsto> w))"
  by (simp add: newer_def)

lemma fold_store_new_authz_other:
  "i \<notin> az_ID ` set as \<Longrightarrow> st_authzs (fold store_new_authz as s) i = st_authzs s i"
  by (induction as arbitrary: s) (auto simp: store_new_authz_def)

lemma fold_put_challenge_other:
  "i \<notin> ch_ID ` set cs \<Longrightarrow> st_challenges (fold put_challenge cs s) i = st_challenges s i"
  by (induction cs arbitrary: s) auto

definition all_newer :: "Store \<Rightarrow> Store \<Rightarrow> bool" where
  "all_newer s t \<longleftrightarrow>
     newer acc_Revision (st_accounts s) (st_accounts t) \<and>
     newer ord_Revision (st_orders s) (st_orders t) \<and>
     newer az_Revision (st_authzs s) (st_authzs t) \<and>
     newer ch_Revision (st_challenges s) (st_challenges t) \<and>
     newer crt_Revision (st_certificates s) (st_certificates t)"

lemma CreateOrder_newer:
  assumes "CreateOrder ctx o1 as cs s = Inr (r, s')"
  shows "all_newer s s'"
  using assms
proof (rule CreateOrder_Inr)
  fix s1
  assume d: "st_orders s (ord_ID o1) = None"
    "\<And>a. a \<in> set as \<Longrightarrow> st_authzs s (az_ID a) = None \<and> az_ID a \<noteq> []"
    "\<And>c. c \<in> set cs \<Longrightarrow> st_challenges s (ch_ID c) = None \<and> ch_ID c \<noteq> []"
    "(if ord_Replaces o1 \<noteq> [] then claimReplacement o1 s else Inr s) = Inr s1"
    and s': "s' = fold put_challenge (map (\<lambda>c. c\<lparr>ch_Revision := 1\<rparr>) cs)
           (fold store_new_authz (map (\<lambda>a. a\<lparr>az_Revision := 1\<rparr>) as)
             (s1\<lparr>st_orders := (st_orders s1)(ord_ID o1 \<mapsto> o1\<lparr>ord_Revision := 1\<rparr>),
                 st_orderIDs := (st_orderIDs s1)
                   (ord_AccountID o1 := st_orderIDs s1 (ord_AccountID o1) @ [ord_ID o1])\<rparr>))"
  have s1: "st_accounts s1 = st_accounts s" "st_orders s1 = st_orders s" "st_authzs s1 = st_authzs s"
    "st_challenges s1 = st_challenges s" "newer crt_Revision (st_certificates s) (st_certificates s1)"
    using d(4) by (auto elim!: claimReplacement_Inr intro!: newer_write split: if_splits)
  have "st_authzs s' i = Some w" if "st_authzs s i = Some w" for i w
  proof -
    have "i \<notin> az_ID ` set as" using d(2) that by force
    then show ?thesis
      using that s1 by (simp add: s' fold_store_new_authz_other image_image)
  qed
  moreover have "st_challenges s' i = Some w" if "st_challenges s i = Some w" for i w
  proof -
    have "i \<notin> ch_ID ` set cs" using d(3) that by force
    then show ?thesis
      using that s1 by (simp add: s' fold_put_challenge_other image_image)
  qed
  ultimately have "newer az_Revision (st_authzs s) (st_authzs s')"
    "newer ch_Revision (st_challenges s) (st_challenges s')"
    by (auto simp: newer_def)
  then show ?thesis
    using d(1) s1 by (auto simp: all_newer_def s' intro: newer_create)
qed

lemma exec_newer: "all_newer s (exec op s)"
proof (rule exec_rel_cases)
  show "all_newer s s" by (simp add: all_newer_def)
  show "all_newer s s'" if "CreateAccount None a s = Inr (x, s')" for a x s'
    using CreateAccount_Inr(4,8) [OF that] by (simp add: all_newer_def newer_create)
  show "all_newer s s'" if "UpdateAccount None a s = Inr (x, s')" for a x s'
    using that by (rule UpdateAccount_Inr) (simp add: all_newer_def newer_write)
  show "all_newer s s'" if "CreateOrder None o1 as cs s = Inr (x, s')" for o1 as cs x s'
    using that by (rule CreateOrder_newer)
  show "all_newer s s'" if "UpdateAuthorization None a s = Inr (x, s')" for a x s'
    using that by (rule UpdateAuthorization_Inr)
      (simp add: all_newer_def newer_write split: option.split)
  show "all_newer s s'" if "BeginIssuance None t o1 acc as s = Inr (x, s')" for t o1 acc as x s'
    using that by (rule BeginIssuance_Inr) (simp add: all_newer_def newer_write)
  show "all_newer s s'" if "UpdateCertificate None c s = Inr (x, s')" for c x s'
    using that by (rule UpdateCertificate_Inr) (simp add: all_newer_def newer_write)
  show "all_newer s s'" if "AcceptChallenge None c t s = Inr ((x, y), s')" for c t x y s'
    using that by (auto simp: AcceptChallenge_Inr prod_eq_iff all_newer_def newer_write)
  show "all_newer s s'" if "FinalizeOrder None o1 t s = Inr ((x, y), s')" for o1 t x y s'
    using that by (auto simp: FinalizeOrder_Inr prod_eq_iff all_newer_def newer_write)
  show "all_newer s s'" if "ClaimTask None now lease s = Inr (x, s')" for now lease x s'
    using that by (auto simp: ClaimTask_Inr all_newer_def)
  show "all_newer s s'" if "RescheduleTask None t s = Inr (x, s')" for t x s'
    using that by (auto simp: RescheduleTask_Inr all_newer_def)
  show "all_newer s s'" if "RetryValidation None t c s = Inr ((x, y), s')" for t c x y s'
    using that by (auto simp: RetryValidation_Inr all_newer_def newer_write)
  show "all_newer s s'" if "FinishTask None t s = Inr (x, s')" for t x s'
    using that by (auto simp: FinishTask_Inr all_newer_def)
  show "all_newer s s'" if "CompleteValidation None t c a o1 s = Inr ((x, y, z), s')" for t c a o1 x y z s'
    using that by (auto simp: CompleteValidation_Inr all_newer_def newer_write)
  show "all_newer s s'" if "CompleteIssuance None t o1 cert s = Inr (x, s')" for t o1 cert x s'
    using that store_certificate_Inr(2,4) [of _ s]
    by (cases cert) (fastforce simp: CompleteIssuance_Inr all_newer_def intro: newer_create newer_write)+
qed

definition op_step :: "Store \<Rightarrow> Store \<Rightarrow> bool" where
  "op_step s t \<longleftrightarrow> (\<exists>op. t = exec op s)"

lemma later_iff: "later s t \<longleftrightarrow> op_step\<^sup>*\<^sup>* s t"
proof
  show "op_step\<^sup>*\<^sup>* s t" if "later s t"
    using that
  proof (induction rule: evolves.induct)
    case (evolves_step s t op)
    then have "op_step t (exec op t)" by (auto simp: op_step_def)
    with evolves_step.IH show ?case by (rule rtranclp.rtrancl_into_rtrancl)
  qed simp
  show "later s t" if "op_step\<^sup>*\<^sup>* s t"
    using that by (induction rule: rtranclp_induct) (auto simp: op_step_def intro: evolves_step)
qed

lemma op_step_newer: "op_step s t \<Longrightarrow> all_newer s t"
  by (auto simp: op_step_def exec_newer)

subsection \<open>Interpretations\<close>

interpretation accounts: versioned st_accounts acc_Revision op_step
  by unfold_locales (auto dest!: op_step_newer simp: all_newer_def newer_def)

interpretation orders: versioned st_orders ord_Revision op_step
  by unfold_locales (auto dest!: op_step_newer simp: all_newer_def newer_def)

interpretation authorizations: versioned st_authzs az_Revision op_step
  by unfold_locales (auto dest!: op_step_newer simp: all_newer_def newer_def)

interpretation challenges: versioned st_challenges ch_Revision op_step
  by unfold_locales (auto dest!: op_step_newer simp: all_newer_def newer_def)

interpretation certificates: versioned st_certificates crt_Revision op_step
  by unfold_locales (auto dest!: op_step_newer simp: all_newer_def newer_def)

interpretation account_update: versioned_update st_accounts acc_Revision op_step acc_ID "UpdateAccount ctx"
  for ctx
  by unfold_locales (auto elim!: UpdateAccount_Inr)

interpretation authz_update:
  versioned_update st_authzs az_Revision op_step az_ID "UpdateAuthorization ctx"
  for ctx
  by unfold_locales (auto elim!: UpdateAuthorization_Inr split: option.splits)

interpretation certificate_update:
  versioned_update st_certificates crt_Revision op_step crt_ID "UpdateCertificate ctx"
  for ctx
  by unfold_locales (auto elim!: UpdateCertificate_Inr)

text \<open>The writes that carry a resource along with a task, seen as writes of that resource.\<close>

definition fst_result :: "error + ('a \<times> 'b) \<times> Store \<Rightarrow> error + 'a \<times> Store" where
  "fst_result r = (case r of Inl e \<Rightarrow> Inl e | Inr ((x, y), s) \<Rightarrow> Inr (x, s))"

lemma fst_result_Inr [simp]: "fst_result r = Inr (x, s) \<longleftrightarrow> (\<exists>y. r = Inr ((x, y), s))"
  by (auto simp: fst_result_def split: sum.splits)

lemma fst_result_Inl [simp]: "fst_result r = Inl e \<longleftrightarrow> r = Inl e"
  by (auto simp: fst_result_def split: sum.splits)

interpretation challenge_accept:
  versioned_update st_challenges ch_Revision op_step ch_ID "\<lambda>c s. fst_result (AcceptChallenge ctx c task s)"
  for ctx task
  by unfold_locales (auto simp: AcceptChallenge_Inr prod_eq_iff)

interpretation order_finalize:
  versioned_update st_orders ord_Revision op_step ord_ID "\<lambda>w s. fst_result (FinalizeOrder ctx w task s)"
  for ctx task
  by unfold_locales (auto simp: FinalizeOrder_Inr prod_eq_iff)

interpretation order_begin:
  versioned_update st_orders ord_Revision op_step ord_ID "\<lambda>w. BeginIssuance ctx task w account authzs"
  for ctx task account authzs
  by unfold_locales (auto elim!: BeginIssuance_Inr)

interpretation order_complete:
  versioned_update st_orders ord_Revision op_step ord_ID "\<lambda>w. CompleteIssuance ctx task w cert"
  for ctx task cert
  by unfold_locales (auto simp: CompleteIssuance_Inr)

subsection \<open>Fences\<close>

fun enqueues :: "string \<Rightarrow> StoreOp \<Rightarrow> bool" where
  "enqueues i (OpAcceptChallenge c t) = (tsk_ID t = i)"
| "enqueues i (OpFinalizeOrder o1 t) = (tsk_ID t = i)"
| "enqueues i _ = False"

text \<open>The operations that give a leased task back before its lease ends.\<close>

fun releases :: "string \<Rightarrow> StoreOp \<Rightarrow> bool" where
  "releases i (OpRescheduleTask t) = (tsk_ID t = i)"
| "releases i (OpRetryValidation t c) = (tsk_ID t = i)"
| "releases i _ = False"

text \<open>All that one operation can do to the task \<open>i\<close>.\<close>

definition task_effect :: "string \<Rightarrow> StoreOp \<Rightarrow> Store \<Rightarrow> Store \<Rightarrow> bool" where
  "task_effect i op s s' \<longleftrightarrow>
     map_of (st_tasks s') i = map_of (st_tasks s) i \<or> map_of (st_tasks s') i = None \<or> enqueues i op \<or>
     (\<exists>t now lease. op = OpClaimTask now lease \<and> map_of (st_tasks s) i = Some t \<and> runnable now t \<and>
        map_of (st_tasks s') i = Some (t\<lparr>tsk_LeaseUntil := lease, tsk_Fence := tsk_Fence t + 1,
          tsk_Attempts := tsk_Attempts t + 1\<rparr>)) \<or>
     (\<exists>t u. releases i op \<and> map_of (st_tasks s) i = Some t \<and>
        map_of (st_tasks s') i = Some (release_task u t))"

lemma CreateAccount_tasks: "CreateAccount ctx a s = Inr (r, s') \<Longrightarrow> st_tasks s' = st_tasks s"
  by (auto dest: CreateAccount_Inr(8))

lemma CreateOrder_tasks: "CreateOrder ctx o1 as cs s = Inr (r, s') \<Longrightarrow> st_tasks s' = st_tasks s"
  by (auto elim!: CreateOrder_Inr claimReplacement_Inr split: if_splits)

lemma UpdateAccount_tasks: "UpdateAccount ctx a s = Inr (r, s') \<Longrightarrow> st_tasks s' = st_tasks s"
  by (auto elim!: UpdateAccount_Inr)

lemma UpdateAuthorization_tasks:
  "UpdateAuthorization ctx a s = Inr (r, s') \<Longrightarrow> st_tasks s' = st_tasks s"
  by (auto elim!: UpdateAuthorization_Inr split: option.splits)

lemma BeginIssuance_tasks:
  "BeginIssuance ctx t o1 acc as s = Inr (r, s') \<Longrightarrow> st_tasks s' = st_tasks s"
  by (auto elim!: BeginIssuance_Inr)

lemma UpdateCertificate_tasks:
  "UpdateCertificate ctx c s = Inr (r, s') \<Longrightarrow> st_tasks s' = st_tasks s"
  by (auto elim!: UpdateCertificate_Inr)

lemma CompleteIssuance_tasks:
  "CompleteIssuance ctx t o1 cert s = Inr (r, s') \<Longrightarrow>
     map_of (st_tasks s') = (map_of (st_tasks s))(tsk_ID t := None)"
  by (cases cert) (auto simp: CompleteIssuance_Inr dest!: store_certificate_Inr(4))

lemmas tasks_kept = CreateAccount_tasks UpdateAccount_tasks CreateOrder_tasks
  UpdateAuthorization_tasks BeginIssuance_tasks UpdateCertificate_tasks

lemma same_tasks_effect:
  assumes "\<And>x s'. r = Inr (x, s') \<Longrightarrow> st_tasks s' = st_tasks s"
  shows "task_effect i op s (after_op r s)"
  using assms by (cases r) (auto simp: task_effect_def)

lemma claimed_lookup:
  assumes "tasks_ok s" and "ClaimTask None now lease s = Inr (x, s')"
  shows "map_of (st_tasks s') i = map_of (st_tasks s) i \<or>
    (\<exists>t. map_of (st_tasks s) i = Some t \<and> runnable now t \<and>
       map_of (st_tasks s') i = Some (t\<lparr>tsk_LeaseUntil := lease, tsk_Fence := tsk_Fence t + 1,
         tsk_Attempts := tsk_Attempts t + 1\<rparr>))"
  using assms(2) claimed_task [OF assms(1)] by (auto simp: ClaimTask_Inr)

lemma released_effect:
  assumes "tasks_ok s" and "map_of (st_tasks s) (tsk_ID t) = Some w" and "st_tasks s' = st_tasks s"
    and "tsk_ID t = i \<Longrightarrow> releases i op"
  shows "task_effect i op s (put_task (release_task t w) s')"
proof -
  have "tsk_ID w = tsk_ID t"
    using assms unfolding tasks_ok_def by blast
  then show ?thesis
    using assms(2-4) by (auto simp: task_effect_def)
qed

lemma exec_task_effect:
  assumes "store_ok s"
  shows "task_effect i op s (exec op s)"
proof -
  have ok: "tasks_ok s" using assms by (simp add: store_ok_def)
  show ?thesis
  proof (cases op)
    case (OpClaimTask now lease)
    have "ClaimTask None now lease s = Inr (x, s') \<Longrightarrow> task_effect i op s s'" for x s'
      using claimed_lookup [OF ok] OpClaimTask unfolding task_effect_def by blast
    with OpClaimTask show ?thesis
      by (cases "ClaimTask None now lease s") (auto simp: task_effect_def)
  next
    case (OpRescheduleTask t)
    then have "RescheduleTask None t s = Inr (x, s') \<Longrightarrow> task_effect i op s s'" for x s'
      by (auto simp: RescheduleTask_Inr intro!: released_effect [OF ok])
    with OpRescheduleTask show ?thesis
      by (cases "RescheduleTask None t s") (auto simp: task_effect_def)
  next
    case (OpRetryValidation t c)
    then have "RetryValidation None t c s = Inr ((x, y), s') \<Longrightarrow> task_effect i op s s'" for x y s'
      by (auto simp: RetryValidation_Inr intro!: released_effect [OF ok])
    with OpRetryValidation show ?thesis
      by (cases "RetryValidation None t c s") (auto simp: task_effect_def)
  next
    case (OpAcceptChallenge c t)
    then show ?thesis
      by (cases "AcceptChallenge None c t s")
        (auto simp: task_effect_def AcceptChallenge_Inr prod_eq_iff)
  next
    case (OpFinalizeOrder o1 t)
    then show ?thesis
      by (cases "FinalizeOrder None o1 t s")
        (auto simp: task_effect_def FinalizeOrder_Inr prod_eq_iff)
  next
    case (OpFinishTask t)
    then show ?thesis
      by (cases "FinishTask None t s") (auto simp: task_effect_def FinishTask_Inr split: if_splits)
  next
    case (OpCompleteValidation t c a o1)
    then show ?thesis
      by (cases "CompleteValidation None t c a o1 s")
        (auto simp: task_effect_def CompleteValidation_Inr split: if_splits)
  next
    case (OpCompleteIssuance t o1 cert)
    then show ?thesis
      by (cases "CompleteIssuance None t o1 cert s")
        (auto simp: task_effect_def CompleteIssuance_tasks split: if_splits)
  qed (auto intro!: same_tasks_effect intro: tasks_kept)
qed

text \<open>Evolution that does not enqueue a task under the identifier \<open>i\<close> again.\<close>

abbreviation not_reused :: "string \<Rightarrow> Store \<Rightarrow> Store \<Rightarrow> bool" where
  "not_reused i \<equiv> evolves (\<lambda>op. \<not> enqueues i op)"

definition keep_step :: "string \<Rightarrow> Store \<Rightarrow> Store \<Rightarrow> bool" where
  "keep_step i s t \<longleftrightarrow> store_ok s \<and> (\<exists>op. \<not> enqueues i op \<and> t = exec op s)"

lemma not_reused_steps: "not_reused i s t \<Longrightarrow> store_ok s \<Longrightarrow> (keep_step i)\<^sup>*\<^sup>* s t"
proof (induction rule: evolves.induct)
  case (evolves_step s t op)
  then have "keep_step i t (exec op t)"
    using later_ok unfolding keep_step_def by blast
  with evolves_step show ?case
    by (meson rtranclp.rtrancl_into_rtrancl)
qed simp

interpretation task_fence: fenced "\<lambda>s. map_of (st_tasks s) i" tsk_Fence "keep_step i" for i
proof unfold_locales
  fix s t y
  assume "keep_step i s t" and y: "map_of (st_tasks t) i = Some y"
  then obtain op where "store_ok s" "\<not> enqueues i op" "t = exec op s"
    by (auto simp: keep_step_def)
  then show "\<exists>x. map_of (st_tasks s) i = Some x \<and> tsk_Fence x \<le> tsk_Fence y"
    using exec_task_effect [of s i op] y
    by (cases "map_of (st_tasks s) i") (auto simp: task_effect_def)
qed

end
