(* ===== verification/Store_Protocol.thy ===== *)
theory Store_Protocol
  imports Store_Versions
begin

section \<open>The protocol the server follows on the store\<close>

text \<open>
  Requests and workers interleave on one store, and each relies on the others.  \<open>proto s t\<close> states what any
  of them may do between two looks at the store: statuses move along the transitions of \<^verbatim>\<open>status.go\<close>,
  what identifies a resource never changes, a terminal resource keeps its value, a dispatched
  issuance is final, and the store stays \<open>linked\<close>.  It is a preorder, so it holds across any number of steps.

  \<open>linked\<close> is the invariant between the tables: challenges, authorizations, orders and accounts point at each
  other, a valid authorization was pre-approved or has a successful challenge, a valid order has its
  certificate, and a processing order or challenge has a task in the queue.

  The lemmas here show which writes keep \<open>linked\<close> and follow \<open>proto\<close>; the theories of the worker and of the
  request handlers show that every write of theirs is one of those.
\<close>

subsection \<open>What may change of a resource\<close>

definition account_le :: "Account \<Rightarrow> Account \<Rightarrow> bool" where
  "account_le a a' \<longleftrightarrow>
     acc_ID a' = acc_ID a \<and> acc_CreatedAt a' = acc_CreatedAt a \<and>
     acc_TermsOfServiceAgreed a' = acc_TermsOfServiceAgreed a \<and>
     acc_ExternalAccountID a' = acc_ExternalAccountID a \<and> acc_ExternalAccountClaim a' = acc_ExternalAccountClaim a \<and>
     account_CanTransition\<^sup>*\<^sup>* (acc_Status a) (acc_Status a') \<and>
     (acc_Status a \<noteq> AccountValid \<longrightarrow> a'\<lparr>acc_Revision := 0\<rparr> = a\<lparr>acc_Revision := 0\<rparr>)"

definition order_le :: "Order \<Rightarrow> Order \<Rightarrow> bool" where
  "order_le v v' \<longleftrightarrow>
     ord_ID v' = ord_ID v \<and> ord_AccountID v' = ord_AccountID v \<and> ord_Expires v' = ord_Expires v \<and>
     ord_Identifiers v' = ord_Identifiers v \<and> ord_NotBefore v' = ord_NotBefore v \<and> ord_NotAfter v' = ord_NotAfter v \<and>
     ord_AuthorizationIDs v' = ord_AuthorizationIDs v \<and> ord_Replaces v' = ord_Replaces v \<and>
     ord_Profile v' = ord_Profile v \<and> ord_CreatedAt v' = ord_CreatedAt v \<and>
     order_CanTransition\<^sup>*\<^sup>* (ord_Status v) (ord_Status v') \<and>
     (ord_Status v \<notin> {OrderPending, OrderReady} \<longrightarrow> ord_CSR v' = ord_CSR v) \<and>
     (ord_Issuance v \<noteq> None \<longrightarrow> ord_Issuance v' = ord_Issuance v) \<and>
     (order_Terminal (ord_Status v) \<longrightarrow> v'\<lparr>ord_Revision := 0\<rparr> = v\<lparr>ord_Revision := 0\<rparr>)"

definition authz_le :: "Authorization \<Rightarrow> Authorization \<Rightarrow> bool" where
  "authz_le a a' \<longleftrightarrow>
     az_ID a' = az_ID a \<and> az_AccountID a' = az_AccountID a \<and> az_OrderID a' = az_OrderID a \<and>
     az_Identifier a' = az_Identifier a \<and> az_Wildcard a' = az_Wildcard a \<and> az_ChallengeIDs a' = az_ChallengeIDs a \<and>
     az_PreApproved a' = az_PreApproved a \<and> az_CreatedAt a' = az_CreatedAt a \<and>
     authz_CanTransition\<^sup>*\<^sup>* (az_Status a) (az_Status a') \<and>
     (az_Status a' = az_Status a \<longrightarrow> a'\<lparr>az_Revision := 0\<rparr> = a\<lparr>az_Revision := 0\<rparr>)"

definition challenge_le :: "Challenge \<Rightarrow> Challenge \<Rightarrow> bool" where
  "challenge_le c c' \<longleftrightarrow>
     ch_ID c' = ch_ID c \<and> ch_AuthorizationID c' = ch_AuthorizationID c \<and> ch_AccountID c' = ch_AccountID c \<and>
     ch_Type c' = ch_Type c \<and> ch_Token c' = ch_Token c \<and>
     challenge_CanTransition\<^sup>*\<^sup>* (ch_Status c) (ch_Status c') \<and>
     (ch_Status c \<noteq> ChallengePending \<longrightarrow> ch_KeyThumbprint c' = ch_KeyThumbprint c \<and> ch_AuthorityToken c' = ch_AuthorityToken c) \<and>
     (challenge_Terminal (ch_Status c) \<longrightarrow> c'\<lparr>ch_Revision := 0\<rparr> = c\<lparr>ch_Revision := 0\<rparr>)"

definition certificate_le :: "Certificate \<Rightarrow> Certificate \<Rightarrow> bool" where
  "certificate_le c c' \<longleftrightarrow>
     crt_ID c' = crt_ID c \<and> crt_AccountID c' = crt_AccountID c \<and> crt_OrderID c' = crt_OrderID c \<and>
     crt_CAReference c' = crt_CAReference c \<and> crt_Chain c' = crt_Chain c \<and> crt_NotBefore c' = crt_NotBefore c \<and>
     crt_NotAfter c' = crt_NotAfter c \<and> crt_RenewalID c' = crt_RenewalID c \<and> crt_Validations c' = crt_Validations c \<and>
     crt_CreatedAt c' = crt_CreatedAt c \<and>
     (crt_Revoked c \<longrightarrow> c'\<lparr>crt_ReplacedByOrderID := [], crt_Revision := 0\<rparr> = c\<lparr>crt_ReplacedByOrderID := [], crt_Revision := 0\<rparr>)"

text \<open>A status that can still move is never reached again.\<close>

lemma rank_closure:
  fixes rank :: "'s \<Rightarrow> nat"
  assumes "\<And>s t. can s t \<Longrightarrow> rank s < rank t" and "can\<^sup>*\<^sup>* s t"
  shows "s = t \<or> rank s < rank t"
  using assms(2) by (induction rule: rtranclp_induct) (auto dest: assms(1))

lemma terminal_closure:
  assumes "can\<^sup>*\<^sup>* s t" and "\<And>u. \<not> can s u"
  shows "t = s"
  using assms by (metis converse_rtranclpE)

lemma order_closure:
  "order_CanTransition\<^sup>*\<^sup>* s t \<longleftrightarrow>
     s = t \<or> s = OrderPending \<and> order_Known t \<or> s = OrderReady \<and> t \<in> {OrderProcessing, OrderValid, OrderInvalid} \<or>
     s = OrderProcessing \<and> t \<in> {OrderValid, OrderInvalid}" (is "_ \<longleftrightarrow> ?r s t")
proof
  show "?r s t" if "order_CanTransition\<^sup>*\<^sup>* s t"
    using that
  proof (induction rule: rtranclp_induct)
    case (step y z)
    then show ?case by (cases y) auto
  qed simp
  let ?C = "order_CanTransition\<^sup>*\<^sup>*"
  have 1: "?C OrderPending OrderReady" "?C OrderReady OrderProcessing" "?C OrderProcessing OrderValid"
    "?C OrderPending OrderInvalid" "?C OrderReady OrderInvalid" "?C OrderProcessing OrderInvalid"
    by (rule r_into_rtranclp, simp)+
  have 2: "?C OrderPending OrderProcessing" "?C OrderReady OrderValid"
    by (rule rtranclp_trans [OF 1(1,2)] rtranclp_trans [OF 1(2,3)])+
  show "?C s t" if "?r s t"
    using that rtranclp_trans [OF 1(1) 2(2)] 1 2 by (cases t) auto
qed

lemma authz_closure:
  "authz_CanTransition\<^sup>*\<^sup>* s t \<longleftrightarrow>
     s = t \<or> s = AuthorizationPending \<and> authz_Known t \<or>
     s = AuthorizationValid \<and> t \<in> {AuthorizationDeactivated, AuthorizationExpired, AuthorizationRevoked}" (is "_ \<longleftrightarrow> ?r s t")
proof
  show "?r s t" if "authz_CanTransition\<^sup>*\<^sup>* s t"
    using that
  proof (induction rule: rtranclp_induct)
    case (step y z)
    then show ?case by (cases y) auto
  qed simp
  let ?C = "authz_CanTransition\<^sup>*\<^sup>*"
  have 1: "?C AuthorizationPending AuthorizationValid" "?C AuthorizationPending AuthorizationInvalid"
    "?C AuthorizationPending AuthorizationDeactivated" "?C AuthorizationPending AuthorizationExpired"
    "?C AuthorizationValid AuthorizationDeactivated" "?C AuthorizationValid AuthorizationExpired"
    "?C AuthorizationValid AuthorizationRevoked"
    by (rule r_into_rtranclp, simp)+
  show "?C s t" if "?r s t"
    using that rtranclp_trans [OF 1(1) 1(7)] 1 by (cases t) auto
qed

lemma challenge_closure:
  "challenge_CanTransition\<^sup>*\<^sup>* s t \<longleftrightarrow>
     s = t \<or> s = ChallengePending \<and> challenge_Known t \<or> s = ChallengeProcessing \<and> t \<in> {ChallengeValid, ChallengeInvalid}"
  (is "_ \<longleftrightarrow> ?r s t")
proof
  show "?r s t" if "challenge_CanTransition\<^sup>*\<^sup>* s t"
    using that
  proof (induction rule: rtranclp_induct)
    case (step y z)
    then show ?case by (cases y) auto
  qed simp
  let ?C = "challenge_CanTransition\<^sup>*\<^sup>*"
  have "?C ChallengePending ChallengeProcessing" "?C ChallengePending ChallengeValid" "?C ChallengePending ChallengeInvalid"
    "?C ChallengeProcessing ChallengeValid" "?C ChallengeProcessing ChallengeInvalid"
    by (rule r_into_rtranclp, simp)+
  then show "?C s t" if "?r s t"
    using that by (cases t) auto
qed

lemma account_closure:
  "account_CanTransition\<^sup>*\<^sup>* s t \<longleftrightarrow> s = t \<or> account_CanTransition s t"
proof
  show "s = t \<or> account_CanTransition s t" if "account_CanTransition\<^sup>*\<^sup>* s t"
    using that
  proof (induction rule: rtranclp_induct)
    case (step y z)
    then show ?case by (auto simp: account_CanTransition_def)
  qed simp
qed auto

lemma order_past:
  "order_CanTransition\<^sup>*\<^sup>* s t \<Longrightarrow> s \<notin> {OrderPending, OrderReady} \<Longrightarrow> t \<notin> {OrderPending, OrderReady}"
  by (auto simp: order_closure)

lemma challenge_past: "challenge_CanTransition\<^sup>*\<^sup>* s t \<Longrightarrow> s \<noteq> ChallengePending \<Longrightarrow> t \<noteq> ChallengePending"
  by (auto simp: challenge_closure)

lemma authz_back: "authz_CanTransition\<^sup>*\<^sup>* s t \<Longrightarrow> authz_CanTransition\<^sup>*\<^sup>* t s \<Longrightarrow> t = s"
  by (auto simp: authz_closure)

lemmas closures = order_closure authz_closure challenge_closure account_closure

lemma le_refl [simp, intro]:
  "account_le a a" "order_le v v" "authz_le z z" "challenge_le c c" "certificate_le t t"
  by (simp_all add: account_le_def order_le_def authz_le_def challenge_le_def certificate_le_def)

text \<open>Equality up to the revision determines the status, and so is preserved by further steps.\<close>

lemma same_status:
  "a\<lparr>acc_Revision := m\<rparr> = a'\<lparr>acc_Revision := n\<rparr> \<Longrightarrow> acc_Status a = acc_Status a'"
  "v\<lparr>ord_Revision := m\<rparr> = v'\<lparr>ord_Revision := n\<rparr> \<Longrightarrow> ord_Status v = ord_Status v'"
  "z\<lparr>az_Revision := m\<rparr> = z'\<lparr>az_Revision := n\<rparr> \<Longrightarrow> az_Status z = az_Status z'"
  "c\<lparr>ch_Revision := m\<rparr> = c'\<lparr>ch_Revision := n\<rparr> \<Longrightarrow> ch_Status c = ch_Status c'"
  "t\<lparr>crt_ReplacedByOrderID := i, crt_Revision := m\<rparr> = t'\<lparr>crt_ReplacedByOrderID := j, crt_Revision := n\<rparr> \<Longrightarrow>
     crt_Revoked t = crt_Revoked t'"
  by (drule arg_cong [of _ _ acc_Status], simp) (drule arg_cong [of _ _ ord_Status], simp,
    drule arg_cong [of _ _ az_Status], simp, drule arg_cong [of _ _ ch_Status], simp,
    drule arg_cong [of _ _ crt_Revoked], simp)

lemma account_le_trans: "account_le a b \<Longrightarrow> account_le b c \<Longrightarrow> account_le a c"
  unfolding account_le_def by (auto simp: account_closure account_CanTransition_def dest: same_status)

lemma order_le_trans:
  assumes "order_le a b" "order_le b c"
  shows "order_le a c"
proof -
  note le = assms [unfolded order_le_def]
  have "order_CanTransition\<^sup>*\<^sup>* (ord_Status a) (ord_Status c)"
    using le by (meson rtranclp_trans)
  moreover have "ord_Status b \<notin> {OrderPending, OrderReady}" if "ord_Status a \<notin> {OrderPending, OrderReady}"
    using le(1) that order_past by blast
  then have "ord_CSR c = ord_CSR a" if "ord_Status a \<notin> {OrderPending, OrderReady}"
    using le that by metis
  moreover have "ord_Issuance c = ord_Issuance a" if "ord_Issuance a \<noteq> None"
    using le that by metis
  moreover have "c\<lparr>ord_Revision := 0\<rparr> = a\<lparr>ord_Revision := 0\<rparr>" if "order_Terminal (ord_Status a)"
    using le that by (metis same_status(2))
  ultimately show ?thesis
    unfolding order_le_def using le by presburger
qed

lemma authz_le_trans:
  assumes "authz_le a b" "authz_le b c"
  shows "authz_le a c"
proof -
  note le = assms [unfolded authz_le_def]
  have "authz_CanTransition\<^sup>*\<^sup>* (az_Status a) (az_Status c)"
    using le by (meson rtranclp_trans)
  moreover have "az_Status b = az_Status a" if "az_Status c = az_Status a"
    using le(1) le(2) that authz_back by metis
  then have "c\<lparr>az_Revision := 0\<rparr> = a\<lparr>az_Revision := 0\<rparr>" if "az_Status c = az_Status a"
    using le that by metis
  ultimately show ?thesis
    unfolding authz_le_def using le by presburger
qed

lemma challenge_le_trans:
  assumes "challenge_le a b" "challenge_le b c"
  shows "challenge_le a c"
proof -
  note le = assms [unfolded challenge_le_def]
  have "challenge_CanTransition\<^sup>*\<^sup>* (ch_Status a) (ch_Status c)"
    using le by (meson rtranclp_trans)
  moreover have "ch_Status b \<noteq> ChallengePending" if "ch_Status a \<noteq> ChallengePending"
    using le(1) that challenge_past by blast
  then have "ch_KeyThumbprint c = ch_KeyThumbprint a \<and> ch_AuthorityToken c = ch_AuthorityToken a"
    if "ch_Status a \<noteq> ChallengePending"
    using le that by metis
  moreover have "c\<lparr>ch_Revision := 0\<rparr> = a\<lparr>ch_Revision := 0\<rparr>" if "challenge_Terminal (ch_Status a)"
    using le that by (metis same_status(4))
  ultimately show ?thesis
    unfolding challenge_le_def using le by presburger
qed

lemma certificate_le_trans:
  assumes "certificate_le a b" "certificate_le b c"
  shows "certificate_le a c"
proof -
  note le = assms [unfolded certificate_le_def]
  have "c\<lparr>crt_ReplacedByOrderID := [], crt_Revision := 0\<rparr> = a\<lparr>crt_ReplacedByOrderID := [], crt_Revision := 0\<rparr>"
    if "crt_Revoked a"
    using le that by (metis same_status(5))
  then show ?thesis
    unfolding certificate_le_def using le by presburger
qed

subsection \<open>Tables\<close>

definition each_le :: "('v \<Rightarrow> 'v \<Rightarrow> bool) \<Rightarrow> ('k \<rightharpoonup> 'v) \<Rightarrow> ('k \<rightharpoonup> 'v) \<Rightarrow> bool" where
  "each_le r m m' \<longleftrightarrow> (\<forall>k v. m k = Some v \<longrightarrow> (\<exists>v'. m' k = Some v' \<and> r v v'))"

lemma each_le_refl: "(\<And>v. r v v) \<Longrightarrow> each_le r m m"
  by (simp add: each_le_def)

lemma each_le_trans: "each_le r m n \<Longrightarrow> each_le r n p \<Longrightarrow> (\<And>u v w. r u v \<Longrightarrow> r v w \<Longrightarrow> r u w) \<Longrightarrow> each_le r m p"
  by (fastforce simp: each_le_def)

lemma each_le_write: "m k = Some v \<Longrightarrow> r v w \<Longrightarrow> (\<And>v. r v v) \<Longrightarrow> each_le r m (m(k \<mapsto> w))"
  by (auto simp: each_le_def)

lemma each_le_create: "m k = None \<Longrightarrow> (\<And>v. r v v) \<Longrightarrow> each_le r m (m(k \<mapsto> w))"
  by (auto simp: each_le_def)

lemma each_leD: "each_le r m m' \<Longrightarrow> m k = Some v \<Longrightarrow> \<exists>v'. m' k = Some v' \<and> r v v'"
  by (simp add: each_le_def)

definition tables_le :: "Store \<Rightarrow> Store \<Rightarrow> bool" where
  "tables_le s t \<longleftrightarrow>
     each_le account_le (st_accounts s) (st_accounts t) \<and> each_le order_le (st_orders s) (st_orders t) \<and>
     each_le authz_le (st_authzs s) (st_authzs t) \<and> each_le challenge_le (st_challenges s) (st_challenges t) \<and>
     each_le certificate_le (st_certificates s) (st_certificates t)"

lemmas each_le_refls = each_le_refl [of account_le, OF le_refl(1)] each_le_refl [of order_le, OF le_refl(2)]
  each_le_refl [of authz_le, OF le_refl(3)] each_le_refl [of challenge_le, OF le_refl(4)]
  each_le_refl [of certificate_le, OF le_refl(5)]

lemmas each_le_writes = each_le_write [of _ _ _ account_le, OF _ _ le_refl(1)] each_le_write [of _ _ _ order_le, OF _ _ le_refl(2)]
  each_le_write [of _ _ _ authz_le, OF _ _ le_refl(3)] each_le_write [of _ _ _ challenge_le, OF _ _ le_refl(4)]
  each_le_write [of _ _ _ certificate_le, OF _ _ le_refl(5)]

lemma tables_le_refl [simp, intro]: "tables_le s s"
  by (simp add: tables_le_def each_le_refls)

lemma tables_le_trans: "tables_le s t \<Longrightarrow> tables_le t u \<Longrightarrow> tables_le s u"
  unfolding tables_le_def
  by (meson each_le_trans account_le_trans order_le_trans authz_le_trans challenge_le_trans certificate_le_trans)

subsection \<open>Links between the tables\<close>

text \<open>
  A task is known by its identifier: \<open>G i\<close> is the kind and the target of the task the identifier \<open>i\<close> was
  drawn for.  That such a \<open>G\<close> exists is what random identifiers are for: none is drawn twice.
\<close>

type_synonym naming = "string \<Rightarrow> TaskKind \<times> string"

definition has_task :: "TaskKind \<Rightarrow> string \<Rightarrow> Store \<Rightarrow> bool" where
  "has_task kind i s \<longleftrightarrow> (\<exists>j t. map_of (st_tasks s) j = Some t \<and> tsk_Kind t = kind \<and> tsk_TargetID t = i)"

text \<open>The orders for which every authorization must be valid: ready, or finalized and not yet dispatched.\<close>

definition needs_valid :: "Order \<Rightarrow> bool" where
  "needs_valid v \<longleftrightarrow> ord_Status v = OrderReady \<or> ord_Status v = OrderProcessing \<and> ord_Issuance v = None"

definition challenge_linked :: "Store \<Rightarrow> string \<Rightarrow> Challenge \<Rightarrow> bool" where
  "challenge_linked s i c \<longleftrightarrow>
     (\<exists>a. st_authzs s (ch_AuthorizationID c) = Some a \<and> i \<in> set (az_ChallengeIDs a) \<and> az_AccountID a = ch_AccountID c)"

definition authz_linked :: "Store \<Rightarrow> string \<Rightarrow> Authorization \<Rightarrow> bool" where
  "authz_linked s i a \<longleftrightarrow>
     (\<exists>v. st_orders s (az_OrderID a) = Some v \<and> i \<in> set (ord_AuthorizationIDs v) \<and> ord_AccountID v = az_AccountID a) \<and>
     (\<forall>j \<in> set (az_ChallengeIDs a). \<exists>c. st_challenges s j = Some c \<and> ch_AuthorizationID c = i) \<and>
     (az_Status a = AuthorizationValid \<longrightarrow> az_PreApproved a \<or>
        (\<exists>j \<in> set (az_ChallengeIDs a). \<exists>c. st_challenges s j = Some c \<and> ch_Status c = ChallengeValid))"

definition order_linked :: "Store \<Rightarrow> string \<Rightarrow> Order \<Rightarrow> bool" where
  "order_linked s i v \<longleftrightarrow>
     st_accounts s (ord_AccountID v) \<noteq> None \<and>
     (\<forall>j \<in> set (ord_AuthorizationIDs v). \<exists>a. st_authzs s j = Some a \<and> az_OrderID a = i \<and>
        (undispatched v \<longrightarrow> \<not> authz_Terminal (az_Status a)) \<and> (needs_valid v \<longrightarrow> az_Status a = AuthorizationValid)) \<and>
     (ord_Status v = OrderValid \<longrightarrow>
        (\<exists>crt. st_certificates s (ord_CertificateID v) = Some crt \<and> crt_OrderID crt = i))"

definition task_linked :: "naming \<Rightarrow> Store \<Rightarrow> string \<Rightarrow> Task \<Rightarrow> bool" where
  "task_linked G s i t \<longleftrightarrow> G i = (tsk_Kind t, tsk_TargetID t) \<and>
     (tsk_Kind t = TaskIssue \<longrightarrow> (\<exists>v. st_orders s (tsk_TargetID t) = Some v \<and> ord_Status v \<notin> {OrderPending, OrderReady})) \<and>
     (tsk_Kind t = TaskValidate \<longrightarrow> (\<exists>c. st_challenges s (tsk_TargetID t) = Some c \<and> ch_Status c \<noteq> ChallengePending))"

definition work_kept :: "Store \<Rightarrow> bool" where
  "work_kept s \<longleftrightarrow>
     (\<forall>i v. st_orders s i = Some v \<longrightarrow> ord_Status v = OrderProcessing \<longrightarrow> has_task TaskIssue i s) \<and>
     (\<forall>i c. st_challenges s i = Some c \<longrightarrow> ch_Status c = ChallengeProcessing \<longrightarrow> has_task TaskValidate i s)"

definition links :: "Store \<Rightarrow> bool" where
  "links s \<longleftrightarrow>
     (\<forall>i c. st_challenges s i = Some c \<longrightarrow> challenge_linked s i c) \<and>
     (\<forall>i a. st_authzs s i = Some a \<longrightarrow> authz_linked s i a) \<and>
     (\<forall>i v. st_orders s i = Some v \<longrightarrow> order_linked s i v)"

definition linked :: "naming \<Rightarrow> Store \<Rightarrow> bool" where
  "linked G s \<longleftrightarrow> links s \<and> (\<forall>i t. map_of (st_tasks s) i = Some t \<longrightarrow> task_linked G s i t) \<and> work_kept s"

lemmas linked_defs = linked_def links_def challenge_linked_def authz_linked_def order_linked_def task_linked_def work_kept_def

lemma linked_empty: "linked G empty_store"
  by (simp add: linked_def links_def work_kept_def empty_store_def)

lemma linkedI:
  assumes "\<And>i c. st_challenges s i = Some c \<Longrightarrow> challenge_linked s i c"
    and "\<And>i a. st_authzs s i = Some a \<Longrightarrow> authz_linked s i a"
    and "\<And>i v. st_orders s i = Some v \<Longrightarrow> order_linked s i v"
    and "\<And>i t. map_of (st_tasks s) i = Some t \<Longrightarrow> task_linked G s i t"
    and "work_kept s"
  shows "linked G s"
  using assms by (simp add: linked_def links_def)

lemma linksI:
  assumes "\<And>i c. st_challenges s i = Some c \<Longrightarrow> challenge_linked s i c"
    and "\<And>i a. st_authzs s i = Some a \<Longrightarrow> authz_linked s i a"
    and "\<And>i v. st_orders s i = Some v \<Longrightarrow> order_linked s i v"
  shows "links s"
  using assms by (simp add: links_def)

lemma linkedD:
  assumes "linked G s"
  shows "st_challenges s i = Some c \<Longrightarrow> challenge_linked s i c"
    and "st_authzs s i = Some a \<Longrightarrow> authz_linked s i a"
    and "st_orders s i = Some v \<Longrightarrow> order_linked s i v"
    and "map_of (st_tasks s) j = Some t \<Longrightarrow> task_linked G s j t"
    and "work_kept s" and "links s"
  using assms by (simp_all add: linked_def links_def)

lemma order_le_undispatched:
  assumes "order_le v v'" "undispatched v'"
  shows "undispatched v"
proof -
  from assms(1) have "order_CanTransition\<^sup>*\<^sup>* (ord_Status v) (ord_Status v')"
    and "ord_Issuance v \<noteq> None \<longrightarrow> ord_Issuance v' = ord_Issuance v"
    by (simp_all add: order_le_def)
  then show ?thesis
    using assms(2) unfolding order_closure undispatched_def by auto
qed

subsection \<open>Writes that keep the links\<close>

lemma links_put_order:
  assumes l: "linked G s" and v: "st_orders s i = Some v" and le: "order_le v v'"
    and valid: "ord_Status v' = OrderValid \<Longrightarrow>
      \<exists>crt. st_certificates s (ord_CertificateID v') = Some crt \<and> crt_OrderID crt = i"
    and authzs: "\<And>j a. needs_valid v' \<Longrightarrow> j \<in> set (ord_AuthorizationIDs v) \<Longrightarrow> st_authzs s j = Some a \<Longrightarrow>
      az_Status a = AuthorizationValid"
  shows "links (s\<lparr>st_orders := (st_orders s)(i \<mapsto> v')\<rparr>)" (is "links ?t")
proof (rule linksI)
  have ids: "ord_AccountID v' = ord_AccountID v" "ord_AuthorizationIDs v' = ord_AuthorizationIDs v"
    using le by (simp_all add: order_le_def)
  show "challenge_linked ?t j c" if "st_challenges ?t j = Some c" for j c
    using linkedD(1) [OF l, of j c] that by (simp add: challenge_linked_def)
  show "authz_linked ?t j a" if "st_authzs ?t j = Some a" for j a
    using linkedD(2) [OF l, of j a] that v ids by (auto simp: authz_linked_def)
  show "order_linked ?t j u" if u: "st_orders ?t j = Some u" for j u
  proof (cases "j = i")
    case True
    have "\<exists>a. st_authzs s k = Some a \<and> az_OrderID a = i \<and> (undispatched v' \<longrightarrow> \<not> authz_Terminal (az_Status a)) \<and>
        (needs_valid v' \<longrightarrow> az_Status a = AuthorizationValid)" if "k \<in> set (ord_AuthorizationIDs v)" for k
      using linkedD(3) [OF l v] that authzs order_le_undispatched [OF le] unfolding order_linked_def by metis
    moreover have "st_accounts s (ord_AccountID v) \<noteq> None"
      using linkedD(3) [OF l v] by (simp add: order_linked_def)
    ultimately show ?thesis
      using True u valid ids by (simp add: order_linked_def)
  next
    case False
    then show ?thesis using linkedD(3) [OF l, of j u] u by (simp add: order_linked_def)
  qed
qed

lemma task_linked_put_order:
  assumes "task_linked G s j t" "st_orders s i = Some v" "order_le v v'"
  shows "task_linked G (s\<lparr>st_orders := (st_orders s)(i \<mapsto> v')\<rparr>) j t"
proof -
  have moves: "order_CanTransition\<^sup>*\<^sup>* (ord_Status v) (ord_Status v')"
    using assms(3) by (simp add: order_le_def)
  show ?thesis
    using assms(1,2) order_past [OF moves] by (auto simp: task_linked_def)
qed

lemma linked_put_order:
  assumes l: "linked G s" and v: "st_orders s i = Some v" and le: "order_le v v'"
    and valid: "ord_Status v' = OrderValid \<Longrightarrow>
      \<exists>crt. st_certificates s (ord_CertificateID v') = Some crt \<and> crt_OrderID crt = i"
    and work: "ord_Status v' = OrderProcessing \<Longrightarrow> has_task TaskIssue i s"
    and authzs: "\<And>j a. needs_valid v' \<Longrightarrow> j \<in> set (ord_AuthorizationIDs v) \<Longrightarrow> st_authzs s j = Some a \<Longrightarrow>
      az_Status a = AuthorizationValid"
  shows "linked G (s\<lparr>st_orders := (st_orders s)(i \<mapsto> v')\<rparr>)" (is "linked G ?t")
  unfolding linked_def
proof (intro conjI allI impI)
  show "links ?t" using l v le valid authzs by (rule links_put_order)
  show "task_linked G ?t j t" if "map_of (st_tasks ?t) j = Some t" for j t
    using linkedD(4) [OF l, of j t] that v le by (simp add: task_linked_put_order)
  show "work_kept ?t"
    using linkedD(5) [OF l] work by (auto simp: work_kept_def has_task_def)
qed

lemma linked_put_authz:
  assumes l: "linked G s" and a: "st_authzs s i = Some a" and le: "authz_le a a'"
    and valid: "az_Status a' = AuthorizationValid \<Longrightarrow> az_PreApproved a \<or>
        (\<exists>j \<in> set (az_ChallengeIDs a). \<exists>c. st_challenges s j = Some c \<and> ch_Status c = ChallengeValid)"
    and closed: "\<And>v. st_orders s (az_OrderID a) = Some v \<Longrightarrow> undispatched v \<Longrightarrow> \<not> authz_Terminal (az_Status a')"
  shows "linked G (s\<lparr>st_authzs := (st_authzs s)(i \<mapsto> a')\<rparr>)" (is "linked G ?t")
proof (rule linkedI)
  have same: "az_AccountID a' = az_AccountID a" "az_OrderID a' = az_OrderID a" "az_ChallengeIDs a' = az_ChallengeIDs a"
    "az_PreApproved a' = az_PreApproved a" and moves: "authz_CanTransition\<^sup>*\<^sup>* (az_Status a) (az_Status a')"
    using le by (simp_all add: authz_le_def)
  show "challenge_linked ?t j c" if "st_challenges ?t j = Some c" for j c
    using linkedD(1) [OF l, of j c] that a same by (auto simp: challenge_linked_def)
  show "authz_linked ?t j u" if "st_authzs ?t j = Some u" for j u
  proof (cases "j = i")
    case True
    with that have "u = a'" by simp
    with True show ?thesis using linkedD(2) [OF l a] same valid by (simp add: authz_linked_def)
  next
    case False
    then show ?thesis using linkedD(2) [OF l, of j u] that by (simp add: authz_linked_def)
  qed
  show "order_linked ?t j u" if u: "st_orders ?t j = Some u" for j u
  proof -
    have o: "order_linked s j u" using linkedD(3) [OF l, of j u] u by simp
    have "az_OrderID a' = j \<and> (undispatched u \<longrightarrow> \<not> authz_Terminal (az_Status a')) \<and>
        (needs_valid u \<longrightarrow> az_Status a' = AuthorizationValid)" if i: "i \<in> set (ord_AuthorizationIDs u)"
    proof -
      from o i a have id: "az_OrderID a = j" "needs_valid u \<longrightarrow> az_Status a = AuthorizationValid"
        unfolding order_linked_def by fastforce+
      have "authz_Terminal (az_Status a') \<or> az_Status a' = az_Status a" if "az_Status a = AuthorizationValid"
        using moves that unfolding authz_closure authz_Terminal_def by auto
      moreover have "undispatched u" if "needs_valid u"
        using that by (auto simp: needs_valid_def undispatched_def)
      ultimately show ?thesis using id closed [of u] u same by auto
    qed
    with o show ?thesis by (auto simp: order_linked_def)
  qed
  show "task_linked G ?t j t" if "map_of (st_tasks ?t) j = Some t" for j t
    using linkedD(4) [OF l, of j t] that by (simp add: task_linked_def)
  show "work_kept ?t"
    using linkedD(5) [OF l] by (simp add: work_kept_def has_task_def)
qed

lemma links_put_challenge:
  assumes l: "linked G s" and c: "st_challenges s i = Some c" and le: "challenge_le c c'"
  shows "links (s\<lparr>st_challenges := (st_challenges s)(i \<mapsto> c')\<rparr>)" (is "links ?t")
proof (rule linksI)
  have same: "ch_AccountID c' = ch_AccountID c" "ch_AuthorizationID c' = ch_AuthorizationID c"
    and moves: "challenge_CanTransition\<^sup>*\<^sup>* (ch_Status c) (ch_Status c')"
    using le by (simp_all add: challenge_le_def)
  have still: "ch_Status c' = ChallengeValid" if "ch_Status c = ChallengeValid"
    using moves that unfolding challenge_closure by auto
  show "challenge_linked ?t j u" if "st_challenges ?t j = Some u" for j u
    using linkedD(1) [OF l c] linkedD(1) [OF l, of j u] that same
    by (cases "j = i") (simp_all add: challenge_linked_def)
  show "authz_linked ?t j a" if "st_authzs ?t j = Some a" for j a
  proof -
    have "authz_linked s j a" using linkedD(2) [OF l, of j a] that by simp
    then show ?thesis using c still same by (fastforce simp: authz_linked_def)
  qed
  show "order_linked ?t j u" if "st_orders ?t j = Some u" for j u
    using linkedD(3) [OF l, of j u] that by (simp add: order_linked_def)
qed

lemma task_linked_put_challenge:
  assumes "task_linked G s j t" "st_challenges s i = Some c" "challenge_le c c'"
  shows "task_linked G (s\<lparr>st_challenges := (st_challenges s)(i \<mapsto> c')\<rparr>) j t"
proof -
  have moves: "challenge_CanTransition\<^sup>*\<^sup>* (ch_Status c) (ch_Status c')"
    using assms(3) by (simp add: challenge_le_def)
  show ?thesis
    using assms(1,2) challenge_past [OF moves] by (auto simp: task_linked_def)
qed

lemma linked_put_challenge:
  assumes l: "linked G s" and c: "st_challenges s i = Some c" and le: "challenge_le c c'"
    and work: "ch_Status c' = ChallengeProcessing \<Longrightarrow> has_task TaskValidate i s"
  shows "linked G (s\<lparr>st_challenges := (st_challenges s)(i \<mapsto> c')\<rparr>)" (is "linked G ?t")
  unfolding linked_def
proof (intro conjI allI impI)
  show "links ?t" using l c le by (rule links_put_challenge)
  show "task_linked G ?t j t" if "map_of (st_tasks ?t) j = Some t" for j t
    using linkedD(4) [OF l, of j t] that c le by (simp add: task_linked_put_challenge)
  show "work_kept ?t"
    using linkedD(5) [OF l] work by (auto simp: work_kept_def has_task_def)
qed

text \<open>The queue: what a change of the tasks must keep.\<close>

lemma linked_tasks:
  assumes l: "linked G s"
    and new: "\<And>i t. map_of ts i = Some t \<Longrightarrow> task_linked G s i t"
    and issue: "\<And>i v. st_orders s i = Some v \<Longrightarrow> ord_Status v = OrderProcessing \<Longrightarrow>
      \<exists>j t. map_of ts j = Some t \<and> tsk_Kind t = TaskIssue \<and> tsk_TargetID t = i"
    and validate: "\<And>i c. st_challenges s i = Some c \<Longrightarrow> ch_Status c = ChallengeProcessing \<Longrightarrow>
      \<exists>j t. map_of ts j = Some t \<and> tsk_Kind t = TaskValidate \<and> tsk_TargetID t = i"
  shows "linked G (s\<lparr>st_tasks := ts\<rparr>)"
proof (rule linkedI)
  show "work_kept (s\<lparr>st_tasks := ts\<rparr>)"
    using issue validate by (simp add: work_kept_def has_task_def)
qed (use assms in \<open>simp_all add: linked_def links_def challenge_linked_def authz_linked_def order_linked_def task_linked_def\<close>)

definition unneeded :: "Store \<Rightarrow> TaskKind \<times> string \<Rightarrow> bool" where
  "unneeded s g \<longleftrightarrow>
     (\<forall>v. fst g = TaskIssue \<longrightarrow> st_orders s (snd g) = Some v \<longrightarrow> ord_Status v \<noteq> OrderProcessing) \<and>
     (\<forall>c. fst g = TaskValidate \<longrightarrow> st_challenges s (snd g) = Some c \<longrightarrow> ch_Status c \<noteq> ChallengeProcessing)"

lemma linked_remove_task:
  assumes l: "linked G s" and "unneeded s (G i)"
  shows "linked G (s\<lparr>st_tasks := alist_del i (st_tasks s)\<rparr>)"
proof (rule linked_tasks [OF l])
  show "task_linked G s j t" if "map_of (alist_del i (st_tasks s)) j = Some t" for j t
    using linkedD(4) [OF l] that by (simp split: if_splits)
  have keep: "map_of (alist_del i (st_tasks s)) j = Some t"
    if "map_of (st_tasks s) j = Some t" "(tsk_Kind t, tsk_TargetID t) \<noteq> G i" for j t
  proof -
    have "j \<noteq> i" using linkedD(4) [OF l that(1)] that(2) by (auto simp: task_linked_def)
    with that(1) show ?thesis by simp
  qed
  show "\<exists>j t. map_of (alist_del i (st_tasks s)) j = Some t \<and> tsk_Kind t = TaskIssue \<and> tsk_TargetID t = k"
    if k: "st_orders s k = Some v" "ord_Status v = OrderProcessing" for k v
  proof -
    obtain j t where t: "map_of (st_tasks s) j = Some t" "tsk_Kind t = TaskIssue" "tsk_TargetID t = k"
      using linkedD(5) [OF l] k unfolding work_kept_def has_task_def by blast
    moreover have "G i \<noteq> (TaskIssue, k)"
      using assms(2) k by (auto simp: unneeded_def)
    ultimately show ?thesis using keep by metis
  qed
  show "\<exists>j t. map_of (alist_del i (st_tasks s)) j = Some t \<and> tsk_Kind t = TaskValidate \<and> tsk_TargetID t = k"
    if k: "st_challenges s k = Some c" "ch_Status c = ChallengeProcessing" for k c
  proof -
    obtain j t where t: "map_of (st_tasks s) j = Some t" "tsk_Kind t = TaskValidate" "tsk_TargetID t = k"
      using linkedD(5) [OF l] k unfolding work_kept_def has_task_def by blast
    moreover have "G i \<noteq> (TaskValidate, k)"
      using assms(2) k by (auto simp: unneeded_def)
    ultimately show ?thesis using keep by metis
  qed
qed

lemma linked_put_task:
  assumes l: "linked G s" and t: "map_of (st_tasks s) i = Some t"
    and same: "tsk_Kind t' = tsk_Kind t" "tsk_TargetID t' = tsk_TargetID t"
  shows "linked G (s\<lparr>st_tasks := alist_put i t' (st_tasks s)\<rparr>)"
proof (rule linked_tasks [OF l])
  show "task_linked G s j u" if "map_of (alist_put i t' (st_tasks s)) j = Some u" for j u
    using linkedD(4) [OF l t] linkedD(4) [OF l, of j u] that same by (auto simp: task_linked_def split: if_splits)
  have keep: "\<exists>u. map_of (alist_put i t' (st_tasks s)) j = Some u \<and> tsk_Kind u = k \<and> tsk_TargetID u = x"
    if "map_of (st_tasks s) j = Some u" "tsk_Kind u = k" "tsk_TargetID u = x" for j u k x
    using that t same by (cases "j = i") auto
  show "\<exists>j t. map_of (alist_put i t' (st_tasks s)) j = Some t \<and> tsk_Kind t = TaskIssue \<and> tsk_TargetID t = k"
    if "st_orders s k = Some v" "ord_Status v = OrderProcessing" for k v
    using linkedD(5) [OF l] that keep unfolding work_kept_def has_task_def by blast
  show "\<exists>j t. map_of (alist_put i t' (st_tasks s)) j = Some t \<and> tsk_Kind t = TaskValidate \<and> tsk_TargetID t = k"
    if "st_challenges s k = Some c" "ch_Status c = ChallengeProcessing" for k c
    using linkedD(5) [OF l] that keep unfolding work_kept_def has_task_def by blast
qed

lemma linked_other_tables:
  assumes "linked G s" "st_orders t = st_orders s" "st_authzs t = st_authzs s" "st_challenges t = st_challenges s"
    "st_tasks t = st_tasks s" "\<And>i. st_accounts s i \<noteq> None \<Longrightarrow> st_accounts t i \<noteq> None"
    "\<And>i c. st_certificates s i = Some c \<Longrightarrow> \<exists>c'. st_certificates t i = Some c' \<and> crt_OrderID c' = crt_OrderID c"
  shows "linked G t"
proof (rule linkedI)
  show "order_linked t i v" if "st_orders t i = Some v" for i v
  proof -
    have "order_linked s i v" using linkedD(3) [OF assms(1), of i v] that assms(2) by simp
    then show ?thesis
      using assms(3) assms(6) assms(7) unfolding order_linked_def by metis
  qed
qed (use assms in \<open>simp_all add: linked_def links_def challenge_linked_def authz_linked_def task_linked_def work_kept_def has_task_def\<close>)

lemma links_same:
  assumes "st_orders t = st_orders s" "st_authzs t = st_authzs s" "st_challenges t = st_challenges s"
    "st_accounts t = st_accounts s" "st_certificates t = st_certificates s"
  shows "links t \<longleftrightarrow> links s"
  by (simp add: linked_defs assms)

lemma linked_same:
  assumes "st_orders t = st_orders s" "st_authzs t = st_authzs s" "st_challenges t = st_challenges s"
    "map_of (st_tasks t) = map_of (st_tasks s)" "st_accounts t = st_accounts s" "st_certificates t = st_certificates s"
  shows "linked G t \<longleftrightarrow> linked G s"
  by (simp add: linked_defs has_task_def assms)

subsection \<open>The protocol\<close>

definition healthy :: "naming \<Rightarrow> Store \<Rightarrow> bool" where
  "healthy G s \<longleftrightarrow> store_ok s \<and> linked G s"

definition proto :: "naming \<Rightarrow> Store \<Rightarrow> Store \<Rightarrow> bool" where
  "proto G s t \<longleftrightarrow> later s t \<and> (healthy G s \<longrightarrow> tables_le s t \<and> linked G t)"

lemma proto_refl [simp, intro]: "proto G s s"
  by (simp add: proto_def healthy_def evolves.intros(1))

lemma proto_healthy: "proto G s t \<Longrightarrow> healthy G s \<Longrightarrow> healthy G t"
  using later_ok unfolding proto_def healthy_def by blast

lemma proto_trans [trans]:
  assumes "proto G s t" "proto G t u"
  shows "proto G s u"
proof -
  have "healthy G s \<Longrightarrow> tables_le s u \<and> linked G u"
    using assms proto_healthy [OF assms(1)] tables_le_trans unfolding proto_def by blast
  with assms show ?thesis
    unfolding proto_def using evolves_trans by blast
qed

lemma protoD:
  assumes "proto G s t" "healthy G s"
  shows "later s t" "tables_le s t" "healthy G t"
  using assms proto_healthy [OF assms] by (simp_all add: proto_def)

lemma proto_order:
  assumes "proto G s t" "healthy G s" "st_orders s i = Some v"
  obtains v' where "st_orders t i = Some v'" "order_le v v'"
  using assms protoD(2) unfolding tables_le_def by (meson each_leD)

lemma proto_authz:
  assumes "proto G s t" "healthy G s" "st_authzs s i = Some v"
  obtains v' where "st_authzs t i = Some v'" "authz_le v v'"
  using assms protoD(2) unfolding tables_le_def by (meson each_leD)

lemma proto_challenge:
  assumes "proto G s t" "healthy G s" "st_challenges s i = Some v"
  obtains v' where "st_challenges t i = Some v'" "challenge_le v v'"
  using assms protoD(2) unfolding tables_le_def by (meson each_leD)

lemma proto_account:
  assumes "proto G s t" "healthy G s" "st_accounts s i = Some v"
  obtains v' where "st_accounts t i = Some v'" "account_le v v'"
  using assms protoD(2) unfolding tables_le_def by (meson each_leD)

lemma proto_certificate:
  assumes "proto G s t" "healthy G s" "st_certificates s i = Some v"
  obtains v' where "st_certificates t i = Some v'" "certificate_le v v'"
  using assms protoD(2) unfolding tables_le_def by (meson each_leD)

text \<open>A write that compares revisions meets the value that was read.\<close>

lemma proto_same_revision:
  assumes "proto G s t"
  shows "st_orders s i = Some v \<Longrightarrow> st_orders t i = Some v' \<Longrightarrow> ord_Revision v' = ord_Revision v \<Longrightarrow> v' = v"
    and "st_authzs s i = Some a \<Longrightarrow> st_authzs t i = Some a' \<Longrightarrow> az_Revision a' = az_Revision a \<Longrightarrow> a' = a"
    and "st_challenges s i = Some c \<Longrightarrow> st_challenges t i = Some c' \<Longrightarrow> ch_Revision c' = ch_Revision c \<Longrightarrow> c' = c"
    and "st_accounts s i = Some u \<Longrightarrow> st_accounts t i = Some u' \<Longrightarrow> acc_Revision u' = acc_Revision u \<Longrightarrow> u' = u"
    and "st_certificates s i = Some x \<Longrightarrow> st_certificates t i = Some x' \<Longrightarrow> crt_Revision x' = crt_Revision x \<Longrightarrow> x' = x"
  using assms unfolding proto_def later_iff
  by (blast dest: orders.same_revision_same_value authorizations.same_revision_same_value
      challenges.same_revision_same_value accounts.same_revision_same_value certificates.same_revision_same_value)+

lemma le_bump [simp]:
  "account_le a (b\<lparr>acc_Revision := n\<rparr>) \<longleftrightarrow> account_le a b"
  "order_le v (bump_order w) \<longleftrightarrow> order_le v w"
  "authz_le z (bump_authz y) \<longleftrightarrow> authz_le z y"
  "challenge_le c (bump_challenge d) \<longleftrightarrow> challenge_le c d"
  "certificate_le t (u\<lparr>crt_Revision := n\<rparr>) \<longleftrightarrow> certificate_le t u"
  by (simp_all add: account_le_def order_le_def authz_le_def challenge_le_def certificate_le_def
      bump_order_def bump_authz_def bump_challenge_def)

lemma later_exec: "later s (exec op s)"
  by auto

end
