(* ===== verification/Store_Guarantee.thy ===== *)
theory Store_Guarantee
  imports Store_Protocol
begin

section \<open>Which calls of the store follow the protocol\<close>

text \<open>
  One lemma for each operation that writes: what the caller must know of the value it read for the call to be a
  step of \<open>proto\<close>.  The value under the same revision is the one read (\<open>proto_same_revision\<close>), so these are
  conditions on what the caller changes.
\<close>

lemma protoI:
  assumes "s' = exec op s" and "healthy G s \<Longrightarrow> tables_le s s'" and "healthy G s \<Longrightarrow> linked G s'"
  shows "proto G s s'"
  using assms later_exec by (auto simp: proto_def)

lemma healthy_ids:
  assumes "healthy G s"
  shows "st_orders s i = Some v \<Longrightarrow> ord_ID v = i" "st_authzs s i = Some a \<Longrightarrow> az_ID a = i"
    "st_challenges s i = Some c \<Longrightarrow> ch_ID c = i" "st_accounts s i = Some u \<Longrightarrow> acc_ID u = i"
    "st_certificates s i = Some x \<Longrightarrow> crt_ID x = i" "map_of (st_tasks s) i = Some t \<Longrightarrow> tsk_ID t = i"
  using assms by (simp_all add: healthy_def store_ok_def orders_ok_def authzs_ok_def challenges_ok_def accounts_ok_def
      certificates_ok_def tasks_ok_def)

lemma healthy_linked: "healthy G s \<Longrightarrow> linked G s"
  by (simp add: healthy_def)

lemma bump_fields [simp]:
  "ord_AuthorizationIDs (bump_order v) = ord_AuthorizationIDs v" "ord_CertificateID (bump_order v) = ord_CertificateID v"
  "needs_valid (bump_order v) = needs_valid v" "undispatched (bump_order v) = undispatched v"
  "az_ChallengeIDs (bump_authz a) = az_ChallengeIDs a" "az_PreApproved (bump_authz a) = az_PreApproved a"
  by (simp_all add: bump_order_def bump_authz_def needs_valid_def undispatched_def)

lemma proto_CreateAccount:
  assumes "CreateAccount ctx a s = Inr (a', s')"
  shows "proto G s s'"
proof (rule protoI)
  note c = CreateAccount_Inr [OF assms]
  show "s' = exec (OpCreateAccount a) s"
    using assms c(1) by simp
  show "tables_le s s'"
    using c(4) unfolding c(8) by (simp add: tables_le_def each_le_refls each_le_create)
  show "linked G s'" if "healthy G s"
    by (rule linked_other_tables [OF healthy_linked [OF that]]) (simp_all add: c(8))
qed

lemma proto_UpdateAccount:
  assumes "UpdateAccount ctx a s = Inr (a', s')"
    and le: "\<And>w. st_accounts s (acc_ID a) = Some w \<Longrightarrow> acc_Revision w = acc_Revision a \<Longrightarrow> account_le w a"
  shows "proto G s s'"
  using assms(1)
proof (rule UpdateAccount_Inr)
  fix w
  assume w: "ctx = None" "st_accounts s (acc_ID a) = Some w" "acc_Revision w = acc_Revision a"
    "a' = a\<lparr>acc_Revision := acc_Revision a + 1\<rparr>"
    and s': "s' = s\<lparr>st_accounts := (st_accounts s)(acc_ID a \<mapsto> a'),
            st_accountByKey := ((st_accountByKey s)(acc_KeyThumbprint w := None))(acc_KeyThumbprint a \<mapsto> acc_ID a),
            st_accountByClaim := (if acc_ExternalAccountClaim a \<noteq> []
              then ((st_accountByClaim s)(acc_ExternalAccountClaim w := None))(acc_ExternalAccountClaim a \<mapsto> acc_ID a)
              else (st_accountByClaim s)(acc_ExternalAccountClaim w := None))\<rparr>"
  show ?thesis
  proof (rule protoI)
    show "s' = exec (OpUpdateAccount a) s" using assms(1) w(1) by simp
    show "tables_le s s'"
      using le [OF w(2,3)] w(2) unfolding s' w(4) by (simp add: tables_le_def each_le_refls each_le_writes)
    show "linked G s'" if "healthy G s"
      by (rule linked_other_tables [OF healthy_linked [OF that]]) (simp_all add: s')
  qed
qed

lemma proto_UpdateCertificate:
  assumes "UpdateCertificate ctx c s = Inr (c', s')"
    and le: "\<And>w. st_certificates s (crt_ID c) = Some w \<Longrightarrow> crt_Revision w = crt_Revision c \<Longrightarrow> certificate_le w c"
  shows "proto G s s'"
  using assms(1)
proof (rule UpdateCertificate_Inr)
  fix w
  assume w: "ctx = None" "st_certificates s (crt_ID c) = Some w" "crt_Revision w = crt_Revision c"
    and c': "c' = c\<lparr>crt_Revision := crt_Revision c + 1\<rparr>"
    and s': "s' = s\<lparr>st_certificates := (st_certificates s)(crt_ID c \<mapsto> c')\<rparr>"
  note le = le [OF w(2,3)]
  show ?thesis
  proof (rule protoI)
    show "s' = exec (OpUpdateCertificate c) s" using assms(1) w(1) by simp
    show "tables_le s s'"
      using le w(2) unfolding s' c' by (simp add: tables_le_def each_le_refls each_le_writes)
    show "linked G s'" if "healthy G s"
      using le w(2) by (intro linked_other_tables [OF healthy_linked [OF that]]) (auto simp: s' c' certificate_le_def)
  qed
qed

lemma invalidated_le:
  "undispatched v \<Longrightarrow> order_le v (v\<lparr>ord_Status := OrderInvalid, ord_Error := e, ord_Revision := n\<rparr>)"
  by (auto simp: order_le_def order_closure undispatched_def order_Terminal_def)

lemma proto_UpdateAuthorization:
  assumes "UpdateAuthorization ctx a s = Inr (a', s')"
    and le: "\<And>w. st_authzs s (az_ID a) = Some w \<Longrightarrow> az_Revision w = az_Revision a \<Longrightarrow>
      authz_le w a \<and> (az_Status a = AuthorizationValid \<longrightarrow> az_Status w = AuthorizationValid)"
  shows "proto G s s'"
  using assms(1)
proof (rule UpdateAuthorization_Inr)
  fix w
  assume w: "ctx = None" "st_authzs s (az_ID a) = Some w" "az_Revision w = az_Revision a" "a' = bump_authz a"
    and s': "s' = (case st_orders s (az_OrderID a) of
             Some order \<Rightarrow>
               if authz_Terminal (az_Status a) \<and> undispatched order
               then (put_authz a' s)\<lparr>st_orders := (st_orders s)(az_OrderID a \<mapsto>
                      order\<lparr>ord_Status := OrderInvalid, ord_Error := Some InvalidAuthorizationProblem,
                            ord_Revision := ord_Revision order + 1\<rparr>)\<rparr>
               else put_authz a' s
           | None \<Rightarrow> put_authz a' s)"
  have le: "authz_le w a" "az_Status a = AuthorizationValid \<Longrightarrow> az_Status w = AuthorizationValid"
    using le [OF w(2,3)] by auto
  then have ids: "az_OrderID a = az_OrderID w"
    by (simp add: authz_le_def)
  define t where "t = (case st_orders s (az_OrderID a) of
      Some v \<Rightarrow> if authz_Terminal (az_Status a) \<and> undispatched v
        then s\<lparr>st_orders := (st_orders s)(az_OrderID a \<mapsto>
                      v\<lparr>ord_Status := OrderInvalid, ord_Error := Some InvalidAuthorizationProblem,
                            ord_Revision := ord_Revision v + 1\<rparr>)\<rparr> else s
    | None \<Rightarrow> s)"
  have s'_t: "s' = t\<lparr>st_authzs := (st_authzs t)(az_ID a \<mapsto> a')\<rparr>"
    by (simp add: s' t_def put_authz_def w(4) split: option.split)
  have t: "st_authzs t = st_authzs s" "st_accounts t = st_accounts s" "st_challenges t = st_challenges s"
    "st_certificates t = st_certificates s" "each_le order_le (st_orders s) (st_orders t)"
    by (auto simp: t_def each_le_refls split: option.split intro!: each_le_writes invalidated_le)
  have undispatched: "\<not> authz_Terminal (az_Status a')" if "st_orders t (az_OrderID w) = Some v" "undispatched v" for v
    using that w(4) ids by (auto simp: t_def bump_authz_def undispatched_def split: option.splits if_splits)
  show ?thesis
  proof (rule protoI)
    show "s' = exec (OpUpdateAuthorization a) s" using assms(1) w(1) by simp
    show "tables_le s s'"
      using le(1) w(2) t unfolding s'_t w(4) by (simp add: tables_le_def each_le_refls each_le_writes)
    show "linked G s'" if h: "healthy G s"
    proof -
      note l = healthy_linked [OF h]
      have "linked G t"
        using l linked_put_order [OF l _ invalidated_le] by (auto simp: t_def needs_valid_def split: option.split)
      then show ?thesis
        unfolding s'_t
      proof (rule linked_put_authz)
        show "st_authzs t (az_ID a) = Some w" "authz_le w a'"
          using w le(1) t by simp_all
        show "az_PreApproved w \<or> (\<exists>j\<in>set (az_ChallengeIDs w). \<exists>c. st_challenges t j = Some c \<and> ch_Status c = ChallengeValid)"
          if "az_Status a' = AuthorizationValid"
          using linkedD(2) [OF l w(2)] le(2) that w(4) t by (simp add: authz_linked_def bump_authz_def)
      qed (rule undispatched)
    qed
  qed
qed

lemma proto_BeginIssuance:
  assumes "BeginIssuance ctx t v acc as s = Inr (v', s')"
    and le: "\<And>w. st_orders s (ord_ID v) = Some w \<Longrightarrow> ord_Revision w = ord_Revision v \<Longrightarrow>
      order_le w v \<and> ord_Status v = ord_Status w"
  shows "proto G s s'"
  using assms(1)
proof (rule BeginIssuance_Inr)
  fix wt w wa st
  assume w: "ctx = None" "st_orders s (ord_ID v) = Some w" "ord_Revision w = ord_Revision v"
    "ord_Status w = OrderProcessing" "ord_Issuance v = Some st" "v' = bump_order v" "s' = put_order v' s"
  have le: "order_le w v" "ord_Status v = OrderProcessing"
    using le [OF w(2,3)] w(4) by auto
  have s': "s' = s\<lparr>st_orders := (st_orders s)(ord_ID v \<mapsto> bump_order v)\<rparr>"
    by (simp add: w(6,7) put_order_def)
  show ?thesis
  proof (rule protoI)
    show "s' = exec (OpBeginIssuance t v acc as) s" using assms(1) w(1) by simp
    show "tables_le s s'"
      using le(1) w(2) unfolding s' by (simp add: tables_le_def each_le_refls each_le_writes)
    show "linked G s'" if h: "healthy G s"
      unfolding s'
    proof (rule linked_put_order [OF healthy_linked [OF h] w(2)])
      show "has_task TaskIssue (ord_ID v) s"
        using linkedD(5) [OF healthy_linked [OF h]] w(2,4) by (simp add: work_kept_def)
    qed (use le w(5) in \<open>simp_all add: needs_valid_def\<close>)
  qed
qed

text \<open>Work is accepted together with its task: the resource turns to processing and the task appears in one step.\<close>

lemma has_task_insert:
  assumes "map_of (st_tasks s) i = None" "map_of (st_tasks s') = (map_of (st_tasks s))(i \<mapsto> t)"
  shows "has_task k x s' \<longleftrightarrow> has_task k x s \<or> tsk_Kind t = k \<and> tsk_TargetID t = x"
  using assms by (auto simp: has_task_def) (metis option.distinct(1))

lemma proto_FinalizeOrder:
  assumes "FinalizeOrder ctx v t s = Inr ((v', t'), s')"
    and le: "\<And>w. healthy G s \<Longrightarrow> st_orders s (ord_ID v) = Some w \<Longrightarrow> ord_Revision w = ord_Revision v \<Longrightarrow>
      order_le w v \<and> (\<forall>j \<in> set (ord_AuthorizationIDs w). \<forall>a. st_authzs s j = Some a \<longrightarrow> az_Status a = AuthorizationValid)"
    and v: "ord_Status v = OrderProcessing"
    and t: "tsk_Kind t = TaskIssue" "tsk_TargetID t = ord_ID v" "G (tsk_ID t) = (TaskIssue, ord_ID v)"
  shows "proto G s s'"
proof -
  from assms(1) obtain w where w: "ctx = None" "st_orders s (ord_ID v) = Some w" "ord_Revision w = ord_Revision v"
    and fresh: "map_of (st_tasks s) (tsk_ID t) = None" and s': "s' = snd (insertTask t (put_order (bump_order v) s))"
    by (auto simp: FinalizeOrder_Inr prod_eq_iff)
  note le = le [OF _ w(2,3)]
  let ?u = "s\<lparr>st_orders := (st_orders s)(ord_ID v \<mapsto> bump_order v)\<rparr>"
  define t1 where "t1 = fst (insertTask t (put_order (bump_order v) s))"
  have t1: "tsk_Kind t1 = TaskIssue" "tsk_TargetID t1 = ord_ID v"
    by (simp_all add: t1_def insertTask_def Let_def t)
  have same: "st_authzs s' = st_authzs s" "st_accounts s' = st_accounts s" "st_certificates s' = st_certificates s"
    "st_challenges s' = st_challenges s" "st_orders s' = (st_orders s)(ord_ID v \<mapsto> bump_order v)"
    and tasks: "map_of (st_tasks s') = (map_of (st_tasks s))(tsk_ID t \<mapsto> t1)"
    by (simp_all add: s' t1_def)
  have bump: "ord_Status (bump_order v) = OrderProcessing"
    by (simp add: bump_order_def v)
  show ?thesis
  proof (rule protoI)
    show "s' = exec (OpFinalizeOrder v t) s" using assms(1) w(1) by simp
    show "tables_le s s'" if "healthy G s"
      using le [OF that] w(2) by (simp add: tables_le_def each_le_refls each_le_writes same)
    show "linked G s'" if h: "healthy G s"
      unfolding linked_def
    proof (intro conjI allI impI)
      note l = healthy_linked [OF h] and le = le [OF h]
      have "links ?u"
      proof (rule links_put_order [OF l w(2)])
        show "az_Status a = AuthorizationValid" if "j \<in> set (ord_AuthorizationIDs w)" "st_authzs s j = Some a" for j a
          using le that by blast
      qed (use le bump in simp_all)
      then show "links s'" by (simp add: links_same [of s' ?u] same)
      show "task_linked G s' j u" if j: "map_of (st_tasks s') j = Some u" for j u
      proof (cases "j = tsk_ID t")
        case True
        then show ?thesis using j t(3) t1 bump by (simp add: tasks task_linked_def same)
      next
        case False
        then have "task_linked G ?u j u"
          using linkedD(4) [OF l, of j u] j w(2) le by (simp add: tasks task_linked_put_order)
        then show ?thesis by (simp add: task_linked_def same)
      qed
      show "work_kept s'"
        using linkedD(5) [OF l] t1 by (auto simp: work_kept_def has_task_insert [OF fresh tasks] same)
    qed
  qed
qed

lemma proto_AcceptChallenge:
  assumes "AcceptChallenge ctx c t s = Inr ((c', t'), s')"
    and le: "\<And>w. st_challenges s (ch_ID c) = Some w \<Longrightarrow> ch_Revision w = ch_Revision c \<Longrightarrow> challenge_le w c"
    and c: "ch_Status c = ChallengeProcessing"
    and t: "tsk_Kind t = TaskValidate" "tsk_TargetID t = ch_ID c" "G (tsk_ID t) = (TaskValidate, ch_ID c)"
  shows "proto G s s'"
proof -
  from assms(1) obtain w where w: "ctx = None" "st_challenges s (ch_ID c) = Some w" "ch_Revision w = ch_Revision c"
    and fresh: "map_of (st_tasks s) (tsk_ID t) = None" and s': "s' = snd (insertTask t (put_challenge (bump_challenge c) s))"
    by (auto simp: AcceptChallenge_Inr prod_eq_iff)
  note le = le [OF w(2,3)]
  let ?u = "s\<lparr>st_challenges := (st_challenges s)(ch_ID c \<mapsto> bump_challenge c)\<rparr>"
  define t1 where "t1 = fst (insertTask t (put_challenge (bump_challenge c) s))"
  have t1: "tsk_Kind t1 = TaskValidate" "tsk_TargetID t1 = ch_ID c"
    by (simp_all add: t1_def insertTask_def Let_def t)
  have same: "st_authzs s' = st_authzs s" "st_accounts s' = st_accounts s" "st_certificates s' = st_certificates s"
    "st_challenges s' = (st_challenges s)(ch_ID c \<mapsto> bump_challenge c)" "st_orders s' = st_orders s"
    and tasks: "map_of (st_tasks s') = (map_of (st_tasks s))(tsk_ID t \<mapsto> t1)"
    by (simp_all add: s' t1_def)
  have bump: "ch_Status (bump_challenge c) = ChallengeProcessing"
    by (simp add: bump_challenge_def c)
  show ?thesis
  proof (rule protoI)
    show "s' = exec (OpAcceptChallenge c t) s" using assms(1) w(1) by simp
    show "tables_le s s'"
      using le w(2) by (simp add: tables_le_def each_le_refls each_le_writes same)
    show "linked G s'" if h: "healthy G s"
      unfolding linked_def
    proof (intro conjI allI impI)
      note l = healthy_linked [OF h]
      have "links ?u"
        using l w(2) by (rule links_put_challenge) (simp add: le)
      then show "links s'" by (simp add: links_same [of s' ?u] same)
      show "task_linked G s' j u" if j: "map_of (st_tasks s') j = Some u" for j u
      proof (cases "j = tsk_ID t")
        case True
        then show ?thesis using j t(3) t1 bump by (simp add: tasks task_linked_def same)
      next
        case False
        then have "task_linked G ?u j u"
          using linkedD(4) [OF l, of j u] j w(2) le by (simp add: tasks task_linked_put_challenge)
        then show ?thesis by (simp add: task_linked_def same)
      qed
      show "work_kept s'"
        using linkedD(5) [OF l] t1 by (auto simp: work_kept_def has_task_insert [OF fresh tasks] same)
    qed
  qed
qed

subsection \<open>The queue\<close>

lemma tables_le_same:
  "st_orders t = st_orders s \<Longrightarrow> st_authzs t = st_authzs s \<Longrightarrow> st_challenges t = st_challenges s \<Longrightarrow>
   st_accounts t = st_accounts s \<Longrightarrow> st_certificates t = st_certificates s \<Longrightarrow> tables_le s t"
  by (simp add: tables_le_def each_le_refls)

lemma linked_released:
  assumes h: "healthy G s" and "linked G u" and t: "map_of (st_tasks s) (tsk_ID t) = Some w" "st_tasks u = st_tasks s"
  shows "linked G (put_task (release_task t w) u)"
proof -
  have "tsk_ID w = tsk_ID t" using healthy_ids(6) [OF h t(1)] .
  then have id: "tsk_ID (release_task t w) = tsk_ID t" by (simp add: release_task_def)
  have "map_of (st_tasks u) (tsk_ID t) = Some w" using t by simp
  from linked_put_task [OF assms(2) this, of "release_task t w"] show ?thesis
    by (simp add: put_task_def release_task_def \<open>tsk_ID w = tsk_ID t\<close>)
qed

lemma proto_ClaimTask:
  assumes "ClaimTask ctx now lease s = Inr (t', s')"
  shows "proto G s s'"
proof -
  from assms obtain t where t: "ctx = None" "best_task s now None (map snd (st_tasks s)) = Some t"
    "t' = t\<lparr>tsk_LeaseUntil := lease, tsk_Fence := tsk_Fence t + 1, tsk_Attempts := tsk_Attempts t + 1\<rparr>"
    and s': "s' = put_task t' s"
    by (auto simp: ClaimTask_Inr)
  show ?thesis
  proof (rule protoI)
    show "s' = exec (OpClaimTask now lease) s" using assms t(1) by simp
    show "tables_le s s'" by (rule tables_le_same) (simp_all add: s')
    show "linked G s'" if h: "healthy G s"
    proof -
      have "map_of (st_tasks s) (tsk_ID t) = Some t"
        using h claimed_task(1) [OF _ t(2)] by (simp add: healthy_def store_ok_def)
      from linked_put_task [OF healthy_linked [OF h] this, of t'] show ?thesis
        by (simp add: s' put_task_def t(3))
    qed
  qed
qed

lemma proto_RescheduleTask:
  assumes "RescheduleTask ctx t s = Inr (t', s')"
  shows "proto G s s'"
proof -
  from assms obtain w where w: "ctx = None" "map_of (st_tasks s) (tsk_ID t) = Some w" "s' = put_task (release_task t w) s"
    by (auto simp: RescheduleTask_Inr)
  show ?thesis
  proof (rule protoI)
    show "s' = exec (OpRescheduleTask t) s" using assms w(1) by simp
    show "tables_le s s'" by (rule tables_le_same) (simp_all add: w(3))
    show "linked G s'" if h: "healthy G s"
      unfolding w(3) using h healthy_linked [OF h] w(2) by (rule linked_released) simp
  qed
qed

lemma proto_RetryValidation:
  assumes "RetryValidation ctx t c s = Inr ((t', c'), s')"
    and le: "\<And>w. st_challenges s (ch_ID c) = Some w \<Longrightarrow> ch_Revision w = ch_Revision c \<Longrightarrow>
      challenge_le w c \<and> ch_Status w = ch_Status c"
  shows "proto G s s'"
proof -
  from assms(1) obtain w x where x: "ctx = None" "map_of (st_tasks s) (tsk_ID t) = Some x"
    "s' = put_task (release_task t x) (put_challenge (bump_challenge c) s)"
    and w: "st_challenges s (ch_ID c) = Some w" "ch_Revision w = ch_Revision c"
    by (auto simp: RetryValidation_Inr)
  note le = le [OF w]
  show ?thesis
  proof (rule protoI)
    show "s' = exec (OpRetryValidation t c) s" using assms(1) x(1) by simp
    show "tables_le s s'"
      using le w by (simp add: x(3) tables_le_def each_le_refls each_le_writes)
    show "linked G s'" if h: "healthy G s"
      unfolding x(3)
    proof (rule linked_released [OF h _ x(2)])
      have "linked G (s\<lparr>st_challenges := (st_challenges s)(ch_ID c \<mapsto> bump_challenge c)\<rparr>)"
        using healthy_linked [OF h] w(1)
      proof (rule linked_put_challenge)
        show "has_task TaskValidate (ch_ID c) s" if "ch_Status (bump_challenge c) = ChallengeProcessing"
          using linkedD(5) [OF healthy_linked [OF h]] le w that by (simp add: work_kept_def)
      qed (use le in simp)
      then show "linked G (put_challenge (bump_challenge c) s)"
        by (simp add: put_challenge_def)
    qed simp
  qed
qed

lemma removeTask_linked: "linked G (removeTask i s) \<longleftrightarrow> linked G (s\<lparr>st_tasks := alist_del i (st_tasks s)\<rparr>)"
  by (rule linked_same) (simp_all add: removeTask_def)

lemma proto_FinishTask:
  assumes "FinishTask ctx t s = Inr (u, s')"
    and "healthy G s \<Longrightarrow> unneeded s (G (tsk_ID t))"
  shows "proto G s s'"
proof (rule protoI)
  have f: "ctx = None" "s' = removeTask (tsk_ID t) s"
    using assms(1) by (auto simp: FinishTask_Inr)
  show "s' = exec (OpFinishTask t) s" using assms(1) f(1) by simp
  show "tables_le s s'" by (rule tables_le_same) (simp_all add: f)
  show "linked G s'" if h: "healthy G s"
    using linked_remove_task [OF healthy_linked [OF h] assms(2) [OF h]] by (simp add: f removeTask_linked)
qed

subsection \<open>Results\<close>

text \<open>
  The conditions on the result of a validation: the challenge is settled; an authorization turns valid only with
  this challenge, and when it is settled otherwise its order is no longer open; the order becomes ready only when all of its
  authorizations are valid.
\<close>

lemma linked_put_both:
  assumes l: "linked G s" and a: "st_authzs s i = Some a" "authz_le a a'" and v: "st_orders s j = Some v" "order_le v v'"
    and "az_OrderID a = j"
    and valid_a: "az_Status a' = AuthorizationValid \<Longrightarrow> az_PreApproved a \<or>
        (\<exists>j \<in> set (az_ChallengeIDs a). \<exists>c. st_challenges s j = Some c \<and> ch_Status c = ChallengeValid)"
    and valid_v: "ord_Status v' = OrderValid \<Longrightarrow>
      \<exists>crt. st_certificates s (ord_CertificateID v') = Some crt \<and> crt_OrderID crt = j"
    and work: "ord_Status v' = OrderProcessing \<Longrightarrow> has_task TaskIssue j s"
    and open_order: "undispatched v' \<Longrightarrow> \<not> authz_Terminal (az_Status a')"
    and others: "\<And>k x. needs_valid v' \<Longrightarrow> k \<in> set (ord_AuthorizationIDs v) \<Longrightarrow> k \<noteq> i \<Longrightarrow> st_authzs s k = Some x \<Longrightarrow>
        az_Status x = AuthorizationValid"
    and updated: "needs_valid v' \<Longrightarrow> i \<in> set (ord_AuthorizationIDs v) \<Longrightarrow> az_Status a' = AuthorizationValid"
  shows "linked G (s\<lparr>st_authzs := (st_authzs s)(i \<mapsto> a'), st_orders := (st_orders s)(j \<mapsto> v')\<rparr>)"
proof (cases "authz_Terminal (az_Status a')")
  case True
  with open_order have "\<not> undispatched v'" by blast
  then have "\<not> needs_valid v'" by (auto simp: needs_valid_def undispatched_def)
  have "linked G (s\<lparr>st_orders := (st_orders s)(j \<mapsto> v')\<rparr>)" (is "linked G ?t")
    using l v valid_v work \<open>\<not> needs_valid v'\<close> by (intro linked_put_order) auto
  then have "linked G (?t\<lparr>st_authzs := (st_authzs ?t)(i \<mapsto> a')\<rparr>)"
    using a valid_a \<open>\<not> undispatched v'\<close> assms(6) by (intro linked_put_authz) auto
  then show ?thesis by (rule iffD1 [OF linked_same, rotated -1]) simp_all
next
  case False
  have "linked G (s\<lparr>st_authzs := (st_authzs s)(i \<mapsto> a')\<rparr>)" (is "linked G ?t")
    using l a valid_a False by (intro linked_put_authz) auto
  then have "linked G (?t\<lparr>st_orders := (st_orders ?t)(j \<mapsto> v')\<rparr>)"
    using v valid_v work others updated by (intro linked_put_order) (auto simp: has_task_def split: if_splits)
  then show ?thesis by simp
qed

lemma proto_CompleteValidation:
  assumes "CompleteValidation ctx t c a v s = Inr ((c', a', v'), s')"
    and c: "\<And>w. healthy G s \<Longrightarrow> st_challenges s (ch_ID c) = Some w \<Longrightarrow> ch_Revision w = ch_Revision c \<Longrightarrow> challenge_le w c"
      "challenge_Terminal (ch_Status c)" "G (tsk_ID t) = (TaskValidate, ch_ID c)"
    and a: "\<And>w. healthy G s \<Longrightarrow> st_authzs s (az_ID a) = Some w \<Longrightarrow> az_Revision w = az_Revision a \<Longrightarrow> authz_le w a \<and>
        (az_Status a = AuthorizationValid \<longrightarrow> az_Status w = AuthorizationValid \<or>
           ch_Status c = ChallengeValid \<and> ch_ID c \<in> set (az_ChallengeIDs w))"
    and v: "\<And>w. healthy G s \<Longrightarrow> st_orders s (ord_ID v) = Some w \<Longrightarrow> ord_Revision w = ord_Revision v \<Longrightarrow> order_le w v \<and>
        (ord_Status v = ord_Status w \<and> ord_CertificateID v = ord_CertificateID w \<and> ord_Issuance v = ord_Issuance w \<or>
          ord_Status v \<in> {OrderReady, OrderInvalid})"
    and open_order: "az_OrderID a = ord_ID v" "healthy G s \<Longrightarrow> undispatched v \<Longrightarrow> \<not> authz_Terminal (az_Status a)"
    and ready: "\<And>j x. healthy G s \<Longrightarrow> needs_valid v \<Longrightarrow> j \<in> set (ord_AuthorizationIDs v) \<Longrightarrow> j \<noteq> az_ID a \<Longrightarrow>
        st_authzs s j = Some x \<Longrightarrow> az_Status x = AuthorizationValid"
      "healthy G s \<Longrightarrow> needs_valid v \<Longrightarrow> az_ID a \<in> set (ord_AuthorizationIDs v) \<Longrightarrow> az_Status a = AuthorizationValid"
  shows "proto G s s'"
proof -
  from assms(1) obtain wc wa wv where x: "ctx = None"
    "s' = removeTask (tsk_ID t) (put_order (bump_order v) (put_authz (bump_authz a) (put_challenge (bump_challenge c) s)))"
    and wc: "st_challenges s (ch_ID c) = Some wc" "ch_Revision wc = ch_Revision c"
    and wa: "st_authzs s (az_ID a) = Some wa" "az_Revision wa = az_Revision a"
    and wv: "st_orders s (ord_ID v) = Some wv" "ord_Revision wv = ord_Revision v"
    by (auto simp: CompleteValidation_Inr)
  show ?thesis
  proof (rule protoI)
    show "s' = exec (OpCompleteValidation t c a v) s" using assms(1) x(1) by simp
    assume h: "healthy G s"
    note l = healthy_linked [OF h]
    note c = c(1) [OF h wc] c(2,3) and a = a [OF h wa] and v = v [OF h wv]
    show "tables_le s s'"
      using c a v wc wa wv by (simp add: x(2) tables_le_def each_le_refls each_le_writes)
    define s1 where "s1 = s\<lparr>st_challenges := (st_challenges s)(ch_ID c \<mapsto> bump_challenge c)\<rparr>"
    have s1: "st_orders s1 = st_orders s" "st_authzs s1 = st_authzs s" "st_tasks s1 = st_tasks s"
      "st_certificates s1 = st_certificates s" "st_challenges s1 (ch_ID c) = Some (bump_challenge c)"
      "\<And>k y. has_task k y s1 \<longleftrightarrow> has_task k y s"
      by (simp_all add: s1_def has_task_def)
    have l1: "linked G s1"
      using l wc(1) c unfolding s1_def
      by (intro linked_put_challenge) (auto simp: challenge_Terminal_def)
    have valid_a: "az_PreApproved wa \<or> (\<exists>j\<in>set (az_ChallengeIDs wa). \<exists>c. st_challenges s1 j = Some c \<and> ch_Status c = ChallengeValid)"
      if "az_Status a = AuthorizationValid"
    proof (cases "az_Status wa = AuthorizationValid")
      case True
      then show ?thesis using linkedD(2) [OF l1, of "az_ID a" wa] wa s1 by (simp add: authz_linked_def)
    next
      case False
      with a that have "ch_Status c = ChallengeValid" "ch_ID c \<in> set (az_ChallengeIDs wa)" by auto
      then show ?thesis using s1(5) by force
    qed
    have "linked G (s1\<lparr>st_authzs := (st_authzs s1)(az_ID a \<mapsto> bump_authz a), st_orders := (st_orders s1)(ord_ID v \<mapsto> bump_order v)\<rparr>)"
      (is "linked G ?u")
    proof (rule linked_put_both [OF l1])
      show "st_authzs s1 (az_ID a) = Some wa" "st_orders s1 (ord_ID v) = Some wv" using wa wv s1 by simp_all
      show "az_OrderID wa = ord_ID v" using a open_order(1) by (simp add: authz_le_def)
      show "has_task TaskIssue (ord_ID v) s1" if "ord_Status (bump_order v) = OrderProcessing"
        using linkedD(5) [OF l] v wv(1) that by (auto simp: s1(6) work_kept_def)
      show "\<exists>crt. st_certificates s1 (ord_CertificateID (bump_order v)) = Some crt \<and> crt_OrderID crt = ord_ID v"
        if "ord_Status (bump_order v) = OrderValid"
        using linkedD(3) [OF l wv(1)] v that by (auto simp: s1(4) order_linked_def)
      show "az_Status y = AuthorizationValid"
        if "needs_valid (bump_order v)" "j \<in> set (ord_AuthorizationIDs wv)" "j \<noteq> az_ID a" "st_authzs s1 j = Some y" for j y
        using ready(1) [OF h, of j y] that v s1 by (simp add: order_le_def)
      show "az_Status (bump_authz a) = AuthorizationValid"
        if "needs_valid (bump_order v)" "az_ID a \<in> set (ord_AuthorizationIDs wv)"
        using ready(2) [OF h] that v by (simp add: order_le_def)
    qed (use a v open_order(2) [OF h] valid_a in simp_all)
    moreover have "unneeded ?u (G (tsk_ID t))"
      using c(2,3) by (auto simp: unneeded_def s1(5) challenge_Terminal_def)
    ultimately have "linked G (?u\<lparr>st_tasks := alist_del (tsk_ID t) (st_tasks ?u)\<rparr>)"
      by (rule linked_remove_task)
    then show "linked G s'"
      by (simp add: x(2) removeTask_linked put_order_def put_authz_def put_challenge_def s1_def)
  qed
qed

lemma proto_CompleteIssuance:
  assumes "CompleteIssuance ctx t v cert s = Inr (v', s')"
    and v: "\<And>w. healthy G s \<Longrightarrow> st_orders s (ord_ID v) = Some w \<Longrightarrow> ord_Revision w = ord_Revision v \<Longrightarrow> order_le w v"
    and cert: "case cert of None \<Rightarrow> ord_Status v = OrderInvalid
      | Some c \<Rightarrow> ord_Status v = OrderValid \<and> crt_ID c = ord_CertificateID v \<and> crt_OrderID c = ord_ID v"
    and t: "G (tsk_ID t) = (TaskIssue, ord_ID v)"
  shows "proto G s s'"
proof -
  from assms(1) obtain w s1 where x: "ctx = None" "s' = removeTask (tsk_ID t) (put_order (bump_order v) s1)"
    and w: "st_orders s (ord_ID v) = Some w" "ord_Revision w = ord_Revision v"
    and s1: "(case cert of None \<Rightarrow> Inr s | Some c \<Rightarrow> store_certificate c s) = Inr s1"
    by (auto simp: CompleteIssuance_Inr)
  have same: "st_orders s1 = st_orders s" "st_authzs s1 = st_authzs s" "st_challenges s1 = st_challenges s"
    "st_accounts s1 = st_accounts s" "st_tasks s1 = st_tasks s"
    using s1 store_certificate_Inr(4) by (cases cert; fastforce)+
  have certs: "st_certificates s1 = st_certificates s \<and> cert = None \<or>
      (\<exists>c. cert = Some c \<and> st_certificates s (crt_ID c) = None \<and>
         st_certificates s1 = (st_certificates s)(crt_ID c \<mapsto> c\<lparr>crt_Revision := 1\<rparr>))"
    using s1 store_certificate_Inr(2,4) by (cases cert) fastforce+
  then have keep: "\<exists>c'. st_certificates s1 i = Some c' \<and> crt_OrderID c' = crt_OrderID c" if "st_certificates s i = Some c" for i c
    using that by fastforce
  show ?thesis
  proof (rule protoI)
    show "s' = exec (OpCompleteIssuance t v cert) s" using assms(1) x(1) by simp
    assume h: "healthy G s"
    note le = v [OF h w]
    show "tables_le s s'"
      using le w certs by (auto simp: x(2) tables_le_def each_le_refls each_le_writes same intro: each_le_create [OF _ le_refl(5)])
    have "linked G s1"
      by (rule linked_other_tables [OF healthy_linked [OF h] same(1,2,3,5)]) (use keep in \<open>simp_all add: same\<close>)
    then have "linked G (s1\<lparr>st_orders := (st_orders s1)(ord_ID v \<mapsto> bump_order v)\<rparr>)" (is "linked G ?u")
    proof (rule linked_put_order)
      show "st_orders s1 (ord_ID v) = Some w" by (simp add: same w)
      show "\<exists>crt. st_certificates s1 (ord_CertificateID (bump_order v)) = Some crt \<and> crt_OrderID crt = ord_ID v"
        if "ord_Status (bump_order v) = OrderValid"
        using certs cert that by auto
    qed (use le cert in \<open>auto simp: needs_valid_def split: option.splits\<close>)
    moreover have "unneeded ?u (G (tsk_ID t))"
      using cert by (auto simp: t unneeded_def split: option.splits)
    ultimately have "linked G (?u\<lparr>st_tasks := alist_del (tsk_ID t) (st_tasks ?u)\<rparr>)"
      by (rule linked_remove_task)
    then show "linked G s'"
      by (simp add: x(2) removeTask_linked put_order_def)
  qed
qed

subsection \<open>New orders\<close>

definition new_order_ok :: "Order \<Rightarrow> Authorization list \<Rightarrow> Challenge list \<Rightarrow> bool" where
  "new_order_ok v as cs \<longleftrightarrow>
     ord_AuthorizationIDs v = map az_ID as \<and> distinct (map az_ID as) \<and> distinct (map ch_ID cs) \<and>
     list_all (\<lambda>a. az_OrderID a = ord_ID v \<and> az_AccountID a = ord_AccountID v \<and>
        az_ChallengeIDs a = map ch_ID (filter (\<lambda>c. ch_AuthorizationID c = az_ID a) cs) \<and>
        (az_Status a = AuthorizationPending \<or> az_Status a = AuthorizationValid \<and> az_PreApproved a)) as \<and>
     list_all (\<lambda>c. ch_Status c = ChallengePending \<and> ch_AuthorizationID c \<in> az_ID ` set as \<and> ch_AccountID c = ord_AccountID v) cs \<and>
     (ord_Status v = OrderPending \<or> ord_Status v = OrderReady \<and> list_all (\<lambda>a. az_Status a = AuthorizationValid) as)"

lemma store_new_authz_authzs [simp]: "st_authzs (store_new_authz a s) = (st_authzs s)(az_ID a \<mapsto> a)"
  by (simp add: store_new_authz_def)

lemma fold_store_new_authz:
  "distinct (map az_ID as) \<Longrightarrow> a \<in> set as \<Longrightarrow> st_authzs (fold store_new_authz as s) (az_ID a) = Some a"
proof (induction as arbitrary: s)
  case (Cons b as)
  then show ?case
    by (cases "a = b") (auto simp: fold_store_new_authz_other)
qed simp

lemma fold_put_challenge:
  "distinct (map ch_ID cs) \<Longrightarrow> c \<in> set cs \<Longrightarrow> st_challenges (fold put_challenge cs s) (ch_ID c) = Some c"
proof (induction cs arbitrary: s)
  case (Cons b cs)
  then show ?case
    by (cases "c = b") (auto simp: fold_put_challenge_other)
qed simp

lemma linked_extend:
  assumes l: "linked G s" and tasks: "st_tasks t = st_tasks s"
    and old: "st_orders s \<subseteq>\<^sub>m st_orders t" "st_authzs s \<subseteq>\<^sub>m st_authzs t" "st_challenges s \<subseteq>\<^sub>m st_challenges t"
      "st_accounts t = st_accounts s"
      "\<And>i c. st_certificates s i = Some c \<Longrightarrow> \<exists>c'. st_certificates t i = Some c' \<and> crt_OrderID c' = crt_OrderID c"
    and new: "\<And>i v. st_orders s i = None \<Longrightarrow> st_orders t i = Some v \<Longrightarrow> order_linked t i v \<and> ord_Status v \<noteq> OrderProcessing"
      "\<And>i a. st_authzs s i = None \<Longrightarrow> st_authzs t i = Some a \<Longrightarrow> authz_linked t i a"
      "\<And>i c. st_challenges s i = None \<Longrightarrow> st_challenges t i = Some c \<Longrightarrow>
         challenge_linked t i c \<and> ch_Status c \<noteq> ChallengeProcessing"
  shows "linked G t"
proof (rule linkedI)
  have keep: "st_orders s i = Some v \<Longrightarrow> st_orders t i = Some v" "st_authzs s i = Some a \<Longrightarrow> st_authzs t i = Some a"
    "st_challenges s i = Some c \<Longrightarrow> st_challenges t i = Some c" for i v a c
    using old by (auto simp: map_le_def dom_def)
  show "challenge_linked t i c" if i: "st_challenges t i = Some c" for i c
  proof (cases "st_challenges s i")
    case (Some d)
    with keep(3) i have "d = c" by force
    with Some linkedD(1) [OF l, of i d] show ?thesis unfolding challenge_linked_def using keep(2) by blast
  qed (use new(3) i in blast)
  show "authz_linked t i a" if i: "st_authzs t i = Some a" for i a
  proof (cases "st_authzs s i")
    case (Some d)
    with keep(2) i have "d = a" by force
    with Some linkedD(2) [OF l, of i d] show ?thesis unfolding authz_linked_def using keep(1,3) by meson
  qed (use new(2) i in blast)
  show "order_linked t i v" if i: "st_orders t i = Some v" for i v
  proof (cases "st_orders s i")
    case (Some d)
    with keep(1) i have "d = v" by force
    with Some linkedD(3) [OF l, of i d] show ?thesis unfolding order_linked_def old(4) using keep(2) old(5) by metis
  qed (use new(1) i in blast)
  show "task_linked G t i u" if "map_of (st_tasks t) i = Some u" for i u
    using linkedD(4) [OF l, of i u] that keep(1,3) unfolding task_linked_def tasks by blast
  show "work_kept t"
    unfolding work_kept_def has_task_def tasks
  proof (intro conjI allI impI)
    fix i v
    assume "st_orders t i = Some v" "ord_Status v = OrderProcessing"
    moreover from this have "st_orders s i = Some v" using new(1) keep(1) by (cases "st_orders s i") force+
    ultimately show "\<exists>j u. map_of (st_tasks s) j = Some u \<and> tsk_Kind u = TaskIssue \<and> tsk_TargetID u = i"
      using linkedD(5) [OF l] unfolding work_kept_def has_task_def by blast
  next
    fix i c
    assume "st_challenges t i = Some c" "ch_Status c = ChallengeProcessing"
    moreover from this have "st_challenges s i = Some c" using new(3) keep(3) by (cases "st_challenges s i") force+
    ultimately show "\<exists>j u. map_of (st_tasks s) j = Some u \<and> tsk_Kind u = TaskValidate \<and> tsk_TargetID u = i"
      using linkedD(5) [OF l] unfolding work_kept_def has_task_def by blast
  qed
qed

lemma CreateOrder_tables:
  assumes "CreateOrder ctx v as cs s = Inr (r, s')" and ok: "distinct (map az_ID as)" "distinct (map ch_ID cs)"
  shows "ctx = None" "st_orders s (ord_ID v) = None" "st_orders s' = (st_orders s)(ord_ID v \<mapsto> v\<lparr>ord_Revision := 1\<rparr>)"
    "st_tasks s' = st_tasks s" "st_accounts s' = st_accounts s"
    "each_le certificate_le (st_certificates s) (st_certificates s')"
    "a \<in> set as \<Longrightarrow> st_authzs s (az_ID a) = None" "c \<in> set cs \<Longrightarrow> st_challenges s (ch_ID c) = None"
    "st_authzs s' i = Some a' \<longleftrightarrow> (if i \<in> az_ID ` set as then a' \<in> set (map (\<lambda>a. a\<lparr>az_Revision := 1\<rparr>) as) \<and> az_ID a' = i
       else st_authzs s i = Some a')"
    "st_challenges s' i = Some c' \<longleftrightarrow> (if i \<in> ch_ID ` set cs then c' \<in> set (map (\<lambda>c. c\<lparr>ch_Revision := 1\<rparr>) cs) \<and> ch_ID c' = i
       else st_challenges s i = Some c')"
proof -
  let ?as = "map (\<lambda>a. a\<lparr>az_Revision := 1\<rparr>) as" and ?cs = "map (\<lambda>c. c\<lparr>ch_Revision := 1\<rparr>) cs"
  let ?v = "v\<lparr>ord_Revision := 1\<rparr>"
  from assms(1) obtain s1 where d: "ctx = None" "st_orders s (ord_ID v) = None"
    "\<And>a. a \<in> set as \<Longrightarrow> st_authzs s (az_ID a) = None \<and> az_ID a \<noteq> []"
    "\<And>c. c \<in> set cs \<Longrightarrow> st_challenges s (ch_ID c) = None \<and> ch_ID c \<noteq> []"
    "(if ord_Replaces v \<noteq> [] then claimReplacement v s else Inr s) = Inr s1"
    and s': "s' = fold put_challenge ?cs (fold store_new_authz ?as
             (s1\<lparr>st_orders := (st_orders s1)(ord_ID v \<mapsto> ?v),
                 st_orderIDs := (st_orderIDs s1)(ord_AccountID v := st_orderIDs s1 (ord_AccountID v) @ [ord_ID v])\<rparr>))"
    by (rule CreateOrder_Inr) blast
  have s1: "st_accounts s1 = st_accounts s" "st_orders s1 = st_orders s" "st_authzs s1 = st_authzs s"
    "st_challenges s1 = st_challenges s" "st_tasks s1 = st_tasks s"
    using d(5) by (auto elim!: claimReplacement_Inr split: if_splits)
  have certs: "each_le certificate_le (st_certificates s) (st_certificates s1)"
    using d(5) by (auto elim!: claimReplacement_Inr simp: each_le_refls split: if_splits
        intro!: each_le_writes simp: certificate_le_def)
  have ids: "az_ID ` set ?as = az_ID ` set as" "ch_ID ` set ?cs = ch_ID ` set cs"
    "distinct (map az_ID ?as)" "distinct (map ch_ID ?cs)"
    using ok by (simp_all add: image_image comp_def)
  have orders: "st_orders s' = (st_orders s)(ord_ID v \<mapsto> ?v)" and same: "st_tasks s' = st_tasks s" "st_accounts s' = st_accounts s"
    "st_certificates s' = st_certificates s1"
    by (simp_all add: s' s1)
  have authzs: "st_authzs s' i = Some a \<longleftrightarrow> (if i \<in> az_ID ` set as then a \<in> set ?as \<and> az_ID a = i else st_authzs s i = Some a)" for i a
  proof (cases "i \<in> az_ID ` set as")
    case True
    then obtain b where b: "b \<in> set ?as" "az_ID b = i" using ids(1) by (metis imageE)
    have "st_authzs s' (az_ID b) = Some b"
      using fold_store_new_authz [OF ids(3) b(1)] by (simp add: s')
    moreover have "a = b" if "a \<in> set ?as" "az_ID a = i"
      using that b ids(3) by (metis eq_key_imp_eq_value distinct_map inj_onD)
    ultimately show ?thesis using True b by auto
  next
    case False
    with ids(1) have "i \<notin> az_ID ` set ?as" by simp
    with False show ?thesis by (simp add: s' fold_store_new_authz_other s1 del: set_map)
  qed
  have challenges: "st_challenges s' i = Some c \<longleftrightarrow> (if i \<in> ch_ID ` set cs then c \<in> set ?cs \<and> ch_ID c = i else st_challenges s i = Some c)" for i c
  proof (cases "i \<in> ch_ID ` set cs")
    case True
    then obtain b where b: "b \<in> set ?cs" "ch_ID b = i" using ids(2) by (metis imageE)
    have "st_challenges s' (ch_ID b) = Some b"
      using fold_put_challenge [OF ids(4) b(1)] by (simp add: s')
    moreover have "c = b" if "c \<in> set ?cs" "ch_ID c = i"
      using that b ids(4) by (metis eq_key_imp_eq_value distinct_map inj_onD)
    ultimately show ?thesis using True b by auto
  next
    case False
    with ids(2) have "i \<notin> ch_ID ` set ?cs" by simp
    with False show ?thesis by (simp add: s' fold_put_challenge_other s1 del: set_map)
  qed
  show "ctx = None" "st_orders s (ord_ID v) = None" by fact+
  show "st_orders s' = (st_orders s)(ord_ID v \<mapsto> ?v)" "st_tasks s' = st_tasks s" "st_accounts s' = st_accounts s" by fact+
  show "each_le certificate_le (st_certificates s) (st_certificates s')" using certs by (simp add: same)
  show "a \<in> set as \<Longrightarrow> st_authzs s (az_ID a) = None" "c \<in> set cs \<Longrightarrow> st_challenges s (ch_ID c) = None"
    using d(3,4) by auto
  show "st_authzs s' i = Some a' \<longleftrightarrow> (if i \<in> az_ID ` set as then a' \<in> set ?as \<and> az_ID a' = i else st_authzs s i = Some a')"
    by (rule authzs)
  show "st_challenges s' i = Some c' \<longleftrightarrow> (if i \<in> ch_ID ` set cs then c' \<in> set ?cs \<and> ch_ID c' = i else st_challenges s i = Some c')"
    by (rule challenges)
qed

lemma proto_CreateOrder:
  assumes create: "CreateOrder ctx v as cs s = Inr (r, s')"
    and ok: "new_order_ok v as cs" and account: "healthy G s \<Longrightarrow> st_accounts s (ord_AccountID v) \<noteq> None"
  shows "proto G s s'"
proof (rule protoI)
  have ids: "distinct (map az_ID as)" "distinct (map ch_ID cs)" and auth_ids: "ord_AuthorizationIDs v = map az_ID as"
    using ok by (simp_all add: new_order_ok_def)
  note t = CreateOrder_tables [OF create ids]
  have as: "az_OrderID a = ord_ID v \<and> az_AccountID a = ord_AccountID v \<and>
      az_ChallengeIDs a = map ch_ID (filter (\<lambda>c. ch_AuthorizationID c = az_ID a) cs) \<and>
      (az_Status a = AuthorizationPending \<or> az_Status a = AuthorizationValid \<and> az_PreApproved a)" if "a \<in> set as" for a
    using ok that by (simp add: new_order_ok_def list_all_iff)
  have cs: "ch_Status c = ChallengePending \<and> ch_AuthorizationID c \<in> az_ID ` set as \<and> ch_AccountID c = ord_AccountID v"
    if "c \<in> set cs" for c
    using ok that by (simp add: new_order_ok_def list_all_iff)
  have new_authz: "st_authzs s' (az_ID a) = Some (a\<lparr>az_Revision := 1\<rparr>)" if "a \<in> set as" for a
    using t(9) [of "az_ID a"] that by auto
  have new_challenge: "st_challenges s' (ch_ID c) = Some (c\<lparr>ch_Revision := 1\<rparr>)" if "c \<in> set cs" for c
    using t(10) [of "ch_ID c"] that by auto
  have old: "st_orders s \<subseteq>\<^sub>m st_orders s'" "st_authzs s \<subseteq>\<^sub>m st_authzs s'" "st_challenges s \<subseteq>\<^sub>m st_challenges s'"
  proof -
    show "st_orders s \<subseteq>\<^sub>m st_orders s'" using t(2) by (auto simp: t(3) map_le_def)
    have "st_authzs s' i = Some a" if "st_authzs s i = Some a" for i a
      using t(7,9) that by force
    then show "st_authzs s \<subseteq>\<^sub>m st_authzs s'" by (force simp: map_le_def)
    have "st_challenges s' i = Some c" if "st_challenges s i = Some c" for i c
      using t(8,10) that by force
    then show "st_challenges s \<subseteq>\<^sub>m st_challenges s'" by (force simp: map_le_def)
  qed
  show "s' = exec (OpCreateOrder v as cs) s" using create t(1) by simp
  show "tables_le s s'"
    using old t(6) by (force simp: tables_le_def t(5) each_le_refls each_le_def map_le_def dom_def)
  show "linked G s'" if h: "healthy G s"
  proof (rule linked_extend [OF healthy_linked [OF h] t(4) old t(5)])
    show "\<exists>c'. st_certificates s' i = Some c' \<and> crt_OrderID c' = crt_OrderID c" if "st_certificates s i = Some c" for i c
      using each_leD [OF t(6) that] by (auto simp: certificate_le_def)
    show "order_linked s' i w \<and> ord_Status w \<noteq> OrderProcessing" if "st_orders s i = None" "st_orders s' i = Some w" for i w
    proof -
      have w: "i = ord_ID v" "w = v\<lparr>ord_Revision := 1\<rparr>" using that by (auto simp: t(3) split: if_splits)
      have status: "ord_Status v = OrderPending \<or> ord_Status v = OrderReady \<and> (\<forall>a\<in>set as. az_Status a = AuthorizationValid)"
        using ok by (auto simp: new_order_ok_def list_all_iff)
      have "\<exists>a. st_authzs s' j = Some a \<and> az_OrderID a = i \<and> \<not> authz_Terminal (az_Status a) \<and>
          (needs_valid w \<longrightarrow> az_Status a = AuthorizationValid)" if j: "j \<in> set (ord_AuthorizationIDs w)" for j
      proof -
        obtain a where "a \<in> set as" "j = az_ID a" using j by (auto simp: w auth_ids)
        then show ?thesis
          using new_authz [of a] as [of a] status by (auto simp: w authz_Terminal_def needs_valid_def)
      qed
      then show ?thesis
        using account [OF h] status by (auto simp: order_linked_def w(2) t(5))
    qed
    show "authz_linked s' i a" if i: "st_authzs s i = None" "st_authzs s' i = Some a" for i a
    proof -
      from i t(9) [of i a] obtain b where b: "b \<in> set as" "a = b\<lparr>az_Revision := 1\<rparr>" "az_ID b = i"
        by (auto split: if_splits)
      have "\<exists>c. st_challenges s' j = Some c \<and> ch_AuthorizationID c = i" if "j \<in> set (az_ChallengeIDs b)" for j
        using that as [OF b(1)] new_challenge b(3) by auto
      then show ?thesis
        using as [OF b(1)] b by (auto simp: authz_linked_def t(3) auth_ids)
    qed
    show "challenge_linked s' i c \<and> ch_Status c \<noteq> ChallengeProcessing"
      if i: "st_challenges s i = None" "st_challenges s' i = Some c" for i c
    proof -
      from i t(10) [of i c] obtain d where d: "d \<in> set cs" "c = d\<lparr>ch_Revision := 1\<rparr>" "ch_ID d = i"
        by (auto split: if_splits)
      with cs [OF d(1)] obtain a where a: "a \<in> set as" "ch_AuthorizationID d = az_ID a" by auto
      then have "i \<in> set (az_ChallengeIDs a)" using as [OF a(1)] d by auto
      then show ?thesis
        using new_authz [OF a(1)] as [OF a(1)] cs [OF d(1)] d(2) a(2) by (simp add: challenge_linked_def)
    qed
  qed
qed

end
