(* ===== verification/Net_IP.thy ===== *)
theory Net_IP
  imports Acme_Prelude
begin

section \<open>IP addresses in text\<close>

text \<open>
  What the server uses of Go's \<^verbatim>\<open>net/netip\<close>: \<^verbatim>\<open>ParseAddr\<close>, \<^verbatim>\<open>Addr.String\<close> and the predicates on addresses.
  An address is its 4 or 16 bytes as numbers, with the zone of an IPv6 address.  The result is that
  printing is a right inverse of parsing, so an address has one normal form.
\<close>

datatype Addr = Addr4 "nat list" | Addr6 "nat list" string

fun addr_ok :: "Addr \<Rightarrow> bool" where
  "addr_ok (Addr4 bs) \<longleftrightarrow> length bs = 4 \<and> list_all (\<lambda>b. b < 256) bs"
| "addr_ok (Addr6 bs z) \<longleftrightarrow> length bs = 16 \<and> list_all (\<lambda>b. b < 256) bs"

subsection \<open>Parsing\<close>

definition dec_digit :: "char \<Rightarrow> nat option" where
  "dec_digit c = (if 48 \<le> ord c \<and> ord c \<le> 57 then Some (ord c - 48) else None)"

definition hex_digit :: "char \<Rightarrow> nat option" where
  "hex_digit c =
     (if 48 \<le> ord c \<and> ord c \<le> 57 then Some (ord c - 48)
      else if 97 \<le> ord c \<and> ord c \<le> 102 then Some (ord c - 97 + 10)
      else if 65 \<le> ord c \<and> ord c \<le> 70 then Some (ord c - 65 + 10)
      else None)"

text \<open>
  The loop of \<^verbatim>\<open>parseIPv4Fields\<close>: the octets read so far, the value and the digits of the current one, and
  whether a digit precedes (so that a dot may follow).
\<close>

fun ipv4_fields :: "nat list \<Rightarrow> nat \<Rightarrow> nat \<Rightarrow> bool \<Rightarrow> string \<Rightarrow> nat list option" where
  "ipv4_fields fields val dig prev [] = (if length fields < 3 then None else Some (fields @ [val]))"
| "ipv4_fields fields val dig prev (c # s) =
     (case dec_digit c of
        Some d \<Rightarrow>
          if dig = 1 \<and> val = 0 then None
          else if 255 < val * 10 + d then None
          else ipv4_fields fields (val * 10 + d) (dig + 1) True s
      | None \<Rightarrow>
          if c \<noteq> CHR ''.'' then None
          else if \<not> prev \<or> s = [] then None
          else if length fields = 3 then None
          else ipv4_fields (fields @ [val]) 0 0 False s)"

definition parseIPv4Fields :: "string \<Rightarrow> nat list option" where
  "parseIPv4Fields s = ipv4_fields [] 0 0 False s"

definition hex_run :: "string \<Rightarrow> nat list" where
  "hex_run s = map (\<lambda>c. the (hex_digit c)) (takeWhile (\<lambda>c. hex_digit c \<noteq> None) s)"

definition hex_value :: "nat list \<Rightarrow> nat" where
  "hex_value ds = foldl (\<lambda>v d. v * 16 + d) 0 ds"

text \<open>After the loop of \<^verbatim>\<open>parseIPv6\<close>: nothing may be left, and the ellipsis is expanded.\<close>

definition ipv6_finish :: "nat list \<Rightarrow> nat option \<Rightarrow> string \<Rightarrow> nat list option" where
  "ipv6_finish bs ellipsis s =
     (if s \<noteq> [] then None
      else if length bs < 16 then
        (case ellipsis of
           None \<Rightarrow> None
         | Some e \<Rightarrow> Some (take e bs @ replicate (16 - length bs) 0 @ drop e bs))
      else if ellipsis \<noteq> None then None
      else Some bs)"

lemma length_hex_run: "length (hex_run s) \<le> length s"
  using length_takeWhile_le by (auto simp: hex_run_def)

function ipv6_loop :: "nat list \<Rightarrow> nat option \<Rightarrow> string \<Rightarrow> nat list option" where
  "ipv6_loop bs ellipsis s =
     (if 16 \<le> length bs then ipv6_finish bs ellipsis s
      else
        let ds = hex_run s; rest = drop (length ds) s in
        if 4 < length ds then None
        else if ds = [] then None
        else if rest \<noteq> [] \<and> hd rest = CHR ''.'' then
          if ellipsis = None \<and> length bs \<noteq> 12 then None
          else if 16 < length bs + 4 then None
          else (case parseIPv4Fields s of
                  None \<Rightarrow> None
                | Some fields \<Rightarrow> ipv6_finish (bs @ fields) ellipsis [])
        else
          let acc = hex_value ds; bs' = bs @ [acc div 256, acc mod 256] in
          if rest = [] then ipv6_finish bs' ellipsis []
          else if hd rest \<noteq> CHR '':'' then None
          else if tl rest = [] then None
          else if hd (tl rest) = CHR '':'' then
            if ellipsis \<noteq> None then None
            else if tl (tl rest) = [] then ipv6_finish bs' (Some (length bs')) []
            else ipv6_loop bs' (Some (length bs')) (tl (tl rest))
          else ipv6_loop bs' ellipsis (tl rest))"
  by auto
termination
  by (relation "measure (\<lambda>(bs, e, s). 16 - length bs)") auto

declare ipv6_loop.simps [simp del]

definition parseIPv6 :: "string \<Rightarrow> Addr option" where
  "parseIPv6 s0 =
     (case (case cut s0 (CHR ''%'') of
              None \<Rightarrow> Some (s0, [])
            | Some (s, zone) \<Rightarrow> if zone = [] then None else Some (s, zone)) of
        None \<Rightarrow> None
      | Some (s, zone) \<Rightarrow>
          if has_prefix s ''::'' then
            if drop 2 s = [] then Some (Addr6 (replicate 16 0) zone)
            else map_option (\<lambda>bs. Addr6 bs zone) (ipv6_loop [] (Some 0) (drop 2 s))
          else map_option (\<lambda>bs. Addr6 bs zone) (ipv6_loop [] None s))"

fun ParseAddr_scan :: "string \<Rightarrow> string \<Rightarrow> Addr option" where
  "ParseAddr_scan whole [] = None"
| "ParseAddr_scan whole (c # s) =
     (if c = CHR ''.'' then map_option Addr4 (parseIPv4Fields whole)
      else if c = CHR '':'' then parseIPv6 whole
      else if c = CHR ''%'' then None
      else ParseAddr_scan whole s)"

definition ParseAddr :: "string \<Rightarrow> Addr option" where
  "ParseAddr s = ParseAddr_scan s s"

subsection \<open>Predicates\<close>

fun Zone :: "Addr \<Rightarrow> string" where
  "Zone (Addr4 bs) = []"
| "Zone (Addr6 bs z) = z"

fun Is4In6 :: "Addr \<Rightarrow> bool" where
  "Is4In6 (Addr4 bs) = False"
| "Is4In6 (Addr6 bs z) = (take 12 bs = replicate 10 0 @ [255, 255])"

fun IsUnspecified :: "Addr \<Rightarrow> bool" where
  "IsUnspecified (Addr4 bs) = (bs = replicate 4 0)"
| "IsUnspecified (Addr6 bs z) = (bs = replicate 16 0 \<and> z = [])"

fun IsMulticast :: "Addr \<Rightarrow> bool" where
  "IsMulticast (Addr4 bs) = (hd bs div 16 = 14)"
| "IsMulticast (Addr6 bs z) = (hd bs = 255)"

subsection \<open>Printing\<close>

definition digit_char :: "nat \<Rightarrow> char" where
  "digit_char d = (if d < 10 then char_of (48 + d) else char_of (87 + d))"

fun dec_string :: "nat \<Rightarrow> string" where
  "dec_string n = (if n < 10 then [digit_char n] else dec_string (n div 10) @ [digit_char (n mod 10)])"

fun hex_string :: "nat \<Rightarrow> string" where
  "hex_string n = (if n < 16 then [digit_char n] else hex_string (n div 16) @ [digit_char (n mod 16)])"

declare dec_string.simps [simp del] hex_string.simps [simp del]

fun join :: "string \<Rightarrow> string list \<Rightarrow> string" where
  "join sep [] = []"
| "join sep [s] = s"
| "join sep (s # t # ss) = s @ sep @ join sep (t # ss)"

text \<open>The 16-bit groups of an IPv6 address.\<close>

fun groups :: "nat list \<Rightarrow> nat list" where
  "groups (a # b # bs) = (a * 256 + b) # groups bs"
| "groups _ = []"

text \<open>The length of the run of zero groups from a position, and the first longest run of two or more.\<close>

definition zero_run :: "nat list \<Rightarrow> nat \<Rightarrow> nat" where
  "zero_run gs i = length (takeWhile (\<lambda>g. g = 0) (drop i gs))"

fun longest_run :: "nat list \<Rightarrow> nat list \<Rightarrow> (nat \<times> nat) option \<Rightarrow> (nat \<times> nat) option" where
  "longest_run gs [] best = best"
| "longest_run gs (i # is) best =
     longest_run gs is
       (let l = zero_run gs i in
        if 2 \<le> l \<and> (case best of None \<Rightarrow> True | Some (st, en) \<Rightarrow> en - st < l)
        then Some (i, i + l) else best)"

definition ipv6_string :: "nat list \<Rightarrow> string" where
  "ipv6_string gs =
     (case longest_run gs [0..<length gs] None of
        None \<Rightarrow> join '':'' (map hex_string gs)
      | Some (st, en) \<Rightarrow>
          join '':'' (map hex_string (take st gs)) @ ''::'' @ join '':'' (map hex_string (drop en gs)))"

fun Addr_String :: "Addr \<Rightarrow> string" where
  "Addr_String (Addr4 bs) = join ''.'' (map dec_string bs)"
| "Addr_String (Addr6 bs z) = ipv6_string (groups bs) @ (if z = [] then [] else CHR ''%'' # z)"

subsection \<open>Printing and parsing IPv4\<close>

lemma dec_digit_char [simp]: "d < 10 \<Longrightarrow> dec_digit (digit_char d) = Some d"
  by (simp add: dec_digit_def digit_char_def)

lemma hex_digit_char [simp]: "d < 16 \<Longrightarrow> hex_digit (digit_char d) = Some d"
  by (simp add: hex_digit_def digit_char_def)

lemma special_chars [simp]:
  "dec_digit (CHR ''.'') = None" "hex_digit (CHR '':'') = None" "hex_digit (CHR ''%'') = None"
  "hex_digit (CHR ''.'') = None"
  by (simp_all add: dec_digit_def hex_digit_def)

lemma ipv4_fields_dec:
  assumes "n < 256"
  shows "\<exists>k. ipv4_fields fields 0 0 prev (dec_string n @ rest) = ipv4_fields fields n (Suc k) True rest"
proof (cases "n < 10")
  case True
  then show ?thesis by (subst dec_string.simps) auto
next
  case ge10: False
  show ?thesis
  proof (cases "n < 100")
    case True
    then have "dec_string n = [digit_char (n div 10), digit_char (n mod 10)]"
      using ge10 by (simp add: dec_string.simps)
    moreover have "n div 10 < 10" "n div 10 \<noteq> 0" "n div 10 * 10 + n mod 10 = n"
      using ge10 True by simp_all
    ultimately show ?thesis using assms by simp blast
  next
    case False
    define q where "q = n div 10"
    have q: "n = 10 * q + n mod 10" "10 \<le> q" "q \<le> 25" "n mod 10 < 10"
      using False assms by (simp_all add: q_def)
    have r: "q = 10 * (q div 10) + q mod 10" "q div 10 \<noteq> 0" "q div 10 < 10" "q mod 10 < 10"
      using q(2,3) by presburger+
    have "dec_string n = dec_string q @ [digit_char (n mod 10)]"
      using ge10 by (simp add: dec_string.simps [of n] q_def)
    also have "dec_string q = dec_string (q div 10) @ [digit_char (q mod 10)]"
      using q(2) by (simp add: dec_string.simps [of q])
    also have "dec_string (q div 10) = [digit_char (q div 10)]"
      using r(3) by (simp add: dec_string.simps [of "q div 10"])
    finally have d: "dec_string n = [digit_char (q div 10), digit_char (q mod 10), digit_char (n mod 10)]"
      by simp
    have e: "q div 10 * 10 + q mod 10 = q" "q * 10 + n mod 10 = n" using q(1) r(1) by linarith+
    show ?thesis
      using assms q(3,4) r(2-4) unfolding d by (intro exI [of _ 2]) (simp add: e numeral_2_eq_2)
  qed
qed

lemma ipv4_fields_dot:
  "length fields < 3 \<Longrightarrow> s \<noteq> [] \<Longrightarrow>
     ipv4_fields fields n k True (CHR ''.'' # s) = ipv4_fields (fields @ [n]) 0 0 False s"
  by simp

lemma dec_string_not_Nil [simp]: "dec_string n \<noteq> []"
  by (subst dec_string.simps) simp

lemma parse_ipv4_print:
  assumes "length bs = 4" "list_all (\<lambda>b. b < 256) bs"
  shows "parseIPv4Fields (join ''.'' (map dec_string bs)) = Some bs"
proof -
  from assms(1) obtain a b c d where bs: "bs = [a, b, c, d]"
    by (auto simp: numeral_eq_Suc length_Suc_conv)
  have step: "ipv4_fields fields 0 0 False (dec_string n @ CHR ''.'' # r) = ipv4_fields (fields @ [n]) 0 0 False r"
    if "n < 256" "length fields < 3" "r \<noteq> []" for fields n r
    using ipv4_fields_dec [OF that(1), of fields False "CHR ''.'' # r"] that by (auto simp: ipv4_fields_dot)
  have last: "ipv4_fields [a, b, c] 0 0 False (dec_string d) = Some [a, b, c, d]"
    using ipv4_fields_dec [of d "[a, b, c]" False "[]"] assms(2) by (auto simp: bs)
  show ?thesis
    using assms(2) by (simp add: bs parseIPv4Fields_def step last)
qed

lemma scan_skips:
  "list_all (\<lambda>c. c \<noteq> CHR ''.'' \<and> c \<noteq> CHR '':'' \<and> c \<noteq> CHR ''%'') s \<Longrightarrow>
     ParseAddr_scan w (s @ t) = ParseAddr_scan w t"
  by (induction s) auto

lemma digit_char_plain:
  "d < 16 \<Longrightarrow> digit_char d \<noteq> CHR ''.'' \<and> digit_char d \<noteq> CHR '':'' \<and> digit_char d \<noteq> CHR ''%''"
  using hex_digit_char [of d] special_chars by (metis option.distinct(1))

lemma dec_string_plain: "list_all (\<lambda>c. c \<noteq> CHR ''.'' \<and> c \<noteq> CHR '':'' \<and> c \<noteq> CHR ''%'') (dec_string n)"
proof (induction n rule: dec_string.induct)
  case (1 n)
  then show ?case
    using digit_char_plain [of n] digit_char_plain [of "n mod 10"] by (subst dec_string.simps) auto
qed

lemma Parse_String_4:
  assumes "addr_ok (Addr4 bs)"
  shows "ParseAddr (Addr_String (Addr4 bs)) = Some (Addr4 bs)"
proof -
  from assms obtain a b c d where bs: "bs = [a, b, c, d]"
    by (auto simp: numeral_eq_Suc length_Suc_conv)
  have "ParseAddr_scan w (join ''.'' (map dec_string bs)) = map_option Addr4 (parseIPv4Fields w)" for w
    using scan_skips [OF dec_string_plain, of w a] by (simp add: bs)
  then show ?thesis
    using assms by (simp add: ParseAddr_def parse_ipv4_print)
qed

subsection \<open>Printing and parsing IPv6\<close>

lemma hex_string_digits:
  "\<exists>ds. hex_string n = map digit_char ds \<and> list_all (\<lambda>d. d < 16) ds \<and> ds \<noteq> [] \<and> hex_value ds = n \<and>
     (\<forall>k>0. n < 16 ^ k \<longrightarrow> length ds \<le> k)"
proof (induction n rule: hex_string.induct)
  case (1 n)
  show ?case
  proof (cases "n < 16")
    case True
    then show ?thesis
      by (subst hex_string.simps) (auto simp: hex_value_def intro!: exI [of _ "[n]"])
  next
    case False
    then obtain ds where ds: "hex_string (n div 16) = map digit_char ds" "list_all (\<lambda>d. d < 16) ds" "ds \<noteq> []"
      "hex_value ds = n div 16" "\<forall>k>0. n div 16 < 16 ^ k \<longrightarrow> length ds \<le> k"
      using 1 by blast
    have "length (ds @ [n mod 16]) \<le> k" if "0 < k" "n < 16 ^ k" for k
    proof -
      have j: "16 ^ k = 16 ^ (k - 1) * (16::nat)" using that(1) by (cases k) simp_all
      have "k \<noteq> 1" using False that(2) by auto
      then have "0 < k - 1" using that(1) by linarith
      moreover have "n div 16 < 16 ^ (k - 1)" using that(2) unfolding j by (rule less_mult_imp_div_less)
      ultimately have "length ds \<le> k - 1" using ds(5) by blast
      then show ?thesis using that(1) by simp
    qed
    with False ds show ?thesis
      by (subst hex_string.simps) (auto simp: hex_value_def intro!: exI [of _ "ds @ [n mod 16]"])
  qed
qed

lemma hex_run_string:
  assumes "n < 65536" and "rest = [] \<or> hex_digit (hd rest) = None"
  obtains ds where "hex_run (hex_string n @ rest) = ds" "hex_value ds = n" "ds \<noteq> []" "length ds \<le> 4"
    "drop (length ds) (hex_string n @ rest) = rest"
proof -
  obtain ds where ds: "hex_string n = map digit_char ds" "list_all (\<lambda>d. d < 16) ds" "ds \<noteq> []"
    "hex_value ds = n" "\<forall>k>0. n < 16 ^ k \<longrightarrow> length ds \<le> k"
    using hex_string_digits by blast
  have "takeWhile (\<lambda>c. hex_digit c \<noteq> None) (map digit_char ds @ rest) = map digit_char ds"
    using ds(2) assms(2) by (induction ds) (auto, cases rest, auto)
  then have "hex_run (hex_string n @ rest) = ds"
    using ds(1,2) by (simp add: hex_run_def map_idI list_all_iff)
  moreover have "length ds \<le> 4" using ds(5) [rule_format, of 4] assms(1) by simp
  ultimately show thesis using ds that by simp
qed

definition gbytes :: "nat list \<Rightarrow> nat list" where
  "gbytes gs = concat (map (\<lambda>g. [g div 256, g mod 256]) gs)"

lemma gbytes_simps [simp]: "gbytes [] = []" "gbytes (g # gs) = g div 256 # g mod 256 # gbytes gs"
  "gbytes (gs @ hs) = gbytes gs @ gbytes hs" "length (gbytes gs) = 2 * length gs"
  by (simp_all add: gbytes_def length_concat comp_def sum_list_triv)

lemma hex_string_first: "\<exists>c s. hex_string n = c # s \<and> hex_digit c \<noteq> None"
  using hex_string_digits [of n] by (auto simp: neq_Nil_conv)

lemma join_hex_first:
  "gs \<noteq> [] \<Longrightarrow> \<exists>c s. join '':'' (map hex_string gs) = c # s \<and> hex_digit c \<noteq> None"
proof (induction gs rule: induct_list012)
  case (2 g)
  then show ?case using hex_string_first [of g] by simp
next
  case (3 g h gs)
  then show ?case using hex_string_first [of g] by auto
qed simp

text \<open>One group followed by a colon and more text.\<close>

lemma ipv6_loop_group:
  assumes "length bs < 16" "g < 65536" "hex_digit c \<noteq> None"
  shows "ipv6_loop bs e (hex_string g @ CHR '':'' # c # s) =
    ipv6_loop (bs @ [g div 256, g mod 256]) e (c # s)"
proof -
  have "CHR '':'' # c # s = [] \<or> hex_digit (hd (CHR '':'' # c # s)) = None" by simp
  from hex_run_string [OF assms(2) this] obtain ds where ds:
    "hex_run (hex_string g @ CHR '':'' # c # s) = ds" "hex_value ds = g" "ds \<noteq> []" "length ds \<le> 4"
    "drop (length ds) (hex_string g @ CHR '':'' # c # s) = CHR '':'' # c # s" .
  have "c \<noteq> CHR '':''" using assms(3) by auto
  then show ?thesis
    using assms(1) ds(2-) by (subst ipv6_loop.simps) (simp add: Let_def ds(1))
qed

lemma ipv6_loop_last:
  assumes "length bs < 16" "g < 65536"
  shows "ipv6_loop bs e (hex_string g) = ipv6_finish (bs @ [g div 256, g mod 256]) e []"
proof -
  from hex_run_string [OF assms(2), of "[]"] obtain ds where ds:
    "hex_run (hex_string g) = ds" "hex_value ds = g" "ds \<noteq> []" "length ds \<le> 4"
    "drop (length ds) (hex_string g) = []" by auto
  then show ?thesis
    using assms(1) by (subst ipv6_loop.simps) (simp add: Let_def)
qed

lemma ipv6_loop_ellipsis:
  assumes "length bs < 16" "g < 65536"
  shows "ipv6_loop bs None (hex_string g @ ''::'' @ t) =
    (if t = [] then ipv6_finish (bs @ [g div 256, g mod 256]) (Some (length bs + 2)) []
     else ipv6_loop (bs @ [g div 256, g mod 256]) (Some (length bs + 2)) t)"
proof -
  have "''::'' @ t = [] \<or> hex_digit (hd (''::'' @ t)) = None" by simp
  from hex_run_string [OF assms(2) this] obtain ds where ds:
    "hex_run (hex_string g @ ''::'' @ t) = ds" "hex_value ds = g" "ds \<noteq> []" "length ds \<le> 4"
    "drop (length ds) (hex_string g @ ''::'' @ t) = ''::'' @ t" .
  then show ?thesis
    using assms(1) by (subst ipv6_loop.simps) (simp add: Let_def)
qed

lemma ipv6_loop_join:
  "gs \<noteq> [] \<Longrightarrow> list_all (\<lambda>g. g < 65536) gs \<Longrightarrow> length bs + 2 * length gs \<le> 16 \<Longrightarrow>
     ipv6_loop bs e (join '':'' (map hex_string gs)) = ipv6_finish (bs @ gbytes gs) e []"
proof (induction gs arbitrary: bs rule: induct_list012)
  case (2 g)
  then show ?case by (simp add: ipv6_loop_last)
next
  case (3 g h gs)
  obtain c s where cs: "join '':'' (map hex_string (h # gs)) = c # s" "hex_digit c \<noteq> None"
    using join_hex_first [of "h # gs"] by auto
  have "ipv6_loop bs e (join '':'' (map hex_string (g # h # gs))) =
      ipv6_loop (bs @ [g div 256, g mod 256]) e (join '':'' (map hex_string (h # gs)))"
    using 3(3-) cs(2) ipv6_loop_group [of bs g c e s] unfolding list.map join.simps
    by (simp add: cs(1) [unfolded list.map])
  also have "\<dots> = ipv6_finish ((bs @ [g div 256, g mod 256]) @ gbytes (h # gs)) e []"
    using 3(3-) by (intro 3(2)) simp_all
  finally show ?case by simp
qed simp

lemma ipv6_loop_join_ellipsis:
  "gs \<noteq> [] \<Longrightarrow> list_all (\<lambda>g. g < 65536) gs \<Longrightarrow> length bs + 2 * length gs \<le> 16 \<Longrightarrow>
     ipv6_loop bs None (join '':'' (map hex_string gs) @ ''::'' @ t) =
       (if t = [] then ipv6_finish (bs @ gbytes gs) (Some (length bs + 2 * length gs)) []
        else ipv6_loop (bs @ gbytes gs) (Some (length bs + 2 * length gs)) t)"
proof (induction gs arbitrary: bs rule: induct_list012)
  case (2 g)
  then show ?case using ipv6_loop_ellipsis [of bs g t] by simp
next
  case (3 g h gs)
  obtain c s where cs: "join '':'' (map hex_string (h # gs)) = c # s" "hex_digit c \<noteq> None"
    using join_hex_first [of "h # gs"] by auto
  have "ipv6_loop bs None (join '':'' (map hex_string (g # h # gs)) @ ''::'' @ t) =
      ipv6_loop (bs @ [g div 256, g mod 256]) None (join '':'' (map hex_string (h # gs)) @ ''::'' @ t)"
    using 3(3-) cs(2) ipv6_loop_group [of bs g c None "s @ ''::'' @ t"] unfolding list.map join.simps
    by (simp add: cs(1) [unfolded list.map])
  with 3(2) [of "bs @ [g div 256, g mod 256]"] 3(3-) show ?case by simp
qed simp

text \<open>What the search for a run of zero groups finds.\<close>

lemma longest_run_Some:
  assumes "longest_run gs is best = Some (st, en)"
    and "\<And>a b. best = Some (a, b) \<Longrightarrow> a + 2 \<le> b \<and> b \<le> length gs \<and> gs = take a gs @ replicate (b - a) 0 @ drop b gs"
    and "\<forall>i\<in>set is. i < length gs"
  shows "st + 2 \<le> en \<and> en \<le> length gs \<and> gs = take st gs @ replicate (en - st) 0 @ drop en gs"
  using assms
proof (induction gs "is" best rule: longest_run.induct)
  case (2 gs i "is" best)
  let ?l = "zero_run gs i"
  have "takeWhile (\<lambda>g. g = 0) (drop i gs) = replicate ?l 0"
    by (auto simp: zero_run_def intro!: replicate_eqI dest: set_takeWhileD)
  moreover have "drop i gs = takeWhile (\<lambda>g. g = 0) (drop i gs) @ drop ?l (drop i gs)"
    by (metis dropWhile_eq_drop takeWhile_dropWhile_id zero_run_def)
  ultimately have "gs = take i gs @ replicate ?l 0 @ drop (i + ?l) gs"
    by (metis append_take_drop_id drop_drop add.commute)
  moreover have "i + ?l \<le> length gs"
    using length_takeWhile_le [of "\<lambda>g. g = 0" "drop i gs"] 2(4) by (auto simp: zero_run_def)
  ultimately show ?case
    using 2 by (auto simp: Let_def split: if_splits)
qed simp

lemma groups_gbytes:
  "even (length bs) \<Longrightarrow> list_all (\<lambda>b. b < 256) bs \<Longrightarrow>
     gbytes (groups bs) = bs \<and> 2 * length (groups bs) = length bs \<and> list_all (\<lambda>g. g < 65536) (groups bs)"
  by (induction bs rule: groups.induct) auto

lemma hex_string_hex: "list_all (\<lambda>c. hex_digit c \<noteq> None) (hex_string n)"
  using hex_string_digits [of n] by (auto simp: list_all_iff)

lemma hex_chars:
  "c \<in> set (join '':'' (map hex_string gs)) \<Longrightarrow> c = CHR '':'' \<or> hex_digit c \<noteq> None"
  using hex_string_hex by (induction gs rule: induct_list012) (auto simp: list_all_iff)

lemma ipv6_string_no_percent: "CHR ''%'' \<notin> set (ipv6_string gs)"
proof -
  have "CHR ''%'' \<notin> set (join '':'' (map hex_string hs))" for hs
    using hex_chars [of "CHR ''%''" hs] by auto
  then show ?thesis by (auto simp: ipv6_string_def split: option.splits)
qed

lemma cut_absent: "c \<notin> set s \<Longrightarrow> cut s c = None"
  by (induction s) auto

lemma has_prefix_hex: "hex_digit c \<noteq> None \<Longrightarrow> \<not> has_prefix (c # s) ''::''"
  by (auto simp: has_prefix_iff)

text \<open>The text of eight groups, without a zone, parses back to their bytes.\<close>

lemma ipv6_print_parse:
  assumes len: "length gs = 8" and g: "list_all (\<lambda>g. g < 65536) gs"
  shows "(if has_prefix (ipv6_string gs) ''::'' then
      if drop 2 (ipv6_string gs) = [] then Some (replicate 16 0)
      else ipv6_loop [] (Some 0) (drop 2 (ipv6_string gs))
    else ipv6_loop [] None (ipv6_string gs)) = Some (gbytes gs)"
proof (cases "longest_run gs [0..<length gs] None")
  case None
  obtain c s where cs: "join '':'' (map hex_string gs) = c # s" "hex_digit c \<noteq> None"
    using join_hex_first [of gs] len by fastforce
  then have str: "ipv6_string gs = c # s" using None by (simp add: ipv6_string_def)
  have "ipv6_loop [] None (c # s) = Some (gbytes gs)"
    using ipv6_loop_join [of gs "[]" None] g len cs(1) by (cases "gs = []") (simp_all add: ipv6_finish_def)
  moreover have "has_prefix (ipv6_string gs) ''::'' = False"
    using has_prefix_hex [OF cs(2)] str by simp
  ultimately show ?thesis by (simp only: str if_False)
next
  case (Some r)
  obtain st en where r: "r = (st, en)" by (cases r)
  have run: "st + 2 \<le> en \<and> en \<le> length gs \<and> gs = take st gs @ replicate (en - st) 0 @ drop en gs"
    by (rule longest_run_Some [OF Some [unfolded r]]) simp_all
  define pre post where pp: "pre = take st gs" "post = drop en gs"
  have lens: "length pre = st" "length post = 8 - en" "st + 2 \<le> en" "en \<le> 8"
    using run len by (auto simp: pp)
  have zero: "gbytes (replicate n 0) = replicate (2 * n) 0" for n
    by (induction n) simp_all
  have bytes: "gbytes gs = gbytes pre @ replicate (2 * (en - st)) 0 @ gbytes post"
    using run by (metis gbytes_simps(3) zero pp)
  have gpre: "list_all (\<lambda>g. g < 65536) pre" "list_all (\<lambda>g. g < 65536) post"
    using g by (auto simp: pp list_all_iff dest: in_set_takeD in_set_dropD)
  let ?t = "join '':'' (map hex_string post)"
  have str: "ipv6_string gs = join '':'' (map hex_string pre) @ ''::'' @ ?t"
    using Some r by (simp add: ipv6_string_def pp)
  have t_nil: "?t = [] \<longleftrightarrow> post = []"
    using join_hex_first [of post] by (cases "post = []") auto
  have t_loop: "ipv6_loop bs e ?t = ipv6_finish (bs @ gbytes post) e []"
    if "post \<noteq> []" "length bs = 2 * st" for bs e
    using that lens gpre(2) by (intro ipv6_loop_join) auto
  have finish: "ipv6_finish (gbytes pre @ gbytes post) (Some (2 * st)) [] = Some (gbytes gs)"
    using lens by (auto simp: ipv6_finish_def bytes)
  show ?thesis
  proof (cases "st = 0")
    case True
    then have "pre = []" using lens by simp
    with str have s: "ipv6_string gs = ''::'' @ ?t" by simp
    show ?thesis
    proof (cases "post = []")
      case True
      with \<open>pre = []\<close> bytes lens \<open>st = 0\<close> have "gbytes gs = replicate 16 0" by simp
      with s t_nil True show ?thesis by simp
    next
      case False
      with s t_nil t_loop [of "[]"] finish \<open>st = 0\<close> \<open>pre = []\<close> show ?thesis by simp
    qed
  next
    case False
    then have ne: "pre \<noteq> []" using lens by auto
    obtain c s where cs: "join '':'' (map hex_string pre) = c # s" "hex_digit c \<noteq> None"
      using join_hex_first [OF ne] by blast
    have no: "has_prefix (ipv6_string gs) ''::'' = False"
      using has_prefix_hex [OF cs(2)] by (simp add: str cs(1))
    have "ipv6_loop [] None (ipv6_string gs) = Some (gbytes gs)"
      using ipv6_loop_join_ellipsis [OF ne gpre(1), of "[]" ?t] lens finish t_nil t_loop [of "gbytes pre"]
      by (auto simp: str)
    with no show ?thesis by (simp only: if_False)
  qed
qed

lemma ipv6_string_colon:
  assumes "length gs = 8"
  shows "\<exists>u v. ipv6_string gs = u @ CHR '':'' # v \<and> list_all (\<lambda>c. hex_digit c \<noteq> None) u"
proof (cases "longest_run gs [0..<length gs] None")
  case None
  obtain g h r where "gs = g # h # r" using assms by (auto simp: numeral_eq_Suc length_Suc_conv)
  with None show ?thesis
    using hex_string_hex [of g] by (auto simp: ipv6_string_def simp del: upt_Suc)
next
  case (Some r)
  have "\<exists>u v. join '':'' (map hex_string hs) @ CHR '':'' # t = u @ CHR '':'' # v \<and>
      list_all (\<lambda>c. hex_digit c \<noteq> None) u" for hs t
  proof (cases hs)
    case (Cons h hs')
    then show ?thesis using hex_string_hex [of h] by (cases hs') auto
  next
    case Nil
    then show ?thesis using list.pred_inject(1) by fastforce
  qed
  with Some show ?thesis by (auto simp: ipv6_string_def split: prod.splits)
qed

theorem Parse_String_6:
  assumes "addr_ok (Addr6 bs z)"
  shows "ParseAddr (Addr_String (Addr6 bs z)) = Some (Addr6 bs z)"
proof -
  let ?gs = "groups bs"
  have gs: "gbytes ?gs = bs" "length ?gs = 8" "list_all (\<lambda>g. g < 65536) ?gs"
    using groups_gbytes [of bs] assms by auto
  obtain u v where uv: "ipv6_string ?gs = u @ CHR '':'' # v" "list_all (\<lambda>c. hex_digit c \<noteq> None) u"
    using ipv6_string_colon [OF gs(2)] by blast
  have "list_all (\<lambda>c. c \<noteq> CHR ''.'' \<and> c \<noteq> CHR '':'' \<and> c \<noteq> CHR ''%'') u"
    using uv(2) by (auto simp: list_all_iff)
  from scan_skips [OF this]
  have scan: "ParseAddr s = parseIPv6 s" if "s = Addr_String (Addr6 bs z)" for s
    by (simp add: that ParseAddr_def uv(1))
  have cut: "cut s (CHR ''%'') = (if z = [] then None else Some (ipv6_string ?gs, z))"
    and plain: "z = [] \<Longrightarrow> s = ipv6_string ?gs" if "s = Addr_String (Addr6 bs z)" for s
    using ipv6_string_no_percent [of ?gs] by (simp_all add: that cut_absent cut_append)
  have "parseIPv6 s = Some (Addr6 bs z)" if "s = Addr_String (Addr6 bs z)" for s
    using ipv6_print_parse [OF gs(2,3)] plain [OF that]
    by (auto simp add: parseIPv6_def cut [OF that] gs(1) simp del: Addr_String.simps split: if_splits)
  with scan show ?thesis by (simp only:)
qed

theorem Parse_String: "addr_ok a \<Longrightarrow> ParseAddr (Addr_String a) = Some a"
  by (cases a) (simp_all only: Parse_String_4 Parse_String_6)

subsection \<open>Every parsed address is well formed\<close>

abbreviation octets :: "nat list \<Rightarrow> bool" where
  "octets bs \<equiv> list_all (\<lambda>b. b < 256) bs"

lemma ipv4_fields_ok:
  "ipv4_fields fields val dig prev s = Some r \<Longrightarrow> octets fields \<Longrightarrow> val < 256 \<Longrightarrow> length fields \<le> 3 \<Longrightarrow>
     octets r \<and> length r = 4"
  by (induction fields val dig prev s rule: ipv4_fields.induct) (auto split: if_splits option.splits)

lemma parseIPv4Fields_ok: "parseIPv4Fields s = Some r \<Longrightarrow> octets r \<and> length r = 4"
  by (auto simp: parseIPv4Fields_def dest: ipv4_fields_ok)

lemma list_all_replicate: "P x \<Longrightarrow> list_all P (replicate n x)"
  by (induction n) simp_all

lemma list_all_take_drop: "list_all P bs \<Longrightarrow> list_all P (take k bs) \<and> list_all P (drop k bs)"
  by (auto simp: list_all_iff dest: in_set_takeD in_set_dropD)

lemma ipv6_finish_ok:
  "ipv6_finish bs e s = Some r \<Longrightarrow> octets bs \<Longrightarrow> length bs \<le> 16 \<Longrightarrow>
     (\<forall>k. e = Some k \<longrightarrow> k \<le> length bs) \<Longrightarrow> octets r \<and> length r = 16"
  by (auto simp: ipv6_finish_def list_all_take_drop list_all_replicate split: if_splits option.splits)

lemma hex_value_less: "list_all (\<lambda>d. d < 16) ds \<Longrightarrow> hex_value ds < 16 ^ length ds"
  by (induction ds rule: rev_induct) (auto simp: hex_value_def)

lemma hex_run_digits: "list_all (\<lambda>d. d < 16) (hex_run s)"
  by (auto simp: hex_run_def hex_digit_def list_all_iff dest!: set_takeWhileD split: if_splits)

lemma hex_run_value:
  assumes "length (hex_run s) \<le> 4"
  shows "hex_value (hex_run s) div 256 < 256"
proof -
  have "hex_value (hex_run s) < 16 ^ length (hex_run s)" by (rule hex_value_less [OF hex_run_digits])
  also have "\<dots> \<le> 16 ^ 4" using assms by (intro power_increasing) auto
  finally show ?thesis by (simp add: less_mult_imp_div_less)
qed

lemma ipv6_loop_ok:
  "ipv6_loop bs e s = Some r \<Longrightarrow> octets bs \<Longrightarrow> even (length bs) \<Longrightarrow> length bs \<le> 16 \<Longrightarrow>
     (\<forall>k. e = Some k \<longrightarrow> k \<le> length bs) \<Longrightarrow> octets r \<and> length r = 16"
proof (induction bs e s rule: ipv6_loop.induct)
  case (1 bs e s)
  show ?case
  proof (cases "16 \<le> length bs")
    case True
    then show ?thesis
      using ipv6_finish_ok [of bs e s r] "1.prems" by (simp add: ipv6_loop.simps [of bs])
  next
    case False
    define ds rest where dr: "ds = hex_run s" "rest = drop (length ds) s"
    define bs' where bs': "bs' = bs @ [hex_value ds div 256, hex_value ds mod 256]"
    have len: "length bs' \<le> 16" "even (length bs')" "length bs \<le> length bs'"
      using False "1.prems"(3) by (auto simp: bs' elim!: evenE)
    have small: "length ds \<le> 4"
      using "1.prems"(1) False by (simp add: ipv6_loop.simps [of bs] Let_def dr(1) split: if_split_asm)
    then have oct: "octets bs'" using "1.prems"(2) hex_run_value [of s] by (simp add: bs' dr)
    note fin = ipv6_finish_ok [OF _ oct len(1)]
    have e': "\<forall>k. e = Some k \<longrightarrow> k \<le> length bs'" using "1.prems"(5) len(3) by auto
    have ih1: "ipv6_loop bs' (Some (length bs')) (tl (tl rest)) = Some r \<Longrightarrow> octets r \<and> length r = 16"
      if "ds \<noteq> []" "rest \<noteq> []" "hd rest = CHR '':''" "tl rest \<noteq> []" "hd (tl rest) = CHR '':''" "e = None" "tl (tl rest) \<noteq> []"
      using "1.IH"(1) [OF False dr(1) dr(2) _ _ _ refl bs'] that small oct len by auto
    have ih2: "ipv6_loop bs' e (tl rest) = Some r \<Longrightarrow> octets r \<and> length r = 16"
      if "ds \<noteq> []" "rest \<noteq> []" "hd rest = CHR '':''" "tl rest \<noteq> []" "hd (tl rest) \<noteq> CHR '':''"
      using "1.IH"(2) [OF False dr(1) dr(2) _ _ _ refl bs'] that small oct len e' by auto
    have v4: "octets r \<and> length r = 16"
      if "parseIPv4Fields s = Some f" "length bs + 4 \<le> 16" "ipv6_finish (bs @ f) e [] = Some r" for f
    proof (rule ipv6_finish_ok [OF that(3)])
      show "octets (bs @ f)" "length (bs @ f) \<le> 16"
        using parseIPv4Fields_ok [OF that(1)] that(2) "1.prems"(2) by auto
      show "\<forall>k. e = Some k \<longrightarrow> k \<le> length (bs @ f)" using "1.prems"(5) by auto
    qed
    note unfolded = "1.prems"(1) [unfolded ipv6_loop.simps [of bs] if_not_P [OF False] Let_def,
        folded dr(1), folded dr(2), folded bs']
    show ?thesis
    proof (cases "ds = [] \<or> rest = [] \<or> hd rest = CHR ''.''")
      case True
      with unfolded small fin [of e] e' v4 show ?thesis
        by (auto split: if_split_asm option.split_asm)
    next
      case False
      with unfolded small fin [of "Some (length bs')" "[]"] ih1 ih2 show ?thesis
        by (auto split: if_split_asm)
    qed
  qed
qed

theorem ParseAddr_ok: "ParseAddr s = Some a \<Longrightarrow> addr_ok a"
proof -
  have "addr_ok a" if "parseIPv6 w = Some a" for w
    using that ipv6_loop_ok [of "[]"]
    by (auto simp: parseIPv6_def list_all_replicate split: option.splits if_splits)
  then have "ParseAddr_scan w t = Some a \<Longrightarrow> addr_ok a" for w t
    by (induction t) (auto dest: parseIPv4Fields_ok split: if_splits)
  then show "ParseAddr s = Some a \<Longrightarrow> addr_ok a" by (simp add: ParseAddr_def)
qed

end
