(* ===== verification/Base64url.thy ===== *)
theory Base64url
  imports Acme_Prelude
begin

section \<open>Unpadded base64url and opaque resource IDs\<close>

text \<open>
  \<^verbatim>\<open>base64.RawURLEncoding\<close> of the standard library as the server uses it (\<^verbatim>\<open>EncodeToString\<close> and the
  strict \<^verbatim>\<open>DecodeString\<close>), the restricted decoder of \<^verbatim>\<open>internal/jws/jwk.go\<close>, and the ID checks of
  \<^verbatim>\<open>request.go\<close> and \<^verbatim>\<open>ids.go\<close>.  Shown: decoding inverts encoding; the JWS decoder accepts exactly the
  encodings, so it is a bijection; the plain strict decoder skips line breaks, so it is not.
\<close>

subsection \<open>The alphabet\<close>

definition b64_char :: "nat \<Rightarrow> char" where
  "b64_char n =
     (if n < 26 then char_of (65 + n)
      else if n < 52 then char_of (71 + n)
      else if n < 62 then char_of (n - 4)
      else if n = 62 then CHR ''-'' else CHR ''_'')"

definition b64_value :: "char \<Rightarrow> nat option" where
  "b64_value c =
     (let n = ord c in
      if 65 \<le> n \<and> n \<le> 90 then Some (n - 65)
      else if 97 \<le> n \<and> n \<le> 122 then Some (n - 71)
      else if 48 \<le> n \<and> n \<le> 57 then Some (n + 4)
      else if n = 45 then Some 62
      else if n = 95 then Some 63
      else None)"

lemma b64_value_char [simp]:
  assumes "n < 64"
  shows "b64_value (b64_char n) = Some n"
proof -
  consider "n < 26" | "26 \<le> n" "n < 52" | "52 \<le> n" "n < 62" | "n = 62" | "n = 63"
    using assms by linarith
  then show ?thesis
    by cases (auto simp: b64_value_def b64_char_def Let_def)
qed

lemma b64_value_Some:
  assumes "b64_value c = Some n"
  shows "n < 64" and "b64_char n = c"
proof -
  have [simp]: "CHR ''-'' = char_of (45::nat)" "CHR ''_'' = char_of (95::nat)"
    using ord_eq_iff [of 45 "CHR ''-''"] ord_eq_iff [of 95 "CHR ''_''"] by simp_all
  have "n < 64 \<and> b64_char n = c"
    using assms
    by (auto simp: b64_value_def b64_char_def Let_def ord_eq_iff split: if_splits)
  then show "n < 64" and "b64_char n = c"
    by simp_all
qed

subsection \<open>Encoding and decoding\<close>

text \<open>Three bytes become four characters; one or two remaining bytes become two or three.\<close>

fun encode_base64 :: "bytes \<Rightarrow> string" where
  "encode_base64 [] = []"
| "encode_base64 [a] =
     [b64_char (unat a div 4), b64_char (unat a mod 4 * 16)]"
| "encode_base64 [a, b] =
     [b64_char (unat a div 4), b64_char (unat a mod 4 * 16 + unat b div 16),
      b64_char (unat b mod 16 * 4)]"
| "encode_base64 (a # b # c # rest) =
     b64_char (unat a div 4) # b64_char (unat a mod 4 * 16 + unat b div 16) #
     b64_char (unat b mod 16 * 4 + unat c div 64) # b64_char (unat c mod 64) #
     encode_base64 rest"

text \<open>
  Strict decoding of sextets: a single left-over sextet is an error, and the unused bits of the last
  sextet must be zero.
\<close>

fun decode_sextets :: "nat list \<Rightarrow> bytes option" where
  "decode_sextets [] = Some []"
| "decode_sextets [w] = None"
| "decode_sextets [w, x] =
     (if x mod 16 \<noteq> 0 then None else Some [mk_byte (w * 4 + x div 16)])"
| "decode_sextets [w, x, y] =
     (if y mod 4 \<noteq> 0 then None
      else Some [mk_byte (w * 4 + x div 16), mk_byte (x mod 16 * 16 + y div 4)])"
| "decode_sextets (w # x # y # z # rest) =
     (case decode_sextets rest of
        None \<Rightarrow> None
      | Some bs \<Rightarrow> Some (mk_byte (w * 4 + x div 16) # mk_byte (x mod 16 * 16 + y div 4) #
                        mk_byte (y mod 4 * 64 + z) # bs))"

fun sextets :: "string \<Rightarrow> nat list option" where
  "sextets [] = Some []"
| "sextets (c # cs) =
     (case b64_value c of
        None \<Rightarrow> None
      | Some n \<Rightarrow> (case sextets cs of None \<Rightarrow> None | Some ns \<Rightarrow> Some (n # ns)))"

definition is_newline :: "char \<Rightarrow> bool" where
  "is_newline c \<longleftrightarrow> ord c = 10 \<or> ord c = 13"

text \<open>
  \<^verbatim>\<open>base64.RawURLEncoding.Strict().DecodeString\<close>.  The standard library skips carriage returns and
  line feeds wherever they occur, also in strict mode.
\<close>

definition decode_strict :: "string \<Rightarrow> bytes option" where
  "decode_strict s =
     (case sextets (filter (\<lambda>c. \<not> is_newline c) s) of
        None \<Rightarrow> None | Some ns \<Rightarrow> decode_sextets ns)"

text \<open>The alphabet check and the decoder of \<^verbatim>\<open>internal/jws/jwk.go\<close>.\<close>

definition is_base64url_char :: "char \<Rightarrow> bool" where
  "is_base64url_char c \<longleftrightarrow>
     65 \<le> ord c \<and> ord c \<le> 90 \<or> 97 \<le> ord c \<and> ord c \<le> 122 \<or>
     48 \<le> ord c \<and> ord c \<le> 57 \<or> c = CHR ''-'' \<or> c = CHR ''_''"

definition isBase64URL :: "string \<Rightarrow> bool" where
  "isBase64URL s \<longleftrightarrow> list_all is_base64url_char s"

definition decodeBase64 :: "string \<Rightarrow> bytes option" where
  "decodeBase64 s = (if \<not> isBase64URL s then None else decode_strict s)"

subsection \<open>Round trips\<close>

lemma sextets_map_b64_char [simp]:
  "list_all (\<lambda>n. n < 64) ns \<Longrightarrow> sextets (map b64_char ns) = Some ns"
  by (induction ns) auto

lemma sextets_Some:
  "sextets s = Some ns \<Longrightarrow> s = map b64_char ns \<and> list_all (\<lambda>n. n < 64) ns"
  by (induction s arbitrary: ns) (auto split: option.splits dest: b64_value_Some)

fun byte_sextets :: "bytes \<Rightarrow> nat list" where
  "byte_sextets [] = []"
| "byte_sextets [a] = [unat a div 4, unat a mod 4 * 16]"
| "byte_sextets [a, b] =
     [unat a div 4, unat a mod 4 * 16 + unat b div 16, unat b mod 16 * 4]"
| "byte_sextets (a # b # c # rest) =
     unat a div 4 # (unat a mod 4 * 16 + unat b div 16) #
     (unat b mod 16 * 4 + unat c div 64) # unat c mod 64 # byte_sextets rest"

lemma encode_base64_sextets: "encode_base64 bs = map b64_char (byte_sextets bs)"
  by (induction bs rule: encode_base64.induct) auto

lemma byte_div_4 [simp]: "unat (a :: byte) div 4 < 64"
  using byte_less [of a] by linarith

lemma byte_div_16: "unat (a :: byte) div 16 < 16"
  using byte_less [of a] by linarith

lemma byte_div_64: "unat (a :: byte) div 64 < 4"
  using byte_less [of a] by linarith

lemma sextet_join_16: "n mod 4 * 16 + unat (b :: byte) div 16 < 64" for n :: nat
  using byte_div_16 [of b] mod_less_divisor [of 4 n] by linarith

lemma sextet_join_64: "n mod 16 * 4 + unat (b :: byte) div 64 < 64" for n :: nat
  using byte_div_64 [of b] mod_less_divisor [of 16 n] by linarith

lemma byte_sextets_bound: "list_all (\<lambda>n. n < 64) (byte_sextets bs)"
proof -
  have [simp]: "n mod 4 * 16 < 64" "n mod 16 * 4 < 64" for n :: nat
    using mod_less_divisor [of 4 n] mod_less_divisor [of 16 n] by linarith+
  show ?thesis
    by (induction bs rule: byte_sextets.induct) (auto simp: sextet_join_16 sextet_join_64)
qed

lemma decode_byte_sextets: "decode_sextets (byte_sextets bs) = Some bs"
proof -
  have one: "a div 4 * 4 + (a mod 4 * 16) div 16 = a" for a :: nat
    by simp
  have two: "a div 4 * 4 + (a mod 4 * 16 + unat b div 16) div 16 = a" for a :: nat and b :: byte
    using byte_div_16 [of b] by simp
  have three: "(a mod 4 * 16 + unat b div 16) mod 16 * 16 + (unat b mod 16 * 4) div 4 = unat b"
    for a :: nat and b :: byte
    using byte_div_16 [of b] by simp
  have four: "(a mod 4 * 16 + unat b div 16) mod 16 * 16 + (unat b mod 16 * 4 + unat c div 64) div 4
      = unat b" for a :: nat and b c :: byte
    using byte_div_16 [of b] byte_div_64 [of c] by simp
  have five: "(n mod 16 * 4 + unat c div 64) mod 4 * 64 + unat c mod 64 = unat c"
    for n :: nat and c :: byte
    using byte_div_64 [of c] by simp
  show ?thesis
    by (induction bs rule: byte_sextets.induct) (simp_all only: byte_sextets.simps
        decode_sextets.simps one two three four five, simp_all)
qed

lemma b64_char_not_newline: "n < 64 \<Longrightarrow> \<not> is_newline (b64_char n)"
  using b64_value_char [of n] by (auto simp: is_newline_def b64_value_def Let_def)

lemma filter_newline_encode [simp]:
  "filter (\<lambda>c. \<not> is_newline c) (encode_base64 bs) = encode_base64 bs"
  using byte_sextets_bound [of bs]
  by (auto simp: encode_base64_sextets filter_id_conv list_all_iff b64_char_not_newline)

lemma decode_strict_encode [simp]: "decode_strict (encode_base64 bs) = Some bs"
proof -
  have "sextets (encode_base64 bs) = Some (byte_sextets bs)"
    using byte_sextets_bound [of bs] by (simp add: encode_base64_sextets)
  then show ?thesis
    by (simp add: decode_strict_def decode_byte_sextets)
qed

lemma is_base64url_char_iff: "is_base64url_char c \<longleftrightarrow> b64_value c \<noteq> None"
proof -
  have "c = CHR ''-'' \<longleftrightarrow> ord c = 45" "c = CHR ''_'' \<longleftrightarrow> ord c = 95"
    using ord_inject [of c "CHR ''-''"] ord_inject [of c "CHR ''_''"] by simp_all
  then show ?thesis
    by (auto simp: is_base64url_char_def b64_value_def Let_def)
qed

lemma isBase64URL_encode [simp]: "isBase64URL (encode_base64 bs)"
  using byte_sextets_bound [of bs]
  by (auto simp: isBase64URL_def encode_base64_sextets list_all_iff is_base64url_char_iff)

lemma byte_sextets_decode:
  "list_all (\<lambda>n. n < 64) ns \<Longrightarrow> decode_sextets ns = Some bs \<Longrightarrow> byte_sextets bs = ns"
proof (induction ns arbitrary: bs rule: decode_sextets.induct)
  case (3 w x)
  then have "w * 4 + x div 16 < 256" by auto
  with 3 show ?case by (auto split: if_splits)
next
  case (4 w x y)
  then have "w * 4 + x div 16 < 256" "x mod 16 * 16 + y div 4 < 256" by auto
  with 4 show ?case by (auto split: if_splits)
next
  case (5 w x y z rest)
  then have "w * 4 + x div 16 < 256" "x mod 16 * 16 + y div 4 < 256" "y mod 4 * 64 + z < 256"
    by auto
  with 5 show ?case by (auto split: option.splits)
qed auto

lemma decode_strict_canonical:
  assumes "decode_strict s = Some bs"
  shows "encode_base64 bs = filter (\<lambda>c. \<not> is_newline c) s"
proof -
  from assms obtain ns where ns: "sextets (filter (\<lambda>c. \<not> is_newline c) s) = Some ns"
    and bs: "decode_sextets ns = Some bs"
    by (auto simp: decode_strict_def split: option.splits)
  from sextets_Some [OF ns] bs show ?thesis
    by (metis encode_base64_sextets byte_sextets_decode)
qed

lemma is_base64url_char_not_newline: "is_base64url_char c \<Longrightarrow> \<not> is_newline c"
  by (auto simp: is_base64url_char_def is_newline_def)

lemma decodeBase64_Some_iff: "decodeBase64 s = Some bs \<longleftrightarrow> s = encode_base64 bs"
proof
  assume *: "decodeBase64 s = Some bs"
  then have "isBase64URL s" and "decode_strict s = Some bs"
    by (auto simp: decodeBase64_def split: if_splits)
  then show "s = encode_base64 bs"
    by (auto simp: decode_strict_canonical isBase64URL_def list_all_iff filter_id_conv
        is_base64url_char_not_newline)
next
  assume "s = encode_base64 bs"
  then show "decodeBase64 s = Some bs"
    by (simp add: decodeBase64_def)
qed

lemma length_encode_base64: "length (encode_base64 bs) = (4 * length bs + 2) div 3"
  by (induction bs rule: encode_base64.induct) auto

subsection \<open>Opaque resource IDs\<close>

text \<open>\<^verbatim>\<open>maxIDLength\<close> and \<^verbatim>\<open>validID\<close> of \<^verbatim>\<open>request.go\<close>.\<close>

definition maxIDLength :: nat where
  "maxIDLength = 64"

definition validID :: "string \<Rightarrow> bool" where
  "validID s \<longleftrightarrow> s \<noteq> [] \<and> length s \<le> maxIDLength \<and> list_all is_base64url_char s"

text \<open>\<^verbatim>\<open>newID\<close> of \<^verbatim>\<open>ids.go\<close> on the sixteen bytes it reads, or the failure of the random source.\<close>

definition newID :: "'e + bytes \<Rightarrow> 'e + string" where
  "newID random = and_then random (\<lambda>b. Inr (encode_base64 b))"

text \<open>\<^verbatim>\<open>certificateID\<close> of \<^verbatim>\<open>ids.go\<close>; SHA-256 is a parameter.\<close>

definition certificateID :: "(bytes \<Rightarrow> bytes) \<Rightarrow> bytes \<Rightarrow> string" where
  "certificateID sha256 leafDER = encode_base64 (sha256 leafDER)"

definition maxRenewalIDLength :: nat where
  "maxRenewalIDLength = 2 * maxIDLength + 1"

text \<open>
  \<^verbatim>\<open>renewalID\<close> of \<^verbatim>\<open>ids.go\<close>: the authority key identifier and the magnitude of the serial number,
  big-endian without leading zero bytes.  A missing or non-positive serial number is \<open>None\<close>.
\<close>

definition renewalID :: "bytes \<Rightarrow> bytes option \<Rightarrow> string" where
  "renewalID authorityKeyId serialNumber =
     (case serialNumber of
        None \<Rightarrow> []
      | Some serial \<Rightarrow>
          if authorityKeyId = [] \<or> serial = [] then []
          else
            let serial' = (if unat (hd serial) \<ge> 128 then 0 # serial else serial)
            in encode_base64 authorityKeyId @ ''.'' @ encode_base64 serial')"

definition validRenewalID :: "string \<Rightarrow> bool" where
  "validRenewalID s \<longleftrightarrow>
     (if length s > maxRenewalIDLength then False
      else case cut s (CHR ''.'') of
             None \<Rightarrow> False
           | Some (aki, serial) \<Rightarrow> validID aki \<and> validID serial)"

lemma encode_base64_Nil_iff [simp]: "encode_base64 bs = [] \<longleftrightarrow> bs = []"
  by (cases bs rule: encode_base64.cases) auto

lemma validID_encode:
  "bs \<noteq> [] \<Longrightarrow> length bs \<le> 48 \<Longrightarrow> validID (encode_base64 bs)"
  using isBase64URL_encode [of bs]
  by (auto simp: validID_def maxIDLength_def length_encode_base64 isBase64URL_def)

lemma newID_valid: "newID (Inr b) = Inr s \<Longrightarrow> length b = 16 \<Longrightarrow> validID s"
  by (auto simp: newID_def intro: validID_encode)

lemma dot_not_in_encode: "CHR ''.'' \<notin> set (encode_base64 bs)"
  using isBase64URL_encode [of bs]
  by (auto simp: isBase64URL_def list_all_iff is_base64url_char_def)

lemma validRenewalID_renewalID_aux:
  assumes "a \<noteq> []" "length a \<le> 48" "s \<noteq> []" "length s \<le> 48"
  shows "validRenewalID (encode_base64 a @ ''.'' @ encode_base64 s)"
proof -
  have "(4 * length a + 2) div 3 \<le> 64" and "(4 * length s + 2) div 3 \<le> 64"
    using assms by linarith+
  with assms show ?thesis
    by (simp add: validRenewalID_def maxRenewalIDLength_def maxIDLength_def cut_append
        dot_not_in_encode validID_encode length_encode_base64)
qed

end
