(* ===== verification/TN_Auth_List.thy ===== *)
theory TN_Auth_List
  imports Base64url Acme_Problem
begin

section \<open>TN Authorization Lists\<close>

text \<open>
  \<^verbatim>\<open>tnauthlist.go\<close>: the DER reader and the RFC 8226 checks on the authority list a client presents as an
  identifier.  A byte buffer is a list of bytes, a \<^verbatim>\<open>derReader\<close> is the rest of the buffer and is returned
  by each read.  Masks on a byte are written arithmetically (\<^verbatim>\<open>b & 0x80\<close> tests \<open>128 \<le> b\<close>, \<^verbatim>\<open>tag & 0x1f\<close> is
  \<open>tag mod 32\<close>).  Lengths are Go \<^verbatim>\<open>int\<close>s below \<open>2^32\<close> and cannot overflow; the \<^verbatim>\<open>int64\<close> of \<^verbatim>\<open>derInteger\<close> is kept
  at its width by \<open>i64\<close>, and \<open>derInteger_iff\<close> shows that it never wraps.

  The main result is that the checker accepts exactly the DER encodings of well-formed lists, and that
  two lists with the same encoding are equal: one list of entries has one accepted encoding.
\<close>

subsection \<open>Reading DER\<close>

definition errTNAuthList :: error where
  "errTNAuthList = ErrorNew ''acmeserver: invalid TN authorization list''"

definition maxTNAuthListBytes :: nat where "maxTNAuthListBytes = 8192"
definition maxTNEntries :: nat where "maxTNEntries = 512"
definition maxServiceProviderCodeLength :: nat where "maxServiceProviderCodeLength = 64"
definition maxTelephoneNumberLength :: nat where "maxTelephoneNumberLength = 15"

definition telephoneNumberAlphabet :: string where
  "telephoneNumberAlphabet = ''0123456789#*''"

text \<open>\<^verbatim>\<open>size = size<<8 | int(b)\<close> over the bytes of a buffer.\<close>

definition be_value :: "bytes \<Rightarrow> nat" where
  "be_value bs = foldl (\<lambda>v b. v * 256 + unat b) 0 bs"

definition tlv_content :: "byte \<Rightarrow> nat \<Rightarrow> bytes \<Rightarrow> error + byte \<times> bytes \<times> bytes" where
  "tlv_content tag sz rest =
     (if length rest < sz then Inl errTNAuthList
      else Inr (tag, take sz rest, drop sz rest))"

fun tlv :: "bytes \<Rightarrow> error + byte \<times> bytes \<times> bytes" where
  "tlv (tag # b # rest) =
     (if unat tag mod 32 = 31 then Inl errTNAuthList
      else
        let sz = unat b in
        if 128 \<le> sz then
          let octets = sz mod 128 in
          if octets = 0 \<or> 4 < octets \<or> length rest < octets \<or> hd rest = 0 then Inl errTNAuthList
          else
            let sz = be_value (take octets rest) in
            if sz < 128 then Inl errTNAuthList
            else tlv_content tag sz (drop octets rest)
        else tlv_content tag sz rest)"
| "tlv _ = Inl errTNAuthList"

definition expect :: "byte \<Rightarrow> bytes \<Rightarrow> error + bytes \<times> bytes" where
  "expect tag buf =
     and_then (tlv buf) (\<lambda>(got, content, rest).
       if got \<noteq> tag then Inl errTNAuthList else Inr (content, rest))"

definition derInteger :: "bytes \<Rightarrow> error + int" where
  "derInteger raw =
     (if raw = [] \<or> 8 < length raw \<or> 128 \<le> unat (hd raw) then Inl errTNAuthList
      else if 1 < length raw \<and> hd raw = 0 \<and> unat (raw ! 1) < 128 then Inl errTNAuthList
      else Inr (foldl (\<lambda>v b. i64 (v * 256) + int (unat b)) 0 raw))"

subsection \<open>Checking the entries\<close>

definition checkServiceProviderCode :: "bytes \<Rightarrow> error + unit" where
  "checkServiceProviderCode value =
     (if value = [] \<or> maxServiceProviderCodeLength < length value then Inl errTNAuthList
      else if list_ex (\<lambda>c. unat c < 33 \<or> 126 < unat c) value then Inl errTNAuthList
      else Inr ())"

definition checkTelephoneNumber :: "bytes \<Rightarrow> error + unit" where
  "checkTelephoneNumber value =
     (if value = [] \<or> maxTelephoneNumberLength < length value then Inl errTNAuthList
      else if list_ex (\<lambda>c. unat c \<notin> set (map ord telephoneNumberAlphabet)) value then Inl errTNAuthList
      else Inr ())"

lemma tlv_content_shorter:
  "tlv_content tag sz rest = Inr (t, c, r) \<Longrightarrow> length r \<le> length rest"
  by (auto simp: tlv_content_def split: if_splits)

lemma tlv_shorter: "tlv buf = Inr (t, c, r) \<Longrightarrow> length r < length buf"
  by (induction buf rule: tlv.induct)
    (auto simp: Let_def dest!: tlv_content_shorter split: if_splits)

function check_tlvs :: "bytes \<Rightarrow> error + unit" where
  "check_tlvs buf =
     (if buf = [] then Inr () else and_then (tlv buf) (\<lambda>(_, _, rest). check_tlvs rest))"
  by auto
termination
  by (relation "measure length") (auto dest: tlv_shorter)

text \<open>\<^verbatim>\<open>strconv.ParseInt(s, 10, 64)\<close> on the characters \<^verbatim>\<open>checkTelephoneNumber\<close> lets through, which have no sign.\<close>

definition is_digit_byte :: "byte \<Rightarrow> bool" where
  "is_digit_byte c \<longleftrightarrow> 48 \<le> unat c \<and> unat c \<le> 57"

definition decimal_value :: "bytes \<Rightarrow> int" where
  "decimal_value s = foldl (\<lambda>v c. v * 10 + (int (unat c) - 48)) 0 s"

definition ParseInt10 :: "bytes \<Rightarrow> int option" where
  "ParseInt10 s =
     (if s = [] \<or> \<not> list_all is_digit_byte s \<or> 2 ^ 63 \<le> decimal_value s then None
      else Some (decimal_value s))"

text \<open>The last part of \<^verbatim>\<open>checkTelephoneNumberRange\<close>: the range may not extend the number's length.\<close>

definition check_range_limit :: "bytes \<Rightarrow> int \<Rightarrow> error + unit" where
  "check_range_limit start count =
     (if list_ex (\<lambda>c. unat c = 35 \<or> unat c = 42) start then Inl errTNAuthList
      else
        let limit = foldl (\<lambda>l _. i64 (l * 10)) 1 start in
        case ParseInt10 start of
          None \<Rightarrow> Inl errTNAuthList
        | Some first \<Rightarrow>
            if limit \<le> count \<or> limit \<le> i64 (first + count) then Inl errTNAuthList else Inr ())"

definition checkTelephoneNumberRange :: "bytes \<Rightarrow> error + unit" where
  "checkTelephoneNumberRange body =
     and_then (expect 22 body) (\<lambda>(start, fields).
     and_then (checkTelephoneNumber start) (\<lambda>_.
     and_then (expect 2 fields) (\<lambda>(raw, fields').
     and_then (derInteger raw) (\<lambda>count.
       if count < 2 then Inl errTNAuthList
       else and_then (check_tlvs fields') (\<lambda>_. check_range_limit start count)))))"

definition checkTNEntry :: "byte \<Rightarrow> bytes \<Rightarrow> error + unit" where
  "checkTNEntry tag content =
     (if tag = 160 then
        (case expect 22 content of
           Inr (value, []) \<Rightarrow> checkServiceProviderCode value
         | _ \<Rightarrow> Inl errTNAuthList)
      else if tag = 161 then
        (case expect 48 content of
           Inr (value, []) \<Rightarrow> checkTelephoneNumberRange value
         | _ \<Rightarrow> Inl errTNAuthList)
      else if tag = 162 then
        (case expect 22 content of
           Inr (value, []) \<Rightarrow> checkTelephoneNumber value
         | _ \<Rightarrow> Inl errTNAuthList)
      else Inl errTNAuthList)"

function check_entries :: "nat \<Rightarrow> bytes \<Rightarrow> error + nat" where
  "check_entries count buf =
     (if buf = [] then Inr count
      else if maxTNEntries < count + 1 then Inl errTNAuthList
      else and_then (tlv buf) (\<lambda>(tag, content, rest).
        and_then (checkTNEntry tag content) (\<lambda>_. check_entries (count + 1) rest)))"
  by auto
termination
  by (relation "measure (\<lambda>(count, buf). length buf)") (auto dest: tlv_shorter)

definition checkTNAuthList :: "bytes \<Rightarrow> error + unit" where
  "checkTNAuthList der =
     (if der = [] \<or> maxTNAuthListBytes < length der then Inl errTNAuthList
      else
        (case expect 48 der of
           Inr (body, []) \<Rightarrow>
             and_then (check_entries 0 body) (\<lambda>count.
               if count = 0 then Inl errTNAuthList else Inr ())
         | _ \<Rightarrow> Inl errTNAuthList))"

declare check_tlvs.simps [simp del] check_entries.simps [simp del]

text \<open>A \<^verbatim>\<open>rejectedIdentifier\<close> problem that names the offending identifier, from \<^verbatim>\<open>identifier.go\<close>.\<close>

definition rejected :: "Identifier \<Rightarrow> string \<Rightarrow> Problem" where
  "rejected i detail = WithIdentifier (NewProblem ErrorRejectedIdentifier detail) i"

definition normalizeTNAuthList :: "string \<Rightarrow> error + Identifier" where
  "normalizeTNAuthList value =
     (let i = mk_id IdentifierTNAuthList value in
      if value = [] then
        Inl (ErrProblem (NewProblem ErrorMalformed ''TNAuthList identifier value is empty''))
      else
        (case decode_strict value of
           None \<Rightarrow> Inl (ErrProblem (rejected i ''TNAuthList identifier is not unpadded base64url''))
         | Some der \<Rightarrow>
             (case checkTNAuthList der of
                Inl _ \<Rightarrow> Inl (ErrProblem (rejected i ''TNAuthList identifier is not a valid authority list''))
              | Inr _ \<Rightarrow> Inr i)))"

text \<open>An X.509 extension: its object identifier and its value.\<close>

type_synonym Extension = "nat list \<times> bytes"

definition tnAuthListOID :: "nat list" where
  "tnAuthListOID = [1, 3, 6, 1, 5, 5, 7, 1, 26]"

definition tnAuthListExtension :: "Extension list \<Rightarrow> error + Identifier option" where
  "tnAuthListExtension extensions =
     (case filter (\<lambda>e. fst e = tnAuthListOID) extensions of
        [] \<Rightarrow> Inr None
      | [e] \<Rightarrow> and_then (checkTNAuthList (snd e)) (\<lambda>_.
          Inr (Some (mk_id IdentifierTNAuthList (encode_base64 (snd e)))))
      | _ \<Rightarrow> Inl (ErrorNew ''duplicate TN authorization list extension''))"

subsection \<open>The canonical encoding\<close>

text \<open>The shortest big-endian form of a number, the DER length and a complete DER value.\<close>

fun be_bytes :: "nat \<Rightarrow> bytes" where
  "be_bytes n = (if n < 256 then [mk_byte n] else be_bytes (n div 256) @ [mk_byte (n mod 256)])"

declare be_bytes.simps [simp del]

definition der_length :: "nat \<Rightarrow> bytes" where
  "der_length n = (if n < 128 then [mk_byte n] else mk_byte (128 + length (be_bytes n)) # be_bytes n)"

definition der_tlv :: "byte \<Rightarrow> bytes \<Rightarrow> bytes" where
  "der_tlv tag c = tag # der_length (length c) @ c"

definition tag_ok :: "byte \<Rightarrow> bool" where
  "tag_ok tag \<longleftrightarrow> unat tag mod 32 \<noteq> 31"

lemma be_value_simps [simp]: "be_value [] = 0" "be_value (bs @ [b]) = be_value bs * 256 + unat b"
  by (simp_all add: be_value_def)

lemma be_value_be_bytes [simp]: "be_value (be_bytes n) = n"
proof (induction n rule: be_bytes.induct)
  case (1 n)
  have "be_value [mk_byte n] = n" if "n < 256" using that be_value_simps(2) [of "[]"] by simp
  with 1 show ?case
    by (subst be_bytes.simps) auto
qed

lemma be_bytes_not_Nil [simp]: "be_bytes n \<noteq> []"
  by (subst be_bytes.simps) simp

lemma be_value_bound: "be_value bs < 256 ^ length bs"
proof (induction bs rule: rev_induct)
  case (snoc b bs)
  have "unat b \<le> 255" using byte_less [of b] by linarith
  with snoc show ?case by simp
qed simp

lemma be_value_pos: "bs \<noteq> [] \<Longrightarrow> hd bs \<noteq> 0 \<Longrightarrow> 256 ^ (length bs - 1) \<le> be_value bs"
proof (induction bs rule: rev_induct)
  case (snoc b bs)
  show ?case
  proof (cases "bs = []")
    case True
    with snoc.prems have "unat b \<noteq> 0" by (simp add: unat_eq_0)
    with True show ?thesis using be_value_simps(2) [of "[]" b] by simp
  next
    case False
    with snoc have IH: "256 ^ (length bs - 1) \<le> be_value bs" by simp
    have "(256::nat) ^ (length (bs @ [b]) - 1) = 256 * 256 ^ (length bs - 1)"
      using False by (cases bs) simp_all
    with IH show ?thesis by simp
  qed
qed simp

lemma be_bytes_be_value: "bs \<noteq> [] \<Longrightarrow> hd bs \<noteq> 0 \<or> length bs = 1 \<Longrightarrow> be_bytes (be_value bs) = bs"
proof (induction bs rule: rev_induct)
  case (snoc b bs)
  show ?case
  proof (cases "bs = []")
    case True
    then show ?thesis
      using be_value_simps(2) [of "[]" b] by (subst be_bytes.simps) simp
  next
    case False
    with snoc.prems have hd: "hd bs \<noteq> 0" by (cases bs) auto
    have "1 \<le> be_value bs"
      using be_value_pos [OF False hd] by (metis le_trans one_le_numeral one_le_power)
    moreover have "(be_value bs * 256 + unat b) div 256 = be_value bs"
      "(be_value bs * 256 + unat b) mod 256 = unat b"
      by (simp_all add: div_mult_self1 add.commute)
    ultimately show ?thesis
      using snoc.IH False hd by (subst be_bytes.simps) simp
  qed
qed simp

lemma hd_be_bytes: "0 < n \<Longrightarrow> hd (be_bytes n) \<noteq> 0"
proof (induction n rule: be_bytes.induct)
  case (1 n)
  have "mk_byte n \<noteq> 0" if "n < 256" "0 < n"
    using that unat_mk_byte [of n] by (metis less_numeral_extra(3) unat_0)
  with 1 show ?case
    by (subst be_bytes.simps) (auto simp: hd_append)
qed

lemma length_be_bytes: "n < 256 ^ k \<Longrightarrow> 0 < k \<Longrightarrow> length (be_bytes n) \<le> k"
proof (cases "n = 0")
  case False
  assume "n < 256 ^ k" "0 < k"
  have "256 ^ (length (be_bytes n) - 1) \<le> n"
    using be_value_pos [of "be_bytes n"] hd_be_bytes [of n] False by simp
  with \<open>n < 256 ^ k\<close> have "(256::nat) ^ (length (be_bytes n) - 1) < 256 ^ k" by linarith
  then have "length (be_bytes n) - 1 < k" by (simp add: power_strict_increasing_iff)
  then show ?thesis by linarith
qed (subst be_bytes.simps, simp)

lemma tlv_der_tlv:
  assumes "tag_ok tag" "length c < 2 ^ 32"
  shows "tlv (der_tlv tag c @ rest) = Inr (tag, c, rest)"
proof (cases "length c < 128")
  case True
  with assms(1) show ?thesis
    by (simp add: der_tlv_def der_length_def tag_ok_def tlv_content_def Let_def)
next
  case False
  let ?b = "be_bytes (length c)"
  have len: "length ?b \<le> 4"
    using assms(2) by (intro length_be_bytes) simp_all
  have "0 < length ?b" by simp
  have u: "unat (mk_byte (128 + length ?b)) = 128 + length ?b"
    using len by simp
  have hd: "hd ?b \<noteq> 0" using False by (intro hd_be_bytes) linarith
  then show ?thesis
    using assms(1) False len \<open>0 < length ?b\<close>
    by (simp add: der_tlv_def der_length_def tag_ok_def tlv_content_def Let_def u)
qed

lemma tlv_content_Inr:
  "tlv_content tag sz rest = Inr (t, c, r) \<longleftrightarrow> t = tag \<and> length c = sz \<and> rest = c @ r"
  by (auto simp: tlv_content_def min_def)

lemma tlv_canonical:
  assumes "tlv buf = Inr (tag, c, rest)"
  shows "tag_ok tag \<and> length c < 2 ^ 32 \<and> buf = der_tlv tag c @ rest"
proof -
  from assms obtain b tail where buf: "buf = tag # b # tail" and ok: "tag_ok tag"
    by (cases buf rule: tlv.cases)
      (auto simp: tag_ok_def Let_def tlv_content_Inr split: if_splits)
  show ?thesis
  proof (cases "128 \<le> unat b")
    case False
    with assms ok have "length c = unat b" "tail = c @ rest"
      by (simp_all add: buf tag_ok_def Let_def tlv_content_Inr)
    with False ok show ?thesis
      by (simp add: buf der_tlv_def der_length_def)
  next
    case True
    let ?n = "unat b mod 128"
    let ?v = "be_value (take ?n tail)"
    from assms ok True have n: "?n \<noteq> 0" "?n \<le> 4" "?n \<le> length tail" "hd tail \<noteq> 0" "128 \<le> ?v"
      and c: "length c = ?v" "drop ?n tail = c @ rest"
      by (auto simp: buf tag_ok_def Let_def tlv_content_Inr split: if_splits)
    have len: "length (take ?n tail) = ?n" using n(3) by simp
    have ne: "take ?n tail \<noteq> []" "hd (take ?n tail) \<noteq> 0"
      using n by (auto simp: hd_take)
    have "unat b = 128 + ?n"
      using True byte_less [of b] by (metis add.commute add_diff_inverse_nat le_add_diff_inverse2
          less_diff_conv2 mod_add_self2 mod_if not_le numeral_Bit0)
    moreover have "be_bytes ?v = take ?n tail"
      using ne by (intro be_bytes_be_value) simp_all
    moreover have "?v < 2 ^ 32"
    proof -
      have "?v < 256 ^ ?n" using be_value_bound [of "take ?n tail"] len by simp
      also have "(256::nat) ^ ?n \<le> 256 ^ 4" using n(2) by (intro power_increasing) simp_all
      finally show ?thesis by simp
    qed
    moreover have "tail = take ?n tail @ c @ rest"
      using c(2) by (metis append_take_drop_id)
    ultimately show ?thesis
      using ok n(5) c(1) len mk_byte_unat [of b] by (simp add: buf der_tlv_def der_length_def)
  qed
qed

lemma tlv_iff:
  "tlv buf = Inr (tag, c, rest) \<longleftrightarrow> tag_ok tag \<and> length c < 2 ^ 32 \<and> buf = der_tlv tag c @ rest"
  using tlv_canonical tlv_der_tlv by blast

lemma der_tlv_inject:
  assumes "der_tlv t c @ r = der_tlv t' c' @ r'" "tag_ok t" "length c < 2 ^ 32" "length c' < 2 ^ 32"
  shows "t = t' \<and> c = c' \<and> r = r'"
proof -
  have "t = t'" using assms(1) by (simp add: der_tlv_def)
  then have "tlv (der_tlv t c @ r) = Inr (t', c', r')"
    unfolding assms(1) using assms(2,4) by (intro tlv_der_tlv) simp_all
  moreover have "tlv (der_tlv t c @ r) = Inr (t, c, r)"
    using assms(2,3) by (rule tlv_der_tlv)
  ultimately show ?thesis by (simp del: tlv.simps)
qed

lemma expect_iff:
  "tag_ok tag \<Longrightarrow> expect tag buf = Inr (c, rest) \<longleftrightarrow> length c < 2 ^ 32 \<and> buf = der_tlv tag c @ rest"
  by (auto simp: expect_def tlv_iff)

text \<open>A DER INTEGER that is not negative: the shortest form, with a zero byte before a leading one bit.\<close>

definition der_int :: "nat \<Rightarrow> bytes" where
  "der_int n = (if 128 \<le> unat (hd (be_bytes n)) then 0 # be_bytes n else be_bytes n)"

lemma be_value_zero [simp]: "be_value (0 # bs) = be_value bs"
  by (simp add: be_value_def)

lemma derInteger_value:
  assumes "length raw \<le> 8" "raw \<noteq> []" "unat (hd raw) < 128"
  shows "foldl (\<lambda>v b. i64 (v * 256) + int (unat b)) 0 raw = int (be_value raw)"
    and "int (be_value raw) < 2 ^ 63"
proof -
  have bound: "2 * be_value bs < 256 ^ length bs" if "bs \<noteq> []" "unat (hd bs) < 128" for bs
    using that
  proof (induction bs rule: rev_induct)
    case (snoc b bs)
    show ?case
    proof (cases "bs = []")
      case True
      with snoc.prems show ?thesis using be_value_simps(2) [of "[]" b] by simp
    next
      case False
      with snoc have "2 * be_value bs < 256 ^ length bs" by simp
      moreover have "unat b \<le> 255" using byte_less [of b] by linarith
      moreover obtain k where "(256::nat) ^ length bs = 2 * k"
        using False by (cases bs) (auto intro: that [of "128 * 256 ^ _"])
      ultimately show ?thesis by simp
    qed
  qed simp
  have le: "(256::nat) ^ length raw \<le> 256 ^ 8"
    using assms(1) by (intro power_increasing) simp_all
  from bound [OF assms(2,3)] le have "2 * be_value raw < 2 ^ 64" by simp
  then show "int (be_value raw) < 2 ^ 63" by simp
  have "foldl (\<lambda>v b. i64 (v * 256) + int (unat b)) 0 bs = int (be_value bs)"
    if "length bs \<le> 8" "bs = [] \<or> unat (hd bs) < 128" for bs
    using that
  proof (induction bs rule: rev_induct)
    case (snoc b bs)
    have "length bs \<le> 7" using snoc.prems by simp
    have hd: "bs = [] \<or> unat (hd bs) < 128" using snoc.prems by (cases bs) auto
    have "2 * be_value bs < 256 ^ 7"
    proof (cases "bs = []")
      case False
      then have "2 * be_value bs < 256 ^ length bs" using bound hd by blast
      also have "(256::nat) ^ length bs \<le> 256 ^ 7"
        using \<open>length bs \<le> 7\<close> by (intro power_increasing) simp_all
      finally show ?thesis .
    qed simp
    then have "i64 (int (be_value bs) * 256) = int (be_value bs) * 256"
      by (intro i64_id) auto
    with snoc hd show ?case by simp
  qed simp
  then show "foldl (\<lambda>v b. i64 (v * 256) + int (unat b)) 0 raw = int (be_value raw)"
    using assms by blast
qed

lemma be_value_hd: "bs \<noteq> [] \<Longrightarrow> unat (hd bs) * 256 ^ (length bs - 1) \<le> be_value bs"
proof (induction bs rule: rev_induct)
  case (snoc b bs)
  show ?case
  proof (cases "bs = []")
    case True
    then show ?thesis using be_value_simps(2) [of "[]" b] by simp
  next
    case False
    have "(256::nat) ^ (length (bs @ [b]) - 1) = 256 * 256 ^ (length bs - 1)"
      using False by (cases bs) simp_all
    with snoc.IH [OF False] False show ?thesis by simp
  qed
qed simp

lemma length_der_int: "k < 2 ^ 63 \<Longrightarrow> length (der_int k) \<le> 8"
proof -
  assume k: "k < 2 ^ 63"
  then have le: "length (be_bytes k) \<le> 8" by (intro length_be_bytes) simp_all
  show ?thesis
  proof (cases "128 \<le> unat (hd (be_bytes k)) \<and> length (be_bytes k) = 8")
    case True
    then have "128 * 256 ^ 7 \<le> unat (hd (be_bytes k)) * 256 ^ (length (be_bytes k) - 1)" by simp
    also have "\<dots> \<le> k" using be_value_hd [of "be_bytes k"] by simp
    finally show ?thesis using k by simp
  next
    case False
    with le show ?thesis by (auto simp: der_int_def)
  qed
qed

lemma der_int_shape:
  "der_int k \<noteq> []" "unat (hd (der_int k)) < 128"
  "\<not> (1 < length (der_int k) \<and> hd (der_int k) = 0 \<and> unat (der_int k ! 1) < 128)"
  "be_value (der_int k) = k"
proof -
  show "der_int k \<noteq> []" "be_value (der_int k) = k" by (simp_all add: der_int_def)
  show "unat (hd (der_int k)) < 128" by (auto simp: der_int_def)
  have "hd (be_bytes k) \<noteq> 0" if "1 < length (be_bytes k)"
  proof (rule hd_be_bytes, rule ccontr)
    assume "\<not> 0 < k"
    then have "be_bytes k = [mk_byte 0]" by (subst be_bytes.simps) simp
    with that show False by simp
  qed
  moreover have "be_bytes k ! 0 = hd (be_bytes k)" by (simp add: hd_conv_nth)
  ultimately show "\<not> (1 < length (der_int k) \<and> hd (der_int k) = 0 \<and> unat (der_int k ! 1) < 128)"
    by (auto simp: der_int_def split: if_splits)
qed

lemma derInteger_iff: "derInteger raw = Inr n \<longleftrightarrow> (\<exists>k. n = int k \<and> k < 2 ^ 63 \<and> raw = der_int k)"
proof
  assume "derInteger raw = Inr n"
  then have r: "raw \<noteq> []" "length raw \<le> 8" "unat (hd raw) < 128"
    "\<not> (1 < length raw \<and> hd raw = 0 \<and> unat (raw ! 1) < 128)"
    and n: "n = foldl (\<lambda>v b. i64 (v * 256) + int (unat b)) 0 raw"
    by (auto simp: derInteger_def split: if_splits)
  note v = derInteger_value [OF r(2,1,3)]
  have "raw = der_int (be_value raw)"
  proof (cases "hd raw \<noteq> 0 \<or> length raw = 1")
    case True
    then have "be_bytes (be_value raw) = raw" using r(1) by (intro be_bytes_be_value) simp_all
    with r(3) show ?thesis by (simp add: der_int_def)
  next
    case False
    then obtain b bs where raw: "raw = 0 # b # bs" using r(1) by (cases raw; cases "tl raw") auto
    with r(4) have "128 \<le> unat b" by auto
    then have "be_bytes (be_value (b # bs)) = b # bs" by (intro be_bytes_be_value) auto
    with raw \<open>128 \<le> unat b\<close> show ?thesis by (simp add: der_int_def)
  qed
  with v n show "\<exists>k. n = int k \<and> k < 2 ^ 63 \<and> raw = der_int k"
    by (intro exI [of _ "be_value raw"]) auto
next
  assume "\<exists>k. n = int k \<and> k < 2 ^ 63 \<and> raw = der_int k"
  then obtain k where k: "n = int k" "k < 2 ^ 63" "raw = der_int k" by blast
  note sh = der_int_shape [of k]
  show "derInteger raw = Inr n"
    using derInteger_value(1) [OF length_der_int [OF k(2)] sh(1,2)] sh length_der_int [OF k(2)]
    by (auto simp: derInteger_def k not_less)
qed

subsection \<open>Authority lists\<close>

text \<open>The entries of RFC 8226; a range may carry further DER fields after the count.\<close>

datatype TNEntry =
    ServiceProviderCode bytes
  | TelephoneNumberRange bytes nat "(byte \<times> bytes) list"
  | TelephoneNumber bytes

definition number_ok :: "bytes \<Rightarrow> bool" where
  "number_ok v \<longleftrightarrow> checkTelephoneNumber v = Inr ()"

fun field_ok :: "byte \<times> bytes \<Rightarrow> bool" where
  "field_ok (tag, c) \<longleftrightarrow> tag_ok tag \<and> length c < 2 ^ 32"

definition der_fields :: "(byte \<times> bytes) list \<Rightarrow> bytes" where
  "der_fields fs = concat (map (\<lambda>(tag, c). der_tlv tag c) fs)"

fun entry_tag :: "TNEntry \<Rightarrow> byte" where
  "entry_tag (ServiceProviderCode _) = 160"
| "entry_tag (TelephoneNumberRange _ _ _) = 161"
| "entry_tag (TelephoneNumber _) = 162"

fun entry_content :: "TNEntry \<Rightarrow> bytes" where
  "entry_content (ServiceProviderCode v) = der_tlv 22 v"
| "entry_content (TelephoneNumberRange start count ext) =
     der_tlv 48 (der_tlv 22 start @ der_tlv 2 (der_int count) @ der_fields ext)"
| "entry_content (TelephoneNumber v) = der_tlv 22 v"

definition encode_entry :: "TNEntry \<Rightarrow> bytes" where
  "encode_entry e = der_tlv (entry_tag e) (entry_content e)"

definition encode_list :: "TNEntry list \<Rightarrow> bytes" where
  "encode_list es = der_tlv 48 (concat (map encode_entry es))"

text \<open>A range must not reach a number with more digits than its start.\<close>

fun entry_ok :: "TNEntry \<Rightarrow> bool" where
  "entry_ok (ServiceProviderCode v) \<longleftrightarrow> checkServiceProviderCode v = Inr ()"
| "entry_ok (TelephoneNumber v) \<longleftrightarrow> number_ok v"
| "entry_ok (TelephoneNumberRange start count ext) \<longleftrightarrow>
     number_ok start \<and> list_all is_digit_byte start \<and> 2 \<le> count \<and>
     int count < 10 ^ length start \<and> decimal_value start + int count < 10 ^ length start \<and>
     list_all field_ok ext"

lemma tag_ok_consts [simp]: "tag_ok 48" "tag_ok 22" "tag_ok 2" "tag_ok 160" "tag_ok 161" "tag_ok 162"
  by (simp_all add: tag_ok_def)

lemma der_fields_simps [simp]: "der_fields [] = []" "der_fields (f # fs) = der_tlv (fst f) (snd f) @ der_fields fs"
  by (simp_all add: der_fields_def split: prod.split)

lemma der_tlv_not_Nil [simp]: "der_tlv tag c \<noteq> []"
  by (simp add: der_tlv_def)

lemma length_der_tlv: "length c < length (der_tlv tag c)"
  by (auto simp: der_tlv_def der_length_def)

lemma check_tlvs_iff: "check_tlvs buf = Inr () \<longleftrightarrow> (\<exists>fs. list_all field_ok fs \<and> buf = der_fields fs)"
proof
  show "\<exists>fs. list_all field_ok fs \<and> buf = der_fields fs" if "check_tlvs buf = Inr ()"
    using that
  proof (induction buf rule: check_tlvs.induct)
    case (1 buf)
    show ?case
    proof (cases "buf = []")
      case True
      then show ?thesis by (intro exI [of _ "[]"]) simp
    next
      case False
      with "1.prems" obtain tag c rest where t: "tlv buf = Inr (tag, c, rest)" "check_tlvs rest = Inr ()"
        by (auto simp: check_tlvs.simps [of buf])
      with 1(1) [OF False t(1) refl refl] obtain fs where "list_all field_ok fs" "rest = der_fields fs" by blast
      with tlv_canonical [OF t(1)] show ?thesis by (intro exI [of _ "(tag, c) # fs"]) simp
    qed
  qed
  have "check_tlvs (der_fields fs) = Inr ()" if "list_all field_ok fs" for fs
    using that by (induction fs) (subst check_tlvs.simps, auto simp: tlv_der_tlv)+
  then show "check_tlvs buf = Inr ()" if "\<exists>fs. list_all field_ok fs \<and> buf = der_fields fs"
    using that by blast
qed

lemma number_ok_iff:
  "number_ok v \<longleftrightarrow> v \<noteq> [] \<and> length v \<le> 15 \<and>
     list_all (\<lambda>c. is_digit_byte c \<or> unat c = 35 \<or> unat c = 42) v"
proof -
  have "n \<in> set (map ord telephoneNumberAlphabet) \<longleftrightarrow> 48 \<le> n \<and> n \<le> 57 \<or> n = 35 \<or> n = 42" for n :: nat
    unfolding telephoneNumberAlphabet_def by (simp, presburger)
  then have "unat c \<in> set (map ord telephoneNumberAlphabet) \<longleftrightarrow>
      is_digit_byte c \<or> unat c = 35 \<or> unat c = 42" for c
    unfolding is_digit_byte_def by blast
  then show ?thesis
    by (auto simp: number_ok_def checkTelephoneNumber_def maxTelephoneNumberLength_def list_ex_iff
        list_all_iff not_le)
qed

lemma decimal_value_bound:
  assumes "list_all is_digit_byte v"
  shows "0 \<le> decimal_value v \<and> decimal_value v < 10 ^ length v"
  using assms
proof (induction v rule: rev_induct)
  case (snoc c v)
  then have v: "0 \<le> decimal_value v" "decimal_value v < 10 ^ length v" "48 \<le> unat c" "unat c \<le> 57"
    by (auto simp: is_digit_byte_def)
  have d: "decimal_value (v @ [c]) = decimal_value v * 10 + (int (unat c) - 48)"
    by (simp add: decimal_value_def)
  have "0 \<le> decimal_value (v @ [c])" "decimal_value (v @ [c]) < 10 * 10 ^ length v"
    using v unfolding d by linarith+
  then show ?case by simp
qed (simp add: decimal_value_def)

lemma limit_value: "length v \<le> 15 \<Longrightarrow> foldl (\<lambda>l _. i64 (l * 10)) 1 v = 10 ^ length v"
proof (induction v rule: rev_induct)
  case (snoc c v)
  have "(10::int) ^ length v \<le> 10 ^ 14" using snoc.prems by (intro power_increasing) simp_all
  then have "i64 (10 ^ length v * 10) = 10 ^ length v * 10"
    by (intro i64_id) (auto intro: order.trans [of _ 0])
  with snoc show ?case by simp
qed simp

lemma range_limit_iff:
  assumes n: "number_ok start"
  shows "check_range_limit start (int count) = Inr () \<longleftrightarrow>
    list_all is_digit_byte start \<and> int count < 10 ^ length start \<and>
    decimal_value start + int count < 10 ^ length start"
proof (cases "list_all is_digit_byte start")
  case False
  with n have "list_ex (\<lambda>c. unat c = 35 \<or> unat c = 42) start"
    by (auto simp: number_ok_iff list_all_iff list_ex_iff)
  with False show ?thesis by (simp add: check_range_limit_def)
next
  case True
  have len: "length start \<le> 15" "start \<noteq> []" using n by (auto simp: number_ok_iff)
  have no: "\<not> list_ex (\<lambda>c. unat c = 35 \<or> unat c = 42) start"
    using True by (auto simp: list_all_iff list_ex_iff is_digit_byte_def)
  have d: "0 \<le> decimal_value start" "decimal_value start < 10 ^ length start"
    using decimal_value_bound [OF True] by simp_all
  have p: "(10::int) ^ length start \<le> 10 ^ 15" using len by (intro power_increasing) simp_all
  then have "ParseInt10 start = Some (decimal_value start)"
    using True len d by (simp add: ParseInt10_def)
  moreover have "i64 (decimal_value start + int count) = decimal_value start + int count"
    if "int count < 10 ^ length start"
  proof (rule i64_id)
    have "decimal_value start + int count < 2 * 10 ^ 15" using d p that by linarith
    also have "(2::int) * 10 ^ 15 < 2 ^ 63" by simp
    finally show "decimal_value start + int count < 2 ^ 63" .
    have "- (2 ^ 63) \<le> (0::int)" by simp
    also have "0 \<le> decimal_value start + int count" using d by simp
    finally show "- (2 ^ 63) \<le> decimal_value start + int count" .
  qed
  ultimately show ?thesis
    using True no limit_value [OF len(1)] by (auto simp: check_range_limit_def Let_def not_le)
qed

lemma number_ok_length: "number_ok v \<Longrightarrow> length v < 2 ^ 32"
  by (simp add: number_ok_iff)

lemma number_ok_check [simp]: "checkTelephoneNumber v = Inr u \<longleftrightarrow> number_ok v"
  by (simp add: number_ok_def)

lemma range_count_bound: "entry_ok (TelephoneNumberRange start count ext) \<Longrightarrow> count < 2 ^ 63"
proof -
  assume ok: "entry_ok (TelephoneNumberRange start count ext)"
  then have "length start \<le> 15" by (simp add: number_ok_iff)
  then have "(10::nat) ^ length start \<le> 10 ^ 15" by (intro power_increasing) simp_all
  moreover from ok have "count < 10 ^ length start" by simp
  ultimately have "count < 10 ^ 15" by linarith
  then show ?thesis by simp
qed

lemma range_int_length: "entry_ok (TelephoneNumberRange start count ext) \<Longrightarrow> length (der_int count) < 2 ^ 32"
  using length_der_int [OF range_count_bound] by fastforce

lemma range_iff:
  "checkTelephoneNumberRange body = Inr () \<longleftrightarrow>
     (\<exists>start count ext. entry_ok (TelephoneNumberRange start count ext) \<and>
        body = der_tlv 22 start @ der_tlv 2 (der_int count) @ der_fields ext)"
proof
  assume "checkTelephoneNumberRange body = Inr ()"
  then obtain start fields raw fields' count where
    "expect 22 body = Inr (start, fields)" and n: "number_ok start"
    and "expect 2 fields = Inr (raw, fields')" "derInteger raw = Inr count" "2 \<le> count"
    and "check_tlvs fields' = Inr ()" "check_range_limit start count = Inr ()"
    by (auto simp: checkTelephoneNumberRange_def)
  moreover from this obtain k where "count = int k" "raw = der_int k"
    by (auto simp: derInteger_iff)
  moreover from calculation obtain ext where "list_all field_ok ext" "fields' = der_fields ext"
    by (auto simp: check_tlvs_iff)
  ultimately show "\<exists>start count ext. entry_ok (TelephoneNumberRange start count ext) \<and>
      body = der_tlv 22 start @ der_tlv 2 (der_int count) @ der_fields ext"
    by (intro exI [of _ start] exI [of _ k] exI [of _ ext])
      (auto simp: expect_iff range_limit_iff)
next
  assume "\<exists>start count ext. entry_ok (TelephoneNumberRange start count ext) \<and>
      body = der_tlv 22 start @ der_tlv 2 (der_int count) @ der_fields ext"
  then obtain start count ext where ok: "entry_ok (TelephoneNumberRange start count ext)"
    and body: "body = der_tlv 22 start @ der_tlv 2 (der_int count) @ der_fields ext" by blast
  note k = range_count_bound [OF ok]
  have "expect 2 (der_tlv 2 (der_int count) @ der_fields ext) = Inr (der_int count, der_fields ext)"
    using length_der_int [OF k] by (simp add: expect_iff)
  moreover have "derInteger (der_int count) = Inr (int count)" using k by (auto simp: derInteger_iff)
  moreover have "check_tlvs (der_fields ext) = Inr ()" using ok by (auto simp: check_tlvs_iff)
  moreover have "expect 22 body = Inr (start, der_tlv 2 (der_int count) @ der_fields ext)"
    using ok number_ok_length by (simp add: expect_iff body)
  moreover have "checkTelephoneNumber start = Inr ()" "check_range_limit start (int count) = Inr ()"
    using ok by (simp_all add: range_limit_iff)
  ultimately show "checkTelephoneNumberRange body = Inr ()"
    using ok by (simp add: checkTelephoneNumberRange_def)
qed

lemma expect_all:
  assumes "tag_ok tag"
  shows "(case expect tag content of Inr (value, []) \<Rightarrow> f value | _ \<Rightarrow> Inl e) = Inr y \<longleftrightarrow>
     (\<exists>v. length v < 2 ^ 32 \<and> content = der_tlv tag v \<and> f v = Inr y)"
proof -
  have "(case expect tag content of Inr (value, []) \<Rightarrow> f value | _ \<Rightarrow> Inl e) = Inr y \<longleftrightarrow>
      (\<exists>v. expect tag content = Inr (v, []) \<and> f v = Inr y)"
    by (auto split: sum.split list.split)
  then show ?thesis
    using expect_iff [OF assms, of content _ "[]"] by simp
qed

lemma entry_iff:
  assumes "length content < 2 ^ 32"
  shows "checkTNEntry tag content = Inr () \<longleftrightarrow>
    (\<exists>e. entry_ok e \<and> tag = entry_tag e \<and> content = entry_content e)"
proof -
  have len: "length v < 2 ^ 32" if "content = der_tlv t v" for t v
    using assms that length_der_tlv [of v t] by simp
  have "checkTNEntry tag content = Inr () \<longleftrightarrow>
      tag = 160 \<and> (\<exists>v. content = der_tlv 22 v \<and> checkServiceProviderCode v = Inr ()) \<or>
      tag = 161 \<and> (\<exists>v. content = der_tlv 48 v \<and> checkTelephoneNumberRange v = Inr ()) \<or>
      tag = 162 \<and> (\<exists>v. content = der_tlv 22 v \<and> number_ok v)"
    using len by (auto simp: checkTNEntry_def expect_all)
  also have "\<dots> \<longleftrightarrow> (\<exists>e. entry_ok e \<and> tag = entry_tag e \<and> content = entry_content e)"
  proof
    assume "\<exists>e. entry_ok e \<and> tag = entry_tag e \<and> content = entry_content e"
    then obtain e where "entry_ok e" "tag = entry_tag e" "content = entry_content e" by blast
    then show "tag = 160 \<and> (\<exists>v. content = der_tlv 22 v \<and> checkServiceProviderCode v = Inr ()) \<or>
      tag = 161 \<and> (\<exists>v. content = der_tlv 48 v \<and> checkTelephoneNumberRange v = Inr ()) \<or>
      tag = 162 \<and> (\<exists>v. content = der_tlv 22 v \<and> number_ok v)"
      by (cases e) (auto simp: range_iff)
  next
    assume "tag = 160 \<and> (\<exists>v. content = der_tlv 22 v \<and> checkServiceProviderCode v = Inr ()) \<or>
      tag = 161 \<and> (\<exists>v. content = der_tlv 48 v \<and> checkTelephoneNumberRange v = Inr ()) \<or>
      tag = 162 \<and> (\<exists>v. content = der_tlv 22 v \<and> number_ok v)"
    then show "\<exists>e. entry_ok e \<and> tag = entry_tag e \<and> content = entry_content e"
    proof (elim disjE conjE exE)
      fix v assume "tag = 160" "content = der_tlv 22 v" "checkServiceProviderCode v = Inr ()"
      then show ?thesis by (intro exI [of _ "ServiceProviderCode v"]) simp
    next
      fix v assume "tag = 161" "content = der_tlv 48 v" "checkTelephoneNumberRange v = Inr ()"
      then show ?thesis unfolding range_iff by (metis entry_content.simps(2) entry_tag.simps(2))
    next
      fix v assume "tag = 162" "content = der_tlv 22 v" "number_ok v"
      then show ?thesis by (intro exI [of _ "TelephoneNumber v"]) simp
    qed
  qed
  finally show ?thesis .
qed

lemma encode_entry_length: "length (entry_content e) < length (encode_entry e)"
  by (simp add: encode_entry_def length_der_tlv)

lemma encode_entry_tag_ok [simp]: "tag_ok (entry_tag e)"
  by (cases e) simp_all

lemma entries_sound:
  "check_entries count buf = Inr n \<Longrightarrow>
    (\<exists>es. list_all entry_ok es \<and> buf = concat (map encode_entry es) \<and> n = count + length es \<and>
       (es \<noteq> [] \<longrightarrow> n \<le> maxTNEntries))"
proof (induction count buf arbitrary: n rule: check_entries.induct)
  case (1 count buf)
  show ?case
  proof (cases "buf = []")
    case True
    with "1.prems" show ?thesis by (intro exI [of _ "[]"]) (simp add: check_entries.simps)
  next
    case False
    with "1.prems" obtain tag c rest where le: "\<not> maxTNEntries < count + 1"
      and t: "tlv buf = Inr (tag, c, rest)" and e: "checkTNEntry tag c = Inr ()"
      and r: "check_entries (count + 1) rest = Inr n"
      by (auto simp: check_entries.simps [of count buf])
    from 1(1) [OF False le t refl refl e r] obtain es where es: "list_all entry_ok es"
      "rest = concat (map encode_entry es)" "n = count + 1 + length es" "es \<noteq> [] \<longrightarrow> n \<le> maxTNEntries"
      by blast
    note can = tlv_canonical [OF t]
    then obtain x where "entry_ok x" "tag = entry_tag x" "c = entry_content x"
      using e entry_iff [of c tag] by blast
    with es can le show ?thesis
      by (intro exI [of _ "x # es"]) (auto simp: encode_entry_def [of x])
  qed
qed

lemma entries_complete:
  "list_all entry_ok es \<Longrightarrow> length (concat (map encode_entry es)) < 2 ^ 32 \<Longrightarrow>
     count + length es \<le> maxTNEntries \<Longrightarrow>
     check_entries count (concat (map encode_entry es)) = Inr (count + length es)"
proof (induction es arbitrary: count)
  case Nil
  show ?case by (simp add: check_entries.simps)
next
  case (Cons e es)
  have len: "length (entry_content e) < 2 ^ 32"
    using Cons.prems(2) encode_entry_length [of e] by simp
  then have "tlv (concat (map encode_entry (e # es))) =
      Inr (entry_tag e, entry_content e, concat (map encode_entry es))"
    by (simp add: encode_entry_def tlv_der_tlv)
  moreover have "checkTNEntry (entry_tag e) (entry_content e) = Inr ()"
    using entry_iff [OF len] Cons.prems(1) by auto
  moreover have "concat (map encode_entry (e # es)) \<noteq> []" by (simp add: encode_entry_def)
  moreover have "check_entries (count + 1) (concat (map encode_entry es)) = Inr (count + 1 + length es)"
    using Cons by simp
  ultimately show ?case
    using Cons.prems(3) by (subst check_entries.simps) simp
qed

lemma der_int_inject: "der_int j = der_int k \<Longrightarrow> j = k"
  using der_int_shape(4) by metis

lemma der_fields_inject:
  "list_all field_ok fs \<Longrightarrow> list_all field_ok gs \<Longrightarrow> der_fields fs = der_fields gs \<Longrightarrow> fs = gs"
proof (induction fs arbitrary: gs)
  case Nil
  then show ?case by (cases gs) auto
next
  case (Cons f fs)
  from Cons.prems obtain g gs' where gs: "gs = g # gs'" by (cases gs) auto
  with Cons.prems der_tlv_inject [of "fst f" "snd f" "der_fields fs" "fst g" "snd g" "der_fields gs'"]
  have "f = g \<and> der_fields fs = der_fields gs'"
    by (cases f; cases g) auto
  with Cons gs show ?case by auto
qed

lemma der_tlv_inject':
  "der_tlv t c = der_tlv t' c' \<Longrightarrow> tag_ok t \<Longrightarrow> length (der_tlv t c) < 2 ^ 32 \<Longrightarrow> t = t' \<and> c = c'"
  using der_tlv_inject [of t c "[]" t' c' "[]"] length_der_tlv [of c t] length_der_tlv [of c' t'] by simp

lemma entry_content_inject:
  assumes "entry_content e = entry_content f" "entry_tag e = entry_tag f" "entry_ok e" "entry_ok f"
    and len: "length (entry_content e) < 2 ^ 32"
  shows "e = f"
proof (cases e)
  case (ServiceProviderCode v)
  with assms show ?thesis using der_tlv_inject' [of 22 v 22] by (cases f) auto
next
  case (TelephoneNumber v)
  with assms show ?thesis using der_tlv_inject' [of 22 v 22] by (cases f) auto
next
  case (TelephoneNumberRange start count ext)
  with assms(2) obtain start' count' ext' where f: "f = TelephoneNumberRange start' count' ext'"
    by (cases f) auto
  let ?b = "der_tlv 22 start @ der_tlv 2 (der_int count) @ der_fields ext"
  have b: "?b = der_tlv 22 start' @ der_tlv 2 (der_int count') @ der_fields ext'"
    using assms(1) len der_tlv_inject' unfolding TelephoneNumberRange f by fastforce
  have 1: "start = start' \<and> der_tlv 2 (der_int count) @ der_fields ext =
      der_tlv 2 (der_int count') @ der_fields ext'"
    using der_tlv_inject [OF b] assms(3,4) number_ok_length by (simp add: TelephoneNumberRange f)
  have "length (der_int count) < 2 ^ 32" "length (der_int count') < 2 ^ 32"
    using assms(3,4) range_int_length unfolding TelephoneNumberRange f by blast+
  with der_tlv_inject [OF conjunct2 [OF 1]]
  have "der_int count = der_int count' \<and> der_fields ext = der_fields ext'" by simp
  with 1 show ?thesis
    using assms(3,4) by (auto simp: TelephoneNumberRange f dest: der_int_inject der_fields_inject)
qed

lemma entries_inject:
  "concat (map encode_entry es) = concat (map encode_entry fs) \<Longrightarrow> list_all entry_ok es \<Longrightarrow>
     list_all entry_ok fs \<Longrightarrow> length (concat (map encode_entry es)) < 2 ^ 32 \<Longrightarrow> es = fs"
proof (induction es arbitrary: fs)
  case Nil
  then show ?case by (cases fs) (auto simp: encode_entry_def)
next
  case (Cons e es)
  from Cons.prems(1) obtain f fs' where fs: "fs = f # fs'" by (cases fs) (auto simp: encode_entry_def)
  have len: "length (encode_entry e) < 2 ^ 32" "length (encode_entry f) < 2 ^ 32"
    using Cons.prems(4) arg_cong [OF Cons.prems(1), of length]
    unfolding fs list.map concat.simps length_append by linarith+
  have lens: "length (entry_content e) < 2 ^ 32" "length (entry_content f) < 2 ^ 32"
    using len encode_entry_length [of e] encode_entry_length [of f] by linarith+
  from Cons.prems(1) have "der_tlv (entry_tag e) (entry_content e) @ concat (map encode_entry es) =
      der_tlv (entry_tag f) (entry_content f) @ concat (map encode_entry fs')"
    by (simp add: fs encode_entry_def [of e] encode_entry_def [of f])
  from der_tlv_inject [OF this _ lens]
  have eq: "entry_tag e = entry_tag f" "entry_content e = entry_content f"
    "concat (map encode_entry es) = concat (map encode_entry fs')" by simp_all
  moreover have "e = f"
    using eq Cons.prems(2,3) lens fs by (intro entry_content_inject) simp_all
  ultimately show ?case
    using Cons.IH [of fs'] Cons.prems fs by simp
qed


lemma normalize_encoded:
  assumes "checkTNAuthList der = Inr ()"
  shows "normalizeTNAuthList (encode_base64 der) = Inr (mk_id IdentifierTNAuthList (encode_base64 der))"
proof -
  have "der \<noteq> []" using assms by (auto simp: checkTNAuthList_def)
  then have "encode_base64 der \<noteq> []"
    by (metis decode_strict_encode encode_base64.simps(1) option.inject)
  with assms show ?thesis by (simp add: normalizeTNAuthList_def Let_def)
qed


definition sample_tn_list :: bytes where
  "sample_tn_list = [48, 7, 162, 5, 22, 3, 49, 50, 51]"

lemma sample_tn_list_ok: "checkTNAuthList sample_tn_list = Inr ()"
  by (simp add: checkTNAuthList_def sample_tn_list_def maxTNAuthListBytes_def expect_def tlv_content_def
      check_entries.simps checkTNEntry_def checkTelephoneNumber_def maxTelephoneNumberLength_def
      telephoneNumberAlphabet_def maxTNEntries_def number_ok_def)


text \<open>The identifier value of an authority list is not unique: \<^verbatim>\<open>base64\<close> decoding skips line breaks in strict
  mode too, and \<^verbatim>\<open>normalizeTNAuthList\<close> keeps the value as it was sent.  So every list has several accepted
  identifier values, of which only one is the value \<^verbatim>\<open>tnAuthListExtension\<close> reads from a certificate request.\<close>

theorem TNAuthList_value_not_unique:
  assumes "checkTNAuthList der = Inr ()"
  shows "normalizeTNAuthList (CHR 0x0A # encode_base64 der) =
      Inr (mk_id IdentifierTNAuthList (CHR 0x0A # encode_base64 der)) \<and>
    normalizeTNAuthList (encode_base64 der) = Inr (mk_id IdentifierTNAuthList (encode_base64 der)) \<and>
    CHR 0x0A # encode_base64 der \<noteq> encode_base64 der"
proof -
  have "decode_strict (CHR 0x0A # encode_base64 der) = decode_strict (encode_base64 der)"
    by (simp add: decode_strict_def is_newline_def)
  then have "decode_strict (CHR 0x0A # encode_base64 der) = Some der" by simp
  with assms have "normalizeTNAuthList (CHR 0x0A # encode_base64 der) =
      Inr (mk_id IdentifierTNAuthList (CHR 0x0A # encode_base64 der))"
    by (simp add: normalizeTNAuthList_def Let_def)
  with normalize_encoded [OF assms] show ?thesis by simp
qed

end
