(* ===== verification/Acme_Identifier.thy ===== *)
theory Acme_Identifier
  imports Net_IP TN_Auth_List
begin

section \<open>Identifiers and their normal forms\<close>

text \<open>
  The model of \<^verbatim>\<open>identifier.go\<close>: \<^verbatim>\<open>Identifier.Normalize\<close> with one function per identifier type, the
  URI names of certificates and \<^verbatim>\<open>NormalizeIdentifiers\<close>.  The lemmas show that a normal form is
  normal, that the accepted DNS names are exactly the RFC 1123 host names with an optional wildcard
  label, and that a normalised list has no duplicates.

  The record \<open>Names\<close> collects the code that is not part of the repository: the registration
  profile of \<^verbatim>\<open>golang.org/x/net/idna\<close>, \<^verbatim>\<open>url.Parse\<close> and the methods of a URL, the Unicode case mapping of
  \<^verbatim>\<open>strings.ToLower\<close> on text that is not ASCII, and the quoting of \<^verbatim>\<open>fmt\<close>'s \<^verbatim>\<open>%q\<close> verb.
\<close>

text \<open>The fields of a \<^verbatim>\<open>url.URL\<close> the code reads; \<open>url_Rest\<close> stands for the others.\<close>

record URL =
  url_Scheme :: string
  url_Host :: string
  url_User :: "string option"
  url_Fragment :: string
  url_Opaque :: string
  url_Path :: string
  url_RawQuery :: string
  url_Rest :: string

record Names =
  nm_ToUnicode :: "string \<Rightarrow> string option"
  nm_ToASCII :: "string \<Rightarrow> string option"
  nm_Parse :: "string \<Rightarrow> URL option"
  nm_String :: "URL \<Rightarrow> string"
  nm_EscapedPath :: "URL \<Rightarrow> string"
  nm_ToLower :: "string \<Rightarrow> string"
  nm_Quote :: "string \<Rightarrow> string"

definition is_ascii :: "string \<Rightarrow> bool" where
  "is_ascii s \<longleftrightarrow> list_all (\<lambda>c. ord c < 128) s"

definition strings_ToLower :: "Names \<Rightarrow> string \<Rightarrow> string" where
  "strings_ToLower L s = (if is_ascii s then to_lower s else nm_ToLower L s)"

subsection \<open>DNS names\<close>

definition maxDNSNameLength :: nat where "maxDNSNameLength = 253"
definition maxDNSLabelLength :: nat where "maxDNSLabelLength = 63"

definition validALabel :: "Names \<Rightarrow> string \<Rightarrow> bool" where
  "validALabel L label =
     (case nm_ToUnicode L label of
        None \<Rightarrow> False
      | Some uLabel \<Rightarrow> (case nm_ToASCII L uLabel of None \<Rightarrow> False | Some aLabel \<Rightarrow> aLabel = label))"

text \<open>A lower-case letter, a digit or a hyphen.\<close>

definition ldh :: "char \<Rightarrow> bool" where
  "ldh c \<longleftrightarrow> 97 \<le> ord c \<and> ord c \<le> 122 \<or> 48 \<le> ord c \<and> ord c \<le> 57 \<or> c = CHR ''-''"

text \<open>Why a label is not valid, or the empty string.\<close>

definition checkDNSLabel :: "Names \<Rightarrow> string \<Rightarrow> string" where
  "checkDNSLabel L label =
     (if label = [] then ''dns identifier contains an empty label''
      else if maxDNSLabelLength < length label then ''dns identifier label exceeds 63 characters''
      else if hd label = CHR ''-'' \<or> last label = CHR ''-'' then
        ''dns identifier label starts or ends with a hyphen''
      else if \<not> list_all ldh label then
        ''dns identifier contains a character outside letters, digits and hyphens''
      else if has_prefix label ''xn--'' \<and> \<not> validALabel L label then
        ''dns identifier label '' @ label @ '' is not a valid A-label''
      else [])"

text \<open>The loop over the labels: the first reason found.\<close>

fun check_labels :: "Names \<Rightarrow> string list \<Rightarrow> string" where
  "check_labels L [] = []"
| "check_labels L (label # labels) =
     (let reason = checkDNSLabel L label in if reason \<noteq> [] then reason else check_labels L labels)"

definition normalizeDNS :: "Names \<Rightarrow> string \<Rightarrow> error + Identifier" where
  "normalizeDNS L value =
     (let i = mk_id IdentifierDNS value in
      if value = [] then Inl (ErrProblem (NewProblem ErrorMalformed ''dns identifier value is empty''))
      else if \<not> is_ascii value then
        Inl (ErrProblem (rejected i ''dns identifier must use ASCII labels; encode internationalized names as A-labels''))
      else
        let name = strings_ToLower L value in
        if maxDNSNameLength < length name then
          Inl (ErrProblem (rejected i ''dns identifier exceeds 253 characters''))
        else
          let base = trim_prefix name ''*.'' in
          if CHR ''*'' \<in> set base then
            Inl (ErrProblem (rejected i ''wildcard is only allowed as the complete leftmost label''))
          else if base = [] then Inl (ErrProblem (rejected i ''dns identifier has no labels''))
          else if ParseAddr base \<noteq> None then
            Inl (ErrProblem (rejected i ''IP addresses use the ip identifier type''))
          else
            let reason = check_labels L (split_on (CHR ''.'') base) in
            if reason \<noteq> [] then Inl (ErrProblem (rejected i reason))
            else Inr (mk_id IdentifierDNS name))"

subsection \<open>IP addresses\<close>

definition normalizeIP :: "string \<Rightarrow> error + Identifier" where
  "normalizeIP value =
     (let i = mk_id IdentifierIP value in
      if value = [] then Inl (ErrProblem (NewProblem ErrorMalformed ''ip identifier value is empty''))
      else
        (case ParseAddr value of
           None \<Rightarrow> Inl (ErrProblem (rejected i ''ip identifier is not a valid IP address''))
         | Some addr \<Rightarrow>
             if Zone addr \<noteq> [] then Inl (ErrProblem (rejected i ''ip identifier must not carry a zone''))
             else if Is4In6 addr then
               Inl (ErrProblem (rejected i ''IPv4-mapped IPv6 addresses must be given in IPv4 form''))
             else if IsUnspecified addr \<or> IsMulticast addr then
               Inl (ErrProblem (rejected i ''unspecified and multicast addresses cannot be issued''))
             else Inr (mk_id IdentifierIP (Addr_String addr))))"

subsection \<open>Network function instances and URIs\<close>

definition nfInstanceURNPrefix :: string where
  "nfInstanceURNPrefix = ''urn:uuid:''"

definition lower_hex :: "char \<Rightarrow> bool" where
  "lower_hex c \<longleftrightarrow> 48 \<le> ord c \<and> ord c \<le> 57 \<or> 97 \<le> ord c \<and> ord c \<le> 102"

text \<open>The loop over the characters, from index \<open>i\<close>.\<close>

fun uuid_chars :: "nat \<Rightarrow> string \<Rightarrow> bool" where
  "uuid_chars i [] = True"
| "uuid_chars i (c # s) =
     (if i = 8 \<or> i = 13 \<or> i = 18 \<or> i = 23 then
        if c \<noteq> CHR ''-'' then False else uuid_chars (i + 1) s
      else if \<not> lower_hex c then False
      else uuid_chars (i + 1) s)"

definition normalizeNfInstanceID :: "Names \<Rightarrow> string \<Rightarrow> error + Identifier" where
  "normalizeNfInstanceID L value =
     (let i = mk_id IdentifierNfInstanceID value in
      if value = [] then
        Inl (ErrProblem (NewProblem ErrorMalformed ''NfInstanceId identifier value is empty''))
      else if length value \<noteq> 36 then
        Inl (ErrProblem (rejected i ''NfInstanceId identifier is not a UUID''))
      else
        let lower = strings_ToLower L value in
        if \<not> uuid_chars 0 lower then
          Inl (ErrProblem (rejected i ''NfInstanceId identifier is not a UUID''))
        else if list_all (\<lambda>c. c = CHR ''0'' \<or> c = CHR ''-'') lower then
          Inl (ErrProblem (rejected i ''NfInstanceId identifier is the nil UUID''))
        else Inr (mk_id IdentifierNfInstanceID lower))"

definition maxURILength :: nat where "maxURILength = 2048"
definition maxNFTypeLength :: nat where "maxNFTypeLength = 32"
definition schemeHTTPS :: string where "schemeHTTPS = ''https''"

text \<open>A printable ASCII character other than the space.\<close>

definition visible_char :: "char \<Rightarrow> bool" where
  "visible_char c \<longleftrightarrow> \<not> (ord c \<le> 32 \<or> 127 \<le> ord c)"

definition normalizeURI :: "Names \<Rightarrow> string \<Rightarrow> error + Identifier" where
  "normalizeURI L value =
     (let i = mk_id IdentifierURI value in
      if value = [] then Inl (ErrProblem (NewProblem ErrorMalformed ''uri identifier value is empty''))
      else if maxURILength < length value then
        Inl (ErrProblem (rejected i ''uri identifier exceeds 2048 characters''))
      else if \<not> list_all visible_char value then
        Inl (ErrProblem (rejected i ''uri identifier must be ASCII without spaces or control characters''))
      else
        (let bad = Inl (ErrProblem (rejected i
           (''uri identifier must be an absolute https URI without user information '' @ ''or a fragment''))) in
         case nm_Parse L value of
           None \<Rightarrow> bad
         | Some u \<Rightarrow>
             if \<not> equal_fold (url_Scheme u) schemeHTTPS \<or> url_Host u = [] \<or> url_User u \<noteq> None \<or>
                url_Fragment u \<noteq> [] \<or> url_Opaque u \<noteq> [] then bad
             else Inr (mk_id IdentifierURI
               (nm_String L (u\<lparr>url_Scheme := schemeHTTPS, url_Host := strings_ToLower L (url_Host u)\<rparr>)))))"

definition ValidNFType :: "string \<Rightarrow> bool" where
  "ValidNFType value \<longleftrightarrow>
     \<not> (value = [] \<or> maxNFTypeLength < length value) \<and> list_all visible_char value"

subsection \<open>Normalize\<close>

definition Normalize :: "Names \<Rightarrow> Identifier \<Rightarrow> error + Identifier" where
  "Normalize L i =
     (case id_Type i of
        IdentifierDNS \<Rightarrow> normalizeDNS L (id_Value i)
      | IdentifierIP \<Rightarrow> normalizeIP (id_Value i)
      | IdentifierTNAuthList \<Rightarrow> normalizeTNAuthList (id_Value i)
      | IdentifierNfInstanceID \<Rightarrow> normalizeNfInstanceID L (id_Value i)
      | IdentifierURI \<Rightarrow> normalizeURI L (id_Value i)
      | IdentifierTypeOther t \<Rightarrow>
          Inl (ErrProblem (NewProblem ErrorUnsupportedIdentifier
            (''identifier type '' @ nm_Quote L t @ '' is not supported''))))"

definition identifier_URI :: "Identifier \<Rightarrow> string" where
  "identifier_URI i =
     (case id_Type i of
        IdentifierNfInstanceID \<Rightarrow> nfInstanceURNPrefix @ id_Value i
      | IdentifierURI \<Rightarrow> id_Value i
      | _ \<Rightarrow> [])"

definition uriNameIdentifier :: "Names \<Rightarrow> string \<Rightarrow> error + Identifier" where
  "uriNameIdentifier L name =
     (if length nfInstanceURNPrefix < length name \<and>
         equal_fold (take (length nfInstanceURNPrefix) name) nfInstanceURNPrefix
      then normalizeNfInstanceID L (drop (length nfInstanceURNPrefix) name)
      else normalizeURI L name)"

text \<open>The loop of \<^verbatim>\<open>NormalizeIdentifiers\<close>: the output so far is also the set of identifiers seen.\<close>

fun normalize_loop :: "Names \<Rightarrow> Identifier list \<Rightarrow> Identifier list \<Rightarrow> error + Identifier list" where
  "normalize_loop L out [] = Inr out"
| "normalize_loop L out (i # ids) =
     and_then (Normalize L i) (\<lambda>normalized.
       if normalized \<in> set out then
         Inl (ErrProblem (WithIdentifier (NewProblem ErrorMalformed
           (''identifier '' @ identifier_String normalized @ '' is listed more than once'')) normalized))
       else normalize_loop L (out @ [normalized]) ids)"

definition NormalizeIdentifiers :: "Names \<Rightarrow> Identifier list \<Rightarrow> error + Identifier list" where
  "NormalizeIdentifiers L ids = normalize_loop L [] ids"

subsection \<open>The DNS names that are accepted\<close>

text \<open>
  The declarative form: between one and \<open>maxDNSNameLength\<close> characters, labels of letters, digits and inner
  hyphens of at most \<open>maxDNSLabelLength\<close> characters joined by dots, a label that begins with \<^verbatim>\<open>xn--\<close> being an
  A-label, an optional wildcard label in front, and not the text of an IP address.
\<close>

definition label_ok :: "Names \<Rightarrow> string \<Rightarrow> bool" where
  "label_ok L l \<longleftrightarrow> 1 \<le> length l \<and> length l \<le> 63 \<and> list_all ldh l \<and> hd l \<noteq> CHR ''-'' \<and> last l \<noteq> CHR ''-'' \<and>
     (has_prefix l ''xn--'' \<longrightarrow> validALabel L l)"

definition host_name :: "Names \<Rightarrow> string \<Rightarrow> bool" where
  "host_name L name \<longleftrightarrow>
     (\<exists>labels. labels \<noteq> [] \<and> list_all (label_ok L) labels \<and> ParseAddr (join ''.'' labels) = None \<and>
        (name = join ''.'' labels \<or> name = ''*.'' @ join ''.'' labels)) \<and> length name \<le> 253"

lemma checkDNSLabel_iff: "checkDNSLabel L l = [] \<longleftrightarrow> label_ok L l"
  by (auto simp: checkDNSLabel_def label_ok_def maxDNSLabelLength_def Suc_le_eq)

lemma check_labels_iff: "check_labels L ls = [] \<longleftrightarrow> list_all (label_ok L) ls"
  by (induction ls) (auto simp: Let_def checkDNSLabel_iff)

lemma join_split_on: "join [c] (split_on c s) = s"
proof (induction s)
  case (Cons x s)
  obtain y ys where "split_on c s = y # ys"
    using split_on_not_Nil [of c s] by (cases "split_on c s") auto
  with Cons show ?case by (cases ys) auto
qed simp

lemma split_on_plain: "c \<notin> set s \<Longrightarrow> split_on c s = [s]"
  by (induction s) auto

lemma split_on_append: "c \<notin> set s \<Longrightarrow> split_on c (s @ c # t) = s # split_on c t"
  by (induction s) auto

lemma split_on_join: "ls \<noteq> [] \<Longrightarrow> list_all (\<lambda>l. c \<notin> set l) ls \<Longrightarrow> split_on c (join [c] ls) = ls"
  by (induction ls rule: induct_list012) (auto simp: split_on_plain split_on_append)

lemma ldh_not [simp]: "\<not> ldh (CHR ''.'')" "\<not> ldh (CHR ''*'')"
  by (simp_all add: ldh_def)

lemma label_ok_chars: "label_ok L l \<Longrightarrow> CHR ''.'' \<notin> set l \<and> CHR ''*'' \<notin> set l"
  by (auto simp: label_ok_def list_all_iff dest: bspec [of _ _ "CHR ''.''"] bspec [of _ _ "CHR ''*''"])

lemma join_no_star: "list_all (label_ok L) ls \<Longrightarrow> CHR ''*'' \<notin> set (join ''.'' ls)"
  by (induction ls rule: induct_list012) (auto dest: label_ok_chars)

lemma join_labels_not_Nil: "ls \<noteq> [] \<Longrightarrow> list_all (label_ok L) ls \<Longrightarrow> join ''.'' ls \<noteq> []"
  by (cases ls rule: remdups_adj.cases) (auto simp: label_ok_def)

lemma lower_char_ascii: "ord c < 128 \<Longrightarrow> ord (lower_char c) < 128"
  by (simp add: lower_char_def)

lemma is_ascii_to_lower [simp]: "is_ascii s \<Longrightarrow> is_ascii (to_lower s)"
  by (auto simp: is_ascii_def to_lower_def list_all_iff lower_char_ascii)

lemma host_name_iff:
  "host_name L name \<longleftrightarrow>
     (let base = trim_prefix name ''*.'' in
      length name \<le> maxDNSNameLength \<and> CHR ''*'' \<notin> set base \<and> base \<noteq> [] \<and> ParseAddr base = None \<and>
      list_all (label_ok L) (split_on (CHR ''.'') base))" (is "_ \<longleftrightarrow> ?r")
proof
  assume "host_name L name"
  then obtain ls where ls: "ls \<noteq> []" "list_all (label_ok L) ls" "ParseAddr (join ''.'' ls) = None"
    "name = join ''.'' ls \<or> name = ''*.'' @ join ''.'' ls" "length name \<le> 253"
    by (auto simp: host_name_def)
  have "hd (join ''.'' ls) \<noteq> CHR ''*''"
    using join_no_star [OF ls(2)] join_labels_not_Nil [OF ls(1,2)] by (metis hd_in_set)
  then have "trim_prefix (join ''.'' ls) ''*.'' = join ''.'' ls"
    by (auto simp: trim_prefix_def has_prefix_iff)
  then have base: "trim_prefix name ''*.'' = join ''.'' ls"
    using ls(4) trim_prefix_append [of "''*.''" "join ''.'' ls"] by metis
  have "split_on (CHR ''.'') (join ''.'' ls) = ls"
    using ls(1,2) label_ok_chars by (intro split_on_join) (auto simp: list_all_iff)
  then show ?r
    using ls join_no_star [OF ls(2)] join_labels_not_Nil [OF ls(1,2)]
    by (simp add: Let_def base maxDNSNameLength_def)
next
  assume r: ?r
  let ?base = "trim_prefix name ''*.''"
  have "name = ?base \<or> name = ''*.'' @ ?base"
    by (auto simp: trim_prefix_def has_prefix_iff)
  moreover have "join ''.'' (split_on (CHR ''.'') ?base) = ?base" by (rule join_split_on)
  ultimately show "host_name L name"
    using r unfolding host_name_def
    by (auto simp: Let_def maxDNSNameLength_def intro!: exI [of _ "split_on (CHR ''.'') ?base"])
qed


subsection \<open>Normal forms are normal\<close>

text \<open>
  What the code relies on of Unicode lower-casing: text with a character outside ASCII is never mapped to text of
  hexadecimal digits and hyphens only (just two such characters have an ASCII lower case, and it is \<^verbatim>\<open>i\<close> and \<^verbatim>\<open>k\<close>).
\<close>

definition lower_law :: "Names \<Rightarrow> bool" where
  "lower_law L \<longleftrightarrow> (\<forall>s. \<not> is_ascii s \<longrightarrow> \<not> list_all (\<lambda>c. lower_hex c \<or> c = CHR ''-'') (nm_ToLower L s))"

lemma uuid_chars_all: "uuid_chars i s \<Longrightarrow> list_all (\<lambda>c. lower_hex c \<or> c = CHR ''-'') s"
  by (induction i s rule: uuid_chars.induct) (auto split: if_splits)

lemma normalizeNfInstanceID_iff:
  assumes "lower_law L"
  shows "normalizeNfInstanceID L value = Inr i \<longleftrightarrow>
    is_ascii value \<and> length value = 36 \<and> uuid_chars 0 (to_lower value) \<and>
    \<not> list_all (\<lambda>c. c = CHR ''0'' \<or> c = CHR ''-'') (to_lower value) \<and>
    i = mk_id IdentifierNfInstanceID (to_lower value)"
proof -
  have "\<not> uuid_chars 0 (nm_ToLower L value)" if "\<not> is_ascii value"
    using assms that uuid_chars_all by (auto simp: lower_law_def)
  then show ?thesis
    by (cases "value = []") (auto simp: normalizeNfInstanceID_def Let_def strings_ToLower_def)
qed

lemma normalizeIP_iff:
  "normalizeIP value = Inr i \<longleftrightarrow>
     (\<exists>a. ParseAddr value = Some a \<and> Zone a = [] \<and> \<not> Is4In6 a \<and> \<not> IsUnspecified a \<and> \<not> IsMulticast a \<and>
        i = mk_id IdentifierIP (Addr_String a))"
proof -
  have "ParseAddr [] = None" by (simp add: ParseAddr_def)
  then show ?thesis
    by (cases "value = []") (auto simp: normalizeIP_def Let_def split: option.split)
qed

lemma normalizeTNAuthList_fixed: "normalizeTNAuthList value = Inr i \<Longrightarrow> i = mk_id IdentifierTNAuthList value"
  by (auto simp: normalizeTNAuthList_def Let_def split: if_splits option.splits sum.splits)


definition sample_names :: Names where
  "sample_names = \<lparr>nm_ToUnicode = Some, nm_ToASCII = Some, nm_Parse = \<lambda>_. None, nm_String = url_Rest,
     nm_EscapedPath = url_Path, nm_ToLower = \<lambda>s. s, nm_Quote = \<lambda>s. s\<rparr>"

lemma sample_lower_law: "lower_law sample_names"
proof -
  have "\<not> (lower_hex c \<or> c = CHR ''-'')" if "\<not> ord c < 128" for c
    using that by (auto simp: lower_hex_def)
  then show ?thesis by (auto simp: lower_law_def sample_names_def is_ascii_def list_all_iff)
qed

lemmas char_eval = to_lower_def lower_char_def char_of_def bit_Suc_0_iff is_ascii_def strings_ToLower_def

lemma sample_normal:
  "Normalize sample_names (mk_id IdentifierDNS ''EXAMPLE.org'') = Inr (mk_id IdentifierDNS ''example.org'')"
  "Normalize sample_names (mk_id IdentifierDNS ''example.org'') = Inr (mk_id IdentifierDNS ''example.org'')"
proof -
  have "to_lower ''EXAMPLE.org'' = ''example.org''" "to_lower ''example.org'' = ''example.org''" by (simp_all add: char_eval)
  then show "Normalize sample_names (mk_id IdentifierDNS ''EXAMPLE.org'') = Inr (mk_id IdentifierDNS ''example.org'')"
    "Normalize sample_names (mk_id IdentifierDNS ''example.org'') = Inr (mk_id IdentifierDNS ''example.org'')"
    by (simp_all add: Normalize_def normalizeDNS_def Let_def is_ascii_def strings_ToLower_def trim_prefix_def
      ParseAddr_def parseIPv4Fields_def dec_digit_def checkDNSLabel_def ldh_def maxDNSLabelLength_def maxDNSNameLength_def)
qed


subsection \<open>Lists of identifiers\<close>

text \<open>The normal form, where there is one.\<close>

abbreviation normal :: "Names \<Rightarrow> Identifier \<Rightarrow> Identifier" where
  "normal L i \<equiv> (case Normalize L i of Inr n \<Rightarrow> n | Inl _ \<Rightarrow> i)"

lemma normalize_loop_iff:
  "distinct out \<Longrightarrow> normalize_loop L out ids = Inr res \<longleftrightarrow>
     (\<forall>i\<in>set ids. \<exists>n. Normalize L i = Inr n) \<and> res = out @ map (normal L) ids \<and> distinct res"
  by (induction L out ids rule: normalize_loop.induct) (auto split: sum.splits)

text \<open>C36. \<^verbatim>\<open>NormalizeIdentifiers\<close> succeeds exactly when every identifier has a normal form and no two have the
  same one; the result is then the list of the normal forms in the order of the request, and has no
  duplicates.\<close>

theorem NormalizeIdentifiers_iff:
  "NormalizeIdentifiers L ids = Inr res \<longleftrightarrow>
     list_all2 (\<lambda>i n. Normalize L i = Inr n) ids res \<and> distinct res"
proof -
  have "(\<forall>i\<in>set ids. \<exists>n. Normalize L i = Inr n) \<and> res = map (normal L) ids \<longleftrightarrow>
      list_all2 (\<lambda>i n. Normalize L i = Inr n) ids res"
    by (induction ids arbitrary: res) (auto simp: list_all2_Cons1 split: sum.splits)
  then show ?thesis by (auto simp: NormalizeIdentifiers_def normalize_loop_iff)
qed

subsection \<open>URI names\<close>

text \<open>C37. A network function instance identifier survives the trip through a certificate: the URI name a certificate
  carries for a normalised identifier is read back as that identifier.\<close>

theorem NfInstanceID_URI_roundtrip:
  assumes "lower_law L" "Normalize L i = Inr n" "id_Type i = IdentifierNfInstanceID"
  shows "uriNameIdentifier L (identifier_URI n) = Inr n"
proof -
  from assms have "normalizeNfInstanceID L (id_Value n) = Inr n" "id_Type n = IdentifierNfInstanceID" "length (id_Value n) = 36"
    by (auto simp: Normalize_def normalizeNfInstanceID_iff)
  then show ?thesis
    by (auto simp: uriNameIdentifier_def identifier_URI_def nfInstanceURNPrefix_def equal_fold_def)
qed

theorem NfInstanceID_URI_roundtrip_witness:
  "uriNameIdentifier sample_names ''urn:uuid:4ace9d34-2c69-4f99-92d5-a73a3fe8e23b'' =
     Inr (mk_id IdentifierNfInstanceID ''4ace9d34-2c69-4f99-92d5-a73a3fe8e23b'')"
proof -
  have "Normalize sample_names (mk_id IdentifierNfInstanceID ''4ACE9D34-2C69-4F99-92D5-A73A3FE8E23B'') =
      Inr (mk_id IdentifierNfInstanceID ''4ace9d34-2c69-4f99-92d5-a73a3fe8e23b'')"
    by (simp add: Normalize_def normalizeNfInstanceID_def Let_def lower_hex_def char_eval)
  from NfInstanceID_URI_roundtrip [OF sample_lower_law this] show ?thesis
    by (simp add: identifier_URI_def nfInstanceURNPrefix_def)
qed

end
