(* ===== verification/Acme_Config.thy ===== *)
theory Acme_Config
  imports Acme_Identifier Acme_Resource
begin

section \<open>Configuration\<close>

text \<open>
  \<^verbatim>\<open>config.go\<close>, the constructor of \<^verbatim>\<open>server.go\<close> and the revocation reasons of \<^verbatim>\<open>refusal.go\<close>: the checks
  \<^verbatim>\<open>New\<close> makes of a \<^verbatim>\<open>Config\<close>, the defaults it fills in and the \<^verbatim>\<open>Server\<close> it returns.  A host interface in the
  configuration is whether it is set (a Boolean), its behaviour is a parameter of the components that call
  it.  Durations and counts are Go integers of 64 bits; a product of durations is reduced by \<open>i64\<close>.
  Shown: an accepted configuration has positive limits, a lease of at least two task timeouts, distinct
  profile names and only final revocation reasons.
\<close>

subsection \<open>Structs\<close>

record WorkerConfig =
  wc_Concurrency :: int
  wc_PollInterval :: duration
  wc_Lease :: duration
  wc_TaskTimeout :: duration
  wc_MaxAttempts :: int
  wc_RetryDelay :: duration
  wc_StaleAfter :: duration
  wc_External :: bool

record DirectoryMeta =
  dm_TermsOfService :: string
  dm_Website :: string
  dm_CAAIdentities :: "string list"
  dm_ExternalAccountRequired :: bool

record Profile =
  pf_Name :: string
  pf_Description :: string
  pf_URL :: string

text \<open>
  What a \<^verbatim>\<open>Policy\<close> implements beyond its two methods, and whether a validator is a \<^verbatim>\<open>GrantingValidator\<close>, are
  the type assertions of the code.
\<close>

record PolicyKind =
  pk_PreApprover :: bool
  pk_ProfileChooser :: bool

datatype ValidatorKind = PlainValidator | Granting

record Config =
  cfg_BaseURL :: string
  cfg_AllowInsecureBaseURL :: bool
  cfg_Store :: bool
  cfg_Nonces :: bool
  cfg_Meta :: DirectoryMeta
  cfg_MaxRequestBody :: int
  cfg_Issuer :: bool
  cfg_Revoker :: bool
  cfg_RevocationReasons :: "int list"
  cfg_Refusals :: bool
  cfg_Limits :: bool
  cfg_Validators :: "(ChallengeType \<times> ValidatorKind option) list"
  cfg_ExternalAccounts :: bool
  cfg_SingleUseExternalAccounts :: bool
  cfg_Policy :: "PolicyKind option"
  cfg_IssuancePolicy :: bool
  cfg_RequireTermsOfServiceAgreed :: bool
  cfg_IPIdentifiers :: bool
  cfg_TNAuthListIdentifiers :: bool
  cfg_TNAuthListCertificatesOutliveTokens :: bool
  cfg_NfInstanceIDIdentifiers :: bool
  cfg_TokenAuthority :: string
  cfg_OrderLifetime :: duration
  cfg_AuthorizationLifetime :: duration
  cfg_MaxIdentifiers :: int
  cfg_MaxPendingValidations :: int
  cfg_DetachedWriteTimeout :: duration
  cfg_Profiles :: "Profile list"
  cfg_DefaultProfile :: string
  cfg_RenewalInfo :: bool
  cfg_Workers :: WorkerConfig

record Server =
  srv_baseURL :: string
  srv_basePath :: string
  srv_meta :: DirectoryMeta
  srv_maxBody :: int
  srv_hasMeta :: bool
  srv_validators :: "ChallengeType \<rightharpoonup> ValidatorKind"
  srv_eabKeys :: bool
  srv_singleUseEAB :: bool
  srv_policy :: PolicyKind
  srv_issuancePolicy :: bool
  srv_requireTOS :: bool
  srv_ipIdentifiers :: bool
  srv_tnAuthList :: bool
  srv_tnAuthListOutlive :: bool
  srv_nfInstanceIDs :: bool
  srv_tokenAuthority :: string
  srv_renewal :: bool
  srv_profiles :: "string \<rightharpoonup> Profile"
  srv_defaultProfile :: string
  srv_orderLifetime :: duration
  srv_authzLifetime :: duration
  srv_maxIdentifiers :: int
  srv_maxValidations :: int
  srv_detachedWrite :: duration
  srv_workers :: WorkerConfig
  srv_revocationReasons :: "int list"
  srv_reasonsText :: string
  srv_refusals :: bool
  srv_limits :: bool

definition DefaultMaxRequestBody :: int where "DefaultMaxRequestBody = 65536"
definition DefaultOrderLifetime :: duration where "DefaultOrderLifetime = 7 * 24 * 3600 * second"
definition DefaultAuthorizationLifetime :: duration where "DefaultAuthorizationLifetime = 30 * 24 * 3600 * second"
definition DefaultMaxIdentifiers :: int where "DefaultMaxIdentifiers = 100"
definition DefaultDetachedWriteTimeout :: duration where "DefaultDetachedWriteTimeout = 30 * second"

text \<open>A configuration error carries the package prefix.\<close>

definition errorf :: "string \<Rightarrow> error" where
  "errorf detail = ErrorNew (''acmeserver: '' @ detail)"

subsection \<open>URLs and profiles\<close>

definition has_suffix :: "string \<Rightarrow> string \<Rightarrow> bool" where
  "has_suffix s p \<longleftrightarrow> has_prefix (rev s) (rev p)"

definition normalizeBaseURL :: "Names \<Rightarrow> string \<Rightarrow> bool \<Rightarrow> error + URL" where
  "normalizeBaseURL L raw allowInsecure =
     (if raw = [] then Inl (errorf ''Config.BaseURL is required'')
      else case nm_Parse L raw of
        None \<Rightarrow> Inl (errorf ''Config.BaseURL: invalid URL'')
      | Some u \<Rightarrow>
          if \<not> (url_Scheme u = schemeHTTPS \<or> url_Scheme u = ''http'' \<and> allowInsecure) then
            Inl (if url_Scheme u = ''http''
                 then errorf ''Config.BaseURL must use https unless AllowInsecureBaseURL is set''
                 else errorf ''Config.BaseURL must be an absolute http or https URL'')
          else if url_Host u = [] \<or> url_User u \<noteq> None \<or> url_RawQuery u \<noteq> [] \<or> url_Fragment u \<noteq> [] \<or>
                  nm_EscapedPath L u \<noteq> url_Path u \<or> url_Opaque u \<noteq> [] then
            Inl (errorf (''Config.BaseURL must have a host and no user info, query, fragment '' @
              ''or path that needs percent-encoding''))
          else Inr (if \<not> has_suffix (url_Path u) ''/'' then u\<lparr>url_Path := url_Path u @ ''/''\<rparr> else u))"

definition isHTTPSURL :: "Names \<Rightarrow> string \<Rightarrow> bool" where
  "isHTTPSURL L raw =
     (case nm_Parse L raw of
        None \<Rightarrow> False
      | Some u \<Rightarrow> url_Scheme u = schemeHTTPS \<and> url_Host u \<noteq> [] \<and> url_User u = None \<and> url_Fragment u = [] \<and> url_Opaque u = [])"

definition maxProfileNameLength :: nat where "maxProfileNameLength = 64"

definition alnum :: "char \<Rightarrow> bool" where
  "alnum c \<longleftrightarrow> 97 \<le> ord c \<and> ord c \<le> 122 \<or> 65 \<le> ord c \<and> ord c \<le> 90 \<or> 48 \<le> ord c \<and> ord c \<le> 57"

text \<open>The loop of \<^verbatim>\<open>validProfileName\<close> from index \<open>i\<close>.\<close>

fun profile_chars :: "nat \<Rightarrow> string \<Rightarrow> bool" where
  "profile_chars i [] = True"
| "profile_chars i (c # s) =
     (if \<not> alnum c \<and> (i = 0 \<or> c \<noteq> CHR ''.'' \<and> c \<noteq> CHR ''_'' \<and> c \<noteq> CHR ''-'') then False
      else profile_chars (i + 1) s)"

definition validProfileName :: "string \<Rightarrow> bool" where
  "validProfileName name = (if name = [] \<or> maxProfileNameLength < length name then False else profile_chars 0 name)"

text \<open>Why one profile is refused; \<open>utf8\<close> is \<^verbatim>\<open>utf8.ValidString\<close>.\<close>

definition check_profile :: "Names \<Rightarrow> (string \<Rightarrow> bool) \<Rightarrow> string list \<Rightarrow> Profile \<Rightarrow> error option" where
  "check_profile L utf8 seen p =
     (if \<not> validProfileName (pf_Name p) then Some (errorf (''Config.Profiles has the invalid name '' @ nm_Quote L (pf_Name p)))
      else if pf_Name p \<in> set seen then Some (errorf (''Config.Profiles names '' @ pf_Name p @ '' twice''))
      else if (pf_Description p = []) = (pf_URL p = []) then
        Some (errorf (''Config.Profiles['' @ pf_Name p @ ''] needs exactly one of Description and URL''))
      else if pf_URL p \<noteq> [] \<and> \<not> isHTTPSURL L (pf_URL p) then
        Some (errorf (''Config.Profiles['' @ pf_Name p @ ''].URL must be an absolute https URL''))
      else if pf_Description p \<noteq> [] \<and> \<not> utf8 (pf_Description p) then
        Some (errorf (''Config.Profiles['' @ pf_Name p @ ''].Description must be valid UTF-8''))
      else None)"

fun check_profiles :: "Names \<Rightarrow> (string \<Rightarrow> bool) \<Rightarrow> string list \<Rightarrow> Profile list \<Rightarrow> error + string list" where
  "check_profiles L utf8 seen [] = Inr seen"
| "check_profiles L utf8 seen (p # ps) =
     (case check_profile L utf8 seen p of
        Some e \<Rightarrow> Inl e
      | None \<Rightarrow> check_profiles L utf8 (pf_Name p # seen) ps)"

definition validateProfiles :: "Names \<Rightarrow> (string \<Rightarrow> bool) \<Rightarrow> Profile list \<Rightarrow> string \<Rightarrow> error + unit" where
  "validateProfiles L utf8 profiles defaultProfile =
     (if profiles = [] then
        if defaultProfile \<noteq> [] then Inl (errorf ''Config.DefaultProfile needs Config.Profiles'') else Inr ()
      else
        and_then (check_profiles L utf8 [] profiles) (\<lambda>seen.
          if defaultProfile \<notin> set seen then
            Inl (errorf ''Config.DefaultProfile must name one of Config.Profiles'')
          else Inr ()))"

subsection \<open>Revocation reasons\<close>

definition defaultRevocationReasons :: "int list" where
  "defaultRevocationReasons = [0, 1, 3, 4, 5]"

definition revocationReasonNames :: "int \<rightharpoonup> string" where
  "revocationReasonNames = map_of
     [(0, ''unspecified''), (1, ''keyCompromise''), (2, ''cACompromise''), (3, ''affiliationChanged''),
      (4, ''superseded''), (5, ''cessationOfOperation''), (9, ''privilegeWithdrawn''), (10, ''aACompromise'')]"

text \<open>\<^verbatim>\<open>strconv.Itoa\<close>.\<close>

definition itoa :: "int \<Rightarrow> string" where
  "itoa n = (if n < 0 then CHR ''-'' # dec_string (nat (- n)) else dec_string (nat n))"

fun validateRevocationReasons :: "int list \<Rightarrow> error + unit" where
  "validateRevocationReasons [] = Inr ()"
| "validateRevocationReasons (reason # reasons) =
     (if revocationReasonNames reason = None then
        Inl (errorf (''Config.RevocationReasons has '' @ itoa reason @ ''. Only 0 to 5, 9 and 10 '' @
          ''are allowed, because an ACME revocation is final''))
      else validateRevocationReasons reasons)"

definition revocationReasons :: "int list \<Rightarrow> int list" where
  "revocationReasons configured =
     (if configured = [] then defaultRevocationReasons else remdups_adj (sort configured))"

definition reason_name :: "int \<Rightarrow> string" where
  "reason_name reason =
     (case revocationReasonNames reason of None \<Rightarrow> [] | Some n \<Rightarrow> n) @ '' ('' @ itoa reason @ '')''"

definition revocationReasonsText :: "int list \<Rightarrow> string" where
  "revocationReasonsText reasons =
     (let names = map reason_name reasons in
      if length names = 1 then ''The allowed reason is '' @ hd names
      else ''The allowed reasons are '' @ join '', '' (butlast names) @ '' and '' @ last names)"

subsection \<open>Workers\<close>

definition minute :: duration where
  "minute = 60 * second"

text \<open>A zero field selects the default.\<close>

definition or_default :: "int \<Rightarrow> int \<Rightarrow> int" where
  "or_default n d = (if n = 0 then d else n)"

text \<open>The switch of \<^verbatim>\<open>withDefaults\<close> on the lease and the task timeout.\<close>

definition lease_defaults :: "duration \<Rightarrow> duration \<Rightarrow> duration \<times> duration" where
  "lease_defaults lease timeout =
     (if lease = 0 \<and> timeout = 0 then (2 * minute, 30 * second)
      else if lease = 0 then (max (2 * minute) (i64 (2 * timeout)), timeout)
      else if timeout = 0 then (lease, min (30 * second) (lease div 2))
      else (lease, timeout))"

definition withDefaults :: "WorkerConfig \<Rightarrow> error + WorkerConfig" where
  "withDefaults c =
     (if wc_Concurrency c < 0 \<or> wc_PollInterval c < 0 \<or> wc_Lease c < 0 \<or> wc_TaskTimeout c < 0 \<or> wc_MaxAttempts c < 0 \<or>
         wc_RetryDelay c < 0 \<or> wc_StaleAfter c < 0 then
        Inl (errorf ''Config.Workers values must not be negative'')
      else
        (case lease_defaults (wc_Lease c) (wc_TaskTimeout c) of (lease, timeout) \<Rightarrow>
           if timeout \<le> 0 \<or> lease < i64 (2 * timeout) then
             Inl (errorf ''Config.Workers.Lease must be at least twice TaskTimeout'')
           else
             Inr (c\<lparr>wc_Concurrency := or_default (wc_Concurrency c) 4,
               wc_PollInterval := or_default (wc_PollInterval c) second,
               wc_Lease := lease, wc_TaskTimeout := timeout,
               wc_MaxAttempts := or_default (wc_MaxAttempts c) 5,
               wc_RetryDelay := or_default (wc_RetryDelay c) (5 * second),
               wc_StaleAfter := or_default (wc_StaleAfter c) minute\<rparr>)))"

subsection \<open>The constructor\<close>

definition validateAuthorityTokens :: "Names \<Rightarrow> Config \<Rightarrow> error + unit" where
  "validateAuthorityTokens L cfg =
     (let tk = (case map_of (cfg_Validators cfg) ChallengeTKAuth01 of Some (Some _) \<Rightarrow> True | _ \<Rightarrow> False) in
      if cfg_TNAuthListIdentifiers cfg \<and> \<not> tk then
        Inl (errorf (''Config.TNAuthListIdentifiers needs a '' @ challenge_type_string ChallengeTKAuth01 @ '' validator''))
      else if cfg_TNAuthListCertificatesOutliveTokens cfg \<and> \<not> cfg_TNAuthListIdentifiers cfg then
        Inl (errorf ''Config.TNAuthListCertificatesOutliveTokens needs Config.TNAuthListIdentifiers'')
      else if cfg_NfInstanceIDIdentifiers cfg \<and> \<not> tk then
        Inl (errorf (''Config.NfInstanceIDIdentifiers needs a '' @ challenge_type_string ChallengeTKAuth01 @ '' validator''))
      else if cfg_TokenAuthority cfg \<noteq> [] \<and> \<not> isHTTPSURL L (cfg_TokenAuthority cfg) then
        Inl (errorf ''Config.TokenAuthority must be an absolute https URL'')
      else Inr ())"

fun check_validators :: "(ChallengeType \<times> ValidatorKind option) list \<Rightarrow> error + unit" where
  "check_validators [] = Inr ()"
| "check_validators ((typ, v) # rest) =
     (if v = None then Inl (errorf (''Config.Validators['' @ challenge_type_string typ @ ''] is nil''))
      else if typ \<noteq> ChallengeHTTP01 \<and> typ \<noteq> ChallengeDNS01 \<and> typ \<noteq> ChallengeTLSALPN01 \<and> typ \<noteq> ChallengeTKAuth01 then
        Inl (errorf (''Config.Validators has the unknown challenge type '' @ challenge_type_string typ))
      else check_validators rest)"

definition validate_config :: "Names \<Rightarrow> (string \<Rightarrow> bool) \<Rightarrow> Config \<Rightarrow> error + unit" where
  "validate_config L utf8 cfg =
     (if \<not> cfg_Store cfg then Inl (errorf ''Config.Store is required'')
      else if \<not> cfg_Nonces cfg then Inl (errorf ''Config.Nonces is required'')
      else if \<not> cfg_Issuer cfg then Inl (errorf ''Config.Issuer is required'')
      else if \<not> cfg_Revoker cfg then Inl (errorf ''Config.Revoker is required'')
      else if cfg_Validators cfg = [] then Inl (errorf ''Config.Validators needs at least one validator'')
      else if dm_ExternalAccountRequired (cfg_Meta cfg) \<and> \<not> cfg_ExternalAccounts cfg then
        Inl (errorf ''Config.ExternalAccounts is required when Meta.ExternalAccountRequired is set'')
      else if cfg_SingleUseExternalAccounts cfg \<and> \<not> cfg_ExternalAccounts cfg then
        Inl (errorf ''Config.SingleUseExternalAccounts needs Config.ExternalAccounts'')
      else if cfg_RequireTermsOfServiceAgreed cfg \<and> dm_TermsOfService (cfg_Meta cfg) = [] then
        Inl (errorf ''Config.RequireTermsOfServiceAgreed needs Meta.TermsOfService'')
      else if cfg_MaxRequestBody cfg < 0 \<or> cfg_OrderLifetime cfg < 0 \<or> cfg_AuthorizationLifetime cfg < 0 \<or>
              cfg_MaxIdentifiers cfg < 0 \<or> cfg_MaxPendingValidations cfg < 0 \<or> cfg_DetachedWriteTimeout cfg < 0 then
        Inl (errorf ''Config limits must not be negative'')
      else
        and_then (validateAuthorityTokens L cfg) (\<lambda>_.
        and_then (check_validators (cfg_Validators cfg)) (\<lambda>_.
        and_then (validateRevocationReasons (cfg_RevocationReasons cfg)) (\<lambda>_.
          validateProfiles L utf8 (cfg_Profiles cfg) (cfg_DefaultProfile cfg)))))"

definition Server_New :: "Names \<Rightarrow> (string \<Rightarrow> bool) \<Rightarrow> Config \<Rightarrow> error + Server" where
  "Server_New L utf8 cfg =
     and_then (normalizeBaseURL L (cfg_BaseURL cfg) (cfg_AllowInsecureBaseURL cfg)) (\<lambda>base.
     and_then (validate_config L utf8 cfg) (\<lambda>_.
     and_then (withDefaults (cfg_Workers cfg)) (\<lambda>workers.
       let meta = cfg_Meta cfg;
           profiles = map_of (map (\<lambda>p. (pf_Name p, p)) (rev (cfg_Profiles cfg)));
           reasons = revocationReasons (cfg_RevocationReasons cfg);
           maxIdentifiers = or_default (cfg_MaxIdentifiers cfg) DefaultMaxIdentifiers in
       Inr \<lparr>srv_baseURL = nm_String L base, srv_basePath = url_Path base, srv_meta = meta,
         srv_maxBody = or_default (cfg_MaxRequestBody cfg) DefaultMaxRequestBody,
         srv_hasMeta = (dm_TermsOfService meta \<noteq> [] \<or> dm_Website meta \<noteq> [] \<or> dm_CAAIdentities meta \<noteq> [] \<or>
           dm_ExternalAccountRequired meta \<or> cfg_Profiles cfg \<noteq> []),
         srv_validators = (\<lambda>t. case map_of (cfg_Validators cfg) t of Some v \<Rightarrow> v | None \<Rightarrow> None),
         srv_eabKeys = cfg_ExternalAccounts cfg,
         srv_singleUseEAB = cfg_SingleUseExternalAccounts cfg,
         srv_policy = (case cfg_Policy cfg of
           None \<Rightarrow> \<lparr>pk_PreApprover = False, pk_ProfileChooser = False\<rparr> | Some k \<Rightarrow> k),
         srv_issuancePolicy = cfg_IssuancePolicy cfg,
         srv_requireTOS = cfg_RequireTermsOfServiceAgreed cfg,
         srv_ipIdentifiers = cfg_IPIdentifiers cfg,
         srv_tnAuthList = cfg_TNAuthListIdentifiers cfg,
         srv_tnAuthListOutlive = cfg_TNAuthListCertificatesOutliveTokens cfg,
         srv_nfInstanceIDs = cfg_NfInstanceIDIdentifiers cfg,
         srv_tokenAuthority = cfg_TokenAuthority cfg,
         srv_renewal = cfg_RenewalInfo cfg,
         srv_profiles = profiles,
         srv_defaultProfile = cfg_DefaultProfile cfg,
         srv_orderLifetime = or_default (cfg_OrderLifetime cfg) DefaultOrderLifetime,
         srv_authzLifetime = or_default (cfg_AuthorizationLifetime cfg) DefaultAuthorizationLifetime,
         srv_maxIdentifiers = maxIdentifiers,
         srv_maxValidations = or_default (cfg_MaxPendingValidations cfg) maxIdentifiers,
         srv_detachedWrite = or_default (cfg_DetachedWriteTimeout cfg) DefaultDetachedWriteTimeout,
         srv_workers = workers,
         srv_revocationReasons = reasons, srv_reasonsText = revocationReasonsText reasons,
         srv_refusals = cfg_Refusals cfg, srv_limits = cfg_Limits cfg\<rparr>)))"

subsection \<open>What an accepted configuration guarantees\<close>

definition worker_ok :: "WorkerConfig \<Rightarrow> bool" where
  "worker_ok c \<longleftrightarrow> 0 < wc_Concurrency c \<and> 0 < wc_PollInterval c \<and> 0 < wc_TaskTimeout c \<and> 0 < wc_Lease c \<and>
     0 < wc_MaxAttempts c \<and> 0 < wc_RetryDelay c \<and> 0 < wc_StaleAfter c"

lemma or_default_pos: "0 \<le> n \<Longrightarrow> 0 < d \<Longrightarrow> 0 < or_default n d"
  by (simp add: or_default_def)

lemma i64_double: "0 \<le> t \<Longrightarrow> t < 2 ^ 62 \<Longrightarrow> i64 (2 * t) = 2 * t"
  by (rule i64_id) simp_all

lemma lease_defaults_ok:
  assumes "lease_defaults l t = (l', t')" "0 \<le> l" "0 \<le> t" "t < 2 ^ 62" "i64 (2 * t') \<le> l'"
  shows "2 * t' \<le> l'"
proof -
  have "t' < 2 ^ 62 \<and> (0 \<le> t')"
    using assms(1-4) by (auto simp: lease_defaults_def second_def min_def split: if_splits)
  with assms(5) show ?thesis by (simp add: i64_double)
qed

lemma withDefaults_Inr:
  assumes "withDefaults c = Inr d"
  shows "worker_ok d" and "wc_TaskTimeout c < 2 ^ 62 \<Longrightarrow> 2 * wc_TaskTimeout d \<le> wc_Lease d"
    and "i64 (2 * wc_TaskTimeout d) \<le> wc_Lease d"
proof -
  obtain l t where lt: "lease_defaults (wc_Lease c) (wc_TaskTimeout c) = (l, t)" by fastforce
  have d: "0 \<le> wc_Concurrency c" "0 \<le> wc_PollInterval c" "0 \<le> wc_Lease c" "0 \<le> wc_TaskTimeout c" "0 \<le> wc_MaxAttempts c"
    "0 \<le> wc_RetryDelay c" "0 \<le> wc_StaleAfter c" "0 < t" "i64 (2 * t) \<le> l"
    and d_eq: "d = c\<lparr>wc_Concurrency := or_default (wc_Concurrency c) 4,
               wc_PollInterval := or_default (wc_PollInterval c) second,
               wc_Lease := l, wc_TaskTimeout := t,
               wc_MaxAttempts := or_default (wc_MaxAttempts c) 5,
               wc_RetryDelay := or_default (wc_RetryDelay c) (5 * second),
               wc_StaleAfter := or_default (wc_StaleAfter c) minute\<rparr>"
    using assms by (auto simp: withDefaults_def lt not_less not_le)
  have "0 < l"
    using lt d by (auto simp: lease_defaults_def minute_def second_def split: if_splits)
  with d show "worker_ok d" by (simp add: worker_ok_def d_eq or_default_pos second_def minute_def)
  show "2 * wc_TaskTimeout d \<le> wc_Lease d" if "wc_TaskTimeout c < 2 ^ 62"
    using lease_defaults_ok [OF lt d(3,4) that d(9)] by (simp add: d_eq)
  show "i64 (2 * wc_TaskTimeout d) \<le> wc_Lease d" using d by (simp add: d_eq)
qed

text \<open>
  The comparison wraps: a task timeout of \<open>2^62\<close> nanoseconds or more (146 years) passes with any lease, and the
  stated relation between the two does not hold.
\<close>

lemma withDefaults_overflow:
  defines "c \<equiv> \<lparr>wc_Concurrency = 0, wc_PollInterval = 0, wc_Lease = 1, wc_TaskTimeout = 2 ^ 62, wc_MaxAttempts = 0,
    wc_RetryDelay = 0, wc_StaleAfter = 0, wc_External = False\<rparr>"
  shows "\<exists>d. withDefaults c = Inr d \<and> wc_Lease d < 2 * wc_TaskTimeout d"
  by (simp add: c_def withDefaults_def lease_defaults_def i64_def)

lemma profile_chars_iff:
  "profile_chars (Suc i) s \<longleftrightarrow> list_all (\<lambda>c. alnum c \<or> c = CHR ''.'' \<or> c = CHR ''_'' \<or> c = CHR ''-'') s"
  by (induction s arbitrary: i) auto

lemma check_profiles_Inr:
  "check_profiles L utf8 seen ps = Inr out \<Longrightarrow>
     out = rev (map pf_Name ps) @ seen \<and> (distinct seen \<longrightarrow> distinct out) \<and>
     list_all (\<lambda>p. validProfileName (pf_Name p) \<and> (pf_Description p = []) \<noteq> (pf_URL p = [])) ps"
  by (induction ps arbitrary: seen) (auto simp: check_profile_def split: option.splits if_splits)

lemma validateRevocationReasons_Inr:
  "validateRevocationReasons rs = Inr () \<longleftrightarrow> list_all (\<lambda>r. r \<in> {0, 1, 2, 3, 4, 5, 9, 10}) rs"
  by (induction rs) (auto simp: revocationReasonNames_def split: if_splits)

lemma check_validators_Inr:
  "check_validators vs = Inr () \<Longrightarrow> map_of vs typ \<noteq> Some None \<and>
     (map_of vs typ \<noteq> None \<longrightarrow> typ \<in> {ChallengeHTTP01, ChallengeDNS01, ChallengeTLSALPN01, ChallengeTKAuth01})"
  by (induction vs rule: check_validators.induct) (auto split: if_splits)

definition server_ok :: "Server \<Rightarrow> bool" where
  "server_ok s \<longleftrightarrow>
     worker_ok (srv_workers s) \<and> 0 < srv_maxBody s \<and> 0 < srv_orderLifetime s \<and> 0 < srv_authzLifetime s \<and>
     0 < srv_maxIdentifiers s \<and> 0 < srv_maxValidations s \<and> 0 < srv_detachedWrite s \<and>
     srv_revocationReasons s \<noteq> [] \<and> sorted_wrt (<) (srv_revocationReasons s) \<and>
     set (srv_revocationReasons s) \<subseteq> {0, 1, 2, 3, 4, 5, 9, 10} \<and>
     (\<forall>n p. srv_profiles s n = Some p \<longrightarrow> pf_Name p = n \<and> validProfileName n) \<and>
     (srv_defaultProfile s \<noteq> [] \<or> srv_profiles s \<noteq> Map.empty \<longrightarrow> srv_profiles s (srv_defaultProfile s) \<noteq> None) \<and>
     dom (srv_validators s) \<subseteq> {ChallengeHTTP01, ChallengeDNS01, ChallengeTLSALPN01, ChallengeTKAuth01} \<and>
     dom (srv_validators s) \<noteq> {} \<and>
     (srv_tnAuthList s \<or> srv_nfInstanceIDs s \<longrightarrow> ChallengeTKAuth01 \<in> dom (srv_validators s)) \<and>
     (dm_ExternalAccountRequired (srv_meta s) \<or> srv_singleUseEAB s \<longrightarrow> srv_eabKeys s) \<and>
     has_suffix (srv_basePath s) ''/''"

lemma compact_sorted: "sorted xs \<Longrightarrow> sorted_wrt (<) (remdups_adj xs)" for xs :: "int list"
  by (induction xs rule: remdups_adj.induct) (auto simp: order.strict_iff_order)

lemma revocationReasons_ok:
  assumes "validateRevocationReasons rs = Inr ()"
  shows "revocationReasons rs \<noteq> [] \<and> sorted_wrt (<) (revocationReasons rs) \<and>
    set (revocationReasons rs) \<subseteq> {0, 1, 2, 3, 4, 5, 9, 10}"
proof -
  have "sorted_wrt (<) (remdups_adj (sort rs))"
    by (rule compact_sorted) simp
  moreover have "sort rs = [] \<longleftrightarrow> rs = []" by (metis set_empty set_sort)
  ultimately show ?thesis
    using assms by (auto simp: revocationReasons_def defaultRevocationReasons_def validateRevocationReasons_Inr list_all_iff)
qed

lemma profiles_ok:
  assumes "validateProfiles L utf8 ps def = Inr ()"
    and m: "m = map_of (map (\<lambda>p. (pf_Name p, p)) (rev ps))"
  shows "(\<forall>n p. m n = Some p \<longrightarrow> pf_Name p = n \<and> validProfileName n) \<and>
    (def \<noteq> [] \<or> m \<noteq> Map.empty \<longrightarrow> m def \<noteq> None)"
proof (cases "ps = []")
  case False
  with assms(1) obtain seen where seen: "check_profiles L utf8 [] ps = Inr seen" "def \<in> set seen"
    by (auto simp: validateProfiles_def split: if_splits)
  from check_profiles_Inr [OF this(1)] have ps: "seen = rev (map pf_Name ps)" "\<forall>p\<in>set ps. validProfileName (pf_Name p)"
    by (auto simp: list_all_iff)
  have "m def \<noteq> None" using seen(2) ps(1) by (auto simp: m map_of_eq_None_iff image_image)
  moreover have "pf_Name p = n \<and> validProfileName n" if "m n = Some p" for n p
    using map_of_SomeD [OF that [unfolded m]] ps(2) by auto
  ultimately show ?thesis by blast
qed (use assms in \<open>auto simp: validateProfiles_def split: if_splits\<close>)

lemma normalizeBaseURL_Inr: "normalizeBaseURL L raw insecure = Inr u \<Longrightarrow> has_suffix (url_Path u) ''/''"
  by (auto simp: normalizeBaseURL_def has_suffix_def split: if_splits option.splits)

text \<open>C31. A server is only built from a sound configuration: its limits and worker settings are positive, the
  lease is at least twice the task timeout (for timeouts below \<open>2^62\<close> nanoseconds), the revocation reasons are an
  ascending list of the reasons a final revocation may have, the default profile is one that is offered,
  every configured validator is of a known type, and authority token identifiers and required external
  accounts have the validator and the key source they need.\<close>

theorem Server_New_ok:
  assumes "Server_New L utf8 cfg = Inr s" "wc_TaskTimeout (cfg_Workers cfg) < 2 ^ 62"
  shows "server_ok s \<and> 2 * wc_TaskTimeout (srv_workers s) \<le> wc_Lease (srv_workers s)"
proof -
  obtain u w where parts: "normalizeBaseURL L (cfg_BaseURL cfg) (cfg_AllowInsecureBaseURL cfg) = Inr u"
    "validate_config L utf8 cfg = Inr ()" "withDefaults (cfg_Workers cfg) = Inr w" "srv_workers s = w"
    "srv_basePath s = url_Path u"
    using assms(1) by (auto simp: Server_New_def Let_def)
  have cfg: "cfg_Validators cfg \<noteq> []" "validateAuthorityTokens L cfg = Inr ()" "check_validators (cfg_Validators cfg) = Inr ()"
    "validateRevocationReasons (cfg_RevocationReasons cfg) = Inr ()"
    "validateProfiles L utf8 (cfg_Profiles cfg) (cfg_DefaultProfile cfg) = Inr ()"
    "dm_ExternalAccountRequired (cfg_Meta cfg) \<or> cfg_SingleUseExternalAccounts cfg \<longrightarrow> cfg_ExternalAccounts cfg"
    "0 \<le> cfg_MaxRequestBody cfg" "0 \<le> cfg_OrderLifetime cfg" "0 \<le> cfg_AuthorizationLifetime cfg"
    "0 \<le> cfg_MaxIdentifiers cfg" "0 \<le> cfg_MaxPendingValidations cfg" "0 \<le> cfg_DetachedWriteTimeout cfg"
    using parts(2) by (auto simp: validate_config_def not_less)
  have v: "srv_validators s t = Some k \<longleftrightarrow> map_of (cfg_Validators cfg) t = Some (Some k)" for t k
    using assms(1) by (auto simp: Server_New_def Let_def split: option.splits)
  obtain t0 v0 where "map_of (cfg_Validators cfg) t0 = Some v0"
    using cfg(1) by (cases "cfg_Validators cfg") (auto split: if_splits, metis)
  then have v_some: "dom (srv_validators s) \<noteq> {}"
    using check_validators_Inr [OF cfg(3), of t0] v by (cases v0) auto
  have v_known: "dom (srv_validators s) \<subseteq> {ChallengeHTTP01, ChallengeDNS01, ChallengeTLSALPN01, ChallengeTKAuth01}"
    using check_validators_Inr [OF cfg(3)] v by fastforce
  have tk: "srv_tnAuthList s \<or> srv_nfInstanceIDs s \<Longrightarrow> ChallengeTKAuth01 \<in> dom (srv_validators s)"
    using cfg(2) assms(1) v [of ChallengeTKAuth01]
    by (auto simp: validateAuthorityTokens_def Let_def Server_New_def split: option.splits if_splits)
  have eab: "dm_ExternalAccountRequired (srv_meta s) \<or> srv_singleUseEAB s \<longrightarrow> srv_eabKeys s"
    using cfg(6) assms(1) by (auto simp: Server_New_def Let_def)
  have fields: "srv_maxBody s = or_default (cfg_MaxRequestBody cfg) DefaultMaxRequestBody"
    "srv_orderLifetime s = or_default (cfg_OrderLifetime cfg) DefaultOrderLifetime"
    "srv_authzLifetime s = or_default (cfg_AuthorizationLifetime cfg) DefaultAuthorizationLifetime"
    "srv_maxIdentifiers s = or_default (cfg_MaxIdentifiers cfg) DefaultMaxIdentifiers"
    "srv_maxValidations s = or_default (cfg_MaxPendingValidations cfg) (srv_maxIdentifiers s)"
    "srv_detachedWrite s = or_default (cfg_DetachedWriteTimeout cfg) DefaultDetachedWriteTimeout"
    using assms(1) by (auto simp: Server_New_def Let_def)
  have limits: "0 < srv_maxBody s" "0 < srv_orderLifetime s" "0 < srv_authzLifetime s" "0 < srv_maxIdentifiers s"
    "0 < srv_maxValidations s" "0 < srv_detachedWrite s"
    using cfg(7-12)
    by (simp_all add: fields or_default_pos DefaultMaxRequestBody_def DefaultOrderLifetime_def second_def
      DefaultAuthorizationLifetime_def DefaultMaxIdentifiers_def DefaultDetachedWriteTimeout_def)
  have eqs: "srv_revocationReasons s = revocationReasons (cfg_RevocationReasons cfg)"
    "srv_profiles s = map_of (map (\<lambda>p. (pf_Name p, p)) (rev (cfg_Profiles cfg)))"
    "srv_defaultProfile s = cfg_DefaultProfile cfg"
    using assms(1) by (auto simp: Server_New_def Let_def)
  note reasons = revocationReasons_ok [OF cfg(4), folded eqs(1)]
    and profiles = profiles_ok [OF cfg(5) eqs(2), folded eqs(3)]
    and workers = withDefaults_Inr(1,2) [OF parts(3), folded parts(4)]
    and suffix = normalizeBaseURL_Inr [OF parts(1), folded parts(5)]
  show ?thesis
    unfolding server_ok_def
    using v_some v_known tk eab limits reasons profiles workers(1) workers(2) [OF assms(2)] suffix by blast
qed

definition sample_url :: URL where
  "sample_url = \<lparr>url_Scheme = ''https'', url_Host = ''ca.example'', url_User = None, url_Fragment = [], url_Opaque = [],
     url_Path = ''/acme'', url_RawQuery = [], url_Rest = ''https://ca.example/acme/''\<rparr>"

definition sample_config :: Config where
  "sample_config = \<lparr>cfg_BaseURL = ''https://ca.example/acme'', cfg_AllowInsecureBaseURL = False, cfg_Store = True, cfg_Nonces = True,
     cfg_Meta = \<lparr>dm_TermsOfService = [], dm_Website = [], dm_CAAIdentities = [], dm_ExternalAccountRequired = False\<rparr>,
     cfg_MaxRequestBody = 0, cfg_Issuer = True, cfg_Revoker = True, cfg_RevocationReasons = [4, 1, 4], cfg_Refusals = False,
     cfg_Limits = False, cfg_Validators = [(ChallengeHTTP01, Some PlainValidator)], cfg_ExternalAccounts = False,
     cfg_SingleUseExternalAccounts = False, cfg_Policy = None, cfg_IssuancePolicy = False,
     cfg_RequireTermsOfServiceAgreed = False, cfg_IPIdentifiers = True, cfg_TNAuthListIdentifiers = False,
     cfg_TNAuthListCertificatesOutliveTokens = False, cfg_NfInstanceIDIdentifiers = False, cfg_TokenAuthority = [],
     cfg_OrderLifetime = 0, cfg_AuthorizationLifetime = 0, cfg_MaxIdentifiers = 0, cfg_MaxPendingValidations = 0,
     cfg_DetachedWriteTimeout = 0, cfg_Profiles = [], cfg_DefaultProfile = [], cfg_RenewalInfo = False,
     cfg_Workers = \<lparr>wc_Concurrency = 0, wc_PollInterval = 0, wc_Lease = 0, wc_TaskTimeout = 90 * second, wc_MaxAttempts = 0,
       wc_RetryDelay = 0, wc_StaleAfter = 0, wc_External = False\<rparr>\<rparr>"

lemma sample_config_New:
  "\<exists>s. Server_New (sample_names\<lparr>nm_Parse := \<lambda>_. Some sample_url\<rparr>) (\<lambda>_. True) sample_config = Inr s \<and>
     wc_Lease (srv_workers s) = 180 * second \<and> srv_basePath s = ''/acme/'' \<and> srv_revocationReasons s = [1, 4]"
  by (simp add: Server_New_def normalizeBaseURL_def sample_config_def sample_names_def sample_url_def schemeHTTPS_def
    has_suffix_def validate_config_def validateAuthorityTokens_def revocationReasonNames_def validateProfiles_def
    withDefaults_def lease_defaults_def i64_double second_def minute_def or_default_def Let_def revocationReasons_def)

theorem Server_New_ok_witness:
  "\<exists>s. Server_New (sample_names\<lparr>nm_Parse := \<lambda>_. Some sample_url\<rparr>) (\<lambda>_. True) sample_config = Inr s \<and>
     server_ok s \<and> wc_Lease (srv_workers s) = 180 * second"
proof -
  obtain s where "Server_New (sample_names\<lparr>nm_Parse := \<lambda>_. Some sample_url\<rparr>) (\<lambda>_. True) sample_config = Inr s"
    "wc_Lease (srv_workers s) = 180 * second"
    using sample_config_New by blast
  moreover have "wc_TaskTimeout (cfg_Workers sample_config) < 2 ^ 62"
    by (simp add: sample_config_def second_def)
  ultimately show ?thesis using Server_New_ok by blast
qed

end
