(* ===== verification/Json_Strict.thy ===== *)
theory Json_Strict
  imports Base64url
begin

section \<open>Strict JSON\<close>

text \<open>
  \<^verbatim>\<open>internal/jws/json.go\<close>: the checks that run before a document of a client is decoded.  The tokenizer
  and the decoder of \<^verbatim>\<open>encoding/json\<close> are the parameter \<open>Json\<close>; what the package does with the
  tokens and with the decoded value is modelled.

  \<open>checkJSON\<close> is a machine with an explicit stack over the token stream.  The theorem of this theory is that on the
  tokens of a value it accepts exactly the values that are nested at most \<open>MaxDepth\<close> deep and have no object with two
  members of one name, which is stated by recursion over the value.
\<close>

subsection \<open>Documents\<close>

text \<open>
  A decoded value.  A member of an object also has its text, which is what a \<^verbatim>\<open>json.RawMessage\<close> holds.
\<close>

datatype json =
    JNull
  | JBool bool
  | JNumber string
  | JString string
  | JArray "json list"
  | JObject "(string \<times> bytes \<times> json) list"

text \<open>A token of \<^verbatim>\<open>Decoder.Token\<close>.\<close>

datatype json_token = Delim char | TokString string | TokNumber string | TokBool bool | TokNull

text \<open>
  \<open>js_Tokens\<close> is the sequence of tokens up to the end of the input or a syntax error, whose message it returns;
  \<open>js_Decode\<close> is \<^verbatim>\<open>Decode\<close> and \<^verbatim>\<open>Unmarshal\<close> of a whole document into a value, or the message of the error.
\<close>

record Json =
  js_Tokens :: "bytes \<Rightarrow> json_token list \<times> string option"
  js_Decode :: "bytes \<Rightarrow> string + json"
  js_EqualFold :: "string \<Rightarrow> string \<Rightarrow> bool"
  js_Quote :: "string \<Rightarrow> string"
  js_ParseInt :: "string \<Rightarrow> int option"

subsection \<open>Rejections\<close>

datatype Code = CodeMalformed | CodeBadNonce | CodeBadSignatureAlgorithm | CodeBadPublicKey | CodeBadSignature

datatype jws_error = JwsError (je_Code: Code) (je_Detail: string)

definition malformed :: "string \<Rightarrow> jws_error" where
  "malformed detail = JwsError CodeMalformed detail"

subsection \<open>The structural pass\<close>

definition MaxDepth :: nat where
  "MaxDepth = 32"

record jsonFrame =
  fr_object :: bool
  fr_keys :: "string list"
  fr_expectKey :: bool

text \<open>The token where a member name is expected; the top of the stack is the head of the list.\<close>

fun key_token :: "Json \<Rightarrow> jsonFrame \<Rightarrow> jsonFrame list \<Rightarrow> nat \<Rightarrow> json_token \<Rightarrow> jws_error + jsonFrame list \<times> nat" where
  "key_token J fr rest count (Delim c) =
     (if c = CHR ''}'' then Inr (rest, if rest = [] then count + 1 else count)
      else Inl (malformed ''invalid JSON: object member name is not a string''))"
| "key_token J fr rest count (TokString key) =
     (if key \<in> set (fr_keys fr) then Inl (malformed (''invalid JSON: duplicate member '' @ js_Quote J key))
      else Inr (fr\<lparr>fr_keys := key # fr_keys fr, fr_expectKey := False\<rparr> # rest, count))"
| "key_token J fr rest count _ = Inl (malformed ''invalid JSON: object member name is not a string'')"

text \<open>A value inside an object is followed by the next member name.\<close>

fun next_key :: "jsonFrame list \<Rightarrow> jsonFrame list" where
  "next_key [] = []"
| "next_key (fr # rest) = (if fr_object fr then fr\<lparr>fr_expectKey := True\<rparr> else fr) # rest"

text \<open>The token of a value, or the end of an array.\<close>

definition value_token :: "jsonFrame list \<Rightarrow> nat \<Rightarrow> json_token \<Rightarrow> jws_error + jsonFrame list \<times> nat" where
  "value_token stack count tok =
     (let stack = next_key stack in
      if tok = Delim CHR ''{'' \<or> tok = Delim CHR ''['' then
        if length stack \<ge> MaxDepth then Inl (malformed ''invalid JSON: nesting exceeds 32 levels'')
        else Inr (\<lparr>fr_object = (tok = Delim CHR ''{''), fr_keys = [], fr_expectKey = (tok = Delim CHR ''{'')\<rparr> # stack, count)
      else
        let stack = (if tok = Delim CHR ''}'' \<or> tok = Delim CHR '']'' then tl stack else stack)
        in Inr (stack, if stack = [] then count + 1 else count))"

fun check_token :: "Json \<Rightarrow> jsonFrame list \<Rightarrow> nat \<Rightarrow> json_token \<Rightarrow> jws_error + jsonFrame list \<times> nat" where
  "check_token J [] count tok = value_token [] count tok"
| "check_token J (fr # rest) count tok =
     (if fr_object fr \<and> fr_expectKey fr then key_token J fr rest count tok
      else value_token (fr # rest) count tok)"

fun check_tokens :: "Json \<Rightarrow> jsonFrame list \<Rightarrow> nat \<Rightarrow> json_token list \<Rightarrow> jws_error + jsonFrame list \<times> nat" where
  "check_tokens J stack count [] = Inr (stack, count)"
| "check_tokens J stack count (tok # toks) =
     (if stack = [] \<and> count > 0 then Inl (malformed ''invalid JSON: content after the first value'')
      else and_then (check_token J stack count tok) (\<lambda>(stack, count). check_tokens J stack count toks))"

definition checkJSON :: "Json \<Rightarrow> bytes \<Rightarrow> jws_error + unit" where
  "checkJSON J data =
     (case js_Tokens J data of (toks, err) \<Rightarrow>
        and_then (check_tokens J [] 0 toks) (\<lambda>(stack, count).
          case err of
            Some m \<Rightarrow> Inl (malformed (''invalid JSON: '' @ m))
          | None \<Rightarrow>
              if stack \<noteq> [] then Inl (malformed ''invalid JSON: unterminated value'')
              else if count = 0 then Inl (malformed ''invalid JSON: empty document'')
              else Inr ()))"

subsection \<open>Member names\<close>

text \<open>
  The Go types a document is decoded into, as far as \<^verbatim>\<open>reflect\<close> shows them to the package.  \<open>GoUnmarshaler\<close> is a type that
  decodes its own members, \<open>GoOther\<close> one without members.  A field has its name, its \<^verbatim>\<open>json\<close> tag, whether it is
  embedded, whether it is exported, and its type.
\<close>

datatype gotype =
    GoPointer gotype
  | GoUnmarshaler
  | GoStruct "go_field list"
  | GoMap gotype
  | GoSlice gotype
  | GoOther
and go_field = GoField string string bool bool gotype

fun strip_pointer :: "gotype \<Rightarrow> gotype" where
  "strip_pointer (GoPointer t) = strip_pointer t"
| "strip_pointer t = t"

text \<open>One field: a member name with its type, an embedded struct for the next level, or neither.\<close>

definition tag_name :: "string \<Rightarrow> string" where
  "tag_name tag = (case cut tag CHR '','' of None \<Rightarrow> tag | Some (name, _) \<Rightarrow> name)"

fun pointee :: "gotype \<Rightarrow> gotype" where
  "pointee (GoPointer t) = t"
| "pointee t = t"

fun is_struct :: "gotype \<Rightarrow> bool" where
  "is_struct (GoStruct fs) = True"
| "is_struct t = False"

fun scan_field :: "(string \<times> gotype) list \<Rightarrow> go_field \<Rightarrow>
    (string \<times> gotype) list \<times> gotype list \<Rightarrow> (string \<times> gotype) list \<times> gotype list" where
  "scan_field known (GoField name tag embedded exported ty) (found, nxt) =
     (if tag = ''-'' then (found, nxt)
      else if embedded \<and> tag_name tag = [] \<and> is_struct (pointee ty) then (found, nxt @ [pointee ty])
      else if \<not> exported then (found, nxt)
      else
        (let member = (if tag_name tag = [] then name else tag_name tag) in
         if map_of known member = None then (alist_put member ty found, nxt) else (found, nxt)))"

fun scan_struct :: "(string \<times> gotype) list \<Rightarrow> gotype \<Rightarrow>
    (string \<times> gotype) list \<times> gotype list \<Rightarrow> (string \<times> gotype) list \<times> gotype list" where
  "scan_struct known (GoStruct fs) acc = fold (scan_field known) fs acc"
| "scan_struct known t acc = acc"

text \<open>The struct types of a level that were not visited yet; two equal types are scanned once.\<close>

fun scan_level :: "gotype set \<Rightarrow> (string \<times> gotype) list \<Rightarrow> gotype list \<Rightarrow>
    (string \<times> gotype) list \<times> gotype list \<Rightarrow> gotype set \<times> (string \<times> gotype) list \<times> gotype list" where
  "scan_level visited known [] acc = (visited, acc)"
| "scan_level visited known (t # ts) acc =
     (if t \<in> visited then scan_level visited known ts acc
      else scan_level (insert t visited) known ts (scan_struct known t acc))"

text \<open>An embedded struct is smaller than the struct it is embedded in, so the levels come to an end.\<close>

definition level_size :: "gotype list \<Rightarrow> nat" where
  "level_size ts = sum_list (map (\<lambda>t. Suc (size t)) ts)"

lemma level_size_simps [simp]:
  "level_size [] = 0" "level_size (t # ts) = Suc (size t) + level_size ts" "level_size (ts @ us) = level_size ts + level_size us"
  by (simp_all add: level_size_def)

lemma size_pointee: "size (pointee t) \<le> size t"
  by (cases t) simp_all

lemma scan_field_size: "level_size (snd (scan_field known f acc)) \<le> level_size (snd acc) + size f"
proof (cases f)
  case (GoField name tag embedded exported ty)
  then show ?thesis using size_pointee [of ty] by (cases acc) (simp add: Let_def)
qed

lemma scan_fields_size: "level_size (snd (fold (scan_field known) fs acc)) \<le> level_size (snd acc) + sum_list (map size fs)"
proof (induction fs arbitrary: acc)
  case (Cons f fs)
  from Cons.IH [of "scan_field known f acc"] show ?case using scan_field_size [of known f acc] by simp
qed simp

lemma scan_struct_size: "level_size (snd (scan_struct known t acc)) \<le> level_size (snd acc) + size t"
proof (cases t)
  case (GoStruct fs)
  have "sum_list (map size fs) \<le> size t" by (simp add: GoStruct size_list_conv_sum_list sum_list_mono)
  with scan_fields_size [of known fs acc] show ?thesis by (simp add: GoStruct)
qed (simp_all add: trans_le_add1)

lemma scan_level_size:
  "scan_level visited known ts acc = (v, f, nxt) \<Longrightarrow> level_size nxt + length ts \<le> level_size (snd acc) + level_size ts"
proof (induction ts arbitrary: visited acc)
  case (Cons t ts)
  show ?case
  proof (cases "t \<in> visited")
    case True
    with Cons.prems Cons.IH [of visited acc] show ?thesis by simp
  next
    case False
    with Cons.prems Cons.IH [of "insert t visited" "scan_struct known t acc"] scan_struct_size [of known t acc]
    show ?thesis by simp
  qed
qed simp

lemma scan_level_less:
  "level \<noteq> [] \<Longrightarrow> scan_level visited known level ([], []) = (v, f, nxt) \<Longrightarrow> level_size nxt < level_size level"
  using scan_level_size [of visited known level "([], [])" v f nxt] by (cases level) simp_all

function json_levels :: "gotype set \<Rightarrow> (string \<times> gotype) list \<Rightarrow> gotype list \<Rightarrow> (string \<times> gotype) list" where
  "json_levels visited known level =
     (if level = [] then known
      else case scan_level visited known level ([], []) of
        (visited, found, nxt) \<Rightarrow> json_levels visited (known @ found) nxt)"
  by pat_completeness auto
termination
  by (relation "measure (\<lambda>(_, _, level). level_size level)") (auto dest: scan_level_less [OF _ sym])

definition jsonFields :: "gotype \<Rightarrow> (string \<times> gotype) list" where
  "jsonFields t = json_levels {} [] [t]"

text \<open>The first error of a loop over a list.\<close>

fun first_error :: "('a \<Rightarrow> 'e option) \<Rightarrow> 'a list \<Rightarrow> 'e option" where
  "first_error f [] = None"
| "first_error f (x # xs) = (case f x of Some e \<Rightarrow> Some e | None \<Rightarrow> first_error f xs)"

lemma first_error_cong [fundef_cong]:
  "xs = ys \<Longrightarrow> (\<And>x. x \<in> set ys \<Longrightarrow> f x = g x) \<Longrightarrow> first_error f xs = first_error g ys"
  by (induction ys arbitrary: xs) (auto split: option.splits)

lemma first_error_None: "first_error f xs = None \<longleftrightarrow> (\<forall>x \<in> set xs. f x = None)"
  by (induction xs) (auto split: option.splits)

lemma item_size: "item \<in> set items \<Longrightarrow> size item < size (JArray items)"
  by (induction items) auto

lemma member_size: "(key, raw, member) \<in> set members \<Longrightarrow> size member < size (JObject members)"
  by (induction members) auto

text \<open>
  The members of an object come in the order of the document; Go ranges over them in an unspecified order, which decides only
  which of several errors is returned.
\<close>

function checkMembers :: "Json \<Rightarrow> json \<Rightarrow> gotype \<Rightarrow> jws_error option" where
  "checkMembers J value ty =
     (case (strip_pointer ty, value) of
        (GoStruct fs, JObject members) \<Rightarrow>
          (let known = jsonFields (GoStruct fs) in
           first_error (\<lambda>(key, raw, member).
             case map_of known key of
               Some field \<Rightarrow> checkMembers J member field
             | None \<Rightarrow>
                 (case find (\<lambda>(name, _). js_EqualFold J key name) known of
                    Some (name, _) \<Rightarrow>
                      Some (malformed (''invalid JSON: member '' @ js_Quote J key @ '' differs from '' @ js_Quote J name @ '' only in case''))
                  | None \<Rightarrow> None)) members)
      | (GoMap elem, JObject members) \<Rightarrow> first_error (\<lambda>(key, raw, member). checkMembers J member elem) members
      | (GoSlice elem, JArray items) \<Rightarrow> first_error (\<lambda>item. checkMembers J item elem) items
      | _ \<Rightarrow> None)"
  by pat_completeness auto
termination
  by (relation "measure (\<lambda>(_, value, _). size value)") (auto dest: item_size member_size)

declare checkMembers.simps [simp del]

definition checkMemberNames :: "Json \<Rightarrow> gotype \<Rightarrow> bytes \<Rightarrow> jws_error + unit" where
  "checkMemberNames J ty data =
     (case js_Decode J data of
        Inl m \<Rightarrow> Inl (malformed (''invalid JSON: '' @ m))
      | Inr document \<Rightarrow> (case checkMembers J document ty of None \<Rightarrow> Inr () | Some e \<Rightarrow> Inl e))"

text \<open>The last argument is how \<^verbatim>\<open>json.Unmarshal\<close> fills the value, from the decoders below.\<close>

definition UnmarshalStrict :: "Json \<Rightarrow> gotype \<Rightarrow> (json \<Rightarrow> string + 'a) \<Rightarrow> bytes \<Rightarrow> jws_error + 'a" where
  "UnmarshalStrict J ty dec data =
     and_then (checkJSON J data) (\<lambda>_.
     and_then (checkMemberNames J ty data) (\<lambda>_.
       case and_then (js_Decode J data) dec of
         Inl m \<Rightarrow> Inl (malformed (''invalid JSON: '' @ m))
       | Inr v \<Rightarrow> Inr v))"

subsection \<open>Decoding\<close>

text \<open>
  What \<^verbatim>\<open>json.Unmarshal\<close> does with the member of a struct field.  After the checks above a member names its field exactly and
  occurs once.  \<^verbatim>\<open>null\<close> leaves a value as it is, sets a pointer to nil, and is the text \<^verbatim>\<open>null\<close> for a \<^verbatim>\<open>json.RawMessage\<close>.
\<close>

type_synonym members = "(string \<times> bytes \<times> json) list"

definition type_error :: string where
  "type_error = ''json: cannot unmarshal value into Go value''"

fun as_object :: "json \<Rightarrow> string + members" where
  "as_object (JObject ms) = Inr ms"
| "as_object JNull = Inr []"
| "as_object _ = Inl type_error"

definition member_value :: "members \<Rightarrow> string \<Rightarrow> json option" where
  "member_value ms name = map_option snd (map_of ms name)"

definition as_raw :: "members \<Rightarrow> string \<Rightarrow> bytes option" where
  "as_raw ms name = map_option fst (map_of ms name)"

definition as_raw_pointer :: "members \<Rightarrow> string \<Rightarrow> bytes option" where
  "as_raw_pointer ms name =
     (case map_of ms name of None \<Rightarrow> None | Some (raw, v) \<Rightarrow> if v = JNull then None else Some raw)"

fun as_pointer :: "(json \<Rightarrow> string + 'a) \<Rightarrow> json option \<Rightarrow> string + 'a option" where
  "as_pointer f None = Inr None"
| "as_pointer f (Some JNull) = Inr None"
| "as_pointer f (Some v) = (case f v of Inl m \<Rightarrow> Inl m | Inr x \<Rightarrow> Inr (Some x))"

fun as_value :: "(json \<Rightarrow> string + 'a) \<Rightarrow> 'a \<Rightarrow> json option \<Rightarrow> string + 'a" where
  "as_value f zero None = Inr zero"
| "as_value f zero (Some JNull) = Inr zero"
| "as_value f zero (Some v) = f v"

fun go_string :: "json \<Rightarrow> string + string" where
  "go_string (JString s) = Inr s"
| "go_string _ = Inl type_error"

fun go_bool :: "json \<Rightarrow> string + bool" where
  "go_bool (JBool b) = Inr b"
| "go_bool _ = Inl type_error"

fun go_int :: "Json \<Rightarrow> json \<Rightarrow> string + int" where
  "go_int J (JNumber text) = (case js_ParseInt J text of Some n \<Rightarrow> Inr n | None \<Rightarrow> Inl type_error)"
| "go_int J _ = Inl type_error"

fun each_item :: "(json \<Rightarrow> string + 'a) \<Rightarrow> json list \<Rightarrow> string + 'a list" where
  "each_item f [] = Inr []"
| "each_item f (v # vs) = and_then (f v) (\<lambda>x. and_then (each_item f vs) (\<lambda>xs. Inr (x # xs)))"

fun go_slice :: "(json \<Rightarrow> string + 'a) \<Rightarrow> 'a \<Rightarrow> json \<Rightarrow> string + 'a list" where
  "go_slice f zero (JArray vs) = each_item (\<lambda>v. as_value f zero (Some v)) vs"
| "go_slice f zero _ = Inl type_error"

subsection \<open>What the structural pass accepts\<close>

text \<open>The tokens of a value, and the two limits stated by recursion over it.\<close>

fun tokens_of :: "json \<Rightarrow> json_token list" where
  "tokens_of JNull = [TokNull]"
| "tokens_of (JBool b) = [TokBool b]"
| "tokens_of (JNumber n) = [TokNumber n]"
| "tokens_of (JString s) = [TokString s]"
| "tokens_of (JArray vs) = Delim CHR ''['' # concat (map tokens_of vs) @ [Delim CHR '']'']"
| "tokens_of (JObject ms) = Delim CHR ''{'' # concat (map (\<lambda>(key, raw, v). TokString key # tokens_of v) ms) @ [Delim CHR ''}'']"

fun nested :: "nat \<Rightarrow> json \<Rightarrow> bool" where
  "nested n (JArray vs) = (n > 0 \<and> (\<forall>v \<in> set vs. nested (n - 1) v))"
| "nested n (JObject ms) = (n > 0 \<and> (\<forall>(key, raw, v) \<in> set ms. nested (n - 1) v))"
| "nested n v = True"

fun distinct_members :: "json \<Rightarrow> bool" where
  "distinct_members (JArray vs) = (\<forall>v \<in> set vs. distinct_members v)"
| "distinct_members (JObject ms) = (distinct (map fst ms) \<and> (\<forall>(key, raw, v) \<in> set ms. distinct_members v))"
| "distinct_members v = True"

definition acceptable :: "nat \<Rightarrow> json \<Rightarrow> bool" where
  "acceptable n v \<longleftrightarrow> nested n v \<and> distinct_members v"

text \<open>A stack on which a value may come next.\<close>

fun value_next :: "jsonFrame list \<Rightarrow> nat \<Rightarrow> bool" where
  "value_next [] count = (count = 0)"
| "value_next (fr # rest) count = (\<not> (fr_object fr \<and> fr_expectKey fr))"

definition count_value :: "jsonFrame list \<Rightarrow> nat \<Rightarrow> nat" where
  "count_value stack count = (if stack = [] then count + 1 else count)"

lemma length_next_key [simp]: "length (next_key stack) = length stack"
  by (cases stack) simp_all

lemma next_key_Nil [simp]: "next_key stack = [] \<longleftrightarrow> stack = []"
  by (cases stack) simp_all

lemma next_key_idem [simp]: "next_key (next_key stack) = next_key stack"
  by (cases stack) simp_all

lemma check_tokens_value:
  "value_next stack count \<Longrightarrow> check_tokens J stack count (tok # toks) =
     and_then (value_token stack count tok) (\<lambda>(stack, count). check_tokens J stack count toks)"
  by (cases stack) auto

text \<open>The result of reading one value: the machine goes on with the rest exactly if the value is acceptable.\<close>

definition reads :: "Json \<Rightarrow> json \<Rightarrow> bool" where
  "reads J v \<longleftrightarrow> (\<forall>stack count rest. value_next stack count \<longrightarrow>
     (if acceptable (MaxDepth - length stack) v
      then check_tokens J stack count (tokens_of v @ rest) = check_tokens J (next_key stack) (count_value stack count) rest
      else \<exists>e. check_tokens J stack count (tokens_of v @ rest) = Inl e))"

lemma readsD:
  assumes "reads J v" "value_next stack count"
  shows "acceptable (MaxDepth - length stack) v \<Longrightarrow>
      check_tokens J stack count (tokens_of v @ rest) = check_tokens J (next_key stack) (count_value stack count) rest"
    and "\<not> acceptable (MaxDepth - length stack) v \<Longrightarrow> \<exists>e. check_tokens J stack count (tokens_of v @ rest) = Inl e"
  using assms unfolding reads_def by meson+

lemma reads_items:
  assumes "\<And>v. v \<in> set vs \<Longrightarrow> reads J v" and fr: "\<not> fr_object fr"
  shows "if \<forall>v \<in> set vs. acceptable (MaxDepth - Suc (length stack)) v
    then check_tokens J (fr # stack) count (concat (map tokens_of vs) @ rest) = check_tokens J (fr # stack) count rest
    else \<exists>e. check_tokens J (fr # stack) count (concat (map tokens_of vs) @ rest) = Inl e"
  using assms(1)
proof (induction vs)
  case (Cons v vs)
  have next': "value_next (fr # stack) count" "next_key (fr # stack) = fr # stack" "count_value (fr # stack) count = count"
    using fr by (simp_all add: count_value_def)
  note v = readsD [OF Cons.prems [of v, simplified] next'(1), unfolded next'(2,3), of "concat (map tokens_of vs) @ rest"]
  show ?case
    using Cons.IH Cons.prems v by (cases "acceptable (MaxDepth - Suc (length stack)) v") (auto split: if_splits)
qed simp

definition object_frame :: "string list \<Rightarrow> bool \<Rightarrow> jsonFrame" where
  "object_frame keys expect = \<lparr>fr_object = True, fr_keys = keys, fr_expectKey = expect\<rparr>"

lemma object_frame_simps [simp]:
  "fr_object (object_frame keys expect)" "fr_keys (object_frame keys expect) = keys"
  "fr_expectKey (object_frame keys expect) = expect"
  "next_key (object_frame keys expect # stack) = object_frame keys True # stack"
  "(object_frame keys expect)\<lparr>fr_keys := keys', fr_expectKey := expect'\<rparr> = object_frame keys' expect'"
  "(object_frame keys expect)\<lparr>fr_expectKey := expect'\<rparr> = object_frame keys expect'"
  by (simp_all add: object_frame_def)

lemma check_tokens_key [simp]:
  "check_tokens J (object_frame keys True # stack) count (tok # toks) =
     and_then (key_token J (object_frame keys True) stack count tok) (\<lambda>(stack, count). check_tokens J stack count toks)"
  by simp

declare check_tokens.simps(2) [simp del]

lemma reads_members:
  assumes "\<forall>(key, raw, v) \<in> set ms. reads J v"
  shows "if distinct (map fst ms) \<and> set (map fst ms) \<inter> set keys = {} \<and>
      (\<forall>(key, raw, v) \<in> set ms. acceptable (MaxDepth - Suc (length stack)) v)
    then \<exists>keys'. check_tokens J (object_frame keys True # stack) count
        (concat (map (\<lambda>(key, raw, v). TokString key # tokens_of v) ms) @ rest) =
      check_tokens J (object_frame keys' True # stack) count rest
    else \<exists>e. check_tokens J (object_frame keys True # stack) count
        (concat (map (\<lambda>(key, raw, v). TokString key # tokens_of v) ms) @ rest) = Inl e"
  using assms
proof (induction ms arbitrary: keys)
  case (Cons m ms)
  obtain key raw v where m: "m = (key, raw, v)" by (cases m)
  let ?rest = "concat (map (\<lambda>(key, raw, v). TokString key # tokens_of v) ms) @ rest"
  have "reads J v" using Cons.prems m by simp
  moreover have "value_next (object_frame (key # keys) False # stack) count" by simp
  ultimately have v: "acceptable (MaxDepth - Suc (length stack)) v \<Longrightarrow>
      check_tokens J (object_frame (key # keys) False # stack) count (tokens_of v @ ?rest) =
      check_tokens J (object_frame (key # keys) True # stack) count ?rest"
    "\<not> acceptable (MaxDepth - Suc (length stack)) v \<Longrightarrow>
      \<exists>e. check_tokens J (object_frame (key # keys) False # stack) count (tokens_of v @ ?rest) = Inl e"
    by (simp_all add: readsD count_value_def)
  show ?case
  proof (cases "key \<in> set keys \<or> \<not> acceptable (MaxDepth - Suc (length stack)) v")
    case True
    then show ?thesis using v(2) by (auto simp: m)
  next
    case False
    have "check_tokens J (object_frame keys True # stack) count
        (concat (map (\<lambda>(key, raw, v). TokString key # tokens_of v) (m # ms)) @ rest) =
      check_tokens J (object_frame (key # keys) True # stack) count ?rest"
      using False v(1) by (simp add: m)
    moreover have "(distinct (map fst (m # ms)) \<and> set (map fst (m # ms)) \<inter> set keys = {} \<and>
        (\<forall>(key, raw, v) \<in> set (m # ms). acceptable (MaxDepth - Suc (length stack)) v)) \<longleftrightarrow>
      (distinct (map fst ms) \<and> set (map fst ms) \<inter> set (key # keys) = {} \<and>
        (\<forall>(key, raw, v) \<in> set ms. acceptable (MaxDepth - Suc (length stack)) v))"
      using False by (auto simp: m)
    moreover have "\<forall>(key, raw, v) \<in> set ms. reads J v" using Cons.prems by simp
    from Cons.IH [OF this, where keys = "key # keys"] show ?thesis by (simp only: calculation)
  qed
qed auto

lemma acceptable_simps [simp]:
  "acceptable n JNull" "acceptable n (JBool b)" "acceptable n (JNumber t)" "acceptable n (JString t)"
  "acceptable n (JArray vs) \<longleftrightarrow> n > 0 \<and> (\<forall>v \<in> set vs. acceptable (n - 1) v)"
  "acceptable n (JObject ms) \<longleftrightarrow> n > 0 \<and> distinct (map fst ms) \<and> (\<forall>(key, raw, v) \<in> set ms. acceptable (n - 1) v)"
  by (auto simp: acceptable_def)

lemma reads_scalar:
  assumes "tokens_of v = [tok]" "acceptable 0 v \<and> (\<forall>n. acceptable n v)" "\<forall>c. tok \<noteq> Delim c"
  shows "reads J v"
  using assms by (auto simp: reads_def check_tokens_value value_token_def Let_def count_value_def)

lemma reads_json: "reads J v"
proof (induction v)
  case (JArray vs)
  show ?case
    unfolding reads_def
  proof (intro allI impI)
    fix stack n rest
    assume s: "value_next stack n"
    let ?fr = "\<lparr>fr_object = False, fr_keys = [], fr_expectKey = False\<rparr>"
    note items = reads_items [OF JArray, of vs ?fr "next_key stack" n "Delim CHR '']'' # rest"]
    show "if acceptable (MaxDepth - length stack) (JArray vs)
      then check_tokens J stack n (tokens_of (JArray vs) @ rest) = check_tokens J (next_key stack) (count_value stack n) rest
      else \<exists>e. check_tokens J stack n (tokens_of (JArray vs) @ rest) = Inl e"
      using items s
      by (auto simp: check_tokens_value value_token_def Let_def count_value_def split: if_splits)
  qed
next
  case (JObject ms)
  show ?case
    unfolding reads_def
  proof (intro allI impI)
    fix stack n rest
    assume s: "value_next stack n"
    have IH: "\<forall>(key, raw, v) \<in> set ms. reads J v"
      using JObject by fastforce
    note ms = reads_members [OF IH, where keys = "[]" and stack = "next_key stack" and count = n
        and rest = "Delim CHR ''}'' # rest"]
    have start: "check_tokens J stack n (tokens_of (JObject ms) @ rest) =
       (if MaxDepth - length stack > 0
        then check_tokens J (object_frame [] True # next_key stack) n
          (concat (map (\<lambda>(key, raw, v). TokString key # tokens_of v) ms) @ Delim CHR ''}'' # rest)
        else Inl (malformed ''invalid JSON: nesting exceeds 32 levels''))"
      using s by (simp add: check_tokens_value value_token_def Let_def object_frame_def)
    show "if acceptable (MaxDepth - length stack) (JObject ms)
      then check_tokens J stack n (tokens_of (JObject ms) @ rest) = check_tokens J (next_key stack) (count_value stack n) rest
      else \<exists>e. check_tokens J stack n (tokens_of (JObject ms) @ rest) = Inl e"
      using ms s unfolding start by (auto simp: count_value_def split: if_splits)
  qed
qed (rule reads_scalar, rule tokens_of.simps, simp_all)+

lemma checkJSON_iff_lemma:
  assumes "js_Tokens J data = (tokens_of v, None)"
  shows "checkJSON J data = Inr () \<longleftrightarrow> nested MaxDepth v \<and> distinct_members v"
proof -
  have "value_next [] 0" by simp
  note v = readsD [OF reads_json this, of v J "[]"]
  have "check_tokens J [] 0 (tokens_of v) = Inr ([], 1)" if "acceptable MaxDepth v"
    using v(1) that by (simp add: count_value_def)
  moreover have "\<exists>e. check_tokens J [] 0 (tokens_of v) = Inl e" if "\<not> acceptable MaxDepth v"
    using v(2) that by simp
  ultimately show ?thesis
    by (cases "acceptable MaxDepth v") (auto simp: checkJSON_def assms acceptable_def)
qed

text \<open>C26. The structural pass over a client's JSON accepts the tokens of a value exactly when the value is nested at most \<^verbatim>\<open>MaxDepth\<close>
  levels deep and no object in it has two members of the same name.\<close>

theorem checkJSON_iff:
  assumes "js_Tokens J data = (tokens_of v, None)"
  shows "checkJSON J data = Inr () \<longleftrightarrow> nested MaxDepth v \<and> distinct_members v"
  using assms by (rule checkJSON_iff_lemma)

definition sample_json :: "json \<Rightarrow> Json" where
  "sample_json v = \<lparr>js_Tokens = \<lambda>_. (tokens_of v, None), js_Decode = \<lambda>_. Inr v, js_EqualFold = equal_fold,
     js_Quote = \<lambda>s. s, js_ParseInt = \<lambda>_. None\<rparr>"

theorem checkJSON_iff_witness:
  "checkJSON (sample_json (JObject [(''a'', [], JArray [JNull]), (''b'', [], JNull)])) [] = Inr () \<and>
   checkJSON (sample_json (JObject [(''a'', [], JArray [JNull]), (''a'', [], JNull)])) [] \<noteq> Inr ()"
proof -
  have "js_Tokens (sample_json v) [] = (tokens_of v, None)" for v by (simp add: sample_json_def)
  from checkJSON_iff [OF this] show ?thesis by (simp add: MaxDepth_def)
qed

end
