(* ===== verification/Acme_JWS.thy ===== *)
theory Acme_JWS
  imports Json_Strict Acme_Identifier Acme_Resource
begin

section \<open>JSON web signatures and keys\<close>

text \<open>
  \<^verbatim>\<open>internal/jws/jws.go\<close>, \<^verbatim>\<open>jwk.go\<close> and \<^verbatim>\<open>compact.go\<close>: the flattened JWS of a request, the inner JWS of a key change,
  an external account binding, the compact JWS of an authority token, and the public keys they are verified with.
  The hash functions and the signature schemes are the parameter \<open>Crypto\<close>; parsing, the header rules, which key fits
  which algorithm and the canonical form of a key are modelled.
\<close>

record Crypto =
  cr_SHA256 :: "bytes \<Rightarrow> bytes"
  cr_SHA384 :: "bytes \<Rightarrow> bytes"
  cr_SHA512 :: "bytes \<Rightarrow> bytes"
  cr_ECDSA :: "curve \<Rightarrow> bytes \<Rightarrow> bytes \<Rightarrow> bytes \<Rightarrow> nat \<Rightarrow> nat \<Rightarrow> bool"
  cr_RSA :: "nat \<Rightarrow> nat \<Rightarrow> bytes \<Rightarrow> bytes \<Rightarrow> bool"
  cr_Ed25519 :: "bytes \<Rightarrow> bytes \<Rightarrow> bytes \<Rightarrow> bool"
  cr_HMAC :: "string \<Rightarrow> bytes \<Rightarrow> bytes \<Rightarrow> bytes"
  cr_OnCurve :: "curve \<Rightarrow> bytes \<Rightarrow> bytes \<Rightarrow> bool"

definition string_bytes :: "string \<Rightarrow> bytes" where
  "string_bytes s = map (\<lambda>c. mk_byte (ord c)) s"

text \<open>\<^verbatim>\<open>big.Int.SetBytes\<close>, \<^verbatim>\<open>Bytes\<close> and \<^verbatim>\<open>BitLen\<close>.\<close>

definition big_nat :: "bytes \<Rightarrow> nat" where
  "big_nat bs = foldl (\<lambda>n b. n * 256 + unat b) 0 bs"

fun nat_bytes :: "nat \<Rightarrow> bytes" where
  "nat_bytes n = (if n = 0 then [] else nat_bytes (n div 256) @ [mk_byte (n mod 256)])"

declare nat_bytes.simps [simp del]

fun bit_length :: "nat \<Rightarrow> nat" where
  "bit_length n = (if n = 0 then 0 else Suc (bit_length (n div 2)))"

declare bit_length.simps [simp del]

text \<open>The \<^verbatim>\<open>%q\<close> verb on text without quotes, backslashes and control characters.\<close>

definition plain_quote :: "string \<Rightarrow> string" where
  "plain_quote s = CHR 0x22 # s @ [CHR 0x22]"

subsection \<open>Keys\<close>

definition MinRSABits :: nat where "MinRSABits = 2048"

definition MaxRSABits :: nat where "MaxRSABits = 4096"

definition maxRSAExponent :: nat where "maxRSAExponent = 2 ^ 31 - 1"

definition badKey :: "string \<Rightarrow> jws_error" where
  "badKey detail = JwsError CodeBadPublicKey detail"

definition detailOf :: "jws_error \<Rightarrow> string" where
  "detailOf e = je_Detail e"

record jwkJSON =
  jk_Kty :: string
  jk_Crv :: string
  jk_X :: string
  jk_Y :: string
  jk_N :: string
  jk_E :: string
  jk_Private :: "bytes option list"

text \<open>A struct field as \<^verbatim>\<open>reflect\<close> shows it: exported and not embedded.\<close>

definition go_member :: "string \<Rightarrow> string \<Rightarrow> gotype \<Rightarrow> go_field" where
  "go_member name tag ty = GoField name tag False True ty"

definition private_members :: "(string \<times> string) list" where
  "private_members = [(''D'', ''d''), (''P'', ''p''), (''Q'', ''q''), (''DP'', ''dp''), (''DQ'', ''dq''), (''QI'', ''qi''),
     (''Oth'', ''oth''), (''K'', ''k'')]"

definition jwk_type :: gotype where
  "jwk_type = GoPointer (GoStruct
     (map (\<lambda>(name, tag). go_member name tag GoOther)
        [(''Kty'', ''kty''), (''Crv'', ''crv''), (''X'', ''x''), (''Y'', ''y''), (''N'', ''n''), (''E'', ''e'')] @
      map (\<lambda>(name, tag). go_member name tag (GoPointer GoUnmarshaler)) private_members))"

definition decode_jwk :: "json \<Rightarrow> string + jwkJSON" where
  "decode_jwk v = and_then (as_object v) (\<lambda>ms.
     let text = (\<lambda>name. as_value go_string [] (member_value ms name)) in
     and_then (text ''kty'') (\<lambda>kty. and_then (text ''crv'') (\<lambda>crv. and_then (text ''x'') (\<lambda>x.
     and_then (text ''y'') (\<lambda>y. and_then (text ''n'') (\<lambda>n. and_then (text ''e'') (\<lambda>e.
       Inr \<lparr>jk_Kty = kty, jk_Crv = crv, jk_X = x, jk_Y = y, jk_N = n, jk_E = e,
            jk_Private = map (\<lambda>(name, tag). as_raw_pointer ms tag) private_members\<rparr>)))))))"

fun curve_size :: "curve \<Rightarrow> nat" where
  "curve_size P256 = 32"
| "curve_size P384 = 48"
| "curve_size P521 = 66"

fun curve_name :: "curve \<Rightarrow> string" where
  "curve_name P256 = ''P-256''"
| "curve_name P384 = ''P-384''"
| "curve_name P521 = ''P-521''"

definition curve_of :: "string \<Rightarrow> curve option" where
  "curve_of crv =
     (if crv = ''P-256'' then Some P256 else if crv = ''P-384'' then Some P384
      else if crv = ''P-521'' then Some P521 else None)"

definition parseECKey :: "Json \<Rightarrow> Crypto \<Rightarrow> jwkJSON \<Rightarrow> jws_error + PublicKey" where
  "parseECKey J C k =
     (case curve_of (jk_Crv k) of
        None \<Rightarrow> Inl (badKey (''unsupported EC curve '' @ js_Quote J (jk_Crv k)))
      | Some curve \<Rightarrow>
          (case decodeBase64 (jk_X k) of
             None \<Rightarrow> Inl (badKey ''EC x coordinate is not valid base64url'')
           | Some x \<Rightarrow>
               (case decodeBase64 (jk_Y k) of
                  None \<Rightarrow> Inl (badKey ''EC y coordinate is not valid base64url'')
                | Some y \<Rightarrow>
                    if length x \<noteq> curve_size curve \<or> length y \<noteq> curve_size curve
                    then Inl (badKey (''EC coordinates on '' @ jk_Crv k @ '' must be '' @ dec_string (curve_size curve) @ '' bytes''))
                    else if \<not> cr_OnCurve C curve x y then Inl (badKey ''EC point is not on the curve'')
                    else Inr (ECKey curve x y))))"

definition parseRSAKey :: "jwkJSON \<Rightarrow> jws_error + PublicKey" where
  "parseRSAKey k =
     (case decodeBase64 (jk_N k) of
        None \<Rightarrow> Inl (badKey ''RSA modulus is missing or not valid base64url'')
      | Some n \<Rightarrow>
          if n = [] then Inl (badKey ''RSA modulus is missing or not valid base64url'')
          else
            (case decodeBase64 (jk_E k) of
               None \<Rightarrow> Inl (badKey ''RSA exponent is missing or not valid base64url'')
             | Some e \<Rightarrow>
                 if e = [] then Inl (badKey ''RSA exponent is missing or not valid base64url'')
                 else
                   (let exponent = big_nat e; modulus = big_nat n; bits = bit_length modulus in
                    if \<not> exponent < 2 ^ 63 \<or> exponent < 3 \<or> exponent > maxRSAExponent \<or> even exponent
                    then Inl (badKey ''RSA public exponent must be odd and between 3 and 2^31-1'')
                    else if bits < MinRSABits \<or> bits > MaxRSABits
                    then Inl (badKey (''RSA modulus must be between 2048 and 4096 bits, got '' @ dec_string bits))
                    else if even modulus then Inl (badKey ''RSA modulus must be odd'')
                    else Inr (RSAKey modulus exponent))))"

definition parseOKPKey :: "Json \<Rightarrow> jwkJSON \<Rightarrow> jws_error + PublicKey" where
  "parseOKPKey J k =
     (if jk_Crv k \<noteq> ''Ed25519'' then Inl (badKey (''unsupported OKP curve '' @ js_Quote J (jk_Crv k)))
      else
        (case decodeBase64 (jk_X k) of
           None \<Rightarrow> Inl (badKey ''OKP x coordinate is not valid base64url'')
         | Some x \<Rightarrow>
             if length x \<noteq> 32 then Inl (badKey ''Ed25519 public key must be 32 bytes'') else Inr (Ed25519Key x)))"

definition ParseJWK :: "Json \<Rightarrow> Crypto \<Rightarrow> bytes \<Rightarrow> jws_error + PublicKey" where
  "ParseJWK J C raw =
     (case UnmarshalStrict J jwk_type decode_jwk raw of
        Inl e \<Rightarrow> Inl (badKey (''invalid JWK: '' @ detailOf e))
      | Inr k \<Rightarrow>
          if \<not> list_all (\<lambda>m. m = None) (jk_Private k) then Inl (badKey ''JWK contains private key material'')
          else if jk_Kty k = ''EC'' then parseECKey J C k
          else if jk_Kty k = ''RSA'' then parseRSAKey k
          else if jk_Kty k = ''OKP'' then parseOKPKey J k
          else if jk_Kty k = [] then Inl (badKey ''JWK has no key type'')
          else Inl (badKey (''unsupported JWK key type '' @ js_Quote J (jk_Kty k))))"

text \<open>The canonical form of RFC 7638 and its thumbprint.\<close>

fun MarshalJWK :: "PublicKey \<Rightarrow> error + string" where
  "MarshalJWK (ECKey c x y) =
     (if length (4 # x @ y) \<noteq> 1 + 2 * curve_size c then Inl (ErrorNew ''jws: EC public key is not an uncompressed point'')
      else
        (let x' = take (curve_size c) (x @ y); y' = drop (curve_size c) (x @ y) in
         Inr (''{'' @ plain_quote ''crv'' @ '':'' @ plain_quote (curve_name c) @ '','' @ plain_quote ''kty'' @ '':'' @ plain_quote ''EC'' @ '','' @
              plain_quote ''x'' @ '':'' @ plain_quote (encode_base64 x') @ '','' @ plain_quote ''y'' @ '':'' @
              plain_quote (encode_base64 y') @ ''}'')))"
| "MarshalJWK (RSAKey n e) =
     (if n = 0 \<or> e = 0 then Inl (ErrorNew ''jws: invalid RSA public key'')
      else Inr (''{'' @ plain_quote ''e'' @ '':'' @ plain_quote (encode_base64 (nat_bytes e)) @ '','' @ plain_quote ''kty'' @ '':'' @
             plain_quote ''RSA'' @ '','' @ plain_quote ''n'' @ '':'' @ plain_quote (encode_base64 (nat_bytes n)) @ ''}''))"
| "MarshalJWK (Ed25519Key k) =
     (if length k \<noteq> 32 then Inl (ErrorNew ''jws: invalid Ed25519 public key'')
      else Inr (''{'' @ plain_quote ''crv'' @ '':'' @ plain_quote ''Ed25519'' @ '','' @ plain_quote ''kty'' @ '':'' @ plain_quote ''OKP'' @ '','' @
             plain_quote ''x'' @ '':'' @ plain_quote (encode_base64 k) @ ''}''))"
| "MarshalJWK (OtherKey k) = Inl (ErrorNew ''jws: unsupported public key type'')"

definition Thumbprint :: "Crypto \<Rightarrow> PublicKey \<Rightarrow> error + string" where
  "Thumbprint C key = and_then (MarshalJWK key) (\<lambda>canonical. Inr (encode_base64 (cr_SHA256 C (string_bytes canonical))))"

subsection \<open>Messages\<close>

definition Algorithms :: "string list" where
  "Algorithms = [''ES256'', ''ES384'', ''ES512'', ''RS256'', ''EdDSA'']"

definition MACAlgorithms :: "string list" where
  "MACAlgorithms = [''HS256'', ''HS384'', ''HS512'']"

record Header =
  hd_Algorithm :: string
  hd_Nonce :: string
  hd_URL :: string
  hd_KeyID :: string
  hd_Key :: "PublicKey option"

record Message =
  msg_Header :: Header
  msg_Payload :: bytes
  msg_signingInput :: bytes
  msg_signature :: bytes

record envelopeJSON =
  ev_Protected :: "string option"
  ev_Payload :: "string option"
  ev_Signature :: "string option"
  ev_Header :: "bytes option"
  ev_Signatures :: "bytes option"

definition envelope_type :: gotype where
  "envelope_type = GoPointer (GoStruct
     [go_member ''Protected'' ''protected'' (GoPointer GoOther), go_member ''Payload'' ''payload'' (GoPointer GoOther),
      go_member ''Signature'' ''signature'' (GoPointer GoOther), go_member ''Header'' ''header'' GoUnmarshaler,
      go_member ''Signatures'' ''signatures'' GoUnmarshaler])"

definition decode_envelope :: "json \<Rightarrow> string + envelopeJSON" where
  "decode_envelope v = and_then (as_object v) (\<lambda>ms.
     let text = (\<lambda>name. as_pointer go_string (member_value ms name)) in
     and_then (text ''protected'') (\<lambda>protected. and_then (text ''payload'') (\<lambda>payload. and_then (text ''signature'') (\<lambda>signature.
       Inr \<lparr>ev_Protected = protected, ev_Payload = payload, ev_Signature = signature,
            ev_Header = as_raw ms ''header'', ev_Signatures = as_raw ms ''signatures''\<rparr>))))"

record headerJSON =
  hj_Alg :: "string option"
  hj_Nonce :: "string option"
  hj_URL :: "string option"
  hj_KID :: "string option"
  hj_JWK :: "bytes option"
  hj_Crit :: "bytes option"
  hj_B64 :: "bytes option"

definition header_type :: gotype where
  "header_type = GoPointer (GoStruct
     [go_member ''Alg'' ''alg'' (GoPointer GoOther), go_member ''Nonce'' ''nonce'' (GoPointer GoOther),
      go_member ''URL'' ''url'' (GoPointer GoOther), go_member ''KID'' ''kid'' (GoPointer GoOther),
      go_member ''JWK'' ''jwk'' GoUnmarshaler, go_member ''Crit'' ''crit'' GoUnmarshaler, go_member ''B64'' ''b64'' GoUnmarshaler])"

definition decode_header :: "json \<Rightarrow> string + headerJSON" where
  "decode_header v = and_then (as_object v) (\<lambda>ms.
     let text = (\<lambda>name. as_pointer go_string (member_value ms name)) in
     and_then (text ''alg'') (\<lambda>alg. and_then (text ''nonce'') (\<lambda>nonce. and_then (text ''url'') (\<lambda>url. and_then (text ''kid'') (\<lambda>kid.
       Inr \<lparr>hj_Alg = alg, hj_Nonce = nonce, hj_URL = url, hj_KID = kid,
            hj_JWK = as_raw ms ''jwk'', hj_Crit = as_raw ms ''crit'', hj_B64 = as_raw ms ''b64''\<rparr>)))))"

record jws_profile =
  pf_nonce :: bool
  pf_embeddedKey :: "bool option"
  pf_algorithms :: "string list"

definition requestProfile :: jws_profile where
  "requestProfile = \<lparr>pf_nonce = True, pf_embeddedKey = None, pf_algorithms = Algorithms\<rparr>"

definition innerProfile :: jws_profile where
  "innerProfile = \<lparr>pf_nonce = False, pf_embeddedKey = Some True, pf_algorithms = Algorithms\<rparr>"

definition macProfile :: jws_profile where
  "macProfile = \<lparr>pf_nonce = False, pf_embeddedKey = Some False, pf_algorithms = MACAlgorithms\<rparr>"

text \<open>The switch over the nonce, and the one over the two ways to name the key.\<close>

definition header_nonce :: "jws_profile \<Rightarrow> string option \<Rightarrow> jws_error + string" where
  "header_nonce prof nonce =
     (if pf_nonce prof then
        (case nonce of
           None \<Rightarrow> Inl (JwsError CodeBadNonce ''JWS protected header has no nonce'')
         | Some n \<Rightarrow>
             if n = [] then Inl (JwsError CodeBadNonce ''JWS protected header has no nonce'')
             else if \<not> isBase64URL n then Inl (malformed ''JWS nonce is not valid base64url'')
             else Inr n)
      else if nonce \<noteq> None then Inl (malformed ''JWS protected header must not have a nonce here'')
      else Inr [])"

definition header_key :: "Json \<Rightarrow> Crypto \<Rightarrow> jws_profile \<Rightarrow> headerJSON \<Rightarrow> Header \<Rightarrow> jws_error + Header" where
  "header_key J C prof hdr header =
     (let hasKID = (hj_KID hdr \<noteq> None); hasJWK = (hj_JWK hdr \<noteq> None) in
      if hasKID = hasJWK then Inl (malformed ''JWS protected header must have exactly one of jwk and kid'')
      else if pf_embeddedKey prof = Some True \<and> \<not> hasJWK
      then Inl (malformed ''JWS protected header must carry the key in jwk here'')
      else if pf_embeddedKey prof = Some False \<and> \<not> hasKID
      then Inl (malformed ''JWS protected header must name the key in kid here'')
      else
        (case (hj_KID hdr, hj_JWK hdr) of
           (Some kid, _) \<Rightarrow> if kid = [] then Inl (malformed ''JWS kid is empty'') else Inr (header\<lparr>hd_KeyID := kid\<rparr>)
         | (None, Some jwk) \<Rightarrow> and_then (ParseJWK J C jwk) (\<lambda>key. Inr (header\<lparr>hd_Key := Some key\<rparr>))
         | (None, None) \<Rightarrow> Inl (malformed ''JWS protected header must have exactly one of jwk and kid'')))"

definition parseHeader :: "Json \<Rightarrow> Crypto \<Rightarrow> bytes \<Rightarrow> jws_profile \<Rightarrow> jws_error + Header" where
  "parseHeader J C protected prof =
     (case UnmarshalStrict J header_type decode_header protected of
        Inl e \<Rightarrow> Inl (malformed (''JWS protected header: '' @ detailOf e))
      | Inr hdr \<Rightarrow>
          if hj_Crit hdr \<noteq> None then Inl (malformed ''JWS critical header parameters are not supported'')
          else if hj_B64 hdr \<noteq> None then Inl (malformed ''JWS b64 header parameter is not supported'')
          else
            (case hj_Alg hdr of
               None \<Rightarrow> Inl (malformed ''JWS protected header has no alg'')
             | Some alg \<Rightarrow>
                 if alg = [] then Inl (malformed ''JWS protected header has no alg'')
                 else if alg \<notin> set (pf_algorithms prof)
                 then Inl (JwsError CodeBadSignatureAlgorithm (''JWS algorithm '' @ js_Quote J alg @ '' is not supported''))
                 else
                   (case hj_URL hdr of
                      None \<Rightarrow> Inl (malformed ''JWS protected header has no url'')
                    | Some url \<Rightarrow>
                        if url = [] then Inl (malformed ''JWS protected header has no url'')
                        else and_then (header_nonce prof (hj_Nonce hdr)) (\<lambda>nonce.
                          header_key J C prof hdr
                            \<lparr>hd_Algorithm = alg, hd_Nonce = nonce, hd_URL = url, hd_KeyID = [], hd_Key = None\<rparr>))))"

text \<open>\<^verbatim>\<open>parse\<close> of \<^verbatim>\<open>jws.go\<close>.\<close>

definition parse_message :: "Json \<Rightarrow> Crypto \<Rightarrow> bytes \<Rightarrow> jws_profile \<Rightarrow> jws_error + Message" where
  "parse_message J C body prof =
     (case UnmarshalStrict J envelope_type decode_envelope body of
        Inl e \<Rightarrow> Inl (malformed (''invalid JWS: '' @ detailOf e))
      | Inr env \<Rightarrow>
          if ev_Signatures env \<noteq> None then Inl (malformed ''JWS general serialization is not allowed'')
          else if ev_Header env \<noteq> None then Inl (malformed ''JWS unprotected header is not allowed'')
          else
            (case (ev_Protected env, ev_Payload env, ev_Signature env) of
               (Some protected64, Some payload64, Some signature64) \<Rightarrow>
                 (case decodeBase64 protected64 of
                    None \<Rightarrow> Inl (malformed ''JWS protected header is not valid base64url'')
                  | Some protected \<Rightarrow>
                      if protected = [] then Inl (malformed ''JWS protected header is not valid base64url'')
                      else
                        (case decodeBase64 payload64 of
                           None \<Rightarrow> Inl (malformed ''JWS payload is not valid base64url'')
                         | Some payload \<Rightarrow>
                             (case decodeBase64 signature64 of
                                None \<Rightarrow> Inl (malformed ''JWS signature is not valid base64url'')
                              | Some signature \<Rightarrow>
                                  if signature = [] then Inl (malformed ''JWS signature is not valid base64url'')
                                  else and_then (parseHeader J C protected prof) (\<lambda>header.
                                    Inr \<lparr>msg_Header = header, msg_Payload = payload,
                                      msg_signingInput = string_bytes (protected64 @ ''.'' @ payload64),
                                      msg_signature = signature\<rparr>))))
             | _ \<Rightarrow> Inl (malformed ''JWS must have protected, payload and signature members'')))"

definition jws_Parse :: "Json \<Rightarrow> Crypto \<Rightarrow> bytes \<Rightarrow> jws_error + Message" where
  "jws_Parse J C body = parse_message J C body requestProfile"

definition ParseInner :: "Json \<Rightarrow> Crypto \<Rightarrow> bytes \<Rightarrow> jws_error + Message" where
  "ParseInner J C body = parse_message J C body innerProfile"

definition ParseMAC :: "Json \<Rightarrow> Crypto \<Rightarrow> bytes \<Rightarrow> jws_error + Message" where
  "ParseMAC J C body = parse_message J C body macProfile"

subsection \<open>Signatures\<close>

definition badSignature :: jws_error where
  "badSignature = JwsError CodeBadSignature ''JWS signature verification failed''"

definition keyMismatch :: "string \<Rightarrow> jws_error" where
  "keyMismatch alg = malformed (''JWS key type does not match algorithm '' @ alg)"

definition verifyECDSA :: "Crypto \<Rightarrow> string \<Rightarrow> PublicKey \<Rightarrow> curve \<Rightarrow> nat \<Rightarrow> bytes \<Rightarrow> bytes \<Rightarrow> jws_error + unit" where
  "verifyECDSA C alg key curve width digest signature =
     (case key of
        ECKey c x y \<Rightarrow>
          if c \<noteq> curve then Inl (keyMismatch alg)
          else if length signature \<noteq> 2 * width then Inl badSignature
          else if \<not> cr_ECDSA C c x y digest (big_nat (take width signature)) (big_nat (drop width signature))
          then Inl badSignature
          else Inr ()
      | _ \<Rightarrow> Inl (keyMismatch alg))"

definition verifySignature :: "Json \<Rightarrow> Crypto \<Rightarrow> string \<Rightarrow> PublicKey \<Rightarrow> bytes \<Rightarrow> bytes \<Rightarrow> jws_error + unit" where
  "verifySignature J C alg key signingInput signature =
     (if alg = ''ES256'' then verifyECDSA C alg key P256 32 (cr_SHA256 C signingInput) signature
      else if alg = ''ES384'' then verifyECDSA C alg key P384 48 (cr_SHA384 C signingInput) signature
      else if alg = ''ES512'' then verifyECDSA C alg key P521 66 (cr_SHA512 C signingInput) signature
      else if alg = ''RS256'' then
        (case key of
           RSAKey n e \<Rightarrow> if cr_RSA C n e (cr_SHA256 C signingInput) signature then Inr () else Inl badSignature
         | _ \<Rightarrow> Inl (keyMismatch alg))
      else if alg = ''EdDSA'' then
        (case key of
           Ed25519Key k \<Rightarrow>
             if length k \<noteq> 32 then Inl (keyMismatch alg)
             else if cr_Ed25519 C k signingInput signature then Inr () else Inl badSignature
         | _ \<Rightarrow> Inl (keyMismatch alg))
      else Inl (JwsError CodeBadSignatureAlgorithm (''JWS algorithm '' @ js_Quote J alg @ '' is not supported'')))"

definition jws_Verify :: "Json \<Rightarrow> Crypto \<Rightarrow> Message \<Rightarrow> PublicKey \<Rightarrow> jws_error + unit" where
  "jws_Verify J C m key = verifySignature J C (hd_Algorithm (msg_Header m)) key (msg_signingInput m) (msg_signature m)"

text \<open>\<^verbatim>\<open>macHash\<close>, as the output size of the hash of an HMAC algorithm.\<close>

definition macHash :: "string \<Rightarrow> nat option" where
  "macHash alg =
     (if alg = ''HS256'' then Some 32 else if alg = ''HS384'' then Some 48 else if alg = ''HS512'' then Some 64 else None)"

definition MACAlgorithmsFor :: "nat \<Rightarrow> string list" where
  "MACAlgorithmsFor keyLength =
     filter (\<lambda>alg. case macHash alg of None \<Rightarrow> False | Some width \<Rightarrow> width \<le> keyLength) MACAlgorithms"

definition VerifyMAC :: "Json \<Rightarrow> Crypto \<Rightarrow> Message \<Rightarrow> bytes \<Rightarrow> jws_error + unit" where
  "VerifyMAC J C m key =
     (let alg = hd_Algorithm (msg_Header m) in
      case macHash alg of
        None \<Rightarrow> Inl (JwsError CodeBadSignatureAlgorithm (''JWS algorithm '' @ js_Quote J alg @ '' is not an HMAC''))
      | Some width \<Rightarrow>
          if length key < width
          then Inl (JwsError CodeBadSignatureAlgorithm
                 (alg @ '' needs a MAC key of at least '' @ dec_string (width * 8) @ '' bits and this key is shorter''))
          else if cr_HMAC C alg key (msg_signingInput m) \<noteq> msg_signature m then Inl badSignature
          else Inr ())"

subsection \<open>Compact messages\<close>

definition maxX5CLength :: nat where
  "maxX5CLength = 10"

record CompactHeader =
  chd_Algorithm :: string
  chd_MediaType :: string
  chd_X5U :: string
  chd_X5C :: "bytes list"
  chd_KeyID :: string

record CompactMessage =
  cm_Header :: CompactHeader
  cm_Payload :: bytes
  cm_signingInput :: bytes
  cm_signature :: bytes

record compactHeaderJSON =
  cp_Alg :: "string option"
  cp_Typ :: "string option"
  cp_Cty :: "string option"
  cp_X5U :: "string option"
  cp_X5C :: "string list option"
  cp_KID :: "string option"
  cp_JWK :: "bytes option"
  cp_Crit :: "bytes option"
  cp_B64 :: "bytes option"

definition compact_type :: gotype where
  "compact_type = GoPointer (GoStruct
     [go_member ''Alg'' ''alg'' (GoPointer GoOther), go_member ''Typ'' ''typ'' (GoPointer GoOther),
      go_member ''Cty'' ''cty'' (GoPointer GoOther), go_member ''X5U'' ''x5u'' (GoPointer GoOther),
      go_member ''X5C'' ''x5c'' (GoSlice GoOther), go_member ''KID'' ''kid'' (GoPointer GoOther),
      go_member ''JWK'' ''jwk'' GoUnmarshaler, go_member ''Crit'' ''crit'' GoUnmarshaler, go_member ''B64'' ''b64'' GoUnmarshaler])"

definition decode_compact :: "json \<Rightarrow> string + compactHeaderJSON" where
  "decode_compact v = and_then (as_object v) (\<lambda>ms.
     let text = (\<lambda>name. as_pointer go_string (member_value ms name)) in
     and_then (text ''alg'') (\<lambda>alg. and_then (text ''typ'') (\<lambda>ty. and_then (text ''cty'') (\<lambda>cty. and_then (text ''x5u'') (\<lambda>x5u.
     and_then (as_pointer (go_slice go_string []) (member_value ms ''x5c'')) (\<lambda>x5c. and_then (text ''kid'') (\<lambda>kid.
       Inr \<lparr>cp_Alg = alg, cp_Typ = ty, cp_Cty = cty, cp_X5U = x5u, cp_X5C = x5c, cp_KID = kid,
            cp_JWK = as_raw ms ''jwk'', cp_Crit = as_raw ms ''crit'', cp_B64 = as_raw ms ''b64''\<rparr>)))))))"

text \<open>The certificates of \<^verbatim>\<open>x5c\<close>; \<^verbatim>\<open>base64.StdEncoding\<close> is a parameter.\<close>

fun decode_x5c :: "(string \<Rightarrow> bytes option) \<Rightarrow> string list \<Rightarrow> jws_error + bytes list" where
  "decode_x5c std [] = Inr []"
| "decode_x5c std (encoded # rest) =
     (case std encoded of
        None \<Rightarrow> Inl (malformed ''compact JWS x5c is not valid base64'')
      | Some der \<Rightarrow>
          if der = [] then Inl (malformed ''compact JWS x5c is not valid base64'')
          else and_then (decode_x5c std rest) (\<lambda>ders. Inr (der # ders)))"

definition parseCompactHeader :: "Json \<Rightarrow> (string \<Rightarrow> bytes option) \<Rightarrow> bytes \<Rightarrow> jws_error + CompactHeader" where
  "parseCompactHeader J std protected =
     (case UnmarshalStrict J compact_type decode_compact protected of
        Inl e \<Rightarrow> Inl (malformed (''compact JWS protected header: '' @ detailOf e))
      | Inr raw \<Rightarrow>
          if cp_Crit raw \<noteq> None then Inl (malformed ''compact JWS crit header is not supported'')
          else if cp_B64 raw \<noteq> None then Inl (malformed ''compact JWS b64 header is not supported'')
          else if cp_JWK raw \<noteq> None then Inl (malformed ''compact JWS must not carry an embedded key'')
          else if cp_Cty raw \<noteq> None then Inl (malformed ''compact JWS cty header is not supported'')
          else
            (case cp_Alg raw of
               None \<Rightarrow> Inl (malformed ''compact JWS protected header needs alg'')
             | Some alg \<Rightarrow>
                 if alg \<notin> set Algorithms
                 then Inl (JwsError CodeBadSignatureAlgorithm (''compact JWS algorithm '' @ alg @ '' is not supported''))
                 else if \<exists>t \<in> set_option (cp_Typ raw). \<not> js_EqualFold J t ''JWT'' then Inl (malformed ''compact JWS typ must be JWT'')
                 else if cp_X5U raw = Some [] then Inl (malformed ''compact JWS x5u is empty'')
                 else
                   (let header = \<lparr>chd_Algorithm = alg, chd_MediaType = (case cp_Typ raw of None \<Rightarrow> [] | Some t \<Rightarrow> t),
                          chd_X5U = (case cp_X5U raw of None \<Rightarrow> [] | Some u \<Rightarrow> u), chd_X5C = [],
                          chd_KeyID = (case cp_KID raw of None \<Rightarrow> [] | Some k \<Rightarrow> k)\<rparr>
                    in case cp_X5C raw of
                         None \<Rightarrow> Inr header
                       | Some x5c \<Rightarrow>
                           if x5c = [] \<or> length x5c > maxX5CLength then Inl (malformed ''compact JWS x5c length is not acceptable'')
                           else and_then (decode_x5c std x5c) (\<lambda>ders. Inr (header\<lparr>chd_X5C := ders\<rparr>)))))"

definition ParseCompact :: "Json \<Rightarrow> (string \<Rightarrow> bytes option) \<Rightarrow> string \<Rightarrow> jws_error + CompactMessage" where
  "ParseCompact J std token =
     (case split_on CHR ''.'' token of
        [protected64, payload64, signature64] \<Rightarrow>
          (case decodeBase64 protected64 of
             None \<Rightarrow> Inl (malformed ''compact JWS protected header is not valid base64url'')
           | Some protected \<Rightarrow>
               if protected = [] then Inl (malformed ''compact JWS protected header is not valid base64url'')
               else
                 (case decodeBase64 payload64 of
                    None \<Rightarrow> Inl (malformed ''compact JWS payload is not valid base64url'')
                  | Some payload \<Rightarrow>
                      if payload = [] then Inl (malformed ''compact JWS payload is not valid base64url'')
                      else
                        (case decodeBase64 signature64 of
                           None \<Rightarrow> Inl (malformed ''compact JWS signature is not valid base64url'')
                         | Some signature \<Rightarrow>
                             if signature = [] then Inl (malformed ''compact JWS signature is not valid base64url'')
                             else and_then (parseCompactHeader J std protected) (\<lambda>header.
                               Inr \<lparr>cm_Header = header, cm_Payload = payload,
                                    cm_signingInput = string_bytes (protected64 @ ''.'' @ payload64),
                                    cm_signature = signature\<rparr>))))
      | _ \<Rightarrow> Inl (malformed ''compact JWS must have three parts''))"

definition compact_Verify :: "Json \<Rightarrow> Crypto \<Rightarrow> CompactMessage \<Rightarrow> PublicKey \<Rightarrow> jws_error + unit" where
  "compact_Verify J C m key = verifySignature J C (chd_Algorithm (cm_Header m)) key (cm_signingInput m) (cm_signature m)"

end
