(* ===== verification/Acme_Http.thy ===== *)
theory Acme_Http
  imports Acme_Config Acme_JWS
begin

section \<open>HTTP requests and responses\<close>

text \<open>
  What the server reads of a request and writes of a response, the paths of its resources, and the structs it hands to the
  host's limiter, refusal recorder and renewal advisor.  A response body is the value that is encoded as
  JSON, since the encoding is the standard library's.
\<close>

subsection \<open>Paths and media types\<close>

definition resourceDirectory :: string where "resourceDirectory = ''directory''"
definition resourceNewNonce :: string where "resourceNewNonce = ''new-nonce''"
definition resourceNewAccount :: string where "resourceNewAccount = ''new-account''"
definition resourceNewOrder :: string where "resourceNewOrder = ''new-order''"
definition resourceRevokeCert :: string where "resourceRevokeCert = ''revoke-cert''"
definition resourceKeyChange :: string where "resourceKeyChange = ''key-change''"
definition accountPathPrefix :: string where "accountPathPrefix = ''acct/''"
definition orderPathPrefix :: string where "orderPathPrefix = ''order/''"
definition authzPathPrefix :: string where "authzPathPrefix = ''authz/''"
definition challengePathPrefix :: string where "challengePathPrefix = ''chall/''"
definition certPathPrefix :: string where "certPathPrefix = ''cert/''"
definition renewalPathPrefix :: string where "renewalPathPrefix = ''renewal-info/''"
definition profilePathPrefix :: string where "profilePathPrefix = ''profiles/''"

definition contentTypeJSON :: string where "contentTypeJSON = ''application/json''"
definition contentTypeJOSE :: string where "contentTypeJOSE = ''application/jose+json''"
definition contentTypeProblem :: string where "contentTypeProblem = ''application/problem+json''"
definition contentTypePEMChain :: string where "contentTypePEMChain = ''application/pem-certificate-chain''"
definition contentTypeText :: string where "contentTypeText = ''text/plain; charset=utf-8''"

definition resourceURL :: "Server \<Rightarrow> string \<Rightarrow> string" where
  "resourceURL S resource = srv_baseURL S @ resource"

subsection \<open>Requests\<close>

text \<open>
  The parts of \<^verbatim>\<open>http.Request\<close> the server reads.  A body is the bytes its reader delivers and whether it then fails.
  \<open>rq_Query\<close> is \<^verbatim>\<open>r.URL.Query().Get\<close>.
\<close>

record Request =
  rq_Method :: string
  rq_Path :: string
  rq_EscapedPath :: string
  rq_RawQuery :: string
  rq_ForceQuery :: bool
  rq_Query :: "string \<Rightarrow> string"
  rq_ContentType :: string
  rq_Body :: "(bytes \<times> bool) option"
  rq_RemoteAddr :: string

text \<open>
  The functions of \<^verbatim>\<open>mime\<close>, \<^verbatim>\<open>net/netip\<close>, \<^verbatim>\<open>net/mail\<close>, \<^verbatim>\<open>net/url\<close> and \<^verbatim>\<open>time\<close> that read text of a client, and \<^verbatim>\<open>base64.StdEncoding\<close>.
\<close>

record Http =
  ht_ParseMediaType :: "string \<Rightarrow> string option"
  ht_ParseAddrPort :: "string \<Rightarrow> Addr option"
  ht_ParseAddress :: "string \<Rightarrow> (string \<times> string) option"
  ht_QueryEscape :: "string \<Rightarrow> string"
  ht_ParseTime :: "string \<Rightarrow> time option"

fun Unmap :: "Addr \<Rightarrow> Addr" where
  "Unmap (Addr6 bs z) = (if Is4In6 (Addr6 bs z) then Addr4 (drop 12 bs) else Addr6 bs z)"
| "Unmap a = a"

text \<open>The address of a client; the zero \<^verbatim>\<open>netip.Addr\<close> is \<^const>\<open>None\<close>.\<close>

definition clientAddr :: "Http \<Rightarrow> Request \<Rightarrow> Addr option" where
  "clientAddr H r =
     (case ht_ParseAddrPort H (rq_RemoteAddr r) of
        Some a \<Rightarrow> Some (Unmap a)
      | None \<Rightarrow> (case ParseAddr (rq_RemoteAddr r) of Some a \<Rightarrow> Some (Unmap a) | None \<Rightarrow> None))"

text \<open>\<^verbatim>\<open>requestState\<close>: the client, and whether the request spent a valid nonce.\<close>

record requestState =
  rst_client :: "Addr option"
  rst_nonceSpent :: bool

datatype keyMode = keyModeAccount | keyModeEmbedded | keyModeEither

text \<open>A verified request.  \<^verbatim>\<open>Account\<close> is nil for an embedded key.\<close>

record signedRequest =
  sr_Account :: "Account option"
  sr_Key :: PublicKey
  sr_Payload :: bytes

subsection \<open>What the host is asked\<close>

datatype LimitKind = LimitNewNonce | LimitNewAccount | LimitNewOrder | LimitChallengeResponse | LimitRenewalInfo

record LimitRequest =
  lr_Kind :: LimitKind
  lr_Client :: "Addr option"
  lr_Account :: "Account option"
  lr_Identifiers :: "Identifier list"
  lr_Replaces :: string
  lr_PendingValidations :: nat

definition limit_request :: "LimitKind \<Rightarrow> Addr option \<Rightarrow> LimitRequest" where
  "limit_request kind client = \<lparr>lr_Kind = kind, lr_Client = client, lr_Account = None, lr_Identifiers = [], lr_Replaces = [],
     lr_PendingValidations = 0\<rparr>"

datatype RefusalKind = RefusalFinalize | RefusalRevocation

record Refusal =
  rf_Kind :: RefusalKind
  rf_AccountID :: string
  rf_OrderID :: string
  rf_Identifiers :: "Identifier list"
  rf_CSR :: bytes
  rf_Certificate :: bytes
  rf_Reason :: int
  rf_Problem :: "Problem option"

record RenewalInfo =
  ri_Start :: time
  ri_End :: time
  ri_ExplanationURL :: string
  ri_RetryAfter :: duration

record renewalInfoJSON =
  rj_Start :: time
  rj_End :: time
  rj_ExplanationURL :: string

subsection \<open>Responses\<close>

record metaJSON =
  mj_TermsOfService :: string
  mj_Website :: string
  mj_CAAIdentities :: "string list"
  mj_ExternalAccountRequired :: bool
  mj_Profiles :: "string \<rightharpoonup> string"

datatype body =
    NoBody
  | ProblemBody Problem
  | AccountBody accountJSON
  | OrderBody orderJSON
  | AuthorizationBody authorizationJSON
  | ChallengeBody challengeJSON
  | OrdersBody "string list"
  | DirectoryBody "(string \<times> string) list" "metaJSON option"
  | RenewalBody renewalInfoJSON
  | ChainBody "bytes list"
  | TextBody string

text \<open>The response being written: the header fields in the order they were set, the status, and the body.\<close>

record Response =
  rs_Header :: "(string \<times> string) list"
  rs_Status :: "int option"
  rs_Body :: body

definition no_response :: Response where
  "no_response = \<lparr>rs_Header = [], rs_Status = None, rs_Body = NoBody\<rparr>"

definition header_add :: "string \<Rightarrow> string \<Rightarrow> Response \<Rightarrow> Response" where
  "header_add name v rs = rs\<lparr>rs_Header := rs_Header rs @ [(name, v)]\<rparr>"

definition header_set :: "string \<Rightarrow> string \<Rightarrow> Response \<Rightarrow> Response" where
  "header_set name v rs = rs\<lparr>rs_Header := filter (\<lambda>(n, _). n \<noteq> name) (rs_Header rs) @ [(name, v)]\<rparr>"

text \<open>The first status written is the one sent.\<close>

definition write_status :: "int \<Rightarrow> Response \<Rightarrow> Response" where
  "write_status n rs = (case rs_Status rs of None \<Rightarrow> rs\<lparr>rs_Status := Some n\<rparr> | Some _ \<Rightarrow> rs)"

end
