(* ===== verification/Nonce_Manager.thy ===== *)
theory Nonce_Manager
  imports Base64url Acme_Problem
begin

section \<open>Replay protection: the nonce manager\<close>

text \<open>
  \<^verbatim>\<open>nonce/nonce.go\<close>.  The struct \<^verbatim>\<open>Manager\<close> is a record without its clock and its randomness: the
  operations take the time \<^verbatim>\<open>m.now()\<close> returns and the outcomes of the successive reads of the random
  source.  The loop of \<^verbatim>\<open>Issue\<close> consumes reads until one gives a value that is not outstanding; \<open>draw\<close>
  returns \<open>None\<close> while all reads so far collided.  The other loops are recursive functions whose
  termination is proved.

  The interface \<^verbatim>\<open>NonceManager\<close> of \<^verbatim>\<open>nonce.go\<close> is the locale \<open>nonce_manager\<close>: whatever interleaving of calls
  runs, a value is accepted at most as often as it was issued.  The model of the manager interprets it.
\<close>

subsection \<open>The contract\<close>

datatype nonce_event = Issued string | Accepted string | Silent

text \<open>The runs of a labelled transition system.\<close>

fun runs :: "('s \<Rightarrow> 'e \<Rightarrow> 's \<Rightarrow> bool) \<Rightarrow> 's \<Rightarrow> 'e list \<Rightarrow> 's \<Rightarrow> bool" where
  "runs step s [] t \<longleftrightarrow> s = t"
| "runs step s (e # es) t \<longleftrightarrow> (\<exists>u. step s e u \<and> runs step u es t)"

locale nonce_manager =
  fixes valid :: "'s \<Rightarrow> string \<Rightarrow> bool"
    and step :: "'s \<Rightarrow> nonce_event \<Rightarrow> 's \<Rightarrow> bool"
  assumes issued: "step s (Issued v) t \<Longrightarrow> valid t w \<Longrightarrow> valid s w \<or> w = v"
    and accepted: "step s (Accepted v) t \<Longrightarrow> valid s v \<and> \<not> valid t v \<and> (\<forall>w. valid t w \<longrightarrow> valid s w)"
    and silent: "step s Silent t \<Longrightarrow> valid t w \<Longrightarrow> valid s w"
begin

lemma accepted_le_issued:
  "runs step s es t \<Longrightarrow>
     count_list es (Accepted v) + (if valid t v then 1 else 0) \<le>
     count_list es (Issued v) + (if valid s v then 1 else 0)"
proof (induction es arbitrary: s)
  case (Cons e es)
  then obtain u where u: "step s e u" and "runs step u es t" by auto
  from Cons.IH [OF this(2)]
  have IH: "count_list es (Accepted v) + (if valid t v then 1 else 0) \<le>
     count_list es (Issued v) + (if valid u v then 1 else 0)" .
  show ?case
  proof (cases e)
    case (Issued x)
    with u issued [of s x u v] IH show ?thesis by (auto split: if_splits)
  next
    case (Accepted x)
    with u accepted [of s x u] IH show ?thesis by (auto split: if_splits)
  next
    case Silent
    with u silent [of s u v] IH show ?thesis by (auto split: if_splits)
  qed
qed simp

lemma not_replayed:
  assumes "runs step s es t" "\<not> valid s v" "count_list es (Issued v) \<le> 1"
  shows "count_list es (Accepted v) \<le> 1"
  using accepted_le_issued [OF assms(1), of v] assms(2,3) by simp

end

subsection \<open>The manager\<close>

definition DefaultTTL :: duration where
  "DefaultTTL = 3600 * second"

definition DefaultCapacity :: int where
  "DefaultCapacity = 100000"

record entry =
  e_value :: string
  e_expires :: time

record Manager =
  m_ttl :: duration
  m_capacity :: int
  m_live :: "(string \<times> time) list"
  m_queue :: "entry list"
  m_head :: nat

record Options =
  opt_TTL :: duration
  opt_Capacity :: int

definition nonce_New :: "Options \<Rightarrow> Manager" where
  "nonce_New opts =
     \<lparr>m_ttl = (if opt_TTL opts \<le> 0 then DefaultTTL else opt_TTL opts),
      m_capacity = (if opt_Capacity opts \<le> 0 then DefaultCapacity else opt_Capacity opts),
      m_live = [], m_queue = [], m_head = 0\<rparr>"

definition current :: "Manager \<Rightarrow> entry \<Rightarrow> bool" where
  "current m e \<longleftrightarrow> map_of (m_live m) (e_value e) = Some (e_expires e)"

definition compact :: "Manager \<Rightarrow> Manager" where
  "compact m =
     (if int (m_head m) < int (length (m_queue m)) div 2 \<and>
         int (length (m_queue m)) - int (length (m_live m)) < m_capacity m
      then m
      else m\<lparr>m_queue := filter (current m) (drop (m_head m) (m_queue m)), m_head := 0\<rparr>)"

function purge_loop :: "time \<Rightarrow> Manager \<Rightarrow> Manager" where
  "purge_loop now m =
     (if m_head m < length (m_queue m) then
        let e = m_queue m ! m_head m in
        if (case map_of (m_live m) (e_value e) of Some expires \<Rightarrow> Before now expires | None \<Rightarrow> False)
        then m
        else purge_loop now (m\<lparr>m_live := alist_del (e_value e) (m_live m), m_head := m_head m + 1\<rparr>)
      else m)"
  by auto
termination
  by (relation "measure (\<lambda>(now, m). length (m_queue m) - m_head m)") auto

definition purge :: "time \<Rightarrow> Manager \<Rightarrow> Manager" where
  "purge now m = compact (purge_loop now m)"

function evict_loop :: "Manager \<Rightarrow> Manager" where
  "evict_loop m =
     (if m_head m < length (m_queue m) then
        let e = m_queue m ! m_head m;
            m' = m\<lparr>m_head := m_head m + 1\<rparr>
        in if map_of (m_live m) (e_value e) \<noteq> None
           then m'\<lparr>m_live := alist_del (e_value e) (m_live m)\<rparr>
           else evict_loop m'
      else m)"
  by auto
termination
  by (relation "measure (\<lambda>m. length (m_queue m) - m_head m)") auto

definition evictOldest :: "Manager \<Rightarrow> Manager" where
  "evictOldest m = compact (evict_loop m)"

text \<open>Entries not yet passed by the head of the queue; what bounds the loop of \<^verbatim>\<open>Issue\<close>.\<close>

definition pending :: "Manager \<Rightarrow> entry list" where
  "pending m = drop (m_head m) (m_queue m)"

lemma length_pending: "length (pending m) = length (m_queue m) - m_head m"
  by (simp add: pending_def)

lemma pending_compact: "set (pending (compact m)) \<subseteq> set (pending m)"
  "length (pending (compact m)) \<le> length (pending m)"
  using length_filter_le [of "current m" "drop (m_head m) (m_queue m)"]
  by (auto simp: compact_def pending_def)

declare purge_loop.simps [simp del] evict_loop.simps [simp del]

lemma evict_loop_pending:
  "m_head m < length (m_queue m) \<Longrightarrow> length (pending (evict_loop m)) < length (pending m)"
proof (induction m rule: evict_loop.induct)
  case (1 m)
  show ?case
  proof (cases "map_of (m_live m) (e_value (m_queue m ! m_head m)) = None")
    case False
    with 1 show ?thesis by (simp add: evict_loop.simps [of m] length_pending Let_def)
  next
    case True
    let ?m' = "m\<lparr>m_head := m_head m + 1\<rparr>"
    have "length (pending (evict_loop ?m')) \<le> length (pending ?m')"
    proof (cases "m_head ?m' < length (m_queue ?m')")
      case True
      with 1 \<open>map_of _ _ = None\<close> show ?thesis by (simp add: Let_def less_imp_le)
    next
      case False
      then show ?thesis by (subst evict_loop.simps) simp
    qed
    with True 1 show ?thesis
      by (simp add: evict_loop.simps [of m] length_pending Let_def)
  qed
qed

function evict_surplus :: "Manager \<Rightarrow> Manager" where
  "evict_surplus m =
     (if int (length (m_live m)) \<ge> m_capacity m \<and> m_head m < length (m_queue m)
      then evict_surplus (evictOldest m) else m)"
  by auto
termination
proof (relation "measure (\<lambda>m. length (pending m))")
  fix m :: Manager
  assume "int (length (m_live m)) \<ge> m_capacity m \<and> m_head m < length (m_queue m)"
  then have "length (pending (evictOldest m)) < length (pending m)"
    using evict_loop_pending [of m] pending_compact(2) [of "evict_loop m"]
    by (simp add: evictOldest_def)
  then show "(evictOldest m, m) \<in> measure (\<lambda>m. length (pending m))" by simp
qed simp

declare evict_surplus.simps [simp del]

text \<open>The draw loop: the reads of the random source are given one by one.\<close>

fun draw :: "(error + bytes) list \<Rightarrow> (string \<times> time) list \<Rightarrow> (error + string) option" where
  "draw [] live = None"
| "draw (Inl err # reads) live = Some (Inl err)"
| "draw (Inr buf # reads) live =
     (if map_of live (encode_base64 buf) \<noteq> None then draw reads live else Some (Inr (encode_base64 buf)))"

definition Issue ::
    "error option \<Rightarrow> time \<Rightarrow> (error + bytes) list \<Rightarrow> Manager \<Rightarrow> ((error + string) \<times> Manager) option" where
  "Issue ctx now reads m =
     (case ctx of
        Some err \<Rightarrow> Some (Inl err, m)
      | None \<Rightarrow>
          let m1 = evict_surplus (purge now m) in
          (case draw reads (m_live m1) of
             None \<Rightarrow> None
           | Some (Inl err) \<Rightarrow> Some (Inl err, m1)
           | Some (Inr value) \<Rightarrow>
               let expires = now + m_ttl m1 in
               Some (Inr value,
                 m1\<lparr>m_live := alist_put value expires (m_live m1),
                    m_queue := m_queue m1 @ [\<lparr>e_value = value, e_expires = expires\<rparr>]\<rparr>)))"

definition Consume :: "error option \<Rightarrow> time \<Rightarrow> string \<Rightarrow> Manager \<Rightarrow> (error + bool) \<times> Manager" where
  "Consume ctx now value m =
     (case ctx of
        Some err \<Rightarrow> (Inl err, m)
      | None \<Rightarrow>
          (case map_of (m_live m) value of
             None \<Rightarrow> (Inr False, m)
           | Some expires \<Rightarrow>
               (Inr (Before now expires), m\<lparr>m_live := alist_del value (m_live m)\<rparr>)))"

definition Len :: "Manager \<Rightarrow> nat" where
  "Len m = length (m_live m)"

subsection \<open>Invariant\<close>

text \<open>Every outstanding nonce has its entry ahead of the head of the queue, and the bound is kept.\<close>

definition manager_ok :: "Manager \<Rightarrow> bool" where
  "manager_ok m \<longleftrightarrow>
     keys_distinct (m_live m) \<and> 0 < m_capacity m \<and> 0 < m_ttl m \<and>
     int (length (m_live m)) \<le> m_capacity m \<and> m_head m \<le> length (m_queue m) \<and>
     (\<forall>v x. map_of (m_live m) v = Some x \<longrightarrow> \<lparr>e_value = v, e_expires = x\<rparr> \<in> set (pending m))"

lemma nonce_New_ok: "manager_ok (nonce_New opts)"
  by (simp add: manager_ok_def nonce_New_def DefaultTTL_def DefaultCapacity_def second_def)

lemma compact_live [simp]: "m_live (compact m) = m_live m" "m_capacity (compact m) = m_capacity m"
  "m_ttl (compact m) = m_ttl m"
  by (simp_all add: compact_def)

lemma compact_ok: "manager_ok m \<Longrightarrow> manager_ok (compact m)"
  by (auto simp: manager_ok_def compact_def pending_def current_def)

text \<open>Dropping the entry at the head together with its nonce keeps the invariant.\<close>

lemma drop_head_ok:
  assumes ok: "manager_ok m" and h: "m_head m < length (m_queue m)"
  shows "manager_ok (m\<lparr>m_live := alist_del (e_value (m_queue m ! m_head m)) (m_live m),
    m_head := m_head m + 1\<rparr>)"
proof -
  let ?e = "m_queue m ! m_head m"
  have p: "pending m = ?e # drop (Suc (m_head m)) (m_queue m)"
    using h by (simp add: pending_def Cons_nth_drop_Suc)
  have "\<lparr>e_value = v, e_expires = x\<rparr> \<in> set (drop (Suc (m_head m)) (m_queue m))"
    if "map_of (m_live m) v = Some x" "v \<noteq> e_value ?e" for v x
  proof -
    have "\<lparr>e_value = v, e_expires = x\<rparr> \<in> set (pending m)"
      using ok that(1) by (simp add: manager_ok_def)
    moreover have "\<lparr>e_value = v, e_expires = x\<rparr> \<noteq> ?e"
      using that(2) by (metis entry.select_convs(1))
    ultimately show ?thesis by (simp add: p)
  qed
  then show ?thesis
    using ok h length_del_le [of "e_value ?e" "m_live m"]
    by (auto simp: manager_ok_def pending_def split: if_splits simp del: length_del_le)
qed

lemma drop_head_ok':
  assumes "manager_ok m" "m_head m < length (m_queue m)"
  shows "manager_ok (m\<lparr>m_head := m_head m + 1,
    m_live := alist_del (e_value (m_queue m ! m_head m)) (m_live m)\<rparr>)"
  using drop_head_ok [OF assms] by (simp add: manager_ok_def pending_def)

lemma purge_loop_ok: "manager_ok m \<Longrightarrow> manager_ok (purge_loop now m)"
proof (induction now m rule: purge_loop.induct)
  case (1 now m)
  then show ?case
    using drop_head_ok [of m] by (subst purge_loop.simps) (simp add: Let_def)
qed

lemma purge_ok: "manager_ok m \<Longrightarrow> manager_ok (purge now m)"
  by (simp add: purge_def compact_ok purge_loop_ok)

lemma evict_loop_ok: "manager_ok m \<Longrightarrow> manager_ok (evict_loop m)"
proof (induction m rule: evict_loop.induct)
  case (1 m)
  show ?case
  proof (cases "m_head m < length (m_queue m) \<and> map_of (m_live m) (e_value (m_queue m ! m_head m)) = None")
    case True
    then have "m\<lparr>m_head := m_head m + 1\<rparr> =
        m\<lparr>m_live := alist_del (e_value (m_queue m ! m_head m)) (m_live m), m_head := m_head m + 1\<rparr>"
      by (simp add: alist_del_absent)
    with drop_head_ok [OF "1.prems"] True have "manager_ok (m\<lparr>m_head := m_head m + 1\<rparr>)" by simp
    with 1 True show ?thesis by (subst evict_loop.simps) (simp add: Let_def)
  next
    case False
    with drop_head_ok' [OF "1.prems"] "1.prems" show ?thesis
      by (subst evict_loop.simps) (auto simp: Let_def)
  qed
qed

lemma evictOldest_ok: "manager_ok m \<Longrightarrow> manager_ok (evictOldest m)"
  by (simp add: evictOldest_def compact_ok evict_loop_ok)

lemma evict_surplus_ok: "manager_ok m \<Longrightarrow> manager_ok (evict_surplus m)"
proof (induction m rule: evict_surplus.induct)
  case (1 m)
  then show ?case
    by (subst evict_surplus.simps) (simp add: evictOldest_ok)
qed

text \<open>The loop ends with room for one more nonce: an empty queue means no outstanding nonce.\<close>

lemma evict_surplus_room:
  assumes "manager_ok m"
  shows "int (length (m_live (evict_surplus m))) < m_capacity (evict_surplus m)"
  using assms
proof (induction m rule: evict_surplus.induct)
  case (1 m)
  show ?case
  proof (cases "int (length (m_live m)) \<ge> m_capacity m \<and> m_head m < length (m_queue m)")
    case True
    with 1 show ?thesis by (subst (1 2) evict_surplus.simps) (simp add: evictOldest_ok)
  next
    case False
    have "m_live m = []" if "\<not> m_head m < length (m_queue m)"
    proof (cases "m_live m")
      case (Cons p l)
      then have "map_of (m_live m) (fst p) = Some (snd p)" by (cases p) simp
      with "1.prems" that show ?thesis by (force simp: manager_ok_def pending_def)
    qed
    with False "1.prems" show ?thesis
      by (subst (1 2) evict_surplus.simps) (auto simp: manager_ok_def)
  qed
qed

lemma Issue_ok:
  assumes ok: "manager_ok m" and i: "Issue ctx now reads m = Some (r, m')"
  shows "manager_ok m'"
proof -
  let ?m1 = "evict_surplus (purge now m)"
  have ok1: "manager_ok ?m1" by (simp add: ok purge_ok evict_surplus_ok)
  have room: "int (length (m_live ?m1)) < m_capacity ?m1"
    by (simp add: ok purge_ok evict_surplus_room)
  have "manager_ok (?m1\<lparr>m_live := alist_put v x (m_live ?m1),
      m_queue := m_queue ?m1 @ [\<lparr>e_value = v, e_expires = x\<rparr>]\<rparr>)" for v x
    using ok1 room length_put_le [of v x "m_live ?m1"]
    by (auto simp: manager_ok_def pending_def split: if_splits)
  with i ok ok1 show ?thesis
    by (auto simp: Issue_def Let_def split: option.splits sum.splits)
qed

lemma Consume_ok:
  assumes "manager_ok m" and "Consume ctx now v m = (r, m')"
  shows "manager_ok m'"
  using assms length_del_le [of v "m_live m"]
  by (auto simp: Consume_def manager_ok_def pending_def split: option.splits if_splits
      simp del: length_del_le)

subsection \<open>Nonces are only ever invalidated\<close>

lemma purge_loop_live: "map_of (m_live (purge_loop now m)) v = Some x \<Longrightarrow> map_of (m_live m) v = Some x"
proof (induction now m rule: purge_loop.induct)
  case (1 now m)
  note unfold = purge_loop.simps [of now m]
  show ?case
  proof (cases "m_head m < length (m_queue m)")
    case True
    then show ?thesis
      using 1(1) [OF True refl] 1(2) unfolding unfold
      by (auto simp: Let_def split: if_splits option.splits)
  next
    case False
    then show ?thesis using 1(2) unfolding unfold by simp
  qed
qed

lemma evict_loop_live: "map_of (m_live (evict_loop m)) v = Some x \<Longrightarrow> map_of (m_live m) v = Some x"
proof (induction m rule: evict_loop.induct)
  case (1 m)
  note unfold = evict_loop.simps [of m]
  show ?case
  proof (cases "m_head m < length (m_queue m)")
    case True
    then show ?thesis
      using 1(1) [OF True refl refl] 1(2) unfolding unfold
      by (auto simp: Let_def split: if_splits)
  next
    case False
    then show ?thesis using 1(2) unfolding unfold by simp
  qed
qed

lemma evict_surplus_live:
  "map_of (m_live (evict_surplus m)) v = Some x \<Longrightarrow> map_of (m_live m) v = Some x"
proof (induction m rule: evict_surplus.induct)
  case (1 m)
  show ?case
  proof (cases "int (length (m_live m)) \<ge> m_capacity m \<and> m_head m < length (m_queue m)")
    case True
    then have "evict_surplus m = evict_surplus (evictOldest m)"
      by (simp add: evict_surplus.simps [of m])
    with 1(1) [OF True] "1.prems" have "map_of (m_live (evictOldest m)) v = Some x" by simp
    then show ?thesis by (auto simp: evictOldest_def dest: evict_loop_live)
  next
    case False
    then have "evict_surplus m = m" by (simp only: evict_surplus.simps [of m] if_False)
    with "1.prems" show ?thesis by simp
  qed
qed

lemma cleaned_live:
  "map_of (m_live (evict_surplus (purge now m))) v = Some x \<Longrightarrow> map_of (m_live m) v = Some x"
  by (auto dest!: evict_surplus_live purge_loop_live simp: purge_def)

lemma draw_fresh: "draw reads live = Some (Inr v) \<Longrightarrow>
    map_of live v = None \<and> (\<exists>buf. Inr buf \<in> set reads \<and> v = encode_base64 buf)"
  by (induction reads live rule: draw.induct) (auto split: if_splits)

lemma draw_returns:
  "(\<exists>r\<in>set reads. case r of Inl _ \<Rightarrow> True | Inr buf \<Rightarrow> map_of live (encode_base64 buf) = None) \<longleftrightarrow>
     draw reads live \<noteq> None"
  by (induction reads live rule: draw.induct) auto

lemma Issue_Inr:
  assumes "Issue ctx now reads m = Some (Inr v, m')"
  shows "ctx = None"
    "draw reads (m_live (evict_surplus (purge now m))) = Some (Inr v)"
    "m' = (evict_surplus (purge now m))\<lparr>m_live :=
        alist_put v (now + m_ttl (evict_surplus (purge now m))) (m_live (evict_surplus (purge now m))),
      m_queue := m_queue (evict_surplus (purge now m)) @
        [\<lparr>e_value = v, e_expires = now + m_ttl (evict_surplus (purge now m))\<rparr>]\<rparr>"
  using assms by (auto simp: Issue_def Let_def split: option.splits sum.splits)

lemma Issue_Inl:
  assumes "Issue ctx now reads m = Some (Inl e, m')"
  shows "m' = m \<or> m' = evict_surplus (purge now m)"
  using assms by (auto simp: Issue_def Let_def split: option.splits sum.splits)

subsection \<open>The manager satisfies the contract\<close>

datatype nonce_op = OpIssue "error option" time "(error + bytes) list" | OpConsume "error option" time string

fun nonce_exec :: "nonce_op \<Rightarrow> Manager \<Rightarrow> (nonce_event \<times> Manager) option" where
  "nonce_exec (OpIssue ctx now reads) m =
     (case Issue ctx now reads m of
        None \<Rightarrow> None
      | Some (Inl _, m') \<Rightarrow> Some (Silent, m')
      | Some (Inr v, m') \<Rightarrow> Some (Issued v, m'))"
| "nonce_exec (OpConsume ctx now v) m =
     (case Consume ctx now v m of
        (Inr True, m') \<Rightarrow> Some (Accepted v, m')
      | (_, m') \<Rightarrow> Some (Silent, m'))"

definition nonce_step :: "Manager \<Rightarrow> nonce_event \<Rightarrow> Manager \<Rightarrow> bool" where
  "nonce_step m e m' \<longleftrightarrow> (\<exists>op. nonce_exec op m = Some (e, m'))"

definition outstanding :: "Manager \<Rightarrow> string \<Rightarrow> bool" where
  "outstanding m v \<longleftrightarrow> map_of (m_live m) v \<noteq> None"

lemma Issue_error_exec:
  "nonce_exec (OpIssue ctx now reads) m = Some (Silent, m') \<Longrightarrow> m' = m \<or> m' = evict_surplus (purge now m)"
  by (auto split: option.splits sum.splits dest: Issue_Inl)

lemma nonce_exec_Issued:
  assumes "nonce_exec op m = Some (Issued v, m')"
  obtains ctx now reads where "op = OpIssue ctx now reads" "Issue ctx now reads m = Some (Inr v, m')"
  using assms by (cases op) (auto split: option.splits sum.splits bool.splits prod.splits)

lemma nonce_exec_Accepted:
  assumes "nonce_exec op m = Some (Accepted v, m')"
  obtains ctx now where "op = OpConsume ctx now v" "Consume ctx now v m = (Inr True, m')"
  using assms by (cases op) (auto split: option.splits sum.splits bool.splits prod.splits)

interpretation manager: nonce_manager outstanding nonce_step
proof unfold_locales
  fix s v t w
  assume "nonce_step s (Issued v) t"
  then obtain ctx now reads where i: "Issue ctx now reads s = Some (Inr v, t)"
    by (auto simp: nonce_step_def elim: nonce_exec_Issued)
  note d = Issue_Inr [OF i]
  assume "outstanding t w"
  then show "outstanding s w \<or> w = v"
    using cleaned_live [of now s w] by (auto simp: d(3) outstanding_def split: if_splits)
next
  fix s v t
  assume "nonce_step s (Accepted v) t"
  then obtain ctx now where "Consume ctx now v s = (Inr True, t)"
    by (auto simp: nonce_step_def elim: nonce_exec_Accepted)
  then show "outstanding s v \<and> \<not> outstanding t v \<and> (\<forall>w. outstanding t w \<longrightarrow> outstanding s w)"
    by (auto simp: Consume_def outstanding_def split: option.splits if_splits)
next
  fix s t w
  assume "nonce_step s Silent t" "outstanding t w"
  then obtain op where op: "nonce_exec op s = Some (Silent, t)"
    by (auto simp: nonce_step_def)
  show "outstanding s w"
  proof (cases op)
    case (OpIssue ctx now reads)
    with op Issue_error_exec [of ctx now reads s t] have "t = s \<or> t = evict_surplus (purge now s)"
      by simp
    with \<open>outstanding t w\<close> show ?thesis
      using cleaned_live [of now s w] by (auto simp: outstanding_def)
  next
    case (OpConsume ctx now u)
    with op \<open>outstanding t w\<close> show ?thesis
      by (auto simp: Consume_def outstanding_def split: option.splits if_splits bool.splits)
  qed
qed

subsection \<open>Properties\<close>

text \<open>Runs of operations from a fresh manager, with the events they produce.\<close>

fun nonce_run :: "nonce_op list \<Rightarrow> Manager \<Rightarrow> (nonce_event list \<times> Manager) option" where
  "nonce_run [] m = Some ([], m)"
| "nonce_run (op # ops) m =
     (case nonce_exec op m of
        None \<Rightarrow> None
      | Some (e, m') \<Rightarrow>
          (case nonce_run ops m' of None \<Rightarrow> None | Some (es, m'') \<Rightarrow> Some (e # es, m'')))"

lemma nonce_run_runs: "nonce_run ops m = Some (es, m') \<Longrightarrow> runs nonce_step m es m'"
  by (induction ops arbitrary: m es) (fastforce simp: nonce_step_def split: option.splits prod.splits)+

lemma nonce_exec_ok: "manager_ok m \<Longrightarrow> nonce_exec op m = Some (e, m') \<Longrightarrow> manager_ok m'"
  by (cases op) (auto split: option.splits sum.splits prod.splits bool.splits intro: Issue_ok Consume_ok)

lemma nonce_run_ok: "nonce_run ops m = Some (es, m') \<Longrightarrow> manager_ok m \<Longrightarrow> manager_ok m'"
  by (induction ops arbitrary: m es) (auto split: option.splits prod.splits dest: nonce_exec_ok)

lemma loop_params [simp]:
  "m_ttl (purge_loop now m) = m_ttl m" "m_capacity (purge_loop now m) = m_capacity m"
  "m_queue (purge_loop now m) = m_queue m"
  by (induction now m rule: purge_loop.induct; subst purge_loop.simps, simp add: Let_def)+

lemma evict_loop_params [simp]:
  "m_ttl (evict_loop m) = m_ttl m" "m_capacity (evict_loop m) = m_capacity m"
  "m_queue (evict_loop m) = m_queue m"
  by (induction m rule: evict_loop.induct; subst evict_loop.simps, simp add: Let_def)+

lemma evict_surplus_params [simp]:
  "m_ttl (evict_surplus m) = m_ttl m" "m_capacity (evict_surplus m) = m_capacity m"
  by (induction m rule: evict_surplus.induct; subst evict_surplus.simps, simp add: evictOldest_def)+

lemma purge_params [simp]: "m_ttl (purge now m) = m_ttl m" "m_capacity (purge now m) = m_capacity m"
  by (simp_all add: purge_def)

text \<open>C24. Replay protection: in every sequence of calls on a new manager, whatever its options, clock,
  randomness and cancellations, a value is accepted at most as often as it was issued; a value issued
  once is accepted at most once.  The number of outstanding nonces never exceeds the capacity.\<close>

theorem nonce_accepted_once:
  assumes "nonce_run ops (nonce_New opts) = Some (es, m)"
  shows "count_list es (Accepted v) \<le> count_list es (Issued v) \<and> int (Len m) \<le> m_capacity m"
proof -
  have "\<not> outstanding (nonce_New opts) v"
    by (simp add: outstanding_def nonce_New_def)
  then have "count_list es (Accepted v) \<le> count_list es (Issued v)"
    using manager.accepted_le_issued [OF nonce_run_runs [OF assms], of v] by simp
  moreover have "int (Len m) \<le> m_capacity m"
    using nonce_run_ok [OF assms nonce_New_ok] by (simp add: manager_ok_def Len_def)
  ultimately show ?thesis by blast
qed


definition sample_reads :: "(error + bytes) list" where
  "sample_reads = [Inr (replicate 16 0), Inr (replicate 16 1)]"

definition sample_options :: Options where
  "sample_options = \<lparr>opt_TTL = 0, opt_Capacity = 1\<rparr>"

lemma sample_Issue:
  "\<exists>m'. Issue None 5 sample_reads (nonce_New sample_options) =
     Some (Inr (encode_base64 (replicate 16 0)), m')"
  by (simp add: Issue_def sample_reads_def nonce_New_def sample_options_def purge_def compact_def
      purge_loop.simps evict_surplus.simps Let_def DefaultTTL_def)

theorem nonce_accepted_once_witness:
  "\<exists>v es m. nonce_run [OpIssue None 5 sample_reads, OpConsume None 6 v, OpConsume None 7 v]
       (nonce_New sample_options) = Some (es, m) \<and>
     es = [Issued v, Accepted v, Silent] \<and> count_list es (Accepted v) \<le> count_list es (Issued v) \<and>
     int (Len m) \<le> m_capacity m"
proof -
  define v where "v = encode_base64 (replicate 16 0)"
  have "\<exists>m. nonce_run [OpIssue None 5 sample_reads, OpConsume None 6 v, OpConsume None 7 v]
       (nonce_New sample_options) = Some ([Issued v, Accepted v, Silent], m)"
    by (simp add: v_def Issue_def sample_reads_def nonce_New_def sample_options_def purge_def compact_def
        purge_loop.simps evict_surplus.simps Let_def DefaultTTL_def second_def Consume_def)
  then show ?thesis using nonce_accepted_once by blast
qed


subsection \<open>Bounded memory\<close>

definition queue_ok :: "Manager \<Rightarrow> bool" where
  "queue_ok m \<longleftrightarrow> distinct (map e_value (m_queue m)) \<and> int (length (m_queue m)) \<le> 2 * m_capacity m"

lemma compact_bound:
  assumes ok: "manager_ok m" and d: "distinct (map e_value (m_queue m))"
  shows "distinct (map e_value (m_queue (compact m)))"
    "int (length (m_queue (compact m))) < 2 * m_capacity m"
proof -
  let ?q = "filter (current m) (drop (m_head m) (m_queue m))"
  have dq: "distinct (map e_value ?q)"
    using d by (intro distinct_map_filter) (simp add: drop_map [symmetric])
  then show "distinct (map e_value (m_queue (compact m)))"
    using d by (simp add: compact_def)
  have "e_value ` set ?q \<subseteq> fst ` set (m_live m)"
    by (force simp: current_def dest: map_of_SomeD)
  then have "card (e_value ` set ?q) \<le> card (fst ` set (m_live m))"
    by (rule card_mono [rotated]) simp
  moreover have "card (e_value ` set ?q) = length ?q"
    using distinct_card [OF dq] by simp
  moreover have "card (fst ` set (m_live m)) \<le> length (m_live m)"
    by (metis card_length image_set length_map)
  ultimately have "length ?q \<le> length (m_live m)" by linarith
  then show "int (length (m_queue (compact m))) < 2 * m_capacity m"
    using ok by (auto simp: compact_def manager_ok_def)
qed

lemma compact_queue_subset: "set (m_queue (compact m)) \<subseteq> set (m_queue m)"
  by (auto simp: compact_def dest: in_set_dropD)

lemma evict_surplus_bound:
  assumes "manager_ok m" "distinct (map e_value (m_queue m))" "int (length (m_queue m)) < 2 * m_capacity m"
  shows "distinct (map e_value (m_queue (evict_surplus m))) \<and>
    int (length (m_queue (evict_surplus m))) < 2 * m_capacity m \<and>
    set (m_queue (evict_surplus m)) \<subseteq> set (m_queue m)"
  using assms
proof (induction m rule: evict_surplus.induct)
  case (1 m)
  show ?case
  proof (cases "int (length (m_live m)) \<ge> m_capacity m \<and> m_head m < length (m_queue m)")
    case True
    have b: "distinct (map e_value (m_queue (evictOldest m)))"
      "int (length (m_queue (evictOldest m))) < 2 * m_capacity m"
      "set (m_queue (evictOldest m)) \<subseteq> set (m_queue m)" "m_capacity (evictOldest m) = m_capacity m"
      using compact_bound [OF evict_loop_ok [OF "1.prems"(1)]] "1.prems"(2)
        compact_queue_subset [of "evict_loop m"]
      by (simp_all add: evictOldest_def)
    from True have "evict_surplus m = evict_surplus (evictOldest m)"
      by (simp add: evict_surplus.simps [of m])
    with 1(1) [OF True evictOldest_ok [OF "1.prems"(1)]] b show ?thesis by auto
  next
    case False
    then have "evict_surplus m = m" by (simp only: evict_surplus.simps [of m] if_False)
    with "1.prems" show ?thesis by simp
  qed
qed

lemma Issue_queue_ok:
  assumes ok: "manager_ok m" "queue_ok m" and i: "Issue ctx now reads m = Some (r, m')"
    and fresh: "\<And>buf. Inr buf \<in> set reads \<Longrightarrow> encode_base64 buf \<notin> e_value ` set (m_queue m)"
  shows "queue_ok m' \<and> m_capacity m' = m_capacity m \<and>
    e_value ` set (m_queue m') \<subseteq> e_value ` set (m_queue m) \<union>
      encode_base64 ` {buf. Inr buf \<in> set reads}"
proof -
  let ?m1 = "evict_surplus (purge now m)"
  have p: "distinct (map e_value (m_queue (purge now m)))"
    "int (length (m_queue (purge now m))) < 2 * m_capacity m"
    "set (m_queue (purge now m)) \<subseteq> set (m_queue m)"
    using compact_bound [OF purge_loop_ok [OF ok(1)]] ok(2) compact_queue_subset [of "purge_loop now m"]
    by (simp_all add: purge_def queue_ok_def)
  then have e: "distinct (map e_value (m_queue ?m1))" "int (length (m_queue ?m1)) < 2 * m_capacity m"
    "set (m_queue ?m1) \<subseteq> set (m_queue m)"
    using evict_surplus_bound [OF purge_ok [OF ok(1)]] by fastforce+
  show ?thesis
  proof (cases r)
    case (Inl err)
    with i ok e show ?thesis
      using Issue_Inl [of ctx now reads m err m'] by (auto simp: queue_ok_def)
  next
    case (Inr v)
    note d = Issue_Inr [OF i [unfolded Inr]]
    obtain buf where "Inr buf \<in> set reads" "v = encode_base64 buf"
      using draw_fresh [OF d(2)] by blast
    moreover from this fresh have "v \<notin> e_value ` set (m_queue m)" by simp
    then have "v \<notin> e_value ` set (m_queue ?m1)" using e(3) by auto
    ultimately show ?thesis
      using e by (auto simp: d(3) queue_ok_def)
  qed
qed

fun read_values :: "nonce_op \<Rightarrow> bytes list" where
  "read_values (OpIssue ctx now reads) = [buf. Inr buf \<leftarrow> reads]"
| "read_values (OpConsume ctx now v) = []"

lemma set_read_values: "set (read_values (OpIssue ctx now reads)) = {buf. Inr buf \<in> set reads}"
  by (auto split: sum.splits)

lemma encode_base64_inj: "encode_base64 b = encode_base64 c \<Longrightarrow> b = c"
  by (metis decode_strict_encode option.inject)

lemma nonce_exec_queue:
  assumes "manager_ok m" "queue_ok m" "nonce_exec op m = Some (e, m')"
    and "e_value ` set (m_queue m) \<inter> encode_base64 ` set (read_values op) = {}"
  shows "queue_ok m' \<and> m_capacity m' = m_capacity m \<and>
    e_value ` set (m_queue m') \<subseteq> e_value ` set (m_queue m) \<union> encode_base64 ` set (read_values op)"
proof (cases op)
  case (OpIssue ctx now reads)
  with assms(3) obtain r where i: "Issue ctx now reads m = Some (r, m')"
    by (auto split: option.splits sum.splits)
  show ?thesis
    using Issue_queue_ok [OF assms(1,2) i] assms(4) unfolding OpIssue set_read_values by blast
next
  case (OpConsume ctx now v)
  then show ?thesis
    using assms(2,3) by (auto simp: Consume_def queue_ok_def split: option.splits bool.splits)
qed

text \<open>C40. Bounded memory: if the random source never repeats a buffer, the queue of a manager never
  holds more than twice its capacity, however many nonces were issued, consumed or abandoned.\<close>

theorem nonce_queue_bounded:
  assumes "nonce_run ops (nonce_New opts) = Some (es, m)" and "distinct (concat (map read_values ops))"
  shows "int (length (m_queue m)) \<le> 2 * m_capacity m"
proof -
  have "queue_ok m" if "nonce_run ops n = Some (es, m)" "manager_ok n" "queue_ok n"
    "distinct (concat (map read_values ops))"
    "e_value ` set (m_queue n) \<inter> encode_base64 ` set (concat (map read_values ops)) = {}" for ops n es
    using that
  proof (induction ops arbitrary: n es)
    case (Cons op ops)
    then obtain e n' es' where e: "nonce_exec op n = Some (e, n')" and r: "nonce_run ops n' = Some (es', m)"
      by (auto split: option.splits prod.splits)
    have sep: "e_value ` set (m_queue n) \<inter> encode_base64 ` set (read_values op) = {}"
      using Cons.prems(5) by auto
    note q = nonce_exec_queue [OF Cons.prems(2,3) e sep]
    have "encode_base64 ` set (read_values op) \<inter> encode_base64 ` set (concat (map read_values ops)) = {}"
      using Cons.prems(4) by (auto dest!: encode_base64_inj)
    then have "e_value ` set (m_queue n') \<inter> encode_base64 ` set (concat (map read_values ops)) = {}"
      using q Cons.prems(5) by (simp del: set_concat) blast
    with Cons.IH [OF r nonce_exec_ok [OF Cons.prems(2) e]] q Cons.prems(4) show ?case by simp
  qed simp
  from this [OF assms(1) nonce_New_ok _ assms(2)] show ?thesis
    by (simp add: queue_ok_def nonce_New_def DefaultCapacity_def)
qed

theorem nonce_queue_bounded_witness:
  "\<exists>es m. nonce_run [OpIssue None 5 sample_reads] (nonce_New sample_options) = Some (es, m) \<and>
     int (length (m_queue m)) \<le> 2 * m_capacity m"
proof -
  obtain m' where "nonce_run [OpIssue None 5 sample_reads] (nonce_New sample_options) =
      Some ([Issued (encode_base64 (replicate 16 0))], m')"
    using sample_Issue by auto
  moreover from nonce_queue_bounded [OF this] have "int (length (m_queue m')) \<le> 2 * m_capacity m'"
    by (simp add: sample_reads_def)
  ultimately show ?thesis by blast
qed

end
