(* ===== verification/Server_World.thy ===== *)
theory Server_World
  imports Store_Guarantee Acme_Http Acme_X509 Nonce_Manager "HOL-Library.State_Monad"
begin

section \<open>Running the server among others\<close>

text \<open>
  The world a request handler or a worker runs in, and how its runs are reasoned about.  A handler is an action
  of the state monad over \<open>World\<close>: the store, the nonce manager, a counter of the calls made, and the list of the calls that
  matter to correctness, newest first.  \<open>Env\<close> holds what is not the server's: the clock, the random
  source, the host's validators, issuer and policies, the libraries, and \<open>env_other\<close>, what all
  other requests and workers do to the store before a call.  Each is indexed by the number of the call, so
  it may answer differently every time.

  \<open>spec\<close> is a total-correctness triple in the style of rely and guarantee: if the others follow \<open>proto\<close> then
  so does every write of the action, facts that \<open>proto\<close> keeps stay true across any call, and the events
  of the run are \<open>event_ok\<close>.
\<close>

subsection \<open>Requests to the host\<close>

text \<open>The structs of \<^verbatim>\<open>issuer.go\<close>.\<close>

record ValidationRequest =
  vr_Challenge :: Challenge
  vr_Identifier :: Identifier
  vr_Wildcard :: bool
  vr_KeyAuthorization :: string
  vr_AccountKeyThumbprint :: string
  vr_AuthorityToken :: string

record ValidationGrant =
  vg_CACertificate :: bool
  vg_Expires :: time
  vg_Names :: "Identifier list"
  vg_NFType :: string

record IssueRequest =
  iq_OperationID :: string
  iq_AccountID :: string
  iq_AccountURL :: string
  iq_OrderID :: string
  iq_CSR :: CSR
  iq_CSRDER :: bytes
  iq_Identifiers :: "Identifier list"
  iq_NotBefore :: time
  iq_NotAfter :: time
  iq_Validations :: "Validation list"
  iq_Deadline :: time
  iq_RecoveryOnly :: bool
  iq_Profile :: string

record RevokeRequest =
  rr_OperationID :: string
  rr_Certificate :: Leaf
  rr_DER :: bytes
  rr_Reason :: int
  rr_AccountID :: string

subsection \<open>The world\<close>

record Env =
  env_Names :: Names
  env_X509 :: X509
  env_Json :: Json
  env_Crypto :: Crypto
  env_Http :: Http
  env_now :: "nat \<Rightarrow> time"
  env_ctx :: "nat \<Rightarrow> error option"
  env_other :: "nat \<Rightarrow> Store \<Rightarrow> Store"
  env_other_nonces :: "nat \<Rightarrow> Manager \<Rightarrow> Manager"
  env_random :: "nat \<Rightarrow> error + bytes"
  env_nonce_reads :: "nat \<Rightarrow> (error + bytes) list"
  env_Validate :: "nat \<Rightarrow> ChallengeType \<Rightarrow> ValidationRequest \<Rightarrow> error option"
  env_ValidateGrant :: "nat \<Rightarrow> ChallengeType \<Rightarrow> ValidationRequest \<Rightarrow> error + ValidationGrant"
  env_Issue :: "nat \<Rightarrow> IssueRequest \<Rightarrow> IssueResult \<times> error option"
  env_AuthorizeIssuance :: "nat \<Rightarrow> IssueRequest \<Rightarrow> error option"
  env_Revoke :: "nat \<Rightarrow> RevokeRequest \<Rightarrow> error option"
  env_Allow :: "nat \<Rightarrow> LimitRequest \<Rightarrow> error option"
  env_NewAccount :: "nat \<Rightarrow> Account \<Rightarrow> error option"
  env_NewOrder :: "nat \<Rightarrow> Account \<Rightarrow> Order \<Rightarrow> error option \<times> Order"
  env_DefaultProfile :: "nat \<Rightarrow> Account \<Rightarrow> error + string"
  env_PreApprove :: "nat \<Rightarrow> Account \<Rightarrow> Order \<Rightarrow> (error + Identifier list) \<times> Order"
  env_MACKey :: "nat \<Rightarrow> string \<Rightarrow> error + bytes"
  env_RenewalInfo :: "nat \<Rightarrow> Certificate \<Rightarrow> error + RenewalInfo"

abbreviation env_sha256 :: "Env \<Rightarrow> bytes \<Rightarrow> bytes" where
  "env_sha256 E \<equiv> cr_SHA256 (env_Crypto E)"

text \<open>
  What is recorded: a write with the stores before and after it, an answer of a validator, a call of the issuer
  and a call of the revoker with the store at that moment and the answer, and a refusal reported to the host.
\<close>

datatype event =
    Wrote Store Store
  | Validated ValidationRequest "error + ValidationGrant"
  | Issued IssueRequest Store IssueResult "error option"
  | Revoking RevokeRequest Store "error option"
  | Refused Refusal

record World =
  w_store :: Store
  w_nonces :: Manager
  w_tick :: nat
  w_events :: "event list"
  w_request :: requestState
  w_response :: Response

type_synonym 'a action = "(World, 'a) state"

text \<open>The others act, then the call is made.  The result is the number of the call.\<close>

definition enter :: "Env \<Rightarrow> nat action" where
  "enter E = State (\<lambda>w. (w_tick w, w\<lparr>w_store := env_other E (w_tick w) (w_store w),
     w_nonces := env_other_nonces E (w_tick w) (w_nonces w), w_tick := w_tick w + 1\<rparr>))"

definition record_event :: "event \<Rightarrow> unit action" where
  "record_event e = State (\<lambda>w. ((), w\<lparr>w_events := e # w_events w\<rparr>))"

definition store_read :: "Env \<Rightarrow> (error option \<Rightarrow> Store \<Rightarrow> 'a) \<Rightarrow> 'a action" where
  "store_read E f = do { n \<leftarrow> enter E; w \<leftarrow> State_Monad.get; State_Monad.return (f (env_ctx E n) (w_store w)) }"

definition store_write :: "Env \<Rightarrow> (error option \<Rightarrow> Store \<Rightarrow> error + 'a \<times> Store) \<Rightarrow> (error + 'a) action" where
  "store_write E f = do {
     n \<leftarrow> enter E;
     w \<leftarrow> State_Monad.get;
     (case f (env_ctx E n) (w_store w) of
        Inl e \<Rightarrow> State_Monad.return (Inl e)
      | Inr (x, s') \<Rightarrow> do {
          State_Monad.set (w\<lparr>w_store := s', w_events := Wrote (w_store w) s' # w_events w\<rparr>);
          State_Monad.return (Inr x) }) }"

text \<open>\<^verbatim>\<open>s.clock.Now()\<close>, \<^verbatim>\<open>newID()\<close>, and a call of the host.\<close>

definition clock_Now :: "Env \<Rightarrow> time action" where
  "clock_Now E = do { n \<leftarrow> enter E; State_Monad.return (env_now E n) }"

definition draw_ID :: "Env \<Rightarrow> (error + string) action" where
  "draw_ID E = do { n \<leftarrow> enter E; State_Monad.return (newID (env_random E n)) }"

definition host_call :: "Env \<Rightarrow> (nat \<Rightarrow> 'a) \<Rightarrow> 'a action" where
  "host_call E f = do { n \<leftarrow> enter E; State_Monad.return (f n) }"

text \<open>A call of the host that is recorded with the store at that moment.\<close>

definition host_recorded :: "Env \<Rightarrow> (nat \<Rightarrow> 'a) \<Rightarrow> (Store \<Rightarrow> 'a \<Rightarrow> event) \<Rightarrow> 'a action" where
  "host_recorded E f ev = do {
     n \<leftarrow> enter E;
     w \<leftarrow> State_Monad.get;
     _ \<leftarrow> record_event (ev (w_store w) (f n));
     State_Monad.return (f n) }"

subsection \<open>What the events of a run must satisfy\<close>

text \<open>A write turns an authorization valid only after a validator accepted a response for it.\<close>

definition proved :: "event list \<Rightarrow> Store \<Rightarrow> Store \<Rightarrow> bool" where
  "proved es s s' \<longleftrightarrow>
     (\<forall>i a a'. st_authzs s i = Some a \<longrightarrow> st_authzs s' i = Some a' \<longrightarrow> az_Status a \<noteq> AuthorizationValid \<longrightarrow>
        az_Status a' = AuthorizationValid \<longrightarrow>
        (\<exists>req g c. Validated req (Inr g) \<in> set es \<and> st_challenges s (ch_ID (vr_Challenge req)) = Some c \<and>
           ch_AuthorizationID c = i \<and> vr_Identifier req = az_Identifier a \<and> vr_Wildcard req = az_Wildcard a \<and>
           vr_KeyAuthorization req = ch_Token c @ ''.'' @ ch_KeyThumbprint c))"

text \<open>A write makes an order valid only with a chain the issuer returned for it and \<open>checkChain\<close> accepted.\<close>

definition published :: "Env \<Rightarrow> event list \<Rightarrow> Store \<Rightarrow> Store \<Rightarrow> bool" where
  "published E es s s' \<longleftrightarrow>
     (\<forall>i v v'. st_orders s i = Some v \<longrightarrow> st_orders s' i = Some v' \<longrightarrow> ord_Status v \<noteq> OrderValid \<longrightarrow>
        ord_Status v' = OrderValid \<longrightarrow>
        (\<exists>req u res now leaf crt. Issued req u res None \<in> set es \<and> iq_OrderID req = i \<and>
           checkChain (env_X509 E) (env_Names E) (ir_Chain res) (iq_CSR req) v now = Inr leaf \<and>
           st_certificates s' (ord_CertificateID v') = Some crt \<and> crt_Chain crt = ir_Chain res))"

text \<open>The issuer is asked only for a dispatched order, with the request that was committed.\<close>

definition dispatched :: "Env \<Rightarrow> IssueRequest \<Rightarrow> Store \<Rightarrow> bool" where
  "dispatched E req s \<longleftrightarrow>
     (\<exists>v st. st_orders s (iq_OrderID req) = Some v \<and> ord_Issuance v = Some st \<and> ord_Status v \<notin> {OrderPending, OrderReady} \<and>
        iq_OperationID req = is_OperationID st \<and> iq_Validations req = is_Validations st \<and> iq_Deadline req = is_Deadline st \<and>
        iq_CSRDER req = ord_CSR v \<and> x5_ParseCSR (env_X509 E) (ord_CSR v) = Some (iq_CSR req) \<and>
        iq_Identifiers req = ord_Identifiers v \<and> iq_AccountID req = ord_AccountID v \<and>
        iq_NotBefore req = ord_NotBefore v \<and> iq_NotAfter req = issuedNotAfter v \<and> iq_Profile req = ord_Profile v)"

text \<open>The revoker is asked only for a certificate of the store, for an operation that was recorded with it.\<close>

definition revocation_recorded :: "Env \<Rightarrow> naming \<Rightarrow> RevokeRequest \<Rightarrow> Store \<Rightarrow> bool" where
  "revocation_recorded E G req s \<longleftrightarrow>
     (\<exists>u crt. healthy G u \<and> proto G u s \<and> st_certificates u (certificateID (env_sha256 E) (rr_DER req)) = Some crt \<and>
        crt_Chain crt \<noteq> [] \<and> hd (crt_Chain crt) = rr_DER req \<and> \<not> crt_Revoked crt \<and>
        crt_RevocationOperationID crt = rr_OperationID req \<and> crt_RevocationReason crt = rr_Reason req \<and>
        rr_OperationID req \<noteq> [])"

fun event_ok :: "Env \<Rightarrow> naming \<Rightarrow> event list \<Rightarrow> event \<Rightarrow> bool" where
  "event_ok E G es (Wrote s s') = (proto G s s' \<and> (healthy G s \<longrightarrow> proved es s s' \<and> published E es s s'))"
| "event_ok E G es (Validated req r) = True"
| "event_ok E G es (Issued req s res err) = dispatched E req s"
| "event_ok E G es (Revoking req s err) = revocation_recorded E G req s"
| "event_ok E G es (Refused refusal) = True"

fun events_ok :: "Env \<Rightarrow> naming \<Rightarrow> event list \<Rightarrow> bool" where
  "events_ok E G [] = True"
| "events_ok E G (e # es) = (event_ok E G es e \<and> events_ok E G es)"

text \<open>The stores recorded with an event, which lie in the past of the present one.\<close>

fun event_stores :: "event \<Rightarrow> Store list" where
  "event_stores (Wrote s s') = [s, s']"
| "event_stores (Validated req r) = []"
| "event_stores (Issued req s res err) = [s]"
| "event_stores (Revoking req s err) = [s]"
| "event_stores (Refused refusal) = []"

definition past_stores :: "naming \<Rightarrow> event list \<Rightarrow> Store \<Rightarrow> bool" where
  "past_stores G es t \<longleftrightarrow> (\<forall>e \<in> set es. \<forall>s \<in> set (event_stores e). healthy G s \<and> proto G s t)"

lemma past_stores_later: "past_stores G es s \<Longrightarrow> proto G s t \<Longrightarrow> past_stores G es t"
  unfolding past_stores_def using proto_trans by blast

lemma past_stores_Cons [simp]:
  "past_stores G [] t" "past_stores G (e # es) t \<longleftrightarrow>
     (\<forall>s \<in> set (event_stores e). healthy G s \<and> proto G s t) \<and> past_stores G es t"
  by (auto simp: past_stores_def)

subsection \<open>Stable facts\<close>

definition good :: "Env \<Rightarrow> naming \<Rightarrow> World \<Rightarrow> bool" where
  "good E G w \<longleftrightarrow> healthy G (w_store w) \<and> events_ok E G (w_events w) \<and> past_stores G (w_events w) (w_store w)"

definition leads :: "naming \<Rightarrow> World \<Rightarrow> World \<Rightarrow> bool" where
  "leads G w w' \<longleftrightarrow> proto G (w_store w) (w_store w') \<and> (\<exists>es. w_events w' = es @ w_events w) \<and> w_tick w \<le> w_tick w'"

lemma leads_refl [simp, intro]: "leads G w w"
  by (simp add: leads_def)

lemma leads_trans: "leads G u v \<Longrightarrow> leads G v w \<Longrightarrow> leads G u w"
  unfolding leads_def by (metis proto_trans append.assoc le_trans)

definition stable :: "naming \<Rightarrow> (World \<Rightarrow> bool) \<Rightarrow> bool" where
  "stable G P \<longleftrightarrow> (\<forall>w w'. P w \<longrightarrow> leads G w w' \<longrightarrow> P w')"

named_theorems stable_intros \<open>facts that others do not invalidate\<close>

lemma stableD: "stable G P \<Longrightarrow> P w \<Longrightarrow> leads G w w' \<Longrightarrow> P w'"
  unfolding stable_def by blast

lemma stable_const [stable_intros]: "stable G (\<lambda>w. c)"
  by (simp add: stable_def)

lemma stable_conj [stable_intros]: "stable G P \<Longrightarrow> stable G Q \<Longrightarrow> stable G (\<lambda>w. P w \<and> Q w)"
  unfolding stable_def by blast

lemma stable_disj [stable_intros]: "stable G P \<Longrightarrow> stable G Q \<Longrightarrow> stable G (\<lambda>w. P w \<or> Q w)"
  unfolding stable_def by blast

lemma stable_imp [stable_intros]: "(c \<Longrightarrow> stable G P) \<Longrightarrow> stable G (\<lambda>w. c \<longrightarrow> P w)"
  unfolding stable_def by blast

lemma stable_all [stable_intros]: "(\<And>x. stable G (P x)) \<Longrightarrow> stable G (\<lambda>w. \<forall>x. P x w)"
  unfolding stable_def by blast

lemma stable_ball [stable_intros]: "(\<And>x. x \<in> A \<Longrightarrow> stable G (P x)) \<Longrightarrow> stable G (\<lambda>w. \<forall>x\<in>A. P x w)"
  unfolding stable_def by blast

lemma stable_ex [stable_intros]: "(\<And>x. stable G (P x)) \<Longrightarrow> stable G (\<lambda>w. \<exists>x. P x w)"
  unfolding stable_def by blast

lemma stable_if [stable_intros]: "stable G P \<Longrightarrow> stable G Q \<Longrightarrow> stable G (\<lambda>w. if c then P w else Q w)"
  by (cases c) simp_all

lemma stable_sum [stable_intros]:
  "(\<And>x. r = Inr x \<Longrightarrow> stable G (P x)) \<Longrightarrow> (\<And>e. r = Inl e \<Longrightarrow> stable G (Q e)) \<Longrightarrow>
   stable G (\<lambda>w. case r of Inl e \<Rightarrow> Q e w | Inr x \<Rightarrow> P x w)"
  by (cases r) simp_all

lemma stable_option [stable_intros]:
  "(\<And>x. r = Some x \<Longrightarrow> stable G (P x)) \<Longrightarrow> (r = None \<Longrightarrow> stable G Q) \<Longrightarrow>
   stable G (\<lambda>w. case r of None \<Rightarrow> Q w | Some x \<Rightarrow> P x w)"
  by (cases r) simp_all

text \<open>The values an action has read or written are values the store held at some time.\<close>

definition seen :: "naming \<Rightarrow> (Store \<Rightarrow> bool) \<Rightarrow> World \<Rightarrow> bool" where
  "seen G p w \<longleftrightarrow> (\<exists>s. healthy G s \<and> proto G s (w_store w) \<and> p s)"

abbreviation saw_order :: "naming \<Rightarrow> Order \<Rightarrow> World \<Rightarrow> bool" where
  "saw_order G v \<equiv> seen G (\<lambda>s. st_orders s (ord_ID v) = Some v)"

abbreviation saw_authz :: "naming \<Rightarrow> Authorization \<Rightarrow> World \<Rightarrow> bool" where
  "saw_authz G a \<equiv> seen G (\<lambda>s. st_authzs s (az_ID a) = Some a)"

abbreviation saw_challenge :: "naming \<Rightarrow> Challenge \<Rightarrow> World \<Rightarrow> bool" where
  "saw_challenge G c \<equiv> seen G (\<lambda>s. st_challenges s (ch_ID c) = Some c)"

abbreviation saw_account :: "naming \<Rightarrow> Account \<Rightarrow> World \<Rightarrow> bool" where
  "saw_account G a \<equiv> seen G (\<lambda>s. st_accounts s (acc_ID a) = Some a)"

abbreviation saw_certificate :: "naming \<Rightarrow> Certificate \<Rightarrow> World \<Rightarrow> bool" where
  "saw_certificate G c \<equiv> seen G (\<lambda>s. st_certificates s (crt_ID c) = Some c)"

lemma stable_seen [stable_intros]: "stable G (seen G p)"
  unfolding stable_def seen_def leads_def using proto_trans by blast

lemma stable_event [stable_intros]: "stable G (\<lambda>w. e \<in> set (w_events w))"
  by (auto simp: stable_def leads_def)

lemma seen_now: "healthy G (w_store w) \<Longrightarrow> p (w_store w) \<Longrightarrow> seen G p w"
  unfolding seen_def by blast

text \<open>What is known now of a value seen earlier: it may have moved on, and under the same revision it is unchanged.\<close>

lemma saw_order_now:
  assumes "good E G w" "saw_order G v w"
  obtains v' where "st_orders (w_store w) (ord_ID v) = Some v'" "order_le v v'" "ord_Revision v' = ord_Revision v \<Longrightarrow> v' = v"
proof -
  obtain s where s: "healthy G s" "proto G s (w_store w)" "st_orders s (ord_ID v) = Some v"
    using assms(2) by (auto simp: seen_def)
  from proto_order [OF s(2,1,3)] obtain v' where "st_orders (w_store w) (ord_ID v) = Some v'" "order_le v v'" by blast
  then show thesis using that proto_same_revision(1) [OF s(2,3)] by blast
qed

lemma saw_authz_now:
  assumes "good E G w" "saw_authz G v w"
  obtains v' where "st_authzs (w_store w) (az_ID v) = Some v'" "authz_le v v'" "az_Revision v' = az_Revision v \<Longrightarrow> v' = v"
proof -
  obtain s where s: "healthy G s" "proto G s (w_store w)" "st_authzs s (az_ID v) = Some v"
    using assms(2) by (auto simp: seen_def)
  from proto_authz [OF s(2,1,3)] obtain v' where "st_authzs (w_store w) (az_ID v) = Some v'" "authz_le v v'" by blast
  then show thesis using that proto_same_revision(2) [OF s(2,3)] by blast
qed

lemma saw_challenge_now:
  assumes "good E G w" "saw_challenge G v w"
  obtains v' where "st_challenges (w_store w) (ch_ID v) = Some v'" "challenge_le v v'" "ch_Revision v' = ch_Revision v \<Longrightarrow> v' = v"
proof -
  obtain s where s: "healthy G s" "proto G s (w_store w)" "st_challenges s (ch_ID v) = Some v"
    using assms(2) by (auto simp: seen_def)
  from proto_challenge [OF s(2,1,3)] obtain v' where "st_challenges (w_store w) (ch_ID v) = Some v'" "challenge_le v v'" by blast
  then show thesis using that proto_same_revision(3) [OF s(2,3)] by blast
qed

lemma saw_account_now:
  assumes "good E G w" "saw_account G v w"
  obtains v' where "st_accounts (w_store w) (acc_ID v) = Some v'" "account_le v v'" "acc_Revision v' = acc_Revision v \<Longrightarrow> v' = v"
proof -
  obtain s where s: "healthy G s" "proto G s (w_store w)" "st_accounts s (acc_ID v) = Some v"
    using assms(2) by (auto simp: seen_def)
  from proto_account [OF s(2,1,3)] obtain v' where "st_accounts (w_store w) (acc_ID v) = Some v'" "account_le v v'" by blast
  then show thesis using that proto_same_revision(4) [OF s(2,3)] by blast
qed

lemma saw_certificate_now:
  assumes "good E G w" "saw_certificate G v w"
  obtains v' where "st_certificates (w_store w) (crt_ID v) = Some v'" "certificate_le v v'"
    "crt_Revision v' = crt_Revision v \<Longrightarrow> v' = v"
proof -
  obtain s where s: "healthy G s" "proto G s (w_store w)" "st_certificates s (crt_ID v) = Some v"
    using assms(2) by (auto simp: seen_def)
  from proto_certificate [OF s(2,1,3)] obtain v' where "st_certificates (w_store w) (crt_ID v) = Some v'" "certificate_le v v'"
    by blast
  then show thesis using that proto_same_revision(5) [OF s(2,3)] by blast
qed

lemma saw_same:
  assumes "good E G w"
  shows "saw_order G v w \<Longrightarrow> st_orders (w_store w) (ord_ID v) = Some v' \<Longrightarrow> ord_Revision v' = ord_Revision v \<Longrightarrow> v' = v"
    and "saw_authz G a w \<Longrightarrow> st_authzs (w_store w) (az_ID a) = Some a' \<Longrightarrow> az_Revision a' = az_Revision a \<Longrightarrow> a' = a"
    and "saw_challenge G c w \<Longrightarrow> st_challenges (w_store w) (ch_ID c) = Some c' \<Longrightarrow> ch_Revision c' = ch_Revision c \<Longrightarrow> c' = c"
    and "saw_account G u w \<Longrightarrow> st_accounts (w_store w) (acc_ID u) = Some u' \<Longrightarrow> acc_Revision u' = acc_Revision u \<Longrightarrow> u' = u"
    and "saw_certificate G x w \<Longrightarrow> st_certificates (w_store w) (crt_ID x) = Some x' \<Longrightarrow> crt_Revision x' = crt_Revision x \<Longrightarrow> x' = x"
  using saw_order_now [OF assms, of v] saw_authz_now [OF assms, of a] saw_challenge_now [OF assms, of c]
    saw_account_now [OF assms, of u] saw_certificate_now [OF assms, of x]
  by (metis option.inject)+

text \<open>Writes that leave authorizations and orders alone, or only create them, need no evidence.\<close>

lemma proved_same: "(\<And>i a. st_authzs s i = Some a \<Longrightarrow> st_authzs s' i = Some a) \<Longrightarrow> proved es s s'"
  by (auto simp: proved_def)

lemma published_same: "(\<And>i v. st_orders s i = Some v \<Longrightarrow> st_orders s' i = Some v) \<Longrightarrow> published E es s s'"
  by (auto simp: published_def)

subsection \<open>Triples\<close>

definition spec :: "Env \<Rightarrow> naming \<Rightarrow> (World \<Rightarrow> bool) \<Rightarrow> 'a action \<Rightarrow> ('a \<Rightarrow> World \<Rightarrow> bool) \<Rightarrow> bool" where
  "spec E G P m Q \<longleftrightarrow>
     (\<forall>w. good E G w \<longrightarrow> P w \<longrightarrow>
        (case run_state m w of (x, w') \<Rightarrow> leads G w w' \<and> good E G w' \<and> Q x w'))"

named_theorems spec_rules \<open>triples of the actions\<close>

lemma specD:
  assumes "spec E G P m Q" "good E G w" "P w" "run_state m w = (x, w')"
  shows "leads G w w'" "good E G w'" "Q x w'"
  using assms unfolding spec_def by fastforce+

lemma specI:
  assumes "\<And>w x w'. good E G w \<Longrightarrow> P w \<Longrightarrow> run_state m w = (x, w') \<Longrightarrow> leads G w w' \<and> good E G w' \<and> Q x w'"
  shows "spec E G P m Q"
  using assms unfolding spec_def by (auto split: prod.split)

lemma spec_return:
  "(\<And>w. good E G w \<Longrightarrow> P w \<Longrightarrow> Q x w) \<Longrightarrow> spec E G P (State_Monad.return x) Q"
  by (simp add: spec_def State_Monad.return_def)

lemma spec_bind:
  assumes m: "spec E G P m Q" and P: "stable G P" and f: "\<And>x. spec E G (\<lambda>w. P w \<and> Q x w) (f x) R"
  shows "spec E G P (State_Monad.bind m f) R"
proof (rule specI)
  fix w x w'
  assume w: "good E G w" "P w" and run: "run_state (State_Monad.bind m f) w = (x, w')"
  obtain y v where v: "run_state m w = (y, v)" by (cases "run_state m w")
  with run have run': "run_state (f y) v = (x, w')" by (simp add: State_Monad.bind_def)
  note m = specD [OF m w v]
  have "P v \<and> Q y v" using m w P stableD by blast
  from specD [OF f m(2) this run'] m show "leads G w w' \<and> good E G w' \<and> R x w'"
    using leads_trans by blast
qed

lemma spec_conseq:
  assumes "spec E G P' m Q'" "\<And>w. good E G w \<Longrightarrow> P w \<Longrightarrow> P' w" "\<And>x w. good E G w \<Longrightarrow> Q' x w \<Longrightarrow> Q x w"
  shows "spec E G P m Q"
  using assms unfolding spec_def by (fastforce split: prod.splits)

lemma spec_frame:
  assumes "spec E G P m Q" "stable G P"
  shows "spec E G P m (\<lambda>x w. P w \<and> Q x w)"
  using assms stableD unfolding spec_def by (fastforce split: prod.splits)

text \<open>A fact that the precondition implies may be used in the proof of the triple.\<close>

lemma spec_fact:
  assumes "\<And>w. good E G w \<Longrightarrow> P w \<Longrightarrow> c" and "c \<Longrightarrow> spec E G P m Q"
  shows "spec E G P m Q"
proof (cases c)
  case False
  then have "\<not> (good E G w \<and> P w)" for w using assms(1) by blast
  then show ?thesis by (simp add: spec_def)
qed (rule assms(2))

lemma spec_pure: "(c \<Longrightarrow> spec E G P m Q) \<Longrightarrow> spec E G (\<lambda>w. P w \<and> c) m Q"
  by (cases c) (simp_all add: spec_def)

lemma spec_if:
  "(c \<Longrightarrow> spec E G P a Q) \<Longrightarrow> (\<not> c \<Longrightarrow> spec E G P b Q) \<Longrightarrow> spec E G P (if c then a else b) Q"
  by simp

lemma spec_option:
  "(x = None \<Longrightarrow> spec E G P a Q) \<Longrightarrow> (\<And>y. x = Some y \<Longrightarrow> spec E G P (b y) Q) \<Longrightarrow>
   spec E G P (case x of None \<Rightarrow> a | Some y \<Rightarrow> b y) Q"
  by (cases x) simp_all

lemma spec_sum:
  "(\<And>e. x = Inl e \<Longrightarrow> spec E G P (a e) Q) \<Longrightarrow> (\<And>y. x = Inr y \<Longrightarrow> spec E G P (b y) Q) \<Longrightarrow>
   spec E G P (case x of Inl e \<Rightarrow> a e | Inr y \<Rightarrow> b y) Q"
  by (cases x) simp_all

lemma spec_prod: "(\<And>a b. x = (a, b) \<Longrightarrow> spec E G P (f a b) Q) \<Longrightarrow> spec E G P (case x of (a, b) \<Rightarrow> f a b) Q"
  by (cases x) simp

lemma spec_Let: "spec E G P (f x) Q \<Longrightarrow> spec E G P (let y = x in f y) Q"
  by simp

lemmas spec_splits = spec_if spec_option spec_sum spec_prod spec_Let

subsection \<open>The calls\<close>

text \<open>
  What is relied on: whatever the others do to the store follows the protocol, and the error of a context is one
  of the two of the package \<^verbatim>\<open>context\<close>.
\<close>

definition context_error :: "error \<Rightarrow> bool" where
  "context_error e \<longleftrightarrow> e = ErrorNew ''context canceled'' \<or> e = ErrorNew ''context deadline exceeded''"

definition rely :: "Env \<Rightarrow> naming \<Rightarrow> bool" where
  "rely E G \<longleftrightarrow> (\<forall>n s. healthy G s \<longrightarrow> proto G s (env_other E n s)) \<and>
     (\<forall>n. case env_ctx E n of None \<Rightarrow> True | Some e \<Rightarrow> context_error e)"

definition at_read :: "Env \<Rightarrow> naming \<Rightarrow> (World \<Rightarrow> bool) \<Rightarrow> (Store \<Rightarrow> bool) \<Rightarrow> bool" where
  "at_read E G P p \<longleftrightarrow> (\<exists>w. good E G w \<and> P w \<and> p (w_store w))"

locale world =
  fixes E :: Env and G :: naming
  assumes others: "rely E G"
begin

lemma enter_leads:
  assumes "good E G w" "run_state (enter E) w = (n, w')"
  shows "leads G w w'" "good E G w'" "w_events w' = w_events w"
proof -
  have w': "w' = w\<lparr>w_store := env_other E n (w_store w), w_nonces := env_other_nonces E n (w_nonces w), w_tick := w_tick w + 1\<rparr>"
    using assms(2) by (auto simp: enter_def)
  have p: "proto G (w_store w) (env_other E n (w_store w))"
    using assms(1) others by (simp add: good_def rely_def)
  then show "leads G w w'" "good E G w'" "w_events w' = w_events w"
    using proto_healthy [OF p] past_stores_later [OF _ p] assms(1) by (simp_all add: w' leads_def good_def)
qed

lemma ctx_error: "env_ctx E n = Some e \<Longrightarrow> context_error e"
  using others unfolding rely_def by (metis option.simps(5))

lemma ctx_sentinel:
  "env_ctx E n = Some e \<Longrightarrow> \<not> errors_Is e ErrNotFound \<and> \<not> errors_Is e ErrConflict \<and> \<not> errors_Is e ErrRevisionMismatch"
  by (drule ctx_error) (auto simp: context_error_def)

lemma spec_enter: "spec E G P (enter E) (\<lambda>_ _. True)"
  using enter_leads by (intro specI) blast

lemma spec_read:
  assumes "stable G P" and "\<And>n w. good E G w \<Longrightarrow> P w \<Longrightarrow> Q (f (env_ctx E n) (w_store w)) w"
  shows "spec E G P (store_read E f) Q"
proof (rule specI)
  fix w x w'
  assume w: "good E G w" "P w" and run: "run_state (store_read E f) w = (x, w')"
  obtain n v where v: "run_state (enter E) w = (n, v)" by (cases "run_state (enter E) w")
  with run have "x = f (env_ctx E n) (w_store v)" "w' = v"
    by (auto simp: store_read_def State_Monad.bind_def State_Monad.get_def State_Monad.return_def)
  then show "leads G w w' \<and> good E G w' \<and> Q x w'"
    using enter_leads [OF w(1) v] assms stableD [OF assms(1) w(2)] by simp
qed

text \<open>
  A write: the caller must know that, where it succeeds, it follows the protocol and does not validate or
  publish without evidence.  Of a failure only the error is known.
\<close>

lemma spec_write:
  assumes "stable G P"
    and step: "\<And>n w x s'. good E G w \<Longrightarrow> P w \<Longrightarrow> f (env_ctx E n) (w_store w) = Inr (x, s') \<Longrightarrow>
      proto G (w_store w) s' \<and> proved (w_events w) (w_store w) s' \<and> published E (w_events w) (w_store w) s'"
    and post: "\<And>n w x s' w'. good E G w \<Longrightarrow> good E G w' \<Longrightarrow> P w \<Longrightarrow> f (env_ctx E n) (w_store w) = Inr (x, s') \<Longrightarrow> w_store w' = s' \<Longrightarrow> Q (Inr x) w'"
    and fail: "\<And>n w e. good E G w \<Longrightarrow> P w \<Longrightarrow> f (env_ctx E n) (w_store w) = Inl e \<Longrightarrow> Q (Inl e) w"
  shows "spec E G P (store_write E f) Q"
proof (rule specI)
  fix w x w'
  assume w: "good E G w" "P w" and run: "run_state (store_write E f) w = (x, w')"
  obtain n v where v: "run_state (enter E) w = (n, v)" by (cases "run_state (enter E) w")
  note e = enter_leads [OF w(1) v]
  have Pv: "P v" using stableD [OF assms(1) w(2) e(1)] .
  show "leads G w w' \<and> good E G w' \<and> Q x w'"
  proof (cases "f (env_ctx E n) (w_store v)")
    case (Inl err)
    with run v have "x = Inl err" "w' = v"
      by (auto simp: store_write_def State_Monad.bind_def State_Monad.get_def State_Monad.return_def)
    then show ?thesis using e fail [OF e(2) Pv Inl] by simp
  next
    case (Inr r)
    obtain y s' where r: "r = (y, s')" by (cases r)
    with Inr run v have x: "x = Inr y" "w' = v\<lparr>w_store := s', w_events := Wrote (w_store v) s' # w_events v\<rparr>"
      by (auto simp: store_write_def State_Monad.bind_def State_Monad.get_def State_Monad.set_def State_Monad.return_def)
    note st = step [OF e(2) Pv Inr [unfolded r]]
    have "leads G v w'" using st by (simp add: leads_def x)
    moreover have "good E G w'"
      using e(2) st proto_healthy past_stores_later by (auto simp: good_def x)
    moreover from this have "Q x w'"
      using post [OF e(2) _ Pv Inr [unfolded r], of w'] by (simp add: x)
    ultimately show ?thesis using e(1) leads_trans by blast
  qed
qed

lemma spec_now: "spec E G P (clock_Now E) (\<lambda>_ _. True)"
  using spec_enter by (simp add: clock_Now_def spec_def State_Monad.bind_def State_Monad.return_def split_def)

lemma spec_draw: "spec E G P (draw_ID E) (\<lambda>r _. \<exists>n. r = newID (env_random E n))"
  using spec_enter by (auto simp: draw_ID_def spec_def State_Monad.bind_def State_Monad.return_def split_def)

lemma spec_host: "spec E G P (host_call E f) (\<lambda>x _. \<exists>n. x = f n)"
  using spec_enter by (auto simp: host_call_def spec_def State_Monad.bind_def State_Monad.return_def split_def)

lemma spec_record:
  assumes "\<And>w. good E G w \<Longrightarrow> P w \<Longrightarrow> event_ok E G (w_events w) e" and "event_stores e = []"
  shows "spec E G P (record_event e) (\<lambda>_ w. e \<in> set (w_events w))"
  using assms by (auto simp: spec_def record_event_def good_def leads_def)

lemma spec_host_recorded:
  assumes P: "stable G P" and ok: "\<And>w x. good E G w \<Longrightarrow> P w \<Longrightarrow> event_ok E G (w_events w) (ev (w_store w) x)"
    and stores: "\<And>s x. event_stores (ev s x) = [s]"
  shows "spec E G P (host_recorded E f ev) (\<lambda>x w. \<exists>s. ev s x \<in> set (w_events w))"
proof (rule specI)
  fix w x w'
  assume w: "good E G w" "P w" and run: "run_state (host_recorded E f ev) w = (x, w')"
  obtain n u where u: "run_state (enter E) w = (n, u)" by (cases "run_state (enter E) w")
  note e = enter_leads [OF w(1) u]
  from run u have x: "x = f n" "w' = u\<lparr>w_events := ev (w_store u) x # w_events u\<rparr>"
    by (auto simp: host_recorded_def record_event_def State_Monad.bind_def State_Monad.get_def State_Monad.return_def)
  have "leads G u w'" by (simp add: leads_def x(2))
  moreover have "good E G w'"
    using e(2) ok [OF e(2) stableD [OF P w(2) e(1)]] by (simp add: good_def x(2) stores)
  ultimately show "leads G w w' \<and> good E G w' \<and> (\<exists>s. ev s x \<in> set (w_events w'))"
    using e(1) leads_trans by (auto simp: x(2))
qed

text \<open>
  Reading one resource.  \<open>at_read P p\<close> says that the store satisfied \<open>p\<close> at a moment when \<open>P\<close> held, so what
  was read may be compared with what was read before.
\<close>

lemma good_ids:
  assumes "good E G w"
  shows "st_orders (w_store w) i = Some v \<Longrightarrow> ord_ID v = i" "st_authzs (w_store w) i = Some a \<Longrightarrow> az_ID a = i"
    "st_challenges (w_store w) i = Some c \<Longrightarrow> ch_ID c = i" "st_accounts (w_store w) i = Some u \<Longrightarrow> acc_ID u = i"
    "st_certificates (w_store w) i = Some x \<Longrightarrow> crt_ID x = i"
  using assms healthy_ids by (auto simp: good_def)

lemma good_healthy: "good E G w \<Longrightarrow> healthy G (w_store w)"
  by (simp add: good_def)

lemma spec_Order:
  assumes "stable G P"
  shows "spec E G P (store_read E (\<lambda>ctx. get_Order ctx i))
     (\<lambda>r w. case r of Inr v \<Rightarrow> ord_ID v = i \<and> saw_order G v w \<and> at_read E G P (\<lambda>s. st_orders s i = Some v)
      | Inl e \<Rightarrow> errors_Is e ErrNotFound \<longrightarrow> at_read E G P (\<lambda>s. st_orders s i = None))"
  using assms
proof (rule spec_read)
  fix n w
  assume "good E G w" "P w"
  then show "case get_Order (env_ctx E n) i (w_store w) of Inr v \<Rightarrow> ord_ID v = i \<and> saw_order G v w \<and> at_read E G P (\<lambda>s. st_orders s i = Some v)
      | Inl e \<Rightarrow> errors_Is e ErrNotFound \<longrightarrow> at_read E G P (\<lambda>s. st_orders s i = None)"
    using ctx_sentinel good_ids(1)
    by (auto simp: get_Order_def with_ctx_def good_healthy at_read_def split: option.splits intro!: seen_now)
qed

lemma spec_Authorization:
  assumes "stable G P"
  shows "spec E G P (store_read E (\<lambda>ctx. get_Authorization ctx i))
     (\<lambda>r w. case r of Inr v \<Rightarrow> az_ID v = i \<and> saw_authz G v w \<and> at_read E G P (\<lambda>s. st_authzs s i = Some v)
      | Inl e \<Rightarrow> errors_Is e ErrNotFound \<longrightarrow> at_read E G P (\<lambda>s. st_authzs s i = None))"
  using assms
proof (rule spec_read)
  fix n w
  assume "good E G w" "P w"
  then show "case get_Authorization (env_ctx E n) i (w_store w) of Inr v \<Rightarrow> az_ID v = i \<and> saw_authz G v w \<and> at_read E G P (\<lambda>s. st_authzs s i = Some v)
      | Inl e \<Rightarrow> errors_Is e ErrNotFound \<longrightarrow> at_read E G P (\<lambda>s. st_authzs s i = None)"
    using ctx_sentinel good_ids(2)
    by (auto simp: get_Authorization_def with_ctx_def good_healthy at_read_def split: option.splits intro!: seen_now)
qed

lemma spec_Challenge:
  assumes "stable G P"
  shows "spec E G P (store_read E (\<lambda>ctx. get_Challenge ctx i))
     (\<lambda>r w. case r of Inr v \<Rightarrow> ch_ID v = i \<and> saw_challenge G v w \<and> at_read E G P (\<lambda>s. st_challenges s i = Some v)
      | Inl e \<Rightarrow> errors_Is e ErrNotFound \<longrightarrow> at_read E G P (\<lambda>s. st_challenges s i = None))"
  using assms
proof (rule spec_read)
  fix n w
  assume "good E G w" "P w"
  then show "case get_Challenge (env_ctx E n) i (w_store w) of Inr v \<Rightarrow> ch_ID v = i \<and> saw_challenge G v w \<and> at_read E G P (\<lambda>s. st_challenges s i = Some v)
      | Inl e \<Rightarrow> errors_Is e ErrNotFound \<longrightarrow> at_read E G P (\<lambda>s. st_challenges s i = None)"
    using ctx_sentinel good_ids(3)
    by (auto simp: get_Challenge_def with_ctx_def good_healthy at_read_def split: option.splits intro!: seen_now)
qed

lemma spec_Account:
  assumes "stable G P"
  shows "spec E G P (store_read E (\<lambda>ctx. get_Account ctx i))
     (\<lambda>r w. case r of Inr v \<Rightarrow> acc_ID v = i \<and> saw_account G v w \<and> at_read E G P (\<lambda>s. st_accounts s i = Some v)
      | Inl e \<Rightarrow> errors_Is e ErrNotFound \<longrightarrow> at_read E G P (\<lambda>s. st_accounts s i = None))"
  using assms
proof (rule spec_read)
  fix n w
  assume "good E G w" "P w"
  then show "case get_Account (env_ctx E n) i (w_store w) of Inr v \<Rightarrow> acc_ID v = i \<and> saw_account G v w \<and> at_read E G P (\<lambda>s. st_accounts s i = Some v)
      | Inl e \<Rightarrow> errors_Is e ErrNotFound \<longrightarrow> at_read E G P (\<lambda>s. st_accounts s i = None)"
    using ctx_sentinel good_ids(4)
    by (auto simp: get_Account_def with_ctx_def good_healthy at_read_def split: option.splits intro!: seen_now)
qed

lemma spec_Certificate:
  assumes "stable G P"
  shows "spec E G P (store_read E (\<lambda>ctx. get_Certificate ctx i))
     (\<lambda>r w. case r of Inr v \<Rightarrow> crt_ID v = i \<and> saw_certificate G v w \<and> at_read E G P (\<lambda>s. st_certificates s i = Some v) | Inl e \<Rightarrow> True)"
  using assms
proof (rule spec_read)
  fix n w
  assume "good E G w" "P w"
  then show "case get_Certificate (env_ctx E n) i (w_store w) of Inr v \<Rightarrow> crt_ID v = i \<and> saw_certificate G v w \<and> at_read E G P (\<lambda>s. st_certificates s i = Some v) | Inl e \<Rightarrow> True"
    using good_ids(5)
    by (auto simp: get_Certificate_def with_ctx_def good_healthy at_read_def split: option.splits intro!: seen_now)
qed

text \<open>
  The same as rules for a program that goes on with the result: what is known of it for good becomes an assumption of
  the rest.
\<close>

lemma bind_now:
  "stable G P \<Longrightarrow> (\<And>now. spec E G P (f now) R) \<Longrightarrow> spec E G P (State_Monad.bind (clock_Now E) f) R"
  by (rule spec_bind [OF spec_now]) simp_all

lemma bind_draw:
  assumes "stable G P" "\<And>e. spec E G P (f e) R" "\<And>n i. newID (env_random E n) = Inr i \<Longrightarrow> spec E G P (g i) R"
  shows "spec E G P (State_Monad.bind (draw_ID E) (case_sum f g)) R"
  using assms(1)
proof (rule spec_bind [OF spec_draw], intro spec_pure)
  fix r :: "error + string"
  assume "\<exists>n. r = newID (env_random E n)"
  then show "spec E G P (case_sum f g r) R"
    using assms(2,3) by (cases r) (auto simp: eq_commute)
qed

lemma bind_host:
  assumes "stable G P" "\<And>n. spec E G P (f (h n)) R"
  shows "spec E G P (State_Monad.bind (host_call E h) f) R"
  using assms(1)
proof (rule spec_bind [OF spec_host], intro spec_pure)
  show "spec E G P (f x) R" if "\<exists>n. x = h n" for x
    using that assms(2) by blast
qed

lemma bind_unit:
  "spec E G P m (\<lambda>_ _. True) \<Longrightarrow> stable G P \<Longrightarrow> (\<And>x. spec E G P (f x) R) \<Longrightarrow> spec E G P (State_Monad.bind m f) R"
  by (rule spec_bind) (assumption+, rule spec_pure)

lemma bind_sum:
  assumes m: "spec E G P m (\<lambda>r w. case r of Inl e \<Rightarrow> (b e \<longrightarrow> c) | Inr v \<Rightarrow> d v \<and> Q v w \<and> h v)" and P: "stable G P"
    and f: "\<And>e. (b e \<Longrightarrow> c) \<Longrightarrow> spec E G P (f e) R"
    and g: "\<And>v. d v \<Longrightarrow> h v \<Longrightarrow> spec E G (\<lambda>w. P w \<and> Q v w) (g v) R"
  shows "spec E G P (State_Monad.bind m (case_sum f g)) R"
proof (rule spec_bind [OF m P])
  fix r
  show "spec E G (\<lambda>w. P w \<and> (case r of Inl e \<Rightarrow> (b e \<longrightarrow> c) | Inr v \<Rightarrow> d v \<and> Q v w \<and> h v)) (case_sum f g r) R"
  proof (cases r)
    case (Inl e)
    then show ?thesis using f by (auto intro: spec_pure)
  next
    case (Inr v)
    have "spec E G (\<lambda>w. (P w \<and> Q v w) \<and> d v \<and> h v) (g v) R"
      using g by (intro spec_pure) blast
    then show ?thesis using Inr by (auto elim: spec_conseq)
  qed
qed

lemmas bind_Order = bind_sum [OF spec_Order]
  and bind_Authorization = bind_sum [OF spec_Authorization]
  and bind_Challenge = bind_sum [OF spec_Challenge]
  and bind_Account = bind_sum [OF spec_Account]

lemma bind_write:
  assumes w: "spec E G P (store_write E m) (\<lambda>r w. case r of Inl e \<Rightarrow> True | Inr v \<Rightarrow> Q v w)" and P: "stable G P"
    and f: "\<And>e. spec E G P (f e) R" and g: "\<And>v. spec E G (\<lambda>w. P w \<and> Q v w) (g v) R"
  shows "spec E G P (State_Monad.bind (store_write E m) (case_sum f g)) R"
proof (rule spec_bind [OF w P])
  fix r
  show "spec E G (\<lambda>w. P w \<and> (case r of Inl e \<Rightarrow> True | Inr v \<Rightarrow> Q v w)) (case_sum f g r) R"
    by (cases r) (use f g in \<open>auto intro: spec_conseq\<close>)
qed

end

text \<open>The rely condition holds when nothing else runs, and when the others call the store as the protocol allows.\<close>

definition quiet :: "Env \<Rightarrow> Env" where
  "quiet E = E\<lparr>env_other := \<lambda>_ s. s, env_other_nonces := \<lambda>_ m. m, env_ctx := \<lambda>_. None\<rparr>"

interpretation alone: world "quiet E" G for E G
  by unfold_locales (simp add: rely_def quiet_def)

end
