(* ===== verification/Challenge_Wire.thy ===== *)
theory Challenge_Wire
  imports Server_World
begin

section \<open>The network seen by a challenge validator\<close>

text \<open>
  The parts the validators of \<^verbatim>\<open>challenge/\<close> share.  A validator is an action of the state monad over the history of the network
  calls made so far, newest first.  \<open>Wire\<close> is the outside world: for every history it says what the next call returns,
  so that an answer may depend on everything that went before.  Deadlines are not modelled: a call that exceeds one is a call that
  returns an error.

  Also here: how a failure is classified (\<^verbatim>\<open>retryable\<close>, \<^verbatim>\<open>incorrect\<close> and \<^verbatim>\<open>dnsFailure\<close>), the checks on a request before any
  network access (\<^verbatim>\<open>checkRequest\<close>), what is used of the packages \<^verbatim>\<open>net\<close>, \<^verbatim>\<open>net/url\<close> and \<^verbatim>\<open>strconv\<close>, and the
  rules for triples over histories.
\<close>

subsection \<open>Addresses and ports\<close>

text \<open>A \<^verbatim>\<open>netip.Addr\<close> is possibly the zero value, which is no address.\<close>

type_synonym netip_Addr = "Addr option"

datatype AddrPort = AddrPort (ap_Addr: netip_Addr) (ap_Port: nat)

text \<open>The text before and after the last occurrence of a character.\<close>

definition cut_last :: "string \<Rightarrow> char \<Rightarrow> (string \<times> string) option" where
  "cut_last s c = map_option (\<lambda>(after, before). (rev before, rev after)) (cut (rev s) c)"

text \<open>\<^verbatim>\<open>strings.Contains\<close>.\<close>

fun contains_text :: "string \<Rightarrow> string \<Rightarrow> bool" where
  "contains_text [] t = (t = [])"
| "contains_text (c # s) t = (has_prefix (c # s) t \<or> contains_text s t)"

fun dec_value :: "nat \<Rightarrow> string \<Rightarrow> nat option" where
  "dec_value n [] = Some n"
| "dec_value n (c # s) = (case dec_digit c of None \<Rightarrow> None | Some d \<Rightarrow> dec_value (n * 10 + d) s)"

text \<open>\<^verbatim>\<open>strconv.Atoi\<close>: an optional sign, digits, and a value that fits an \<^verbatim>\<open>int\<close>.\<close>

definition Atoi :: "string \<Rightarrow> int option" where
  "Atoi s =
     (let signed = s \<noteq> [] \<and> (hd s = CHR ''+'' \<or> hd s = CHR ''-'');
          ds = (if signed then tl s else s) in
      if ds = [] then None
      else case dec_value 0 ds of
        None \<Rightarrow> None
      | Some n \<Rightarrow>
          (let v = (if signed \<and> hd s = CHR ''-'' then - int n else int n) in
           if - (2 ^ 63) \<le> v \<and> v < 2 ^ 63 then Some v else None))"

text \<open>\<^verbatim>\<open>net.JoinHostPort\<close> and \<^verbatim>\<open>net.SplitHostPort\<close>.\<close>

definition JoinHostPort :: "string \<Rightarrow> string \<Rightarrow> string" where
  "JoinHostPort host port =
     (if CHR '':'' \<in> set host then ''['' @ host @ '']:'' @ port else host @ '':'' @ port)"

definition SplitHostPort :: "string \<Rightarrow> (string \<times> string) option" where
  "SplitHostPort hostport =
     (case cut_last hostport (CHR '':'') of
        None \<Rightarrow> None
      | Some (before, port) \<Rightarrow>
          if hd hostport = CHR ''['' then
            (case cut hostport (CHR '']'') of
               None \<Rightarrow> None
             | Some (open_host, after) \<Rightarrow>
                 if before \<noteq> open_host @ '']'' then None
                 else if CHR ''['' \<in> set (tl hostport) \<or> CHR '']'' \<in> set after then None
                 else Some (tl open_host, port))
          else if CHR '':'' \<in> set before then None
          else if CHR ''['' \<in> set hostport \<or> CHR '']'' \<in> set hostport then None
          else Some (before, port))"

text \<open>\<^verbatim>\<open>URL.Hostname\<close> and \<^verbatim>\<open>URL.Port\<close>: the host without an optional numeric port and without brackets.\<close>

definition validOptionalPort :: "string \<Rightarrow> bool" where
  "validOptionalPort port \<longleftrightarrow> list_all (\<lambda>c. dec_digit c \<noteq> None) port"

definition split_url_host :: "string \<Rightarrow> string \<times> string" where
  "split_url_host hostport =
     (let (host, port) = (case cut_last hostport (CHR '':'') of
                            Some (h, p) \<Rightarrow> if validOptionalPort p then (h, p) else (hostport, [])
                          | None \<Rightarrow> (hostport, [])) in
      (if host \<noteq> [] \<and> hd host = CHR ''['' \<and> last host = CHR '']'' then butlast (tl host) else host, port))"

definition url_Hostname :: "URL \<Rightarrow> string" where
  "url_Hostname u = fst (split_url_host (url_Host u))"

definition url_Port :: "URL \<Rightarrow> string" where
  "url_Port u = snd (split_url_host (url_Host u))"

subsection \<open>Calls and their history\<close>

text \<open>
  A question to a DNS server with the message sent, a connection opened to a destination, an HTTP request sent over the
  connection to a destination, and a TLS handshake over one with the server name sent.
\<close>

datatype wire_event =
    Asked AddrPort bytes
  | Dialed string
  | Fetched string URL
  | Shook string string

type_synonym trace = "wire_event list"
type_synonym 'a wire = "(trace, 'a) state"

text \<open>
  An HTTP response as far as the client and the validator read it; \<open>hr_Fails\<close> is the error a reader meets after the bytes of the
  body, if any.  A TLS connection state with the extensions of each peer certificate: identifier, critical flag and value.
\<close>

record HTTPResponse =
  hr_StatusCode :: int
  hr_Location :: string
  hr_Body :: string
  hr_Fails :: "error option"

record PeerCertificate =
  pc_Extensions :: "(nat list \<times> bool \<times> bytes) list"

record ConnectionState =
  cs_NegotiatedProtocol :: string
  cs_PeerCertificates :: "PeerCertificate list"

text \<open>
  \<open>wi_Err\<close> is \<^verbatim>\<open>ctx.Err\<close>, \<open>wi_Random\<close> two bytes of \<^verbatim>\<open>crypto/rand\<close>, \<open>wi_Dial\<close> the failure of \<^verbatim>\<open>DialContext\<close> to a destination,
  \<open>wi_Ask\<close> the bytes a DNS server returns for a message with the error that follows them, \<open>wi_Get\<close> the response to a request
  sent over a connection, and \<open>wi_Shake\<close> the connection state a handshake presents for verification with the failure that may
  still follow.
\<close>

record Wire =
  wi_Err :: "trace \<Rightarrow> error option"
  wi_Random :: "trace \<Rightarrow> error + bytes"
  wi_Dial :: "trace \<Rightarrow> string \<Rightarrow> error option"
  wi_Ask :: "trace \<Rightarrow> AddrPort \<Rightarrow> bytes \<Rightarrow> error + bytes \<times> error"
  wi_Get :: "trace \<Rightarrow> string \<Rightarrow> URL \<Rightarrow> error + HTTPResponse"
  wi_Shake :: "trace \<Rightarrow> string \<Rightarrow> string \<Rightarrow> error + ConnectionState \<times> error option"

text \<open>A call: its answer is looked up for the history so far, and the call is added to it.\<close>

definition call :: "wire_event \<Rightarrow> (trace \<Rightarrow> 'a) \<Rightarrow> 'a wire" where
  "call e answer = State (\<lambda>t. (answer t, e # t))"

definition observe :: "(trace \<Rightarrow> 'a) \<Rightarrow> 'a wire" where
  "observe answer = State (\<lambda>t. (answer t, t))"

text \<open>\<^verbatim>\<open>x, err := m; if err != nil { return err }\<close>\<close>

definition and_also :: "('e + 'a) wire \<Rightarrow> ('a \<Rightarrow> ('e + 'b) wire) \<Rightarrow> ('e + 'b) wire" where
  "and_also m k = do { r \<leftarrow> m; (case r of Inl e \<Rightarrow> State_Monad.return (Inl e) | Inr x \<Rightarrow> k x) }"

subsection \<open>Failures\<close>

definition incorrect :: "string \<Rightarrow> error" where
  "incorrect detail = ErrProblem (NewProblem ErrorIncorrectResponse detail)"

definition dnsFailure :: "string \<Rightarrow> error" where
  "dnsFailure detail = ErrProblem (NewProblem ErrorDNS detail)"

definition retryable :: "ErrorType \<Rightarrow> string \<Rightarrow> error \<Rightarrow> error" where
  "retryable ty detail err =
     (if AsProblem err \<noteq> None then err
      else if AsRetryable err \<noteq> None then err
      else Retryable (NewProblem ty detail) err)"

text \<open>A failure is final, and otherwise it is marked for retry with the type of the first classification.\<close>

lemma AsProblem_retryable [simp]: "AsProblem (retryable ty detail err) = AsProblem err"
  by (simp add: retryable_def)

lemma AsRetryable_retryable:
  "AsProblem err = None \<Longrightarrow>
     AsRetryable (retryable ty detail err) =
       (case AsRetryable err of None \<Rightarrow> Some (Some (NewProblem ty detail)) | Some p \<Rightarrow> Some p)"
  by (simp add: retryable_def Retryable_def split: option.splits)

lemma AsProblem_incorrect [simp]: "AsProblem (incorrect d) = Some (NewProblem ErrorIncorrectResponse d)"
  by (simp add: incorrect_def)

lemma AsProblem_dnsFailure [simp]: "AsProblem (dnsFailure d) = Some (NewProblem ErrorDNS d)"
  by (simp add: dnsFailure_def)

subsection \<open>The request\<close>

definition base64URL :: "string \<Rightarrow> bool" where
  "base64URL v \<longleftrightarrow> list_all is_base64url_char v \<and> v \<noteq> []"

text \<open>The checks on the captured proof, which \<^verbatim>\<open>checkRequest\<close> and \<^verbatim>\<open>checkTKAuthRequest\<close> spell out alike.\<close>

definition captured_proof :: "ValidationRequest \<Rightarrow> bool" where
  "captured_proof req \<longleftrightarrow>
     \<not> (length (ch_Token (vr_Challenge req)) < 22 \<or> length (ch_Token (vr_Challenge req)) > 256 \<or>
        \<not> base64URL (ch_Token (vr_Challenge req)) \<or>
        length (vr_AccountKeyThumbprint req) \<noteq> 43 \<or> \<not> base64URL (vr_AccountKeyThumbprint req) \<or>
        vr_KeyAuthorization req \<noteq> ch_Token (vr_Challenge req) @ ''.'' @ vr_AccountKeyThumbprint req)"

definition checkRequest :: "Names \<Rightarrow> ValidationRequest \<Rightarrow> ChallengeType \<Rightarrow> error + Identifier" where
  "checkRequest L req ty =
     and_then (Normalize L (vr_Identifier req)) (\<lambda>i.
       if ch_Type (vr_Challenge req) \<noteq> ty \<or> (id_Type i \<noteq> IdentifierDNS \<and> id_Type i \<noteq> IdentifierIP) \<or>
          IsWildcard i \<or> (vr_Wildcard req \<and> ty \<noteq> ChallengeDNS01) \<or>
          (id_Type i = IdentifierIP \<and> ty = ChallengeDNS01)
       then Inl (incorrect ''identifier does not support this challenge'')
       else if \<not> captured_proof req then Inl (incorrect ''invalid captured key authorization'')
       else Inr i)"

lemma checkRequest_Inr:
  assumes "checkRequest L req ty = Inr i"
  shows "Normalize L (vr_Identifier req) = Inr i" "ch_Type (vr_Challenge req) = ty"
    "id_Type i = IdentifierDNS \<or> id_Type i = IdentifierIP \<and> ty \<noteq> ChallengeDNS01" "\<not> IsWildcard i"
    "vr_Wildcard req \<Longrightarrow> ty = ChallengeDNS01" "captured_proof req"
  using assms
  by (cases "Normalize L (vr_Identifier req)"; auto simp: checkRequest_def split: if_splits)+

subsection \<open>Triples over histories\<close>

text \<open>The action returns, from every history with the precondition, a result and a history with the postcondition.\<close>

definition wired :: "(trace \<Rightarrow> bool) \<Rightarrow> 'a wire \<Rightarrow> ('a \<Rightarrow> trace \<Rightarrow> bool) \<Rightarrow> bool" where
  "wired P m Q \<longleftrightarrow> (\<forall>t. P t \<longrightarrow> (case run_state m t of (x, t') \<Rightarrow> Q x t'))"

named_theorems wired_rules \<open>triples of the actions\<close>

lemma wiredD: "wired P m Q \<Longrightarrow> P t \<Longrightarrow> run_state m t = (x, t') \<Longrightarrow> Q x t'"
  by (auto simp: wired_def)

lemma wiredI: "(\<And>t x t'. P t \<Longrightarrow> run_state m t = (x, t') \<Longrightarrow> Q x t') \<Longrightarrow> wired P m Q"
  by (auto simp: wired_def)

lemma wired_return: "(\<And>t. P t \<Longrightarrow> Q x t) \<Longrightarrow> wired P (State_Monad.return x) Q"
  by (simp add: wired_def State_Monad.return_def)

lemma wired_call: "(\<And>t. P t \<Longrightarrow> Q (answer t) (e # t)) \<Longrightarrow> wired P (call e answer) Q"
  by (simp add: wired_def call_def)

lemma wired_observe: "(\<And>t. P t \<Longrightarrow> Q (answer t) t) \<Longrightarrow> wired P (observe answer) Q"
  by (simp add: wired_def observe_def)

lemma wired_bind:
  assumes "wired P m Q" "\<And>x. wired (Q x) (f x) R"
  shows "wired P (State_Monad.bind m f) R"
proof (rule wiredI)
  fix t x t'
  assume t: "P t" and run: "run_state (State_Monad.bind m f) t = (x, t')"
  obtain y u where u: "run_state m t = (y, u)" by (cases "run_state m t")
  with run have "run_state (f y) u = (x, t')" by (simp add: State_Monad.bind_def)
  with u t assms show "R x t'" by (blast dest: wiredD)
qed

lemma wired_and_also:
  assumes "wired P m Q" "\<And>x. wired (Q (Inr x)) (k x) R" "\<And>e t. Q (Inl e) t \<Longrightarrow> R (Inl e) t"
  shows "wired P (and_also m k) R"
  unfolding and_also_def
  by (rule wired_bind [OF assms(1)]) (auto intro: wired_return assms split: sum.splits)

lemma wired_weaken: "wired P m Q \<Longrightarrow> (\<And>t. P' t \<Longrightarrow> P t) \<Longrightarrow> (\<And>x t. Q x t \<Longrightarrow> Q' x t) \<Longrightarrow> wired P' m Q'"
  by (fastforce simp: wired_def)

text \<open>
  Two ways to run a client of a component: every history it makes satisfies the invariant \<open>I\<close> if every event it adds is
  allowed.  \<open>only A m\<close> says that the events \<open>m\<close> adds are all in \<open>A\<close>.
\<close>

definition only :: "wire_event set \<Rightarrow> 'a wire \<Rightarrow> bool" where
  "only A m \<longleftrightarrow> (\<forall>t. \<exists>u. snd (run_state m t) = u @ t \<and> set u \<subseteq> A)"

lemma onlyD:
  assumes "only A m" "run_state m t = (x, t')"
  obtains u where "t' = u @ t" "set u \<subseteq> A"
  using assms unfolding only_def by (metis snd_conv)

lemma only_return [wired_rules]: "only A (State_Monad.return x)"
  by (simp add: only_def State_Monad.return_def)

lemma only_observe [wired_rules]: "only A (observe f)"
  by (simp add: only_def observe_def)

lemma only_call: "e \<in> A \<Longrightarrow> only A (call e f)"
  unfolding only_def call_def by (auto intro: exI [of _ "[e]"])

lemma only_bind [wired_rules]:
  assumes "only A m" "\<And>x. only A (f x)"
  shows "only A (State_Monad.bind m f)"
  unfolding only_def
proof
  fix t
  obtain x t1 where 1: "run_state m t = (x, t1)" by (cases "run_state m t")
  obtain y t2 where 2: "run_state (f x) t1 = (y, t2)" by (cases "run_state (f x) t1")
  obtain u where u: "t1 = u @ t" "set u \<subseteq> A" using onlyD [OF assms(1) 1] .
  obtain v where v: "t2 = v @ t1" "set v \<subseteq> A" using onlyD [OF assms(2) 2] .
  show "\<exists>u. snd (run_state (State_Monad.bind m f) t) = u @ t \<and> set u \<subseteq> A"
    using 1 2 u v by (intro exI [of _ "v @ u"]) (simp add: State_Monad.bind_def)
qed

lemma only_and_also [wired_rules]: "only A m \<Longrightarrow> (\<And>x. only A (f x)) \<Longrightarrow> only A (and_also m f)"
  unfolding and_also_def by (intro only_bind) (auto split: sum.splits intro: only_return)

text \<open>The rest of an action only runs on a result the first part can have.\<close>

lemma only_and_also_result:
  assumes "only A m" "\<And>t x t'. run_state m t = (Inr x, t') \<Longrightarrow> only A (f x)"
  shows "only A (and_also m f)"
  unfolding only_def
proof
  fix t
  obtain r t1 where 1: "run_state m t = (r, t1)" by (cases "run_state m t")
  obtain u where u: "t1 = u @ t" "set u \<subseteq> A" using onlyD [OF assms(1) 1] .
  show "\<exists>u. snd (run_state (and_also m f) t) = u @ t \<and> set u \<subseteq> A"
  proof (cases r)
    case (Inl e)
    with 1 u show ?thesis by (simp add: and_also_def State_Monad.bind_def State_Monad.return_def)
  next
    case (Inr x)
    obtain y t2 where 2: "run_state (f x) t1 = (y, t2)" by (cases "run_state (f x) t1")
    obtain v where "t2 = v @ t1" "set v \<subseteq> A" using onlyD [OF assms(2) 2] 1 Inr by blast
    with 1 2 u Inr show ?thesis
      by (intro exI [of _ "v @ u"]) (simp add: and_also_def State_Monad.bind_def)
  qed
qed

lemma only_mono: "only A m \<Longrightarrow> A \<subseteq> B \<Longrightarrow> only B m"
  unfolding only_def by (meson subset_trans)

end
