(* ===== verification/Challenge_Network.thy ===== *)
theory Challenge_Network
  imports Challenge_Wire
begin

section \<open>The egress policy of the validators\<close>

text \<open>
  \<^verbatim>\<open>challenge/network.go\<close>: which addresses a validator may connect to, the resolution of a host name and the dialing of the approved
  addresses.  The interface \<^verbatim>\<open>IPResolver\<close> is an action over histories, so that the resolver of \<^verbatim>\<open>challenge/resolver.go\<close> or any
  other can be put in its place.  Shown: a special-purpose range is never public, and every destination \<^verbatim>\<open>dial\<close> connects to is the
  text of a permitted address with the given port, whatever the resolver and the network answer.
\<close>

subsection \<open>Networks\<close>

text \<open>What is used of \<^verbatim>\<open>netip\<close>.  The zero \<^verbatim>\<open>Prefix\<close> is not valid; a valid one has no zone and at most as many bits as its address.\<close>

datatype Prefix = NoPrefix | Prefix Addr nat

fun prefix_IsValid :: "Prefix \<Rightarrow> bool" where
  "prefix_IsValid NoPrefix = False"
| "prefix_IsValid (Prefix a n) = True"

fun prefix_Is4In6 :: "Prefix \<Rightarrow> bool" where
  "prefix_Is4In6 NoPrefix = False"
| "prefix_Is4In6 (Prefix a n) = Is4In6 a"

definition addr_value :: "nat list \<Rightarrow> nat" where
  "addr_value bs = foldl (\<lambda>v b. v * 256 + b) 0 bs"

text \<open>The leading bits of both addresses agree; addresses of different families or with a zone are outside.\<close>

fun prefix_Contains :: "Prefix \<Rightarrow> Addr \<Rightarrow> bool" where
  "prefix_Contains (Prefix (Addr4 ps) n) (Addr4 bs) = (addr_value bs div 2 ^ (32 - n) = addr_value ps div 2 ^ (32 - n))"
| "prefix_Contains (Prefix (Addr6 ps _) n) (Addr6 bs z) =
     (z = [] \<and> addr_value bs div 2 ^ (128 - n) = addr_value ps div 2 ^ (128 - n))"
| "prefix_Contains _ _ = False"

fun addr_bits :: "Addr \<Rightarrow> nat" where
  "addr_bits (Addr4 _) = 32"
| "addr_bits (Addr6 _ _) = 128"

definition ParsePrefix :: "string \<Rightarrow> Prefix option" where
  "ParsePrefix s =
     (case cut_last s (CHR ''/'') of
        None \<Rightarrow> None
      | Some (before, bits) \<Rightarrow>
          (case ParseAddr before of
             None \<Rightarrow> None
           | Some a \<Rightarrow>
               if Zone a \<noteq> [] then None
               else if length bits > 1 \<and> (dec_digit (hd bits) = None \<or> hd bits = CHR ''0'') then None
               else case Atoi bits of
                 None \<Rightarrow> None
               | Some n \<Rightarrow> if n < 0 \<or> n > int (addr_bits a) then None else Some (Prefix a (nat n))))"

definition MustParsePrefix :: "string \<Rightarrow> Prefix" where
  "MustParsePrefix s = (case ParsePrefix s of Some p \<Rightarrow> p | None \<Rightarrow> NoPrefix)"

fun IsLoopback :: "Addr \<Rightarrow> bool" where
  "IsLoopback (Addr4 bs) = (hd bs = 127)"
| "IsLoopback (Addr6 bs z) = (bs = replicate 15 0 @ [1])"

fun IsLinkLocalUnicast :: "Addr \<Rightarrow> bool" where
  "IsLinkLocalUnicast (Addr4 bs) = (hd bs = 169 \<and> hd (tl bs) = 254)"
| "IsLinkLocalUnicast (Addr6 bs z) = (hd bs = 254 \<and> hd (tl bs) div 64 = 2)"

definition IsGlobalUnicast :: "Addr \<Rightarrow> bool" where
  "IsGlobalUnicast a \<longleftrightarrow>
     a \<noteq> Addr4 (replicate 4 0) \<and> a \<noteq> Addr4 (replicate 4 255) \<and> a \<noteq> Addr6 (replicate 16 0) [] \<and>
     \<not> IsLoopback a \<and> \<not> IsMulticast a \<and> \<not> IsLinkLocalUnicast a"

subsection \<open>Public addresses\<close>

definition specialNetworks :: "Prefix list" where
  "specialNetworks = map MustParsePrefix
     [''0.0.0.0/8'', ''10.0.0.0/8'',
      ''100.64.0.0/10'', ''127.0.0.0/8'',
      ''169.254.0.0/16'', ''172.16.0.0/12'',
      ''192.0.0.0/24'', ''192.0.2.0/24'',
      ''192.31.196.0/24'', ''192.52.193.0/24'',
      ''192.88.99.0/24'', ''192.168.0.0/16'',
      ''192.175.48.0/24'',
      ''198.18.0.0/15'', ''198.51.100.0/24'',
      ''203.0.113.0/24'', ''224.0.0.0/3'',
      ''2001::/23'', ''2001:db8::/32'',
      ''2002::/16'', ''2620:4f:8000::/48'',
      ''3fff::/20'']"

fun Is6 :: "Addr \<Rightarrow> bool" where
  "Is6 (Addr4 _) = False"
| "Is6 (Addr6 _ _) = True"

definition PublicAddress :: "netip_Addr \<Rightarrow> bool" where
  "PublicAddress address =
     (case map_option unmap address of
        None \<Rightarrow> False
      | Some a \<Rightarrow>
          if Zone a \<noteq> [] \<or> \<not> IsGlobalUnicast a then False
          else if Is6 a \<and> \<not> prefix_Contains (MustParsePrefix ''2000::/3'') a then False
          else \<not> list_ex (\<lambda>p. prefix_Contains p a) specialNetworks)"

subsection \<open>The policy\<close>

record NetworkOptions =
  no_Resolver :: "(string \<Rightarrow> string \<Rightarrow> (error + netip_Addr list) wire) option"
  no_AllowedNetworks :: "Prefix list"
  no_Timeout :: duration
  no_MaxAddresses :: int

record networkPolicy =
  np_resolver :: "string \<Rightarrow> string \<Rightarrow> (error + netip_Addr list) wire"
  np_allowed :: "Prefix list"
  np_timeout :: duration
  np_maxAddresses :: int

definition newNetwork :: "NetworkOptions \<Rightarrow> error + networkPolicy" where
  "newNetwork opts =
     (case no_Resolver opts of
        None \<Rightarrow> Inl (ErrorNew ''challenge: resolver is required and limits must not be negative'')
      | Some resolver \<Rightarrow>
          if no_Timeout opts < 0 \<or> no_MaxAddresses opts < 0
          then Inl (ErrorNew ''challenge: resolver is required and limits must not be negative'')
          else if list_ex (\<lambda>p. \<not> prefix_IsValid p \<or> prefix_Is4In6 p) (no_AllowedNetworks opts)
          then Inl (ErrorNew ''challenge: allowed networks must be valid unmapped prefixes'')
          else Inr \<lparr>np_resolver = resolver, np_allowed = no_AllowedNetworks opts,
                    np_timeout = (if no_Timeout opts = 0 then 10 * second else no_Timeout opts),
                    np_maxAddresses = (if no_MaxAddresses opts = 0 then 32 else no_MaxAddresses opts)\<rparr>)"

definition permits :: "networkPolicy \<Rightarrow> netip_Addr \<Rightarrow> bool" where
  "permits p address =
     (case map_option unmap address of
        None \<Rightarrow> False
      | Some a \<Rightarrow>
          if Zone a \<noteq> [] then False
          else if PublicAddress (Some a) then True
          else list_ex (\<lambda>q. prefix_Contains q a) (np_allowed p))"

definition resolve :: "Names \<Rightarrow> networkPolicy \<Rightarrow> string \<Rightarrow> (error + netip_Addr list) wire" where
  "resolve L p host = and_also
     (case ParseAddr host of
        Some a \<Rightarrow> State_Monad.return (Inr [Some a])
      | None \<Rightarrow>
          (case Normalize L (mk_id IdentifierDNS host) of
             Inl e \<Rightarrow> State_Monad.return (Inl (incorrect ''invalid validation hostname''))
           | Inr i \<Rightarrow>
               if IsWildcard i then State_Monad.return (Inl (incorrect ''invalid validation hostname''))
               else do {
                 r \<leftarrow> np_resolver p ''ip'' (id_Value i @ ''.'');
                 State_Monad.return (case r of
                    Inl e \<Rightarrow> Inl (retryable ErrorDNS ''validation destination could not be resolved''
                                   (ErrWrap ''challenge: destination resolution'' e))
                  | Inr addresses \<Rightarrow> Inr addresses) }))
     (\<lambda>addresses. State_Monad.return
        (if addresses = [] \<or> int (length addresses) > np_maxAddresses p
         then Inl (incorrect ''destination address count is outside the limit'')
         else if list_ex (\<lambda>a. \<not> permits p a) addresses
         then Inl (incorrect ''validation destination is denied by egress policy'')
         else Inr addresses))"

definition netip_String :: "netip_Addr \<Rightarrow> string" where
  "netip_String a = (case a of None \<Rightarrow> ''invalid IP'' | Some a \<Rightarrow> Addr_String a)"

definition destination :: "netip_Addr \<Rightarrow> int \<Rightarrow> string" where
  "destination address port = JoinHostPort (netip_String (map_option unmap address)) (itoa port)"

text \<open>The loop of \<^verbatim>\<open>dial\<close>.  A connection is named by its destination.\<close>

fun dial_loop :: "Wire \<Rightarrow> int \<Rightarrow> netip_Addr list \<Rightarrow> error option \<Rightarrow> (error + string) wire" where
  "dial_loop N port [] last_err = State_Monad.return (Inl
     (retryable ErrorConnection ''could not connect to the validation destination''
       (case last_err of
          None \<Rightarrow> ErrorNew ''challenge: connection failed: %!w(<nil>)''
        | Some e \<Rightarrow> ErrWrap ''challenge: connection failed'' e)))"
| "dial_loop N port (address # rest) last_err = do {
     r \<leftarrow> call (Dialed (destination address port)) (\<lambda>t. wi_Dial N t (destination address port));
     (case r of
        None \<Rightarrow> State_Monad.return (Inr (destination address port))
      | Some e \<Rightarrow> dial_loop N port rest (Some e)) }"

definition network_dial :: "Names \<Rightarrow> Wire \<Rightarrow> networkPolicy \<Rightarrow> string \<Rightarrow> int \<Rightarrow> (error + string) wire" where
  "network_dial L N p host port = and_also (resolve L p host) (\<lambda>addresses. dial_loop N port addresses None)"

subsection \<open>What is public\<close>

text \<open>The literals of the table parse, so it is the table of these networks.\<close>

lemmas parse_prefix_defs = MustParsePrefix_def ParsePrefix_def cut_last_def ParseAddr_def parseIPv4Fields_def
  parseIPv6_def dec_digit_def Atoi_def

lemma ipv6_literals:
  "ipv6_loop [] None ''2000::'' = Some (32 # 0 # replicate 14 0)"
  "ipv6_loop [] None ''2001::'' = Some (32 # 1 # replicate 14 0)"
  "ipv6_loop [] None ''2001:db8::'' = Some ([32, 1, 13, 184] @ replicate 12 0)"
  "ipv6_loop [] None ''2002::'' = Some (32 # 2 # replicate 14 0)"
  "ipv6_loop [] None ''2620:4f:8000::'' = Some ([38, 32, 0, 79, 128, 0] @ replicate 10 0)"
  "ipv6_loop [] None ''3fff::'' = Some (63 # 255 # replicate 14 0)"
  by (subst ipv6_loop.simps, simp add: hex_run_def hex_digit_def hex_value_def ipv6_finish_def Let_def)+

lemma specialNetworks_eq:
  "specialNetworks =
     [Prefix (Addr4 [0, 0, 0, 0]) 8, Prefix (Addr4 [10, 0, 0, 0]) 8, Prefix (Addr4 [100, 64, 0, 0]) 10,
      Prefix (Addr4 [127, 0, 0, 0]) 8, Prefix (Addr4 [169, 254, 0, 0]) 16, Prefix (Addr4 [172, 16, 0, 0]) 12,
      Prefix (Addr4 [192, 0, 0, 0]) 24, Prefix (Addr4 [192, 0, 2, 0]) 24, Prefix (Addr4 [192, 31, 196, 0]) 24,
      Prefix (Addr4 [192, 52, 193, 0]) 24, Prefix (Addr4 [192, 88, 99, 0]) 24, Prefix (Addr4 [192, 168, 0, 0]) 16,
      Prefix (Addr4 [192, 175, 48, 0]) 24, Prefix (Addr4 [198, 18, 0, 0]) 15, Prefix (Addr4 [198, 51, 100, 0]) 24,
      Prefix (Addr4 [203, 0, 113, 0]) 24, Prefix (Addr4 [224, 0, 0, 0]) 3,
      Prefix (Addr6 (32 # 1 # replicate 14 0) []) 23, Prefix (Addr6 ([32, 1, 13, 184] @ replicate 12 0) []) 32,
      Prefix (Addr6 (32 # 2 # replicate 14 0) []) 16, Prefix (Addr6 ([38, 32, 0, 79, 128, 0] @ replicate 10 0) []) 48,
      Prefix (Addr6 (63 # 255 # replicate 14 0) []) 20]"
  by (simp add: specialNetworks_def parse_prefix_defs ipv6_literals)

lemma global_unicast_prefix: "MustParsePrefix ''2000::/3'' = Prefix (Addr6 (32 # 0 # replicate 14 0) []) 3"
  by (simp add: parse_prefix_defs ipv6_literals)

text \<open>Comparing the leading bits of two addresses, byte by byte.\<close>

lemma digit_eq:
  assumes "x < m" "y < (m :: nat)"
  shows "a * m + x = c * m + y \<longleftrightarrow> a = c \<and> x = y"
proof
  assume e: "a * m + x = c * m + y"
  have "(a * m + x) div m = a" "(c * m + y) div m = c" using assms by simp_all
  with e have "a = c" by simp
  with e show "a = c \<and> x = y" by simp
qed simp

lemma byte_div:
  assumes "b < 256" "d < 256" "k * m = 256"
  shows "(a * 256 + b) div k = (c * 256 + d) div k \<longleftrightarrow> a = c \<and> b div k = (d div k :: nat)"
proof -
  have k: "k > 0" using assms(3) by (cases k) simp_all
  have "(a * (k * m) + b) div k = a * m + b div k" "(c * (k * m) + d) div k = c * m + d div k"
    using k by (simp_all add: mult.left_commute [of _ k])
  moreover have "b div k < m" "d div k < m"
    using assms by (simp_all add: less_mult_imp_div_less mult.commute)
  ultimately show ?thesis using assms(3) by (simp add: digit_eq)
qed

lemma in_network4:
  assumes "addr_ok (Addr4 [a, b, c, d])" "addr_ok (Addr4 [w, x, y, z])"
  shows "prefix_Contains (Prefix (Addr4 [w, x, y, z]) 8) (Addr4 [a, b, c, d]) \<longleftrightarrow> a = w"
    "prefix_Contains (Prefix (Addr4 [w, x, y, z]) 16) (Addr4 [a, b, c, d]) \<longleftrightarrow> a = w \<and> b = x"
    "prefix_Contains (Prefix (Addr4 [w, x, y, z]) 24) (Addr4 [a, b, c, d]) \<longleftrightarrow> a = w \<and> b = x \<and> c = y"
    "prefix_Contains (Prefix (Addr4 [w, x, y, z]) 3) (Addr4 [a, b, c, d]) \<longleftrightarrow> a div 32 = w div 32"
    "prefix_Contains (Prefix (Addr4 [w, x, y, z]) 10) (Addr4 [a, b, c, d]) \<longleftrightarrow> a = w \<and> b div 64 = x div 64"
    "prefix_Contains (Prefix (Addr4 [w, x, y, z]) 12) (Addr4 [a, b, c, d]) \<longleftrightarrow> a = w \<and> b div 16 = x div 16"
    "prefix_Contains (Prefix (Addr4 [w, x, y, z]) 15) (Addr4 [a, b, c, d]) \<longleftrightarrow> a = w \<and> b div 2 = x div 2"
proof -
  define P where "P = (\<lambda>k. (2::nat) ^ k)"
  define J where "J = (\<lambda>v r :: nat. v * 256 + r)"
  have shift: "J v r div P k = v div P (k - 8)" if "r < 256" "8 \<le> k" for v r k
  proof -
    have "P k = 256 * P (k - 8)" using that(2) power_add [of "2::nat" 8 "k - 8"] by (simp add: P_def)
    with that(1) show ?thesis by (simp add: div_mult2_eq J_def)
  qed
  have P: "P 0 = 1" "P (Suc 0) = 2" "P 4 = 16" "P 5 = 32" "P 6 = 64" by (simp_all add: P_def)
  have less: "b < 256" "c < 256" "d < 256" "x < 256" "y < 256" "z < 256" using assms by simp_all
  have parts: "J v r = J v' r' \<longleftrightarrow> v = v' \<and> r = r'" if "r < 256" "r' < 256" for v v' r r'
    unfolding J_def using that by (rule digit_eq)
  have bits: "J a b div k = J w x div k \<longleftrightarrow> a = w \<and> b div k = x div k" if "k * m = 256" for k m
    unfolding J_def using less(1,4) that by (rule byte_div)
  have unfold: "prefix_Contains (Prefix (Addr4 [w, x, y, z]) n) (Addr4 [a, b, c, d]) \<longleftrightarrow>
      J (J (J a b) c) d div P (32 - n) = J (J (J w x) y) z div P (32 - n)" for n
    by (simp add: addr_value_def P_def J_def)
  note rules = unfold shift P less parts bits [of 64 4] bits [of 16 16] bits [of 2 128]
  show "prefix_Contains (Prefix (Addr4 [w, x, y, z]) 8) (Addr4 [a, b, c, d]) \<longleftrightarrow> a = w"
    "prefix_Contains (Prefix (Addr4 [w, x, y, z]) 16) (Addr4 [a, b, c, d]) \<longleftrightarrow> a = w \<and> b = x"
    "prefix_Contains (Prefix (Addr4 [w, x, y, z]) 24) (Addr4 [a, b, c, d]) \<longleftrightarrow> a = w \<and> b = x \<and> c = y"
    "prefix_Contains (Prefix (Addr4 [w, x, y, z]) 3) (Addr4 [a, b, c, d]) \<longleftrightarrow> a div 32 = w div 32"
    "prefix_Contains (Prefix (Addr4 [w, x, y, z]) 10) (Addr4 [a, b, c, d]) \<longleftrightarrow> a = w \<and> b div 64 = x div 64"
    "prefix_Contains (Prefix (Addr4 [w, x, y, z]) 12) (Addr4 [a, b, c, d]) \<longleftrightarrow> a = w \<and> b div 16 = x div 16"
    "prefix_Contains (Prefix (Addr4 [w, x, y, z]) 15) (Addr4 [a, b, c, d]) \<longleftrightarrow> a = w \<and> b div 2 = x div 2"
    by (simp_all add: rules del: prefix_Contains.simps)
qed

text \<open>An IPv4 address is public exactly if it is in none of the special-purpose ranges, written out.\<close>

definition special4 :: "nat list \<Rightarrow> bool" where
  "special4 bs \<longleftrightarrow>
     (case bs of a # b # c # d # _ \<Rightarrow>
        a = 0 \<or> a = 10 \<or> a = 127 \<or> 224 \<le> a \<or>
        a = 100 \<and> 64 \<le> b \<and> b < 128 \<or>
        a = 169 \<and> b = 254 \<or>
        a = 172 \<and> 16 \<le> b \<and> b < 32 \<or>
        a = 192 \<and> (b = 168 \<or> b = 0 \<and> (c = 0 \<or> c = 2) \<or> b = 31 \<and> c = 196 \<or> b = 52 \<and> c = 193 \<or> b = 88 \<and> c = 99 \<or>
          b = 175 \<and> c = 48) \<or>
        a = 198 \<and> (b = 18 \<or> b = 19 \<or> b = 51 \<and> c = 100) \<or>
        a = 203 \<and> b = 0 \<and> c = 113
      | _ \<Rightarrow> True)"

lemma PublicAddress4_iff:
  assumes "addr_ok (Addr4 bs)"
  shows "PublicAddress (Some (Addr4 bs)) \<longleftrightarrow> \<not> special4 bs"
proof -
  from assms obtain a b c d where bs: "bs = [a, b, c, d]"
    by (auto simp: numeral_eq_Suc length_Suc_conv)
  have ok: "addr_ok (Addr4 [a, b, c, d])" using assms bs by simp
  then have "a < 256" "b < 256" by simp_all
  then have div: "a div 32 = 7 \<longleftrightarrow> 224 \<le> a" "b div 64 = Suc 0 \<longleftrightarrow> 64 \<le> b \<and> b < 128" "b div 16 = Suc 0 \<longleftrightarrow> 16 \<le> b \<and> b < 32"
    "b div 2 = 9 \<longleftrightarrow> b = 18 \<or> b = 19" "a div 16 = 14 \<Longrightarrow> 224 \<le> a"
    by linarith+
  have "list_ex (\<lambda>p. prefix_Contains p (Addr4 [a, b, c, d])) specialNetworks \<longleftrightarrow> special4 [a, b, c, d]"
    by (simp add: specialNetworks_eq in_network4 [OF ok] special4_def div conj_disj_distribL
        del: prefix_Contains.simps(1)) argo
  moreover have "\<not> IsGlobalUnicast (Addr4 [a, b, c, d]) \<Longrightarrow> special4 [a, b, c, d]"
  proof -
    have "replicate 4 x = [x, x, x, x]" for x :: nat by (simp add: numeral_eq_Suc)
    moreover assume "\<not> IsGlobalUnicast (Addr4 [a, b, c, d])"
    ultimately consider "a = 0" | "a = 255" | "a = 127" | "a div 16 = 14" | "a = 169" "b = 254"
      by (auto simp: IsGlobalUnicast_def)
    then show "special4 [a, b, c, d]" using div(5) by cases (simp_all add: special4_def)
  qed
  ultimately show ?thesis by (auto simp: PublicAddress_def bs unmap_def)
qed

subsection \<open>Destinations\<close>

text \<open>The destinations the policy allows for a port.\<close>

definition allowed_destination :: "networkPolicy \<Rightarrow> int \<Rightarrow> string \<Rightarrow> bool" where
  "allowed_destination p port d \<longleftrightarrow> (\<exists>a. permits p (Some a) \<and> d = destination (Some a) port)"

text \<open>The connections of a history to other destinations: what an attacker who controls names would gain.\<close>

definition contacts :: "networkPolicy \<Rightarrow> int set \<Rightarrow> wire_event set" where
  "contacts p ports = {Dialed d | d port. port \<in> ports \<and> allowed_destination p port d}"

text \<open>A resolver asks name servers and opens no connection of its own.\<close>

definition asking :: "wire_event set" where
  "asking = {Asked s m | s m. True}"

definition resolver_only_asks :: "networkPolicy \<Rightarrow> bool" where
  "resolver_only_asks p \<longleftrightarrow> (\<forall>network host. only asking (np_resolver p network host))"

lemma permits_Some: "permits p address \<Longrightarrow> \<exists>a. address = Some a"
  by (cases address) (auto simp: permits_def)

lemma only_resolve: "resolver_only_asks p \<Longrightarrow> only asking (resolve L p host)"
  unfolding resolve_def
  by (auto intro!: wired_rules simp: resolver_only_asks_def split: option.splits sum.splits)

lemma resolve_permits:
  assumes "run_state (resolve L p host) t = (Inr addresses, t')"
  shows "list_all (permits p) addresses" "addresses \<noteq> []" "int (length addresses) \<le> np_maxAddresses p"
proof -
  have "wired (\<lambda>_. True) (resolve L p host) (\<lambda>r _. \<forall>as. r = Inr as \<longrightarrow>
          list_all (permits p) as \<and> as \<noteq> [] \<and> int (length as) \<le> np_maxAddresses p)"
    unfolding resolve_def
    by (rule wired_and_also [where Q = "\<lambda>_ _. True"])
       (auto simp: wired_def State_Monad.return_def list_all_iff list_ex_iff split: if_splits)
  from wiredD [OF this TrueI assms] show "list_all (permits p) addresses" "addresses \<noteq> []"
    "int (length addresses) \<le> np_maxAddresses p" by simp_all
qed

lemma only_dial_loop:
  "list_all (permits p) addresses \<Longrightarrow> only (contacts p {port}) (dial_loop N port addresses e)"
proof (induction addresses arbitrary: e)
  case Nil
  show ?case by (simp add: only_return)
next
  case (Cons a as)
  obtain b where "a = Some b" using Cons.prems permits_Some [of p a] by auto
  with Cons.prems have "Dialed (destination a port) \<in> contacts p {port}"
    by (auto simp: contacts_def allowed_destination_def)
  with Cons show ?case by (auto intro!: only_bind only_call only_return split: option.splits)
qed

text \<open>The connection \<^verbatim>\<open>dial\<close> returns is to an allowed destination that accepted it.\<close>

lemma dial_loop_Inr:
  assumes "list_all (permits p) addresses" "run_state (dial_loop N port addresses e) t = (Inr d, t')"
  shows "allowed_destination p port d \<and> Dialed d \<in> set t'"
  using assms
proof (induction addresses arbitrary: e t)
  case Nil
  then show ?case by (simp add: State_Monad.return_def)
next
  case (Cons a as)
  obtain b where "a = Some b" using Cons.prems permits_Some [of p a] by auto
  with Cons show ?case
    by (auto simp: State_Monad.bind_def State_Monad.return_def call_def allowed_destination_def split: option.splits)
qed

lemma only_network_dial:
  assumes "resolver_only_asks p"
  shows "only (asking \<union> contacts p {port}) (network_dial L N p host port)"
  unfolding network_dial_def
proof (rule only_and_also_result)
  show "only (asking \<union> contacts p {port}) (resolve L p host)"
    using only_resolve [OF assms] by (rule only_mono) simp
  show "only (asking \<union> contacts p {port}) (dial_loop N port addresses None)"
    if "run_state (resolve L p host) t = (Inr addresses, t')" for t addresses t'
    using only_dial_loop [OF resolve_permits(1) [OF that]] by (rule only_mono) simp
qed

lemma network_dial_Inr:
  assumes "run_state (network_dial L N p host port) t = (Inr d, t')"
  shows "allowed_destination p port d \<and> Dialed d \<in> set t'"
  using assms resolve_permits(1) [of L p host t] dial_loop_Inr
  by (auto simp: network_dial_def and_also_def State_Monad.bind_def State_Monad.return_def
           split: prod.splits sum.splits)

end
