(* ===== verification/Challenge_Resolver.thy ===== *)
theory Challenge_Resolver
  imports Challenge_Network
begin

section \<open>The DNS resolver of the validators\<close>

text \<open>
  \<^verbatim>\<open>challenge/resolver.go\<close>: questions to the configured name servers, the checks on a response, and the lookup that follows
  aliases.  Reading and writing DNS messages is the work of \<^verbatim>\<open>golang.org/x/net/dns/dnsmessage\<close>, the parameter \<open>DnsMessage\<close>.  Shown: the
  records a lookup returns are owned by a name that is reached from the name asked for by at most the configured number of
  aliases, and every alias on the way and the records themselves were in responses of configured servers to matching questions.
\<close>

subsection \<open>Messages\<close>

datatype dns_Type = TypeA | TypeAAAA | TypeCNAME | TypeTXT | TypeOther nat
datatype dns_Class = ClassINET | ClassOther nat
datatype RCode = RCodeSuccess | RCodeNameError | RCodeOther nat

record Question =
  qu_Name :: string
  qu_Type :: dns_Type
  qu_Class :: dns_Class

record ResourceHeader =
  rh_Name :: string
  rh_Type :: dns_Type
  rh_Class :: dns_Class

datatype ResourceBody = AResource "nat list" | AAAAResource "nat list" | CNAMEResource string | TXTResource "string list"

record Resource =
  re_Header :: ResourceHeader
  re_Body :: ResourceBody

record dns_Header =
  dh_ID :: nat
  dh_Response :: bool
  dh_OpCode :: nat
  dh_Truncated :: bool
  dh_RCode :: RCode

text \<open>What the parser does at one answer: its header, and what each decoder and \<^verbatim>\<open>SkipAnswer\<close> would return there.\<close>

record answer_item =
  ai_Header :: ResourceHeader
  ai_A :: "error + nat list"
  ai_AAAA :: "error + nat list"
  ai_CNAME :: "error + string"
  ai_TXT :: "error + string list"
  ai_Skip :: "error option"

text \<open>
  \<open>dm_NewName\<close> gives the text of a name that fits a message.  \<open>dm_Answers\<close> is the sequence of headers \<^verbatim>\<open>AnswerHeader\<close> returns,
  up to the end of the section or an error; a message counts its answers, so the sequence is finite.
\<close>

record DnsMessage =
  dm_NewName :: "string \<Rightarrow> string option"
  dm_Pack :: "nat \<Rightarrow> Question \<Rightarrow> error + bytes"
  dm_Start :: "bytes \<Rightarrow> dns_Header option"
  dm_AllQuestions :: "bytes \<Rightarrow> Question list option"
  dm_Answers :: "bytes \<Rightarrow> answer_item list \<times> error option"

subsection \<open>Configuration\<close>

record ResolverOptions =
  ro_Servers :: "AddrPort list"
  ro_Timeout :: duration
  ro_MaxCNAMEs :: int
  ro_MaxResponseBytes :: int
  ro_MaxRecords :: int

record Resolver =
  rv_servers :: "AddrPort list"
  rv_timeout :: duration
  rv_maxCNAMEs :: int
  rv_maxBytes :: int
  rv_maxRecords :: int

definition NewResolver :: "ResolverOptions \<Rightarrow> error + Resolver" where
  "NewResolver opts =
     (if ro_Servers opts = [] \<or> length (ro_Servers opts) > 3 \<or> ro_Timeout opts < 0 \<or> ro_MaxCNAMEs opts < 0 \<or>
         ro_MaxResponseBytes opts < 0 \<or> ro_MaxResponseBytes opts > 65535 \<or> ro_MaxRecords opts < 0
      then Inl (ErrorNew ''challenge: invalid resolver configuration'')
      else if list_ex (\<lambda>s. case ap_Addr s of None \<Rightarrow> True | Some a \<Rightarrow> ap_Port s = 0 \<or> Zone a \<noteq> []) (ro_Servers opts)
      then Inl (ErrorNew ''challenge: invalid resolver endpoint'')
      else Inr \<lparr>rv_servers = ro_Servers opts,
                rv_timeout = (if ro_Timeout opts = 0 then 10 * second else ro_Timeout opts),
                rv_maxCNAMEs = (if ro_MaxCNAMEs opts = 0 then 8 else ro_MaxCNAMEs opts),
                rv_maxBytes = (if ro_MaxResponseBytes opts = 0 then 16 * 1024 else ro_MaxResponseBytes opts),
                rv_maxRecords = (if ro_MaxRecords opts = 0 then 64 else ro_MaxRecords opts)\<rparr>)"

subsection \<open>Responses\<close>

definition validationBody :: "answer_item \<Rightarrow> dns_Type \<Rightarrow> error + ResourceBody option" where
  "validationBody item ty =
     (case ty of
        TypeA \<Rightarrow> map_sum id (Some \<circ> AResource) (ai_A item)
      | TypeAAAA \<Rightarrow> map_sum id (Some \<circ> AAAAResource) (ai_AAAA item)
      | TypeCNAME \<Rightarrow> map_sum id (Some \<circ> CNAMEResource) (ai_CNAME item)
      | TypeTXT \<Rightarrow> map_sum id (Some \<circ> TXTResource) (ai_TXT item)
      | TypeOther _ \<Rightarrow> (case ai_Skip item of Some e \<Rightarrow> Inl e | None \<Rightarrow> Inr None))"

fun validationAnswers :: "answer_item list \<times> error option \<Rightarrow> Resource list \<Rightarrow> error + Resource list" where
  "validationAnswers ([], Some e) answers = Inl e"
| "validationAnswers ([], None) answers = Inr answers"
| "validationAnswers (item # rest, end) answers =
     (case validationBody item (rh_Type (ai_Header item)) of
        Inl e \<Rightarrow> Inl e
      | Inr None \<Rightarrow> validationAnswers (rest, end) answers
      | Inr (Some body) \<Rightarrow> validationAnswers (rest, end) (answers @ [\<lparr>re_Header = ai_Header item, re_Body = body\<rparr>]))"

text \<open>\<^verbatim>\<open>binary.BigEndian.Uint16(wire[i:i+2])\<close>\<close>

definition Uint16 :: "bytes \<Rightarrow> nat \<Rightarrow> nat" where
  "Uint16 wire i = be_value (take 2 (drop i wire))"

definition errNameDoesNotExist :: error where
  "errNameDoesNotExist = ErrorNew ''challenge: DNS name does not exist''"

definition parseResponse :: "DnsMessage \<Rightarrow> Json \<Rightarrow> Resolver \<Rightarrow> bytes \<Rightarrow> nat \<Rightarrow> Question \<Rightarrow> error + Resource list" where
  "parseResponse D J R wire i question =
     (case dm_Start D wire of
        None \<Rightarrow> Inl (dnsFailure ''invalid DNS response header'')
      | Some header \<Rightarrow>
          if dh_ID header \<noteq> i \<or> \<not> dh_Response header \<or> dh_OpCode header \<noteq> 0 \<or> dh_Truncated header
          then Inl (dnsFailure ''invalid DNS response header'')
          else if int (Uint16 wire 6 + Uint16 wire 8 + Uint16 wire 10) > rv_maxRecords R
          then Inl (dnsFailure ''DNS response exceeds the record limit'')
          else if Uint16 wire 4 \<noteq> 1 then Inl (dnsFailure ''DNS response question count differs'')
          else if (case dm_AllQuestions D wire of
                     Some [q] \<Rightarrow> qu_Type q \<noteq> qu_Type question \<or> qu_Class q \<noteq> qu_Class question \<or>
                                 \<not> js_EqualFold J (qu_Name q) (qu_Name question)
                   | _ \<Rightarrow> True)
          then Inl (dnsFailure ''DNS response question differs'')
          else if dh_RCode header = RCodeNameError
          then Inl (Retryable (NewProblem ErrorDNS ''DNS name does not exist'') errNameDoesNotExist)
          else if dh_RCode header \<noteq> RCodeSuccess then Inl (ErrorNew ''DNS resolver returned a transient failure'')
          else case validationAnswers (dm_Answers D wire) [] of
            Inl e \<Rightarrow> Inl (dnsFailure ''invalid DNS answer encoding'')
          | Inr answers \<Rightarrow> Inr answers)"

subsection \<open>Questions\<close>

text \<open>
  \<^verbatim>\<open>io.ReadFull\<close> on a connection that delivers the given bytes and then the error.
\<close>

definition io_EOF :: error where "io_EOF = ErrorNew ''EOF''"
definition io_ErrUnexpectedEOF :: error where "io_ErrUnexpectedEOF = ErrorNew ''unexpected EOF''"

definition ReadFull :: "nat \<Rightarrow> bytes \<times> error \<Rightarrow> error + bytes \<times> bytes" where
  "ReadFull n conn =
     (case conn of (stream, e) \<Rightarrow>
        if n \<le> length stream then Inr (take n stream, drop n stream)
        else Inl (if stream \<noteq> [] \<and> e = io_EOF then io_ErrUnexpectedEOF else e))"

text \<open>The message with its length in front, and the reading of the answer.\<close>

definition dns_frame :: "bytes \<Rightarrow> bytes" where
  "dns_frame query = mk_byte (length query div 256 mod 256) # mk_byte (length query mod 256) # query"

definition read_message :: "Resolver \<Rightarrow> bytes \<times> error \<Rightarrow> error + bytes" where
  "read_message R conn =
     and_then (ReadFull 2 conn) (\<lambda>(sz, rest).
       if be_value sz < 12 \<or> int (be_value sz) > rv_maxBytes R
       then Inl (dnsFailure ''DNS response exceeds the message limit'')
       else and_then (ReadFull (be_value sz) (rest, snd conn)) (\<lambda>(response, _). Inr response))"

text \<open>A failure to connect, to set the deadline or to write is the error of the call.\<close>

definition exchange :: "Wire \<Rightarrow> Resolver \<Rightarrow> AddrPort \<Rightarrow> bytes \<Rightarrow> (error + bytes) wire" where
  "exchange N R server query = do {
     r \<leftarrow> call (Asked server (dns_frame query)) (\<lambda>t. wi_Ask N t server (dns_frame query));
     State_Monad.return (and_then r (read_message R)) }"

fun query_loop :: "Wire \<Rightarrow> DnsMessage \<Rightarrow> Json \<Rightarrow> Resolver \<Rightarrow> bytes \<Rightarrow> nat \<Rightarrow> Question \<Rightarrow> AddrPort list \<Rightarrow> error option \<Rightarrow>
    (error + Resource list) wire" where
  "query_loop N D J R query i question [] last_err = State_Monad.return (Inl
     (case last_err of
        None \<Rightarrow> ErrorNew ''challenge: DNS query failed: %!w(<nil>)''
      | Some e \<Rightarrow> ErrWrap ''challenge: DNS query failed'' e))"
| "query_loop N D J R query i question (server # rest) last_err = do {
     stopped \<leftarrow> observe (wi_Err N);
     (case stopped of
        Some e \<Rightarrow> State_Monad.return (Inl e)
      | None \<Rightarrow> do {
          r \<leftarrow> exchange N R server query;
          (case r of
             Inl e \<Rightarrow> query_loop N D J R query i question rest (Some e)
           | Inr response \<Rightarrow>
               (case parseResponse D J R response i question of
                  Inr answers \<Rightarrow> State_Monad.return (Inr answers)
                | Inl e \<Rightarrow>
                    if AsProblem e \<noteq> None then State_Monad.return (Inl e)
                    else query_loop N D J R query i question rest (Some e))) }) }"

definition resolver_query :: "Wire \<Rightarrow> DnsMessage \<Rightarrow> Json \<Rightarrow> Resolver \<Rightarrow> string \<Rightarrow> dns_Type \<Rightarrow> (error + Resource list) wire" where
  "resolver_query N D J R name ty =
     (case dm_NewName D name of
        None \<Rightarrow> State_Monad.return (Inl (dnsFailure ''invalid DNS query name''))
      | Some qname \<Rightarrow> and_also (observe (wi_Random N)) (\<lambda>randomID.
          let question = \<lparr>qu_Name = qname, qu_Type = ty, qu_Class = ClassINET\<rparr>;
              i = Uint16 randomID 0 in
          (case dm_Pack D i question of
             Inl e \<Rightarrow> State_Monad.return (Inl e)
           | Inr query \<Rightarrow> query_loop N D J R query i question (rv_servers R) None)))"

subsection \<open>Lookups\<close>

fun matching_loop :: "Names \<Rightarrow> Json \<Rightarrow> string \<Rightarrow> dns_Type \<Rightarrow> Resource list \<Rightarrow> Resource list \<Rightarrow> string \<Rightarrow>
    error + Resource list \<times> string" where
  "matching_loop L J name ty [] matching alias = Inr (matching, alias)"
| "matching_loop L J name ty (answer # rest) matching alias =
     (if rh_Class (re_Header answer) \<noteq> ClassINET \<or> \<not> js_EqualFold J (rh_Name (re_Header answer)) name
      then matching_loop L J name ty rest matching alias
      else case re_Body answer of
        CNAMEResource cname \<Rightarrow>
          (let target = strings_ToLower L cname in
           if alias \<noteq> [] \<and> alias \<noteq> target then Inl (dnsFailure ''conflicting CNAME records'')
           else matching_loop L J name ty rest matching target)
      | _ \<Rightarrow>
          matching_loop L J name ty rest (if rh_Type (re_Header answer) = ty then matching @ [answer] else matching) alias)"

definition matchingAnswers :: "Names \<Rightarrow> Json \<Rightarrow> Resource list \<Rightarrow> string \<Rightarrow> dns_Type \<Rightarrow> error + Resource list \<times> string" where
  "matchingAnswers L J answers name ty =
     and_then (matching_loop L J name ty answers [] []) (\<lambda>(matching, alias).
       if alias \<noteq> [] \<and> matching \<noteq> [] then Inl (dnsFailure ''CNAME and proof records share an owner'')
       else Inr (matching, alias))"

text \<open>
  One round of the loop of \<^verbatim>\<open>lookup\<close> up to the alias, which is handed on with the answers.  A \<^verbatim>\<open>nil\<close> slice of answers is the
  empty list: \<^verbatim>\<open>validationAnswers\<close> returns no other empty slice.
\<close>

definition lookup_round :: "Names \<Rightarrow> Wire \<Rightarrow> DnsMessage \<Rightarrow> Json \<Rightarrow> Resolver \<Rightarrow> dns_Type \<Rightarrow> string \<Rightarrow> Resource list \<Rightarrow>
    (string \<Rightarrow> Resource list \<Rightarrow> (error + Resource list) wire) \<Rightarrow> (error + Resource list) wire" where
  "lookup_round L N D J R ty name answers0 follow = and_also
     (if answers0 = [] then resolver_query N D J R name ty else State_Monad.return (Inr answers0))
     (\<lambda>answers.
        (case matchingAnswers L J answers name ty of
           Inl e \<Rightarrow> State_Monad.return (Inl e)
         | Inr (matching, alias) \<Rightarrow>
             if alias = [] then State_Monad.return (Inr matching) else follow alias answers))"

text \<open>The number of rounds left after this one is \<open>maxCNAMEs - hops\<close>.\<close>

fun lookup_loop :: "Names \<Rightarrow> Wire \<Rightarrow> DnsMessage \<Rightarrow> Json \<Rightarrow> Resolver \<Rightarrow> dns_Type \<Rightarrow> nat \<Rightarrow> string list \<Rightarrow> string \<Rightarrow> Resource list \<Rightarrow>
    (error + Resource list) wire" where
  "lookup_loop L N D J R ty 0 visited name answers0 =
     lookup_round L N D J R ty name answers0 (\<lambda>alias answers.
       State_Monad.return (Inl (dnsFailure ''CNAME traversal limit or loop'')))"
| "lookup_loop L N D J R ty (Suc n) visited name answers0 =
     lookup_round L N D J R ty name answers0 (\<lambda>alias answers.
       if alias \<in> set visited then State_Monad.return (Inl (dnsFailure ''CNAME traversal limit or loop''))
       else lookup_loop L N D J R ty n (alias # visited) alias
              (if list_ex (\<lambda>a. js_EqualFold J (rh_Name (re_Header a)) alias) answers then answers else []))"

definition fqdn :: "Names \<Rightarrow> string \<Rightarrow> string" where
  "fqdn L name = strings_ToLower L (if has_suffix name ''.'' then butlast name else name) @ ''.''"

definition lookup :: "Names \<Rightarrow> Wire \<Rightarrow> DnsMessage \<Rightarrow> Json \<Rightarrow> Resolver \<Rightarrow> string \<Rightarrow> dns_Type \<Rightarrow> (error + Resource list) wire" where
  "lookup L N D J R name ty =
     (if rv_maxCNAMEs R < 0 then State_Monad.return (Inl (dnsFailure ''CNAME traversal limit''))
      else lookup_loop L N D J R ty (nat (rv_maxCNAMEs R)) [fqdn L name] (fqdn L name) [])"

definition LookupTXT :: "Names \<Rightarrow> Wire \<Rightarrow> DnsMessage \<Rightarrow> Json \<Rightarrow> Resolver \<Rightarrow> string \<Rightarrow> (error + string list) wire" where
  "LookupTXT L N D J R name = and_also (lookup L N D J R name TypeTXT) (\<lambda>records.
     State_Monad.return (Inr (List.map_filter
       (\<lambda>record. case re_Body record of TXTResource txt \<Rightarrow> Some (concat txt) | _ \<Rightarrow> None) records)))"

fun record_address :: "Resource \<Rightarrow> netip_Addr option" where
  "record_address r =
     (case re_Body r of
        AResource a \<Rightarrow> Some (Some (Addr4 a))
      | AAAAResource a \<Rightarrow> Some (Some (Addr6 a []))
      | _ \<Rightarrow> None)"

fun address_loop :: "Names \<Rightarrow> Wire \<Rightarrow> DnsMessage \<Rightarrow> Json \<Rightarrow> Resolver \<Rightarrow> string \<Rightarrow> string \<Rightarrow> dns_Type list \<Rightarrow> netip_Addr list \<Rightarrow>
    (error + netip_Addr list) wire" where
  "address_loop L N D J R network host [] addresses = State_Monad.return (Inr addresses)"
| "address_loop L N D J R network host (ty # tys) addresses =
     (if network = ''ip4'' \<and> ty = TypeAAAA \<or> network = ''ip6'' \<and> ty = TypeA
      then address_loop L N D J R network host tys addresses
      else and_also (lookup L N D J R host ty) (\<lambda>records.
        address_loop L N D J R network host tys (addresses @ List.map_filter record_address records)))"

definition LookupNetIP :: "Names \<Rightarrow> Wire \<Rightarrow> DnsMessage \<Rightarrow> Json \<Rightarrow> Resolver \<Rightarrow> string \<Rightarrow> string \<Rightarrow> (error + netip_Addr list) wire" where
  "LookupNetIP L N D J R network host =
     (if network \<noteq> ''ip'' \<and> network \<noteq> ''ip4'' \<and> network \<noteq> ''ip6''
      then State_Monad.return (Inl (ErrorNew ''challenge: unsupported address family''))
      else address_loop L N D J R network host [TypeA, TypeAAAA] [])"

subsection \<open>The resolver only asks its servers\<close>

text \<open>The interface of \<^verbatim>\<open>challenge/network.go\<close>: a resolver opens no connection but to its name servers.\<close>

locale asking_resolver =
  fixes resolver :: "string \<Rightarrow> string \<Rightarrow> (error + netip_Addr list) wire"
  assumes only_asks: "only asking (resolver network host)"
begin

lemma policy_only_asks: "np_resolver p = resolver \<Longrightarrow> resolver_only_asks p"
  by (simp add: resolver_only_asks_def only_asks)

lemma dial_within_policy:
  "np_resolver p = resolver \<Longrightarrow> only (asking \<union> contacts p {port}) (network_dial L N p host port)"
  by (rule only_network_dial) (rule policy_only_asks)

end

lemma only_exchange [wired_rules]: "only asking (exchange N R server query)"
  unfolding exchange_def by (auto intro!: only_bind only_call only_return simp: asking_def)

lemma only_query_loop [wired_rules]: "only asking (query_loop N D J R query i question servers e)"
  by (induction servers arbitrary: e) (auto intro!: wired_rules split: option.splits sum.splits)

lemma only_resolver_query [wired_rules]: "only asking (resolver_query N D J R name ty)"
  unfolding resolver_query_def Let_def by (auto intro!: wired_rules split: option.splits sum.splits)

lemma only_lookup_round:
  "(\<And>alias answers. only asking (follow alias answers)) \<Longrightarrow> only asking (lookup_round L N D J R ty name answers0 follow)"
  unfolding lookup_round_def by (auto intro!: wired_rules split: sum.splits)

lemma only_lookup_loop: "only asking (lookup_loop L N D J R ty n visited name answers0)"
  by (induction n arbitrary: visited name answers0) (auto intro!: only_lookup_round wired_rules)

lemma only_lookup [wired_rules]: "only asking (lookup L N D J R name ty)"
  unfolding lookup_def by (auto intro!: wired_rules only_lookup_loop)

lemma only_LookupTXT: "only asking (LookupTXT L N D J R name)"
  unfolding LookupTXT_def by (intro wired_rules)

lemma only_address_loop: "only asking (address_loop L N D J R network host tys addresses)"
  by (induction tys arbitrary: addresses) (auto intro!: wired_rules)

lemma only_LookupNetIP: "only asking (LookupNetIP L N D J R network host)"
  unfolding LookupNetIP_def by (auto intro!: wired_rules only_address_loop)

interpretation package_resolver: asking_resolver "LookupNetIP L N D J R" for L N D J R
  by unfold_locales (rule only_LookupNetIP)

subsection \<open>Where the records come from\<close>

text \<open>A configured server was asked about the name in this history, and its response was accepted with these answers.\<close>

definition received :: "Wire \<Rightarrow> DnsMessage \<Rightarrow> Json \<Rightarrow> Resolver \<Rightarrow> dns_Type \<Rightarrow> trace \<Rightarrow> Resource list \<Rightarrow> bool" where
  "received N D J R ty t rs \<longleftrightarrow>
     (\<exists>later before server name qname i query conn response.
        t = later @ Asked server (dns_frame query) # before \<and> server \<in> set (rv_servers R) \<and>
        dm_NewName D name = Some qname \<and>
        dm_Pack D i \<lparr>qu_Name = qname, qu_Type = ty, qu_Class = ClassINET\<rparr> = Inr query \<and>
        wi_Ask N before server (dns_frame query) = Inr conn \<and> read_message R conn = Inr response \<and>
        parseResponse D J R response i \<lparr>qu_Name = qname, qu_Type = ty, qu_Class = ClassINET\<rparr> = Inr rs)"

lemma received_later: "received N D J R ty t rs \<Longrightarrow> received N D J R ty (u @ t) rs"
  unfolding received_def by (metis append_assoc)

lemma query_loop_Inr:
  assumes "run_state (query_loop N D J R query i question servers e) t = (Inr rs, t')"
  shows "\<exists>later before server conn response.
    t' = later @ Asked server (dns_frame query) # before \<and> server \<in> set servers \<and>
    wi_Ask N before server (dns_frame query) = Inr conn \<and> read_message R conn = Inr response \<and>
    parseResponse D J R response i question = Inr rs"
  using assms
proof (induction servers arbitrary: e t)
  case Nil
  then show ?case by (simp add: State_Monad.return_def)
next
  case (Cons server servers)
  have asked: "run_state (exchange N R server query) t =
      (and_then (wi_Ask N t server (dns_frame query)) (read_message R), Asked server (dns_frame query) # t)"
    by (simp add: exchange_def call_def State_Monad.bind_def State_Monad.return_def)
  have later: "\<exists>later before server' conn response.
      t' = later @ Asked server' (dns_frame query) # before \<and> server' \<in> set (server # servers) \<and>
      wi_Ask N before server' (dns_frame query) = Inr conn \<and> read_message R conn = Inr response \<and>
      parseResponse D J R response i question = Inr rs"
    if "run_state (query_loop N D J R query i question servers e') u = (Inr rs, t')" for e' u
    using Cons.IH [OF that] by (metis list.set_intros(2))
  show ?case
  proof (cases "and_then (wi_Ask N t server (dns_frame query)) (read_message R)")
    case (Inl f)
    with Cons.prems asked have "run_state (query_loop N D J R query i question servers (Some f))
        (Asked server (dns_frame query) # t) = (Inr rs, t')"
      by (auto simp: State_Monad.bind_def State_Monad.return_def observe_def split: option.splits)
    then show ?thesis by (rule later)
  next
    case (Inr response)
    then obtain conn where conn: "wi_Ask N t server (dns_frame query) = Inr conn" "read_message R conn = Inr response"
      by (cases "wi_Ask N t server (dns_frame query)") auto
    show ?thesis
    proof (cases "parseResponse D J R response i question")
      case (Inl f)
      with Cons.prems asked Inr have "run_state (query_loop N D J R query i question servers (Some f))
          (Asked server (dns_frame query) # t) = (Inr rs, t')"
        by (auto simp: State_Monad.bind_def State_Monad.return_def observe_def split: option.splits if_splits)
      then show ?thesis by (rule later)
    next
      case (Inr rs')
      with Cons.prems asked \<open>and_then _ _ = Inr response\<close> have "t' = [] @ Asked server (dns_frame query) # t" "rs' = rs"
        by (auto simp: State_Monad.bind_def State_Monad.return_def observe_def split: option.splits)
      with conn Inr show ?thesis by (metis list.set_intros(1))
    qed
  qed
qed

lemma resolver_query_Inr:
  assumes "run_state (resolver_query N D J R name ty) t = (Inr rs, t')"
  shows "received N D J R ty t' rs"
proof -
  from assms obtain qname where qname: "dm_NewName D name = Some qname"
    by (cases "dm_NewName D name") (simp_all add: resolver_query_def State_Monad.return_def)
  let ?q = "\<lparr>qu_Name = qname, qu_Type = ty, qu_Class = ClassINET\<rparr>"
  from assms qname obtain i query where "dm_Pack D i ?q = Inr query"
    "run_state (query_loop N D J R query i ?q (rv_servers R) None) t = (Inr rs, t')"
    by (auto simp: resolver_query_def and_also_def observe_def State_Monad.bind_def State_Monad.return_def Let_def
             split: sum.splits)
  with qname query_loop_Inr [of N D J R query i ?q "rv_servers R" None t rs t'] show ?thesis
    unfolding received_def by blast
qed

text \<open>A record of the given owner, and the records of a type among them.\<close>

definition owned :: "Json \<Rightarrow> string \<Rightarrow> Resource \<Rightarrow> bool" where
  "owned J name r \<longleftrightarrow> rh_Class (re_Header r) = ClassINET \<and> js_EqualFold J (rh_Name (re_Header r)) name"

definition proof_record :: "Json \<Rightarrow> string \<Rightarrow> dns_Type \<Rightarrow> Resource \<Rightarrow> bool" where
  "proof_record J name ty r \<longleftrightarrow>
     owned J name r \<and> rh_Type (re_Header r) = ty \<and> (case re_Body r of CNAMEResource _ \<Rightarrow> False | _ \<Rightarrow> True)"

lemma matching_loop_Inr:
  assumes "matching_loop L J name ty answers matching target = Inr (ms, a)"
  shows "ms = matching @ filter (proof_record J name ty) answers"
    and "a = target \<or> (\<exists>r \<in> set answers. \<exists>c. owned J name r \<and> re_Body r = CNAMEResource c \<and> a = strings_ToLower L c)"
  using assms
proof (induction answers arbitrary: matching target)
  case Nil
  { case 1 then show ?case by simp }
  { case 2 then show ?case by simp }
next
  case (Cons r answers)
  { case 1
    then show ?case
      using Cons.IH(1) proof_record_def [of J name ty r] owned_def [of J name r]
      by (cases "re_Body r") (fastforce simp: Let_def split: if_splits)+ }
  { case 2
    then show ?case
      using Cons.IH(2) owned_def [of J name r] by (cases "re_Body r") (auto simp: Let_def split: if_splits) }
qed

text \<open>
  \<open>alias_chain L J got start k name\<close>: the name is reached from \<open>start\<close> by \<open>k\<close> aliases, each a \<^verbatim>\<open>CNAME\<close> record of the previous name in
  one of the answers \<open>got\<close>.
\<close>

inductive alias_chain :: "Names \<Rightarrow> Json \<Rightarrow> (Resource list \<Rightarrow> bool) \<Rightarrow> string \<Rightarrow> nat \<Rightarrow> string \<Rightarrow> bool" for L J got start where
  chain_here: "alias_chain L J got start 0 start"
| chain_alias: "alias_chain L J got start k name \<Longrightarrow> got rs \<Longrightarrow> r \<in> set rs \<Longrightarrow> owned J name r \<Longrightarrow> re_Body r = CNAMEResource c \<Longrightarrow>
    alias_chain L J got start (Suc k) (strings_ToLower L c)"

lemma alias_chain_mono: "alias_chain L J got start k name \<Longrightarrow> (\<And>rs. got rs \<Longrightarrow> got' rs) \<Longrightarrow> alias_chain L J got' start k name"
  by (induction rule: alias_chain.induct) (auto intro: alias_chain.intros)

text \<open>The records of a name that is at most \<open>bound\<close> aliases away.\<close>

definition found :: "Names \<Rightarrow> Wire \<Rightarrow> DnsMessage \<Rightarrow> Json \<Rightarrow> Resolver \<Rightarrow> dns_Type \<Rightarrow> string \<Rightarrow> nat \<Rightarrow> Resource list \<Rightarrow> trace \<Rightarrow> bool" where
  "found L N D J R ty start bound ms t \<longleftrightarrow>
     (\<exists>k name rs. k \<le> bound \<and> alias_chain L J (received N D J R ty t) start k name \<and> received N D J R ty t rs \<and>
        ms = filter (proof_record J name ty) rs)"

lemma lookup_round_found:
  assumes run: "run_state (lookup_round L N D J R ty name answers0 follow) t = (Inr ms, t')"
    and answers0: "answers0 = [] \<or> received N D J R ty t answers0"
    and chain: "alias_chain L J (received N D J R ty t) start k name" "k \<le> bound"
    and follow: "\<And>target answers u. received N D J R ty u answers \<Longrightarrow>
      alias_chain L J (received N D J R ty u) start (Suc k) target \<Longrightarrow>
      run_state (follow target answers) u = (Inr ms, t') \<Longrightarrow> found L N D J R ty start bound ms t'"
  shows "found L N D J R ty start bound ms t'"
proof -
  let ?first = "if answers0 = [] then resolver_query N D J R name ty else State_Monad.return (Inr answers0)"
  obtain r u where u: "run_state ?first t = (r, u)" by (cases "run_state ?first t")
  with run obtain answers where r: "r = Inr answers"
    by (cases r) (auto simp: lookup_round_def and_also_def State_Monad.bind_def State_Monad.return_def)
  have got: "received N D J R ty u answers"
    using u r answers0 by (auto simp: State_Monad.return_def dest: resolver_query_Inr split: if_splits)
  obtain later where "u = later @ t"
    using u onlyD [OF only_resolver_query, of N D J R name ty t] by (auto simp: State_Monad.return_def split: if_splits)
  then have chain': "alias_chain L J (received N D J R ty u) start k name"
    using chain(1) by (auto intro: alias_chain_mono received_later)
  from run u r obtain ms' target where m: "matchingAnswers L J answers name ty = Inr (ms', target)"
    and cont: "run_state (if target = [] then State_Monad.return (Inr ms') else follow target answers) u = (Inr ms, t')"
    by (auto simp: lookup_round_def and_also_def State_Monad.bind_def State_Monad.return_def split: sum.splits prod.splits)
  have loop: "matching_loop L J name ty answers [] [] = Inr (ms', target)"
    using m by (cases "matching_loop L J name ty answers [] []") (auto simp: matchingAnswers_def split: if_splits prod.splits)
  show ?thesis
  proof (cases "target = []")
    case True
    with cont have "ms' = ms" "t' = u" by (simp_all add: State_Monad.return_def)
    with matching_loop_Inr(1) [OF loop] chain' chain(2) got show ?thesis
      unfolding found_def by auto
  next
    case False
    then obtain q c where "q \<in> set answers" "owned J name q" "re_Body q = CNAMEResource c" "target = strings_ToLower L c"
      using matching_loop_Inr(2) [OF loop] by blast
    with chain' got have "alias_chain L J (received N D J R ty u) start (Suc k) target"
      by (auto intro: chain_alias)
    with follow got cont False show ?thesis by simp
  qed
qed

lemma lookup_loop_found:
  assumes "run_state (lookup_loop L N D J R ty n visited name answers0) t = (Inr ms, t')"
    and "answers0 = [] \<or> received N D J R ty t answers0" "alias_chain L J (received N D J R ty t) start k name" "k + n \<le> bound"
  shows "found L N D J R ty start bound ms t'"
  using assms
proof (induction n arbitrary: visited name answers0 t k)
  case 0
  from "0.prems"(4) have "k \<le> bound" by simp
  from "0.prems"(1)[unfolded lookup_loop.simps] "0.prems"(2,3) this show ?case
    by (rule lookup_round_found) (simp add: State_Monad.return_def)
next
  case (Suc n)
  from Suc.prems(4) have "k \<le> bound" by simp
  from Suc.prems(1)[unfolded lookup_loop.simps] Suc.prems(2,3) this show ?case
  proof (rule lookup_round_found)
    fix target answers u
    assume got: "received N D J R ty u answers" and chain: "alias_chain L J (received N D J R ty u) start (Suc k) target"
      and run: "run_state (if target \<in> set visited then State_Monad.return (Inl (dnsFailure ''CNAME traversal limit or loop''))
        else lookup_loop L N D J R ty n (target # visited) target
          (if list_ex (\<lambda>a. js_EqualFold J (rh_Name (re_Header a)) target) answers then answers else [])) u = (Inr ms, t')"
    from run have "run_state (lookup_loop L N D J R ty n (target # visited) target
          (if list_ex (\<lambda>a. js_EqualFold J (rh_Name (re_Header a)) target) answers then answers else [])) u = (Inr ms, t')"
      by (simp add: State_Monad.return_def split: if_splits)
    then show "found L N D J R ty start bound ms t'"
      by (rule Suc.IH [OF _ _ chain]) (use got Suc.prems(4) in auto)
  qed
qed

lemma lookup_found:
  assumes "run_state (lookup L N D J R name ty) t = (Inr ms, t')"
  shows "found L N D J R ty (fqdn L name) (nat (rv_maxCNAMEs R)) ms t'"
proof -
  have "run_state (lookup_loop L N D J R ty (nat (rv_maxCNAMEs R)) [fqdn L name] (fqdn L name) []) t = (Inr ms, t')"
    using assms by (simp add: lookup_def State_Monad.return_def split: if_splits)
  then show ?thesis by (rule lookup_loop_found) (auto intro: chain_here)
qed

lemma LookupTXT_found:
  assumes "run_state (LookupTXT L N D J R name) t = (Inr texts, t')" "x \<in> set texts"
  shows "\<exists>ms r parts. found L N D J R TypeTXT (fqdn L name) (nat (rv_maxCNAMEs R)) ms t' \<and>
    r \<in> set ms \<and> re_Body r = TXTResource parts \<and> x = concat parts"
proof -
  obtain q u where q: "run_state (lookup L N D J R name TypeTXT) t = (q, u)"
    by (cases "run_state (lookup L N D J R name TypeTXT) t")
  with assms(1) obtain ms where "q = Inr ms" "t' = u"
    "texts = List.map_filter (\<lambda>r. case re_Body r of TXTResource parts \<Rightarrow> Some (concat parts) | _ \<Rightarrow> None) ms"
    by (cases q) (auto simp: LookupTXT_def and_also_def State_Monad.bind_def State_Monad.return_def)
  moreover from this obtain r parts where "r \<in> set ms" "re_Body r = TXTResource parts" "x = concat parts"
    using assms(2) by (auto simp: List.map_filter_def split: ResourceBody.splits)
  ultimately show ?thesis using lookup_found q by blast
qed

end
