(* ===== verification/Challenge_DNS.thy ===== *)
theory Challenge_DNS
  imports Challenge_Resolver
begin

section \<open>The DNS-01 validator\<close>

text \<open>
  \<^verbatim>\<open>challenge/dns.go\<close>.  The interface \<^verbatim>\<open>TXTResolver\<close> is an action over histories.  With the resolver of the package, a proof is accepted
  only if a configured name server answered with the digest of the key authorization in a \<^verbatim>\<open>TXT\<close> record of the challenge name or of a
  name it is an alias of.
\<close>

record DNSOptions =
  dn_Resolver :: "(string \<Rightarrow> (error + string list) wire) option"
  dn_Timeout :: duration

record DNS01 =
  d1_resolver :: "string \<Rightarrow> (error + string list) wire"
  d1_timeout :: duration

definition NewDNS01 :: "DNSOptions \<Rightarrow> error + DNS01" where
  "NewDNS01 opts =
     (case dn_Resolver opts of
        None \<Rightarrow> Inl (ErrorNew ''challenge: DNS resolver is required and timeout must not be negative'')
      | Some resolver \<Rightarrow>
          if dn_Timeout opts < 0
          then Inl (ErrorNew ''challenge: DNS resolver is required and timeout must not be negative'')
          else Inr \<lparr>d1_resolver = resolver, d1_timeout = (if dn_Timeout opts = 0 then 10 * second else dn_Timeout opts)\<rparr>)"

definition dns_digest :: "Crypto \<Rightarrow> ValidationRequest \<Rightarrow> string" where
  "dns_digest K request = encode_base64 (cr_SHA256 K (string_bytes (vr_KeyAuthorization request)))"

definition DNS01_Validate :: "Names \<Rightarrow> Crypto \<Rightarrow> DNS01 \<Rightarrow> ValidationRequest \<Rightarrow> (error + unit) wire" where
  "DNS01_Validate L K v request =
     (case checkRequest L request ChallengeDNS01 of
        Inl e \<Rightarrow> State_Monad.return (Inl e)
      | Inr i \<Rightarrow> do {
          r \<leftarrow> d1_resolver v (''_acme-challenge.'' @ id_Value i @ ''.'');
          State_Monad.return (case r of
             Inl e \<Rightarrow> Inl (retryable ErrorDNS ''TXT lookup failed'' e)
           | Inr records \<Rightarrow>
               if length records > 64 then Inl (dnsFailure ''TXT response exceeds the record limit'')
               else if contains records (dns_digest K request) then Inr ()
               else Inl (incorrect ''DNS challenge proof did not match'')) })"

lemma DNS01_Validate_Inr:
  assumes "run_state (DNS01_Validate L K v request) t = (Inr (), t')"
  obtains i records where "checkRequest L request ChallengeDNS01 = Inr i"
    "run_state (d1_resolver v (''_acme-challenge.'' @ id_Value i @ ''.'')) t = (Inr records, t')"
    "length records \<le> 64" "dns_digest K request \<in> set records"
proof -
  from assms obtain i where i: "checkRequest L request ChallengeDNS01 = Inr i"
    by (cases "checkRequest L request ChallengeDNS01") (simp_all add: DNS01_Validate_def State_Monad.return_def)
  obtain r u where r: "run_state (d1_resolver v (''_acme-challenge.'' @ id_Value i @ ''.'')) t = (r, u)"
    by (cases "run_state (d1_resolver v (''_acme-challenge.'' @ id_Value i @ ''.'')) t")
  with assms i obtain records where "r = Inr records" "u = t'" "length records \<le> 64" "dns_digest K request \<in> set records"
    by (cases r) (auto simp: DNS01_Validate_def State_Monad.bind_def State_Monad.return_def split: if_splits)
  with i r that show thesis by blast
qed

text \<open>C12. A DNS-01 proof is accepted only if it was published: when the validator accepts with the resolver of the package, the request was for a
  DNS name with a well-formed key authorization, and a configured name server answered a matching question with a TXT record that holds the digest
  of that key authorization, owned by the challenge name or by a name that the answers make an alias of it in at most the configured number of steps.\<close>

theorem DNS01_sound:
  assumes "run_state (DNS01_Validate L K \<lparr>d1_resolver = LookupTXT L N D J R, d1_timeout = timeout\<rparr> request) t = (Inr (), t')"
  shows "captured_proof request \<and>
    (\<exists>i k owner rs r parts.
       Normalize L (vr_Identifier request) = Inr i \<and> id_Type i = IdentifierDNS \<and> \<not> IsWildcard i \<and>
       k \<le> nat (rv_maxCNAMEs R) \<and>
       alias_chain L J (received N D J R TypeTXT t') (fqdn L (''_acme-challenge.'' @ id_Value i @ ''.'')) k owner \<and>
       received N D J R TypeTXT t' rs \<and> r \<in> set rs \<and> proof_record J owner TypeTXT r \<and>
       re_Body r = TXTResource parts \<and> concat parts = dns_digest K request)"
proof -
  from assms obtain i records where i: "checkRequest L request ChallengeDNS01 = Inr i"
    and run: "run_state (LookupTXT L N D J R (''_acme-challenge.'' @ id_Value i @ ''.'')) t = (Inr records, t')"
    and digest: "dns_digest K request \<in> set records"
    by (auto elim: DNS01_Validate_Inr)
  from LookupTXT_found [OF run digest] i checkRequest_Inr [OF i] show ?thesis
    unfolding found_def by fastforce
qed

end
