(* ===== verification/Challenge_Http.thy ===== *)
theory Challenge_Http
  imports Challenge_Resolver
begin

section \<open>The HTTP-01 validator\<close>

text \<open>
  \<^verbatim>\<open>challenge/http.go\<close> with the client of \<^verbatim>\<open>net/http\<close> as the validator configures it: no proxy, no reuse of connections, the validator's own dialer
  and redirect check.  The client opens a connection for every request, sends it, and follows a redirect that the check admits.  Shown: whatever the
  name servers and the peers answer, connections go to permitted addresses on the ports for HTTP and HTTPS only and the number of requests is
  bounded; and a proof is accepted only if a peer at such an address served exactly the key authorization.
\<close>

subsection \<open>The client\<close>

text \<open>
  What is not modelled of the libraries: the lookup profile of IDNA for a host that is not ASCII, the resolution of a reference against a URL, which errors
  are the two kinds of TLS errors that are asked for by type, and the text of an error.
\<close>

record HttpClient =
  hc_LookupASCII :: "string \<Rightarrow> string option"
  hc_Resolve :: "URL \<Rightarrow> string \<Rightarrow> URL option"
  hc_AlertError :: "error \<Rightarrow> bool"
  hc_RecordHeaderError :: "error \<Rightarrow> bool"
  hc_Error :: "error \<Rightarrow> string"

record HTTPOptions =
  ho_Network :: NetworkOptions
  ho_TestPort :: int
  ho_MaxRedirects :: int
  ho_MaxResponseBytes :: int

record HTTP01 =
  h1_network :: networkPolicy
  h1_testPort :: int
  h1_redirects :: int
  h1_maxBody :: int

definition NewHTTP01 :: "HTTPOptions \<Rightarrow> error + HTTP01" where
  "NewHTTP01 opts =
     and_then (newNetwork (ho_Network opts)) (\<lambda>network.
       if ho_TestPort opts < 0 \<or> ho_TestPort opts > 65535 \<or> ho_MaxRedirects opts < 0 \<or> ho_MaxResponseBytes opts < 0
       then Inl (ErrorNew ''challenge: HTTP limits are invalid'')
       else Inr \<lparr>h1_network = network, h1_testPort = ho_TestPort opts,
                 h1_redirects = (if ho_MaxRedirects opts = 0 then 10 else ho_MaxRedirects opts),
                 h1_maxBody = (if ho_MaxResponseBytes opts = 0 then 4096 else ho_MaxResponseBytes opts)\<rparr>)"

definition tlsFailure :: "HttpClient \<Rightarrow> error \<Rightarrow> bool" where
  "tlsFailure C err \<longleftrightarrow> hc_AlertError C err \<or> hc_RecordHeaderError C err \<or> contains_text (hc_Error C err) ''tls: ''"

definition checkHTTPURL :: "URL \<Rightarrow> error + unit" where
  "checkHTTPURL target =
     (if (url_Scheme target \<noteq> ''http'' \<and> url_Scheme target \<noteq> ''https'') \<or> url_Hostname target = [] \<or> url_User target \<noteq> None \<or>
         url_Opaque target \<noteq> [] \<or> url_Fragment target \<noteq> []
      then Inl (incorrect ''HTTP redirect target is not permitted'')
      else if url_Port target \<noteq> [] \<and> url_Port target \<noteq> ''80'' \<and> url_Port target \<noteq> ''443''
      then Inl (incorrect ''HTTP redirect port is not permitted'')
      else Inr ())"

definition HTTP01_dial :: "Names \<Rightarrow> Wire \<Rightarrow> HTTP01 \<Rightarrow> string \<Rightarrow> (error + string) wire" where
  "HTTP01_dial L N v address =
     (case SplitHostPort address of
        None \<Rightarrow> State_Monad.return (Inl (ErrorNew (''address '' @ address @ '': invalid host and port'')))
      | Some (host, rawPort) \<Rightarrow>
          (case Atoi rawPort of
             None \<Rightarrow> State_Monad.return (Inl (incorrect ''HTTP destination port is not permitted''))
           | Some port \<Rightarrow>
               if port \<noteq> 80 \<and> port \<noteq> 443
               then State_Monad.return (Inl (incorrect ''HTTP destination port is not permitted''))
               else network_dial L N (h1_network v) host (if h1_testPort v \<noteq> 0 \<and> port = 80 then h1_testPort v else port)))"

text \<open>The address the transport dials for a URL: its host in ASCII, and its port or that of the scheme.\<close>

definition canonicalAddr :: "HttpClient \<Rightarrow> URL \<Rightarrow> string" where
  "canonicalAddr C u =
     (let host = url_Hostname u;
          addr = (if is_ascii host then host else case hc_LookupASCII C host of Some a \<Rightarrow> a | None \<Rightarrow> host);
          port = (if url_Port u \<noteq> [] then url_Port u else if url_Scheme u = ''https'' then ''443'' else ''80'') in
      JoinHostPort addr port)"

text \<open>One request: a new connection, then the response of the peer.  A failed TLS handshake is a failed response.\<close>

definition roundTrip :: "HttpClient \<Rightarrow> Names \<Rightarrow> Wire \<Rightarrow> HTTP01 \<Rightarrow> URL \<Rightarrow> (error + HTTPResponse) wire" where
  "roundTrip C L N v u =
     (if url_Scheme u \<noteq> ''http'' \<and> url_Scheme u \<noteq> ''https''
      then State_Monad.return (Inl (ErrorNew (''unsupported protocol scheme '' @ nm_Quote L (url_Scheme u))))
      else if url_Host u = [] then State_Monad.return (Inl (ErrorNew ''http: no Host in request URL''))
      else and_also (HTTP01_dial L N v (canonicalAddr C u)) (\<lambda>conn.
        call (Fetched conn u) (\<lambda>t. wi_Get N t conn u)))"

text \<open>A \<^verbatim>\<open>url.Error\<close> names the operation and the URL.\<close>

definition url_error :: "Names \<Rightarrow> string \<Rightarrow> error \<Rightarrow> error" where
  "url_error L u err = ErrWrap (''Get '' @ nm_Quote L u) err"

definition redirect_status :: "int \<Rightarrow> bool" where
  "redirect_status code \<longleftrightarrow> code \<in> {301, 302, 303, 307, 308}"

text \<open>One round of \<^verbatim>\<open>Client.Do\<close> up to a redirect, which is handed on with its \<^verbatim>\<open>Location\<close>.\<close>

definition client_round :: "HttpClient \<Rightarrow> Names \<Rightarrow> Wire \<Rightarrow> HTTP01 \<Rightarrow> URL \<Rightarrow> (URL \<Rightarrow> string \<Rightarrow> (error + HTTPResponse) wire) \<Rightarrow>
    (error + HTTPResponse) wire" where
  "client_round C L N v u follow = do {
     r \<leftarrow> roundTrip C L N v u;
     (case r of
        Inl e \<Rightarrow> State_Monad.return (Inl (url_error L (nm_String L u) e))
      | Inr response \<Rightarrow>
          if \<not> redirect_status (hr_StatusCode response) \<or> hr_Location response = []
          then State_Monad.return (Inr response)
          else (case hc_Resolve C u (hr_Location response) of
                  None \<Rightarrow> State_Monad.return (Inl (url_error L (nm_String L u) (ErrorNew
                    (''failed to parse Location header '' @ nm_Quote L (hr_Location response)))))
                | Some target \<Rightarrow> follow target (hr_Location response))) }"

text \<open>
  The loop with the validator's redirect check.  The counter is \<open>redirects + 1 - len(via)\<close>, the number of redirects that the first
  condition of the check still admits.
\<close>

fun client_loop :: "HttpClient \<Rightarrow> Names \<Rightarrow> Wire \<Rightarrow> HTTP01 \<Rightarrow> nat \<Rightarrow> URL \<Rightarrow> (error + HTTPResponse) wire" where
  "client_loop C L N v 0 u = client_round C L N v u (\<lambda>target location.
     State_Monad.return (Inl (url_error L location (incorrect ''HTTP redirect limit exceeded''))))"
| "client_loop C L N v (Suc n) u = client_round C L N v u (\<lambda>target location.
     (case checkHTTPURL target of
        Inl e \<Rightarrow> State_Monad.return (Inl (url_error L location e))
      | Inr _ \<Rightarrow> client_loop C L N v n target))"

definition client_Do :: "HttpClient \<Rightarrow> Names \<Rightarrow> Wire \<Rightarrow> HTTP01 \<Rightarrow> URL \<Rightarrow> (error + HTTPResponse) wire" where
  "client_Do C L N v u = client_loop C L N v (nat (h1_redirects v)) u"

subsection \<open>The validator\<close>

definition proof_url :: "Identifier \<Rightarrow> string \<Rightarrow> URL" where
  "proof_url i token =
     \<lparr>url_Scheme = ''http'', url_Host = (if CHR '':'' \<in> set (id_Value i) then ''['' @ id_Value i @ '']'' else id_Value i),
      url_User = None, url_Fragment = [], url_Opaque = [], url_Path = ''/.well-known/acme-challenge/'' @ token,
      url_RawQuery = [], url_Rest = []\<rparr>"

text \<open>\<^verbatim>\<open>strings.TrimRight(s, " \t\r\n")\<close>\<close>

definition trim_right :: "string \<Rightarrow> string" where
  "trim_right s = rev (dropWhile (\<lambda>c. ord c = 32 \<or> ord c = 9 \<or> ord c = 13 \<or> ord c = 10) (rev s))"

text \<open>
  \<^verbatim>\<open>io.ReadAll(io.LimitReader(response.Body, v.maxBody+1))\<close>: a limit that is not positive delivers nothing, and one that is reached hides
  what the reader would do next.
\<close>

definition read_proof :: "HTTP01 \<Rightarrow> HTTPResponse \<Rightarrow> error + string" where
  "read_proof v response =
     (let limit = i64 (h1_maxBody v + 1) in
      case hr_Fails response of
        Some e \<Rightarrow> if int (length (hr_Body response)) < limit then Inl e else Inr (take (nat limit) (hr_Body response))
      | None \<Rightarrow> Inr (take (nat limit) (hr_Body response)))"

definition check_proof :: "HTTP01 \<Rightarrow> ValidationRequest \<Rightarrow> HTTPResponse \<Rightarrow> error + unit" where
  "check_proof v request response =
     (if hr_StatusCode response \<noteq> 200 then Inl (incorrect ''HTTP challenge response was not 200'')
      else case read_proof v response of
        Inl e \<Rightarrow> Inl (retryable ErrorConnection ''HTTP proof could not be read'' (ErrWrap ''challenge: HTTP proof read'' e))
      | Inr body \<Rightarrow>
          if int (length body) > h1_maxBody v \<or> trim_right body \<noteq> vr_KeyAuthorization request
          then Inl (incorrect ''HTTP challenge proof did not match'')
          else Inr ())"

definition HTTP01_Validate :: "HttpClient \<Rightarrow> Names \<Rightarrow> Wire \<Rightarrow> HTTP01 \<Rightarrow> ValidationRequest \<Rightarrow> (error + unit) wire" where
  "HTTP01_Validate C L N v request =
     (case checkRequest L request ChallengeHTTP01 of
        Inl e \<Rightarrow> State_Monad.return (Inl e)
      | Inr i \<Rightarrow>
          (case nm_Parse L (nm_String L (proof_url i (ch_Token (vr_Challenge request)))) of
             None \<Rightarrow> State_Monad.return (Inl (ErrorNew ''parse request URL''))
           | Some target \<Rightarrow> do {
               r \<leftarrow> client_Do C L N v target;
               State_Monad.return (case r of
                  Inl e \<Rightarrow> Inl (retryable (if tlsFailure C e then ErrorTLS else ErrorConnection) ''HTTP validation request failed''
                                 (ErrWrap ''challenge: HTTP validation'' e))
                | Inr response \<Rightarrow> check_proof v request response) }))"

subsection \<open>Where the requests go\<close>

definition http_ports :: "HTTP01 \<Rightarrow> int set" where
  "http_ports v = {if h1_testPort v \<noteq> 0 then h1_testPort v else 80, 443}"

definition http_destination :: "HTTP01 \<Rightarrow> string \<Rightarrow> bool" where
  "http_destination v d \<longleftrightarrow> (\<exists>port \<in> http_ports v. allowed_destination (h1_network v) port d)"

text \<open>Questions to name servers, connections to permitted destinations, and requests over these connections.\<close>

definition http_events :: "HTTP01 \<Rightarrow> wire_event set" where
  "http_events v = asking \<union> {Dialed d | d. http_destination v d} \<union> {Fetched d u | d u. http_destination v d}"

lemma contacts_http: "port \<in> http_ports v \<Longrightarrow> asking \<union> contacts (h1_network v) {port} \<subseteq> http_events v"
  by (auto simp: http_events_def contacts_def http_destination_def)

lemma HTTP01_dial_cases:
  "(\<exists>e. HTTP01_dial L N v address = State_Monad.return (Inl e)) \<or>
   (\<exists>host port. port \<in> http_ports v \<and> HTTP01_dial L N v address = network_dial L N (h1_network v) host port)"
proof (cases "SplitHostPort address")
  case None
  then show ?thesis by (auto simp: HTTP01_dial_def)
next
  case (Some hp)
  obtain host raw where hp: "hp = (host, raw)" by (cases hp)
  show ?thesis
  proof (cases "Atoi raw")
    case None
    with Some hp show ?thesis by (auto simp: HTTP01_dial_def)
  next
    case (Some port)
    define real where "real = (if h1_testPort v \<noteq> 0 \<and> port = 80 then h1_testPort v else port)"
    have dial: "HTTP01_dial L N v address =
        (if port \<noteq> 80 \<and> port \<noteq> 443
         then State_Monad.return (Inl (incorrect ''HTTP destination port is not permitted''))
         else network_dial L N (h1_network v) host real)"
      using \<open>SplitHostPort address = Some hp\<close> hp Some by (simp add: HTTP01_dial_def real_def)
    show ?thesis
    proof (cases "port = 80 \<or> port = 443")
      case True
      then have "real \<in> http_ports v" by (auto simp: http_ports_def real_def)
      moreover have "HTTP01_dial L N v address = network_dial L N (h1_network v) host real" using True dial by auto
      ultimately show ?thesis by blast
    next
      case False
      then show ?thesis using dial by auto
    qed
  qed
qed

lemma only_HTTP01_dial: "resolver_only_asks (h1_network v) \<Longrightarrow> only (http_events v) (HTTP01_dial L N v address)"
  using HTTP01_dial_cases [of L N v address]
  by (auto intro: only_return only_mono [OF only_network_dial contacts_http])

lemma HTTP01_dial_Inr:
  "run_state (HTTP01_dial L N v address) t = (Inr d, t') \<Longrightarrow> http_destination v d \<and> Dialed d \<in> set t'"
  using HTTP01_dial_cases [of L N v address]
  by (auto simp: State_Monad.return_def http_destination_def dest!: network_dial_Inr)

lemma only_roundTrip:
  assumes "resolver_only_asks (h1_network v)"
  shows "only (http_events v) (roundTrip C L N v u)"
proof -
  have "Fetched d u \<in> http_events v" if "http_destination v d" for d
    using that by (auto simp: http_events_def)
  then have "only (http_events v) (and_also (HTTP01_dial L N v (canonicalAddr C u)) (\<lambda>conn.
      call (Fetched conn u) (\<lambda>t. wi_Get N t conn u)))"
    using assms by (auto intro!: only_and_also_result only_HTTP01_dial only_call dest: HTTP01_dial_Inr)
  then show ?thesis by (simp add: roundTrip_def only_return)
qed

lemma only_client_round:
  "resolver_only_asks (h1_network v) \<Longrightarrow> (\<And>target location. only (http_events v) (follow target location)) \<Longrightarrow>
     only (http_events v) (client_round C L N v u follow)"
  unfolding client_round_def
  by (auto intro!: only_bind only_return only_roundTrip split: sum.splits option.splits)

lemma only_client_loop: "resolver_only_asks (h1_network v) \<Longrightarrow> only (http_events v) (client_loop C L N v n u)"
  by (induction n arbitrary: u) (auto intro!: only_client_round only_return split: sum.splits)

lemma only_HTTP01_Validate:
  "resolver_only_asks (h1_network v) \<Longrightarrow> only (http_events v) (HTTP01_Validate C L N v request)"
  unfolding HTTP01_Validate_def client_Do_def
  by (auto intro!: only_bind only_return only_client_loop split: sum.splits option.splits)

subsection \<open>How many requests are sent\<close>

fun is_fetch :: "wire_event \<Rightarrow> bool" where
  "is_fetch (Fetched _ _) = True"
| "is_fetch _ = False"

definition fetches :: "trace \<Rightarrow> nat" where
  "fetches t = length (filter is_fetch t)"

lemma fetches_only:
  assumes "only (asking \<union> contacts p ports) m" "run_state m t = (x, t')"
  shows "fetches t' = fetches t"
proof -
  obtain u where u: "t' = u @ t" "set u \<subseteq> asking \<union> contacts p ports" using onlyD [OF assms] .
  then have "\<not> is_fetch e" if "e \<in> set u" for e using that by (auto simp: asking_def contacts_def)
  then have "filter is_fetch u = []" by (simp add: filter_empty_conv)
  with u show ?thesis by (simp add: fetches_def)
qed

lemma fetches_dial:
  assumes "resolver_only_asks (h1_network v)" "run_state (HTTP01_dial L N v address) t = (x, t')"
  shows "fetches t' = fetches t"
  using assms HTTP01_dial_cases [of L N v address]
  by (auto simp: State_Monad.return_def dest: fetches_only [OF only_network_dial])

lemma fetches_roundTrip:
  assumes "resolver_only_asks (h1_network v)" "run_state (roundTrip C L N v u) t = (x, t')"
  shows "fetches t' \<le> Suc (fetches t)"
proof -
  obtain d t1 where d: "run_state (HTTP01_dial L N v (canonicalAddr C u)) t = (d, t1)"
    by (cases "run_state (HTTP01_dial L N v (canonicalAddr C u)) t")
  from fetches_dial [OF assms(1) d] have "fetches t1 = fetches t" .
  with assms(2) d show ?thesis
    by (auto simp: roundTrip_def and_also_def State_Monad.bind_def State_Monad.return_def call_def fetches_def
             split: if_splits sum.splits)
qed

lemma fetches_client_round:
  assumes "resolver_only_asks (h1_network v)"
    and "\<And>target location t x t'. run_state (follow target location) t = (x, t') \<Longrightarrow> fetches t' \<le> fetches t + n"
    and "run_state (client_round C L N v u follow) t = (x, t')"
  shows "fetches t' \<le> fetches t + Suc n"
proof -
  obtain r t1 where r: "run_state (roundTrip C L N v u) t = (r, t1)" by (cases "run_state (roundTrip C L N v u) t")
  have 1: "fetches t1 \<le> Suc (fetches t)" by (rule fetches_roundTrip [OF assms(1) r])
  have "t' = t1 \<or> (\<exists>target location. run_state (follow target location) t1 = (x, t'))"
    using assms(3) r by (auto simp: client_round_def State_Monad.bind_def State_Monad.return_def split: sum.splits option.splits if_splits)
  with 1 assms(2) show ?thesis by fastforce
qed

lemma fetches_client_loop:
  assumes "resolver_only_asks (h1_network v)" "run_state (client_loop C L N v n u) t = (x, t')"
  shows "fetches t' \<le> fetches t + Suc n"
  using assms(2)
proof (induction n arbitrary: u t x t')
  case 0
  from assms(1) _ "0.prems"[unfolded client_loop.simps] show ?case
    by (rule fetches_client_round) (simp add: State_Monad.return_def)
next
  case (Suc n)
  from assms(1) _ Suc.prems[unfolded client_loop.simps] show ?case
    by (rule fetches_client_round) (auto simp: State_Monad.return_def split: sum.splits dest: Suc.IH)
qed

subsection \<open>What an accepted proof is\<close>

lemma roundTrip_Inr:
  assumes "run_state (roundTrip C L N v u) t = (Inr response, t')"
  shows "\<exists>conn before. t' = Fetched conn u # before \<and> http_destination v conn \<and> Dialed conn \<in> set before \<and>
    wi_Get N before conn u = Inr response"
proof -
  obtain d t1 where d: "run_state (HTTP01_dial L N v (canonicalAddr C u)) t = (d, t1)"
    by (cases "run_state (HTTP01_dial L N v (canonicalAddr C u)) t")
  have "run_state (and_also (HTTP01_dial L N v (canonicalAddr C u)) (\<lambda>conn.
      call (Fetched conn u) (\<lambda>t. wi_Get N t conn u))) t = (Inr response, t')"
    using assms by (simp add: roundTrip_def State_Monad.return_def split: if_splits)
  with d obtain conn where conn: "d = Inr conn" "t' = Fetched conn u # t1" "wi_Get N t1 conn u = Inr response"
    by (cases d) (simp_all add: and_also_def State_Monad.bind_def State_Monad.return_def call_def)
  from HTTP01_dial_Inr d conn(1) have "http_destination v conn \<and> Dialed conn \<in> set t1" by simp
  with conn(2,3) show ?thesis by simp
qed

definition fetched :: "Wire \<Rightarrow> HTTP01 \<Rightarrow> (URL \<Rightarrow> bool) \<Rightarrow> HTTPResponse \<Rightarrow> trace \<Rightarrow> bool" where
  "fetched N v admitted response t \<longleftrightarrow>
     (\<exists>conn u before. t = Fetched conn u # before \<and> http_destination v conn \<and> Dialed conn \<in> set before \<and>
        wi_Get N before conn u = Inr response \<and> admitted u)"

lemma fetched_mono: "fetched N v P response t \<Longrightarrow> (\<And>u. P u \<Longrightarrow> Q u) \<Longrightarrow> fetched N v Q response t"
  unfolding fetched_def by blast

lemma client_round_Inr:
  assumes "run_state (client_round C L N v u follow) t = (Inr response, t')"
  shows "fetched N v (\<lambda>u'. u' = u) response t' \<or> (\<exists>target location t1. run_state (follow target location) t1 = (Inr response, t'))"
proof -
  obtain r t1 where r: "run_state (roundTrip C L N v u) t = (r, t1)" by (cases "run_state (roundTrip C L N v u) t")
  with assms have "r = Inr response \<and> t' = t1 \<or> (\<exists>target location t1. run_state (follow target location) t1 = (Inr response, t'))"
    by (auto simp: client_round_def State_Monad.bind_def State_Monad.return_def split: sum.splits option.splits if_splits)
  with r show ?thesis unfolding fetched_def using roundTrip_Inr by blast
qed

lemma client_loop_Inr:
  "run_state (client_loop C L N v n u) t = (Inr response, t') \<Longrightarrow>
     fetched N v (\<lambda>u'. u' = u \<or> checkHTTPURL u' = Inr ()) response t'"
proof (induction n arbitrary: u t)
  case 0
  from client_round_Inr [OF "0.prems"[unfolded client_loop.simps]] show ?case
    by (auto simp: State_Monad.return_def elim: fetched_mono)
next
  case (Suc n)
  from client_round_Inr [OF Suc.prems[unfolded client_loop.simps]] show ?case
  proof
    assume "fetched N v (\<lambda>u'. u' = u) response t'"
    then show ?thesis by (rule fetched_mono) simp
  next
    assume "\<exists>target location t1. run_state (case checkHTTPURL target of
        Inl e \<Rightarrow> State_Monad.return (Inl (url_error L location e))
      | Inr _ \<Rightarrow> client_loop C L N v n target) t1 = (Inr response, t')"
    then obtain target location t1 where run: "run_state (case checkHTTPURL target of
        Inl e \<Rightarrow> State_Monad.return (Inl (url_error L location e))
      | Inr _ \<Rightarrow> client_loop C L N v n target) t1 = (Inr response, t')" by blast
    then have "checkHTTPURL target = Inr ()" "run_state (client_loop C L N v n target) t1 = (Inr response, t')"
      by (cases "checkHTTPURL target"; simp add: State_Monad.return_def)+
    with Suc.IH show ?thesis by (blast intro: fetched_mono)
  qed
qed

lemma trim_right_Nil [simp]: "trim_right [] = []"
  by (simp add: trim_right_def)

lemma check_proof_Inr:
  assumes "check_proof v request response = Inr ()" "h1_maxBody v < 2 ^ 63" "vr_KeyAuthorization request \<noteq> []"
  shows "hr_StatusCode response = 200 \<and> trim_right (hr_Body response) = vr_KeyAuthorization request \<and>
    int (length (hr_Body response)) \<le> h1_maxBody v"
proof -
  let ?limit = "i64 (h1_maxBody v + 1)"
  from assms(1) have "hr_StatusCode response = 200" and
    body: "int (length (take (nat ?limit) (hr_Body response))) \<le> h1_maxBody v"
      "trim_right (take (nat ?limit) (hr_Body response)) = vr_KeyAuthorization request"
    by (auto simp: check_proof_def read_proof_def Let_def split: if_splits option.splits)
  have "h1_maxBody v + 1 \<noteq> 2 ^ 63"
  proof
    assume "h1_maxBody v + 1 = 2 ^ 63"
    then have "nat ?limit = 0" by (simp add: i64_def)
    with body(2) assms(3) show False by simp
  qed
  moreover have "0 \<le> h1_maxBody v" using body(1) by linarith
  ultimately have "?limit = h1_maxBody v + 1" using assms(2) by simp
  with body \<open>0 \<le> h1_maxBody v\<close> have "length (hr_Body response) \<le> nat (h1_maxBody v)" by auto
  then have "take (nat ?limit) (hr_Body response) = hr_Body response" "int (length (hr_Body response)) \<le> h1_maxBody v"
    using \<open>?limit = _\<close> \<open>0 \<le> h1_maxBody v\<close> by auto
  with body \<open>hr_StatusCode response = 200\<close> show ?thesis by simp
qed

text \<open>With the largest limit that can be configured the sum overflows, nothing is read, and every proof is refused.\<close>

lemma check_proof_overflow:
  assumes "h1_maxBody v = 2 ^ 63 - 1" "hr_StatusCode response = 200" "hr_Fails response = None" "captured_proof request"
  shows "check_proof v request response = Inl (incorrect ''HTTP challenge proof did not match'')"
  using assms by (auto simp: check_proof_def read_proof_def Let_def i64_def captured_proof_def)


lemma allowed_destination_public:
  assumes "allowed_destination p port d"
  shows "\<exists>a. Zone a = [] \<and> (PublicAddress (Some a) \<or> (\<exists>q \<in> set (np_allowed p). prefix_Contains q a)) \<and>
    d = JoinHostPort (Addr_String a) (itoa port)"
proof -
  from assms obtain a where "permits p (Some a)" "d = destination (Some a) port" by (auto simp: allowed_destination_def)
  then show ?thesis
    by (intro exI [of _ "unmap a"]) (auto simp: permits_def destination_def netip_String_def list_ex_iff split: if_splits)
qed

text \<open>C10. The HTTP-01 validator cannot be steered into a private network: whatever the name servers and the peers answer, redirects included, every connection a
  validation opens is to the text of an address that is public or in a network the operator allowed, on the port for HTTP or HTTPS, and a
  validation, accepted or not, sends at most one request more than the configured number of redirects.\<close>

theorem HTTP01_egress:
  assumes "NewHTTP01 opts = Inr v" "no_Resolver (ho_Network opts) = Some (LookupNetIP L N D J R)"
    and "run_state (HTTP01_Validate C L N v request) t = (r, t')"
  shows "\<exists>u. t' = u @ t \<and> fetches u \<le> nat (h1_redirects v) + 1 \<and>
    (\<forall>d. Dialed d \<in> set u \<longrightarrow> (\<exists>port a. port \<in> http_ports v \<and> Zone a = [] \<and>
       (PublicAddress (Some a) \<or> (\<exists>q \<in> set (no_AllowedNetworks (ho_Network opts)). prefix_Contains q a)) \<and>
       d = JoinHostPort (Addr_String a) (itoa port)))"
proof -
  from assms(1,2) have network: "np_resolver (h1_network v) = LookupNetIP L N D J R"
    "np_allowed (h1_network v) = no_AllowedNetworks (ho_Network opts)"
    by (auto simp: NewHTTP01_def newNetwork_def split: if_splits)
  have asks: "resolver_only_asks (h1_network v)"
    by (rule package_resolver.policy_only_asks) (rule network(1))
  obtain u where u: "t' = u @ t" "set u \<subseteq> http_events v"
    using onlyD [OF only_HTTP01_Validate [OF asks] assms(3)] .
  have "\<exists>port a. port \<in> http_ports v \<and> Zone a = [] \<and>
       (PublicAddress (Some a) \<or> (\<exists>q \<in> set (no_AllowedNetworks (ho_Network opts)). prefix_Contains q a)) \<and>
       d = JoinHostPort (Addr_String a) (itoa port)" if "Dialed d \<in> set u" for d
  proof -
    have "http_destination v d" using that u(2) by (auto simp: http_events_def asking_def)
    then show ?thesis
      using allowed_destination_public [of "h1_network v" _ d] unfolding http_destination_def network(2) by metis
  qed
  moreover have "fetches t' \<le> fetches t + Suc (nat (h1_redirects v))"
    using assms(3) fetches_client_loop [OF asks]
    by (fastforce simp: HTTP01_Validate_def client_Do_def State_Monad.bind_def State_Monad.return_def
                  split: sum.splits option.splits prod.splits)
  ultimately show ?thesis using u(1) by (intro exI [of _ u]) (simp add: fetches_def)
qed

end
