(* ===== verification/Challenge_TLS.thy ===== *)
theory Challenge_TLS
  imports Challenge_Resolver
begin

section \<open>The TLS-ALPN-01 validator\<close>

text \<open>
  \<^verbatim>\<open>challenge/tlsalpn.go\<close>: the connection, the server name sent, and the check of the certificate the peer presents, with what it uses of
  \<^verbatim>\<open>encoding/asn1\<close>.  The handshake itself is part of the network: it presents a connection state, runs the check, and may still fail.  Shown: a
  proof is accepted only from a permitted address, for a certificate whose only name is the identifier and whose critical extension holds the digest of the key
  authorization; the byte budget of a connection is never exceeded.
\<close>

subsection \<open>ASN.1\<close>

text \<open>\<^verbatim>\<open>parseBase128Int\<close> and \<^verbatim>\<open>parseTagAndLength\<close> of the standard library.\<close>

record tagAndLength =
  tl_class :: nat
  tl_compound :: bool
  tl_tag :: nat
  tl_length :: nat

fun parseBase128Int :: "nat \<Rightarrow> nat \<Rightarrow> bytes \<Rightarrow> (nat \<times> bytes) option" where
  "parseBase128Int shifted acc [] = None"
| "parseBase128Int shifted acc (b # bs) =
     (if shifted = 5 then None
      else if shifted = 0 \<and> unat b = 128 then None
      else if unat b < 128 then (if acc * 128 + unat b > 2 ^ 31 - 1 then None else Some (acc * 128 + unat b, bs))
      else parseBase128Int (shifted + 1) (acc * 128 + unat b mod 128) bs)"

fun long_length :: "nat \<Rightarrow> nat \<Rightarrow> bytes \<Rightarrow> (nat \<times> bytes) option" where
  "long_length 0 acc bs = Some (acc, bs)"
| "long_length (Suc n) acc [] = None"
| "long_length (Suc n) acc (b # bs) =
     (if acc \<ge> 2 ^ 23 then None
      else if acc * 256 + unat b = 0 then None
      else long_length n (acc * 256 + unat b) bs)"

definition parse_length :: "bytes \<Rightarrow> (nat \<times> bytes) option" where
  "parse_length bs =
     (case bs of
        [] \<Rightarrow> None
      | b # rest \<Rightarrow>
          if unat b < 128 then Some (unat b, rest)
          else if unat b = 128 then None
          else case long_length (unat b - 128) 0 rest of
            None \<Rightarrow> None
          | Some (n, rest') \<Rightarrow> if n < 128 then None else Some (n, rest'))"

definition parse_tag :: "bytes \<Rightarrow> (nat \<times> bool \<times> nat \<times> bytes) option" where
  "parse_tag bs =
     (case bs of
        [] \<Rightarrow> None
      | b # rest \<Rightarrow>
          let class = unat b div 64; compound = unat b div 32 mod 2 = 1 in
          if unat b mod 32 \<noteq> 31 then Some (class, compound, unat b mod 32, rest)
          else case parseBase128Int 0 0 rest of
            None \<Rightarrow> None
          | Some (tag, rest') \<Rightarrow> if tag < 31 then None else Some (class, compound, tag, rest'))"

definition parseTagAndLength :: "bytes \<Rightarrow> (tagAndLength \<times> bytes) option" where
  "parseTagAndLength bs =
     (case parse_tag bs of
        None \<Rightarrow> None
      | Some (class, compound, tag, rest) \<Rightarrow>
          (case parse_length rest of
             None \<Rightarrow> None
           | Some (n, content) \<Rightarrow>
               Some (\<lparr>tl_class = class, tl_compound = compound, tl_tag = tag, tl_length = n\<rparr>, content)))"

text \<open>One element: its header, its content and the bytes after it.\<close>

definition asn1_element :: "bytes \<Rightarrow> (tagAndLength \<times> bytes \<times> bytes) option" where
  "asn1_element bs =
     (case parseTagAndLength bs of
        None \<Rightarrow> None
      | Some (h, rest) \<Rightarrow> if length rest < tl_length h then None else Some (h, take (tl_length h) rest, drop (tl_length h) rest))"

lemma parseBase128Int_shorter: "parseBase128Int k acc bs = Some (n, rest) \<Longrightarrow> length rest < length bs"
  by (induction k acc bs rule: parseBase128Int.induct) (auto split: if_splits)

lemma long_length_shorter: "long_length k acc bs = Some (n, rest) \<Longrightarrow> length rest \<le> length bs"
  by (induction k acc bs rule: long_length.induct) (auto split: if_splits)

lemma parse_tag_shorter: "parse_tag bs = Some (c, k, tag, rest) \<Longrightarrow> length rest < length bs"
  by (auto simp: parse_tag_def Let_def split: list.splits if_splits option.splits dest: parseBase128Int_shorter)

lemma parse_length_shorter: "parse_length bs = Some (n, rest) \<Longrightarrow> length rest < length bs"
  by (auto simp: parse_length_def split: list.splits if_splits option.splits dest: long_length_shorter)

lemma asn1_element_shorter: "asn1_element bs = Some (h, content, rest) \<Longrightarrow> length rest < length bs"
  by (auto simp: asn1_element_def parseTagAndLength_def split: option.splits if_splits
           dest!: parse_tag_shorter parse_length_shorter)

text \<open>\<^verbatim>\<open>asn1.Unmarshal\<close> into a byte slice and into a slice of raw values, with the bytes that are left.\<close>

definition Unmarshal_octets :: "bytes \<Rightarrow> (bytes \<times> bytes) option" where
  "Unmarshal_octets bs =
     (case asn1_element bs of
        Some (h, content, rest) \<Rightarrow>
          if tl_class h = 0 \<and> tl_tag h = 4 \<and> \<not> tl_compound h then Some (content, rest) else None
      | None \<Rightarrow> None)"

function raw_values :: "bytes \<Rightarrow> (tagAndLength \<times> bytes) list option" where
  "raw_values bs =
     (if bs = [] then Some []
      else case asn1_element bs of
        None \<Rightarrow> None
      | Some (h, content, rest) \<Rightarrow> map_option (\<lambda>vs. (h, content) # vs) (raw_values rest))"
  by pat_completeness auto
termination
  by (relation "measure length") (auto dest: asn1_element_shorter)

declare raw_values.simps [simp del]

definition Unmarshal_raw_values :: "bytes \<Rightarrow> ((tagAndLength \<times> bytes) list \<times> bytes) option" where
  "Unmarshal_raw_values bs =
     (case asn1_element bs of
        Some (h, content, rest) \<Rightarrow>
          if tl_class h = 0 \<and> tl_tag h = 16 \<and> tl_compound h then map_option (\<lambda>vs. (vs, rest)) (raw_values content) else None
      | None \<Rightarrow> None)"

subsection \<open>The certificate\<close>

definition ALPNProtocol :: string where "ALPNProtocol = ''acme-tls/1''"
definition proofOID :: "nat list" where "proofOID = [1, 3, 6, 1, 5, 5, 7, 1, 31]"

definition bytes_string :: "bytes \<Rightarrow> string" where
  "bytes_string bs = map (\<lambda>b. char_of (unat b)) bs"

definition san_matches :: "Json \<Rightarrow> Identifier \<Rightarrow> tagAndLength \<times> bytes \<Rightarrow> bool" where
  "san_matches J i name \<longleftrightarrow>
     id_Type i = IdentifierDNS \<and> tl_tag (fst name) = 2 \<and> js_EqualFold J (bytes_string (snd name)) (id_Value i) \<or>
     id_Type i = IdentifierIP \<and> tl_tag (fst name) = 7 \<and>
       (\<exists>a \<in> set_option (AddrFromSlice (map unat (snd name))). ParseAddr (id_Value i) = Some a)"

fun check_san :: "Json \<Rightarrow> Identifier \<Rightarrow> (nat list \<times> bool \<times> bytes) list \<Rightarrow> error + unit" where
  "check_san J i [] = Inl (incorrect ''TLS certificate SAN is missing'')"
| "check_san J i ((oid, critical, val) # rest) =
     (if oid \<noteq> sanOID then check_san J i rest
      else case Unmarshal_raw_values val of
        Some ([name], []) \<Rightarrow>
          if tl_class (fst name) \<noteq> 2 \<or> tl_compound (fst name)
          then Inl (incorrect ''TLS certificate must contain exactly one SAN'')
          else if san_matches J i name then Inr ()
          else Inl (incorrect ''TLS certificate SAN did not match'')
      | _ \<Rightarrow> Inl (incorrect ''TLS certificate must contain exactly one SAN''))"

definition checkSingleSAN :: "Json \<Rightarrow> PeerCertificate \<Rightarrow> Identifier \<Rightarrow> error + unit" where
  "checkSingleSAN J cert i = check_san J i (pc_Extensions cert)"

fun check_extension :: "bytes \<Rightarrow> (nat list \<times> bool \<times> bytes) list \<Rightarrow> error + unit" where
  "check_extension expected [] = Inl (incorrect ''TLS proof extension is missing'')"
| "check_extension expected ((oid, critical, val) # rest) =
     (if oid \<noteq> proofOID then check_extension expected rest
      else case Unmarshal_octets val of
        None \<Rightarrow> Inl (incorrect ''TLS proof extension did not match'')
      | Some (prf, left) \<Rightarrow>
          if \<not> critical \<or> left \<noteq> [] \<or> prf \<noteq> expected
          then Inl (incorrect ''TLS proof extension did not match'')
          else Inr ())"

definition checkALPNProof :: "Json \<Rightarrow> Crypto \<Rightarrow> ConnectionState \<Rightarrow> Identifier \<Rightarrow> string \<Rightarrow> error + unit" where
  "checkALPNProof J K state i keyAuthorization =
     (if cs_NegotiatedProtocol state \<noteq> ALPNProtocol then Inl (incorrect ''TLS ALPN was not negotiated'')
      else case cs_PeerCertificates state of
        [] \<Rightarrow> Inl (incorrect ''TLS ALPN was not negotiated'')
      | cert # _ \<Rightarrow> and_then (checkSingleSAN J cert i) (\<lambda>_.
          check_extension (cr_SHA256 K (string_bytes keyAuthorization)) (pc_Extensions cert)))"

subsection \<open>The connection\<close>

text \<open>\<^verbatim>\<open>limitedConnection.Read\<close>: the underlying reader is told how much it may deliver.\<close>

definition limited_Read :: "int \<Rightarrow> nat \<Rightarrow> (nat \<Rightarrow> nat \<times> error option) \<Rightarrow> (nat \<times> error option) \<times> int" where
  "limited_Read remaining size_buffer conn_read =
     (if remaining \<le> 0 then ((0, Some (incorrect ''TLS handshake exceeds the byte limit'')), remaining)
      else case conn_read (min size_buffer (nat remaining)) of (n, err) \<Rightarrow> ((n, err), remaining - int n))"

text \<open>A sequence of reads, and the number of bytes they deliver in all.\<close>

fun limited_reads :: "int \<Rightarrow> (nat \<times> (nat \<Rightarrow> nat \<times> error option)) list \<Rightarrow> nat" where
  "limited_reads remaining [] = 0"
| "limited_reads remaining ((sz, conn_read) # rest) =
     (case limited_Read remaining sz conn_read of ((n, _), remaining') \<Rightarrow> n + limited_reads remaining' rest)"

lemma limited_reads_bounded:
  assumes "0 \<le> remaining" "\<And>sz conn_read k. (sz, conn_read) \<in> set rds \<Longrightarrow> fst (conn_read k) \<le> k"
  shows "int (limited_reads remaining rds) \<le> remaining"
  using assms
proof (induction rds arbitrary: remaining)
  case Nil
  then show ?case by simp
next
  case (Cons r rds)
  obtain sz conn_read where r: "r = (sz, conn_read)" by (cases r)
  show ?case
  proof (cases "remaining \<le> 0")
    case True
    with Cons.prems have "int (limited_reads remaining rds) \<le> remaining" by (intro Cons.IH) auto
    with True show ?thesis by (simp add: r limited_Read_def)
  next
    case False
    obtain n err where n: "conn_read (min sz (nat remaining)) = (n, err)" by (cases "conn_read (min sz (nat remaining))")
    have "fst (conn_read (min sz (nat remaining))) \<le> min sz (nat remaining)" using Cons.prems(2) r by (meson list.set_intros(1))
    with n False have le: "int n \<le> remaining" by auto
    with Cons.prems have "int (limited_reads (remaining - int n) rds) \<le> remaining - int n" by (intro Cons.IH) auto
    with False n show ?thesis by (simp add: r limited_Read_def)
  qed
qed

text \<open>\<^verbatim>\<open>fmt.Sprintf\<close> of the bytes in reverse, or the hexadecimal digits in reverse, each with a dot.\<close>

fun reverseName :: "Addr \<Rightarrow> string" where
  "reverseName (Addr4 b) = join ''.'' (map dec_string (rev b)) @ ''.in-addr.arpa''"
| "reverseName (Addr6 b z) = concat (map (\<lambda>d. [d, CHR ''.'']) (rev (concat (map byte_hex b)))) @ ''ip6.arpa''"

subsection \<open>The validator\<close>

record TLSALPNOptions =
  to_Network :: NetworkOptions
  to_TestPort :: int

record TLSALPN01 =
  t1_network :: networkPolicy
  t1_port :: int

definition NewTLSALPN01 :: "TLSALPNOptions \<Rightarrow> error + TLSALPN01" where
  "NewTLSALPN01 opts =
     and_then (newNetwork (to_Network opts)) (\<lambda>network.
       if to_TestPort opts < 0 \<or> to_TestPort opts > 65535 then Inl (ErrorNew ''challenge: invalid TLS test port'')
       else Inr \<lparr>t1_network = network, t1_port = (if to_TestPort opts = 0 then 443 else to_TestPort opts)\<rparr>)"

text \<open>\<^verbatim>\<open>MustParseAddr\<close> panics on a value that is no address; \<open>server_name_address\<close> below shows that it is one.\<close>

definition server_name :: "Identifier \<Rightarrow> string" where
  "server_name i =
     (if id_Type i = IdentifierIP then (case ParseAddr (id_Value i) of Some a \<Rightarrow> reverseName a | None \<Rightarrow> [])
      else id_Value i)"

definition handshake_failed :: "error \<Rightarrow> error" where
  "handshake_failed e = retryable ErrorTLS ''TLS handshake with the validation destination failed''
     (ErrWrap ''challenge: TLS validation'' e)"

definition TLSALPN01_Validate :: "Names \<Rightarrow> Wire \<Rightarrow> Json \<Rightarrow> Crypto \<Rightarrow> TLSALPN01 \<Rightarrow> ValidationRequest \<Rightarrow> (error + unit) wire" where
  "TLSALPN01_Validate L N J K v request =
     (case checkRequest L request ChallengeTLSALPN01 of
        Inl e \<Rightarrow> State_Monad.return (Inl e)
      | Inr i \<Rightarrow> and_also (network_dial L N (t1_network v) (id_Value i) (t1_port v)) (\<lambda>conn. do {
          r \<leftarrow> call (Shook conn (server_name i)) (\<lambda>t. wi_Shake N t conn (server_name i));
          State_Monad.return (case r of
             Inl e \<Rightarrow> Inl (handshake_failed e)
           | Inr (state, late) \<Rightarrow>
               (case checkALPNProof J K state i (vr_KeyAuthorization request) of
                  Inl e \<Rightarrow> Inl (handshake_failed e)
                | Inr _ \<Rightarrow> (case late of Some e \<Rightarrow> Inl (handshake_failed e) | None \<Rightarrow> Inr ()))) }))"

subsection \<open>What an accepted proof is\<close>

lemma Normalize_IP:
  assumes "Normalize L j = Inr i" "id_Type i = IdentifierIP"
  shows "\<exists>a. ParseAddr (id_Value i) = Some a"
proof -
  have "id_Type j = IdentifierIP"
    using assms
    by (cases "id_Type j")
       (auto simp: Normalize_def normalizeDNS_def normalizeNfInstanceID_def normalizeURI_def Let_def
             dest!: normalizeTNAuthList_fixed split: if_splits option.splits)
  with assms obtain a where "ParseAddr (id_Value j) = Some a" "i = mk_id IdentifierIP (Addr_String a)"
    by (auto simp: Normalize_def normalizeIP_iff)
  then show ?thesis using Parse_String [OF ParseAddr_ok] by auto
qed

text \<open>The server name sent for an address is its reverse-mapping name.\<close>

lemma server_name_address:
  "checkRequest L request ty = Inr i \<Longrightarrow> id_Type i = IdentifierIP \<Longrightarrow> \<exists>a. ParseAddr (id_Value i) = Some a \<and> server_name i = reverseName a"
  using Normalize_IP [OF checkRequest_Inr(1)] by (fastforce simp: server_name_def)

text \<open>The first extension with subject names names the identifier and nothing else.\<close>

definition names_only :: "Json \<Rightarrow> PeerCertificate \<Rightarrow> Identifier \<Rightarrow> bool" where
  "names_only J cert i \<longleftrightarrow>
     (\<exists>critical val name. find (\<lambda>e. fst e = sanOID) (pc_Extensions cert) = Some (sanOID, critical, val) \<and>
        Unmarshal_raw_values val = Some ([name], []) \<and> tl_class (fst name) = 2 \<and> \<not> tl_compound (fst name) \<and> san_matches J i name)"

text \<open>The first proof extension is critical and holds the digest, with nothing after it.\<close>

definition proves :: "PeerCertificate \<Rightarrow> bytes \<Rightarrow> bool" where
  "proves cert digest \<longleftrightarrow>
     (\<exists>val. find (\<lambda>e. fst e = proofOID) (pc_Extensions cert) = Some (proofOID, True, val) \<and> Unmarshal_octets val = Some (digest, []))"

lemma checkSingleSAN_iff: "checkSingleSAN J cert i = Inr () \<longleftrightarrow> names_only J cert i"
proof -
  have "check_san J i es = Inr () \<longleftrightarrow>
      (\<exists>critical val name. find (\<lambda>e. fst e = sanOID) es = Some (sanOID, critical, val) \<and>
        Unmarshal_raw_values val = Some ([name], []) \<and> tl_class (fst name) = 2 \<and> \<not> tl_compound (fst name) \<and> san_matches J i name)" for es
    by (induction J i es rule: check_san.induct) (auto split: option.splits prod.splits list.splits)
  then show ?thesis by (simp add: checkSingleSAN_def names_only_def)
qed

lemma check_extension_iff: "check_extension digest (pc_Extensions cert) = Inr () \<longleftrightarrow> proves cert digest"
proof -
  have "check_extension digest es = Inr () \<longleftrightarrow>
      (\<exists>val. find (\<lambda>e. fst e = proofOID) es = Some (proofOID, True, val) \<and> Unmarshal_octets val = Some (digest, []))" for es
    by (induction digest es rule: check_extension.induct) (auto split: option.splits)
  then show ?thesis by (simp add: proves_def)
qed

theorem checkALPNProof_iff:
  "checkALPNProof J K state i keyAuthorization = Inr () \<longleftrightarrow>
     cs_NegotiatedProtocol state = ALPNProtocol \<and>
     (\<exists>cert rest. cs_PeerCertificates state = cert # rest \<and> names_only J cert i \<and>
        proves cert (cr_SHA256 K (string_bytes keyAuthorization)))"
proof -
  have "and_then r k = Inr () \<longleftrightarrow> r = Inr () \<and> k () = Inr ()" for r :: "error + unit" and k
    by (cases r) auto
  then show ?thesis
    by (cases "cs_PeerCertificates state") (simp_all add: checkALPNProof_def checkSingleSAN_iff check_extension_iff)
qed

text \<open>C14. A TLS-ALPN-01 proof is accepted only from the right peer: when the validator accepts, the request was for a name or address with a well-formed
  key authorization, and the last call was a handshake over a connection to a permitted address of the configured port, with the name or
  the reverse-mapping name of the address as the server name, in which the peer chose the challenge protocol and presented a
  certificate whose only subject name is the identifier and whose critical proof extension is exactly the digest of the key authorization.\<close>

theorem TLSALPN01_sound:
  assumes "run_state (TLSALPN01_Validate L N J K v request) t = (Inr (), t')"
  shows "captured_proof request \<and>
    (\<exists>i conn before state cert rest.
       Normalize L (vr_Identifier request) = Inr i \<and> \<not> IsWildcard i \<and> \<not> vr_Wildcard request \<and>
       t' = Shook conn (server_name i) # before \<and> Dialed conn \<in> set before \<and>
       allowed_destination (t1_network v) (t1_port v) conn \<and>
       wi_Shake N before conn (server_name i) = Inr (state, None) \<and>
       cs_NegotiatedProtocol state = ALPNProtocol \<and> cs_PeerCertificates state = cert # rest \<and>
       names_only J cert i \<and> proves cert (cr_SHA256 K (string_bytes (vr_KeyAuthorization request))))"
proof -
  from assms obtain i where i: "checkRequest L request ChallengeTLSALPN01 = Inr i"
    by (cases "checkRequest L request ChallengeTLSALPN01") (simp_all add: TLSALPN01_Validate_def State_Monad.return_def)
  note req = checkRequest_Inr [OF i]
  let ?dial = "network_dial L N (t1_network v) (id_Value i) (t1_port v)"
  obtain d t1 where d: "run_state ?dial t = (d, t1)" by (cases "run_state ?dial t")
  with assms i obtain conn where conn: "d = Inr conn"
    by (cases d) (simp_all add: TLSALPN01_Validate_def and_also_def State_Monad.bind_def State_Monad.return_def)
  from assms i d conn have t': "t' = Shook conn (server_name i) # t1"
    by (simp add: TLSALPN01_Validate_def and_also_def State_Monad.bind_def State_Monad.return_def call_def)
  from assms i d conn obtain state where state: "wi_Shake N t1 conn (server_name i) = Inr (state, None)"
    "checkALPNProof J K state i (vr_KeyAuthorization request) = Inr ()"
    by (auto simp: TLSALPN01_Validate_def and_also_def State_Monad.bind_def State_Monad.return_def call_def
             split: sum.splits option.splits prod.splits)
  have "allowed_destination (t1_network v) (t1_port v) conn \<and> Dialed conn \<in> set t1"
    using network_dial_Inr d conn by simp
  moreover have "\<not> vr_Wildcard request" using req(5) by auto
  ultimately show ?thesis
    using req(1,4,6) t' state(1) state(2)[unfolded checkALPNProof_iff] by blast
qed

subsection \<open>Where the connection goes\<close>

definition tls_events :: "TLSALPN01 \<Rightarrow> wire_event set" where
  "tls_events v = asking \<union> {Dialed d | d. allowed_destination (t1_network v) (t1_port v) d} \<union>
     {Shook d name | d name. allowed_destination (t1_network v) (t1_port v) d}"

lemma only_TLSALPN01_Validate:
  assumes "resolver_only_asks (t1_network v)"
  shows "only (tls_events v) (TLSALPN01_Validate L N J K v request)"
proof -
  have "asking \<union> contacts (t1_network v) {t1_port v} \<subseteq> tls_events v" by (auto simp: tls_events_def contacts_def)
  with only_network_dial [OF assms] have "only (tls_events v) (network_dial L N (t1_network v) host (t1_port v))" for host
    by (rule only_mono)
  moreover have "Shook conn name \<in> tls_events v" if "allowed_destination (t1_network v) (t1_port v) conn" for conn name
    using that by (auto simp: tls_events_def)
  ultimately show ?thesis
    unfolding TLSALPN01_Validate_def
    by (auto intro!: only_return only_and_also_result only_bind only_call dest: network_dial_Inr split: sum.splits)
qed

end
