(* ===== verification/Challenge_TKAuth.thy ===== *)
theory Challenge_TKAuth
  imports Challenge_Wire
begin

section \<open>The authority token validator\<close>

text \<open>
  \<^verbatim>\<open>challenge/tkauth.go\<close>: the token a client presents for a TN authorization list or a network function instance.  The source of
  trusted certificates is an action over histories, and \<open>StaticTokenAuthorities\<close> is the one of the package.  Shown: a grant is given only for a
  token that is signed by the key of a certificate the source returned and that is valid now, that attests the identifier of the
  challenge and the key of the account, and that has not expired; and what is granted is what the token says.
\<close>

subsection \<open>Standard library\<close>

text \<open>The four base64 encodings, strict and without their line breaks: the alphabet, and whether there is padding.\<close>

definition std_value :: "char \<Rightarrow> nat option" where
  "std_value c =
     (if c = CHR ''+'' then Some 62 else if c = CHR ''/'' then Some 63
      else if c = CHR ''-'' \<or> c = CHR ''_'' then None else b64_value c)"

fun sextets_by :: "(char \<Rightarrow> nat option) \<Rightarrow> string \<Rightarrow> nat list option" where
  "sextets_by val [] = Some []"
| "sextets_by val (c # cs) =
     (case val c of
        None \<Rightarrow> None
      | Some n \<Rightarrow> map_option (\<lambda>ns. n # ns) (sextets_by val cs))"

text \<open>The last quantum of a padded text ends in the padding that fills it up to four characters.\<close>

definition strip_padding :: "string \<Rightarrow> string option" where
  "strip_padding s =
     (if length s mod 4 \<noteq> 0 then None
      else if has_suffix s ''=='' then Some (butlast (butlast s))
      else if has_suffix s ''='' then Some (butlast s)
      else Some s)"

definition base64_decode :: "(char \<Rightarrow> nat option) \<Rightarrow> bool \<Rightarrow> string \<Rightarrow> bytes option" where
  "base64_decode val padded s =
     (let s' = filter (\<lambda>c. \<not> is_newline c) s in
      Option.bind (if padded then strip_padding s' else Some s') (\<lambda>body. Option.bind (sextets_by val body) decode_sextets))"

lemma sextets_by_url: "sextets_by b64_value s = sextets s"
  by (induction s) (auto split: option.splits)

text \<open>The unpadded URL encoding is the one of \<^verbatim>\<open>Base64url\<close>.\<close>

lemma base64_decode_raw_url: "base64_decode b64_value False s = decode_strict s"
  by (simp add: base64_decode_def decode_strict_def sextets_by_url split: option.splits)

text \<open>\<^verbatim>\<open>base64.StdEncoding.Strict().DecodeString\<close>, which \<^verbatim>\<open>ParseCompact\<close> uses for the certificates of a token.\<close>

definition StdEncoding_decode :: "string \<Rightarrow> bytes option" where
  "StdEncoding_decode = base64_decode std_value True"

fun hex_bytes :: "string \<Rightarrow> bytes option" where
  "hex_bytes [] = Some []"
| "hex_bytes [c] = None"
| "hex_bytes (c # d # rest) =
     (case (hex_digit c, hex_digit d) of
        (Some x, Some y) \<Rightarrow> map_option (\<lambda>bs. mk_byte (x * 16 + y) # bs) (hex_bytes rest)
      | _ \<Rightarrow> None)"

text \<open>\<^verbatim>\<open>strings.TrimSpace\<close>: the encodings in UTF-8 of the characters that \<^verbatim>\<open>unicode.IsSpace\<close> accepts.\<close>

definition spaces :: "string list" where
  "spaces = map (map char_of)
     ([[9], [10], [11], [12], [13], [32 :: nat], [194, 133], [194, 160], [225, 154, 128]] @
      map (\<lambda>n. [226, 128, n]) ([128..<139] @ [168, 169, 175]) @ [[226, 129, 159], [227, 128, 128]])"

function trim_left :: "string list \<Rightarrow> string \<Rightarrow> string" where
  "trim_left sps s =
     (case find (\<lambda>sp. sp \<noteq> [] \<and> has_prefix s sp) sps of
        None \<Rightarrow> s
      | Some sp \<Rightarrow> trim_left sps (drop (length sp) s))"
  by pat_completeness auto
termination
proof (relation "measure (\<lambda>(sps, s). length s)", simp)
  fix sps s sp
  assume "find (\<lambda>sp. sp \<noteq> [] \<and> has_prefix s sp) sps = Some sp"
  then have "sp \<noteq> []" "has_prefix s sp" by (auto simp: find_Some_iff)
  then show "((sps, drop (length sp) s), (sps, s)) \<in> measure (\<lambda>(sps, s). length s)"
    by (auto simp: has_prefix_iff)
qed

declare trim_left.simps [simp del]

definition TrimSpace :: "string \<Rightarrow> string" where
  "TrimSpace s = rev (trim_left (map rev spaces) (rev (trim_left spaces s)))"

text \<open>
  \<^verbatim>\<open>time.Unix(sec, 0)\<close> adds the seconds from year 1 to 1970 in 64 bits, and \<^verbatim>\<open>Time.Add\<close> stops at the largest and smallest second.
\<close>

definition time_Unix :: "int \<Rightarrow> time" where
  "time_Unix sec = i64 (sec + 62135596800) * second"

definition time_Add :: "time \<Rightarrow> duration \<Rightarrow> time" where
  "time_Add t d =
     (let s = (t + d) div second in
      (if s \<ge> 2 ^ 63 then 2 ^ 63 - 1 else if s < - (2 ^ 63) then - (2 ^ 63 - 1) else s) * second + (t + d) mod second)"

subsection \<open>Tokens\<close>

record atcClaimJSON =
  atc_TokenType :: string
  atc_TokenValue :: string
  atc_CA :: bool
  atc_Fingerprint :: string
  atc_NFType :: "string option"
  atc_Names :: "string list option"

record authorityTokenJSON =
  at_Issuer :: string
  at_Expires :: "int option"
  at_NotBefore :: "int option"
  at_TokenID :: string
  at_ATC :: "atcClaimJSON option"

definition atc_type :: gotype where
  "atc_type = GoStruct
     [go_member ''TokenType'' ''tktype'' GoOther, go_member ''TokenValue'' ''tkvalue'' GoOther, go_member ''CA'' ''ca'' GoOther,
      go_member ''Fingerprint'' ''fingerprint'' GoOther, go_member ''NFType'' ''nftype'' (GoPointer GoOther),
      go_member ''Names'' ''sans'' (GoPointer (GoSlice GoOther))]"

definition authorityToken_type :: gotype where
  "authorityToken_type = GoPointer (GoStruct
     [go_member ''Issuer'' ''iss'' GoOther, go_member ''Expires'' ''exp'' (GoPointer GoOther),
      go_member ''NotBefore'' ''nbf'' (GoPointer GoOther), go_member ''TokenID'' ''jti'' GoOther,
      go_member ''ATC'' ''atc'' (GoPointer atc_type)])"

definition decode_atc :: "json \<Rightarrow> string + atcClaimJSON" where
  "decode_atc v = and_then (as_object v) (\<lambda>ms.
     let str = (\<lambda>name. as_value go_string [] (member_value ms name)) in
     and_then (str ''tktype'') (\<lambda>ty. and_then (str ''tkvalue'') (\<lambda>val.
     and_then (as_value go_bool False (member_value ms ''ca'')) (\<lambda>ca. and_then (str ''fingerprint'') (\<lambda>fp.
     and_then (as_pointer go_string (member_value ms ''nftype'')) (\<lambda>nf.
     and_then (as_pointer (go_slice go_string []) (member_value ms ''sans'')) (\<lambda>sans.
       Inr \<lparr>atc_TokenType = ty, atc_TokenValue = val, atc_CA = ca, atc_Fingerprint = fp, atc_NFType = nf, atc_Names = sans\<rparr>)))))))"

definition decode_authorityToken :: "Json \<Rightarrow> json \<Rightarrow> string + authorityTokenJSON" where
  "decode_authorityToken J v = and_then (as_object v) (\<lambda>ms.
     and_then (as_value go_string [] (member_value ms ''iss'')) (\<lambda>iss.
     and_then (as_pointer (go_int J) (member_value ms ''exp'')) (\<lambda>expires.
     and_then (as_pointer (go_int J) (member_value ms ''nbf'')) (\<lambda>nbf.
     and_then (as_value go_string [] (member_value ms ''jti'')) (\<lambda>jti.
     and_then (as_pointer decode_atc (member_value ms ''atc'')) (\<lambda>atc.
       Inr \<lparr>at_Issuer = iss, at_Expires = expires, at_NotBefore = nbf, at_TokenID = jti, at_ATC = atc\<rparr>))))))"

text \<open>The claims of a token once the mandatory ones are known to be there.\<close>

record claims =
  cl_Issuer :: string
  cl_Expires :: int
  cl_NotBefore :: "int option"
  cl_ATC :: atcClaimJSON

definition parseAuthorityToken :: "Json \<Rightarrow> bytes \<Rightarrow> error + claims" where
  "parseAuthorityToken J payload =
     (case UnmarshalStrict J authorityToken_type (decode_authorityToken J) payload of
        Inl e \<Rightarrow> Inl (incorrect ''the authority token payload is not a valid claim set'')
      | Inr raw \<Rightarrow>
          (case at_Expires raw of
             None \<Rightarrow> Inl (incorrect ''the authority token has no exp claim'')
           | Some expires \<Rightarrow>
               if at_TokenID raw = [] then Inl (incorrect ''the authority token has no jti claim'')
               else case at_ATC raw of
                 None \<Rightarrow> Inl (incorrect ''the authority token has no atc claim'')
               | Some atc \<Rightarrow>
                   if atc_TokenType atc = [] \<or> atc_TokenValue atc = [] \<or> atc_Fingerprint atc = []
                   then Inl (incorrect ''the atc claim is missing a mandatory key'')
                   else Inr \<lparr>cl_Issuer = at_Issuer raw, cl_Expires = expires, cl_NotBefore = at_NotBefore raw, cl_ATC = atc\<rparr>))"

subsection \<open>The authority\<close>

record TokenAuthorityRef =
  tr_URL :: string
  tr_Chain :: "bytes list"
  tr_Issuer :: string
  tr_KeyID :: string

definition authorityRef :: "Names \<Rightarrow> CompactHeader \<Rightarrow> string \<Rightarrow> error + TokenAuthorityRef" where
  "authorityRef L header issuer =
     (let ref = \<lparr>tr_URL = [], tr_Chain = [], tr_Issuer = issuer, tr_KeyID = chd_KeyID header\<rparr> in
      if chd_X5U header \<noteq> [] then
        (case nm_Parse L (chd_X5U header) of
           None \<Rightarrow> Inl (incorrect ''the authority token x5u is not an https URL'')
         | Some target \<Rightarrow>
             if url_Scheme target \<noteq> ''https'' \<or> url_Host target = [] \<or> url_User target \<noteq> None
             then Inl (incorrect ''the authority token x5u is not an https URL'')
             else Inr (ref\<lparr>tr_URL := chd_X5U header\<rparr>))
      else if chd_X5C header \<noteq> [] then Inr (ref\<lparr>tr_Chain := chd_X5C header\<rparr>)
      else Inl (incorrect ''the authority token names no token authority certificate''))"

text \<open>The certificates of the set are not nil.\<close>

record StaticTokenAuthorities =
  sa_ByURL :: "(string \<times> Leaf option) list"
  sa_Certificates :: "Leaf list"

definition static_AuthorityCertificate :: "StaticTokenAuthorities \<Rightarrow> TokenAuthorityRef \<Rightarrow> error + Leaf option" where
  "static_AuthorityCertificate a ref =
     (if tr_URL ref \<noteq> [] then
        (case map_of (sa_ByURL a) (tr_URL ref) of
           Some (Some certificate) \<Rightarrow> Inr (Some certificate)
         | _ \<Rightarrow> Inl (incorrect ''the token authority URL is not trusted''))
      else case find (\<lambda>certificate. tr_Chain ref \<noteq> [] \<and> lf_Raw certificate = hd (tr_Chain ref)) (sa_Certificates a) of
        Some certificate \<Rightarrow> Inr (Some certificate)
      | None \<Rightarrow> Inl (incorrect ''the token authority certificate is not trusted''))"

subsection \<open>The claims\<close>

fun decode_first :: "((char \<Rightarrow> nat option) \<times> bool) list \<Rightarrow> string \<Rightarrow> bytes option" where
  "decode_first [] val = None"
| "decode_first ((alphabet, padded) # encodings) val =
     (case base64_decode alphabet padded val of Some der \<Rightarrow> Some der | None \<Rightarrow> decode_first encodings val)"

definition decodeAuthorityList :: "string \<Rightarrow> bytes option" where
  "decodeAuthorityList val =
     decode_first [(b64_value, False), (b64_value, True), (std_value, False), (std_value, True)] val"

definition sameAuthorityList :: "string \<Rightarrow> string \<Rightarrow> bool" where
  "sameAuthorityList tkvalue identifier =
     (case decode_strict identifier of
        None \<Rightarrow> False
      | Some want \<Rightarrow> decodeAuthorityList tkvalue = Some want)"

definition sameNfInstance :: "Names \<Rightarrow> string \<Rightarrow> string \<Rightarrow> bool" where
  "sameNfInstance L tkvalue identifier =
     (case Normalize L (mk_id IdentifierNfInstanceID tkvalue) of Inl e \<Rightarrow> False | Inr i \<Rightarrow> id_Value i = identifier)"

definition matchesAccountKey :: "Json \<Rightarrow> string \<Rightarrow> string \<Rightarrow> bool" where
  "matchesAccountKey J fingerprint thumbprint =
     (if fingerprint = thumbprint then True
      else case decode_strict thumbprint of
        None \<Rightarrow> False
      | Some digest \<Rightarrow>
          (case cut fingerprint (CHR '' '') of
             None \<Rightarrow> False
           | Some (algorithm, val) \<Rightarrow>
               if \<not> js_EqualFold J algorithm ''SHA256'' then False
               else case hex_bytes (filter (\<lambda>c. c \<noteq> CHR '':'') (TrimSpace val)) of
                 None \<Rightarrow> False
               | Some got \<Rightarrow> got = digest))"

record TKAuthOptions =
  ko_Authorities :: "(TokenAuthorityRef \<Rightarrow> (error + Leaf option) wire) option"
  ko_ClockSkew :: duration
  ko_Now :: "time wire option"

record TKAuth01 =
  k1_authorities :: "TokenAuthorityRef \<Rightarrow> (error + Leaf option) wire"
  k1_skew :: duration
  k1_now :: "time wire"

text \<open>The first argument is the clock of the system.\<close>

definition NewTKAuth01 :: "time wire \<Rightarrow> TKAuthOptions \<Rightarrow> error + TKAuth01" where
  "NewTKAuth01 time_Now opts =
     (case ko_Authorities opts of
        None \<Rightarrow> Inl (ErrorNew ''challenge: token authorities are required and the clock skew must not be negative'')
      | Some authorities \<Rightarrow>
          if ko_ClockSkew opts < 0
          then Inl (ErrorNew ''challenge: token authorities are required and the clock skew must not be negative'')
          else Inr \<lparr>k1_authorities = authorities,
                    k1_skew = (if ko_ClockSkew opts = 0 then 60 * second else ko_ClockSkew opts),
                    k1_now = (case ko_Now opts of None \<Rightarrow> time_Now | Some now \<Rightarrow> now)\<rparr>)"

definition checkClaims :: "Names \<Rightarrow> Json \<Rightarrow> TKAuth01 \<Rightarrow> claims \<Rightarrow> Identifier \<Rightarrow> string \<Rightarrow> time \<Rightarrow> error + unit" where
  "checkClaims L J v c i thumbprint now =
     (if \<not> js_EqualFold J (atc_TokenType (cl_ATC c)) (identifier_type_string (id_Type i))
      then Inl (incorrect ''the authority token attests another identifier type'')
      else if id_Type i = IdentifierTNAuthList \<and> \<not> sameAuthorityList (atc_TokenValue (cl_ATC c)) (id_Value i)
      then Inl (incorrect ''the authority token attests another authority list'')
      else if id_Type i = IdentifierNfInstanceID \<and> \<not> sameNfInstance L (atc_TokenValue (cl_ATC c)) (id_Value i)
      then Inl (incorrect ''the authority token attests another NF instance'')
      else if After now (time_Add (time_Unix (cl_Expires c)) (k1_skew v))
      then Inl (incorrect ''the authority token has expired'')
      else if (case cl_NotBefore c of None \<Rightarrow> False | Some nbf \<Rightarrow> Before now (time_Add (time_Unix nbf) (- k1_skew v)))
      then Inl (incorrect ''the authority token is not valid yet'')
      else if \<not> matchesAccountKey J (atc_Fingerprint (cl_ATC c)) thumbprint
      then Inl (incorrect ''the authority token is bound to another account key'')
      else Inr ())"

definition maxAuthorityTokenBytes :: nat where "maxAuthorityTokenBytes = 16 * 1024"

definition checkTKAuthRequest :: "Names \<Rightarrow> ValidationRequest \<Rightarrow> error + Identifier" where
  "checkTKAuthRequest L req =
     and_then (Normalize L (vr_Identifier req)) (\<lambda>i.
       if ch_Type (vr_Challenge req) \<noteq> ChallengeTKAuth01 \<or> vr_Wildcard req \<or>
          (id_Type i \<noteq> IdentifierTNAuthList \<and> id_Type i \<noteq> IdentifierNfInstanceID)
       then Inl (incorrect ''identifier does not support this challenge'')
       else if \<not> captured_proof req then Inl (incorrect ''invalid captured key authorization'')
       else if vr_AuthorityToken req = [] \<or> length (vr_AuthorityToken req) > maxAuthorityTokenBytes
       then Inl (incorrect ''the authority token is missing or too large'')
       else Inr i)"

subsection \<open>The grant\<close>

definition maxTokenNames :: nat where "maxTokenNames = 100"

definition tokenName :: "Names \<Rightarrow> string \<Rightarrow> error + Identifier" where
  "tokenName L raw =
     (if has_prefix (strings_ToLower L raw) ''urn:uuid:''
      then Normalize L (mk_id IdentifierNfInstanceID (drop (length ''urn:uuid:'') raw))
      else if contains_text raw ''://'' then Normalize L (mk_id IdentifierURI raw)
      else case ParseAddr raw of
        Some _ \<Rightarrow> Normalize L (mk_id IdentifierIP raw)
      | None \<Rightarrow> Normalize L (mk_id IdentifierDNS raw))"

fun token_names :: "Names \<Rightarrow> Identifier \<Rightarrow> string list \<Rightarrow> Identifier list \<Rightarrow> error + Identifier list" where
  "token_names L inst [] names = Inr names"
| "token_names L inst (raw # rest) names =
     (case tokenName L raw of
        Inl e \<Rightarrow> Inl (incorrect (''the authority token sans entry '' @ nm_Quote L raw @ '' is not a supported name''))
      | Inr i \<Rightarrow>
          if id_Type i = IdentifierNfInstanceID \<and> i \<noteq> inst
          then Inl (incorrect ''the authority token sans name another NF instance'')
          else token_names L inst rest (if i \<noteq> inst \<and> \<not> contains names i then names @ [i] else names))"

definition nfGrant :: "Names \<Rightarrow> atcClaimJSON \<Rightarrow> Identifier \<Rightarrow> error + Identifier list \<times> string" where
  "nfGrant L atc inst =
     (if \<exists>nf \<in> set_option (atc_NFType atc). \<not> ValidNFType nf
      then Inl (incorrect ''the authority token nftype is not an RFC 9310 NF type'')
      else let nfType = (case atc_NFType atc of None \<Rightarrow> [] | Some nf \<Rightarrow> nf) in
        (case atc_Names atc of
           None \<Rightarrow> Inr ([], nfType)
         | Some raws \<Rightarrow>
             if length raws > maxTokenNames then Inl (incorrect ''the authority token sans list is too long'')
             else and_then (token_names L inst raws []) (\<lambda>names. Inr (names, nfType))))"

definition token_grant :: "Names \<Rightarrow> claims \<Rightarrow> Identifier \<Rightarrow> error + ValidationGrant" where
  "token_grant L c i =
     (let grant = \<lparr>vg_CACertificate = False, vg_Expires = time_Unix (cl_Expires c), vg_Names = [], vg_NFType = []\<rparr> in
      if id_Type i = IdentifierNfInstanceID
      then and_then (nfGrant L (cl_ATC c) i) (\<lambda>(names, nfType). Inr (grant\<lparr>vg_Names := names, vg_NFType := nfType\<rparr>))
      else Inr (grant\<lparr>vg_CACertificate := atc_CA (cl_ATC c)\<rparr>))"

text \<open>The checks of a token once its authority is known.\<close>

definition check_authority :: "Names \<Rightarrow> Json \<Rightarrow> Crypto \<Rightarrow> TKAuth01 \<Rightarrow> ValidationRequest \<Rightarrow> Identifier \<Rightarrow> CompactMessage \<Rightarrow> claims \<Rightarrow> Leaf \<Rightarrow>
    time \<Rightarrow> error + ValidationGrant" where
  "check_authority L J K v request i token c certificate now =
     (if Before now (lf_NotBefore certificate) \<or> After now (lf_NotAfter certificate)
      then Inl (incorrect ''the token authority certificate is not valid at this time'')
      else case compact_Verify J K token (lf_PublicKey certificate) of
        Inl e \<Rightarrow> Inl (incorrect ''authority token signature is invalid'')
      | Inr _ \<Rightarrow> and_then (checkClaims L J v c i (vr_AccountKeyThumbprint request) now) (\<lambda>_. token_grant L c i))"

definition ValidateGrant :: "Names \<Rightarrow> Json \<Rightarrow> Crypto \<Rightarrow> TKAuth01 \<Rightarrow> ValidationRequest \<Rightarrow> (error + ValidationGrant) wire" where
  "ValidateGrant L J K v request =
     (case checkTKAuthRequest L request of
        Inl e \<Rightarrow> State_Monad.return (Inl e)
      | Inr i \<Rightarrow>
          (case ParseCompact J StdEncoding_decode (vr_AuthorityToken request) of
             Inl e \<Rightarrow> State_Monad.return (Inl (incorrect ''authority token is not a supported JWT''))
           | Inr token \<Rightarrow>
               (case parseAuthorityToken J (cm_Payload token) of
                  Inl e \<Rightarrow> State_Monad.return (Inl e)
                | Inr c \<Rightarrow>
                    (case authorityRef L (cm_Header token) (cl_Issuer c) of
                       Inl e \<Rightarrow> State_Monad.return (Inl e)
                     | Inr ref \<Rightarrow> and_also (k1_authorities v ref) (\<lambda>found_cert.
                         (case found_cert of
                            None \<Rightarrow> State_Monad.return (Inl (ErrorNew ''challenge: the token authority source returned no certificate''))
                          | Some certificate \<Rightarrow> do {
                              now \<leftarrow> k1_now v;
                              State_Monad.return (check_authority L J K v request i token c certificate now) }))))))"

definition TKAuth01_Validate :: "Names \<Rightarrow> Json \<Rightarrow> Crypto \<Rightarrow> TKAuth01 \<Rightarrow> ValidationRequest \<Rightarrow> (error + unit) wire" where
  "TKAuth01_Validate L J K v request = and_also (ValidateGrant L J K v request) (\<lambda>_. State_Monad.return (Inr ()))"

subsection \<open>What a grant rests on\<close>

lemma checkTKAuthRequest_Inr:
  assumes "checkTKAuthRequest L req = Inr i"
  shows "Normalize L (vr_Identifier req) = Inr i" "id_Type i = IdentifierTNAuthList \<or> id_Type i = IdentifierNfInstanceID"
    "\<not> vr_Wildcard req" "captured_proof req"
  using assms
  by (cases "Normalize L (vr_Identifier req)"; auto simp: checkTKAuthRequest_def split: if_splits)+

text \<open>The claims attest the identifier and the account key, and the token is within its time, up to the tolerated difference of clocks.\<close>

definition attests :: "Names \<Rightarrow> Json \<Rightarrow> TKAuth01 \<Rightarrow> claims \<Rightarrow> Identifier \<Rightarrow> string \<Rightarrow> time \<Rightarrow> bool" where
  "attests L J v c i thumbprint now \<longleftrightarrow>
     js_EqualFold J (atc_TokenType (cl_ATC c)) (identifier_type_string (id_Type i)) \<and>
     (id_Type i = IdentifierTNAuthList \<longrightarrow>
        (\<exists>der. decode_strict (id_Value i) = Some der \<and> decodeAuthorityList (atc_TokenValue (cl_ATC c)) = Some der)) \<and>
     (id_Type i = IdentifierNfInstanceID \<longrightarrow>
        (\<exists>i'. Normalize L (mk_id IdentifierNfInstanceID (atc_TokenValue (cl_ATC c))) = Inr i' \<and> id_Value i' = id_Value i)) \<and>
     now \<le> time_Add (time_Unix (cl_Expires c)) (k1_skew v) \<and>
     (\<forall>nbf. cl_NotBefore c = Some nbf \<longrightarrow> time_Add (time_Unix nbf) (- k1_skew v) \<le> now) \<and>
     matchesAccountKey J (atc_Fingerprint (cl_ATC c)) thumbprint"

lemma checkClaims_iff: "checkClaims L J v c i thumbprint now = Inr () \<longleftrightarrow> attests L J v c i thumbprint now"
  by (auto simp: checkClaims_def attests_def sameAuthorityList_def sameNfInstance_def split: option.splits sum.splits)

lemma static_trusted:
  "static_AuthorityCertificate a ref = Inr (Some certificate) \<Longrightarrow>
     (tr_URL ref, Some certificate) \<in> set (sa_ByURL a) \<or>
     certificate \<in> set (sa_Certificates a) \<and> (\<exists>rest. tr_Chain ref = lf_Raw certificate # rest)"
  by (auto simp: static_AuthorityCertificate_def find_Some_iff neq_Nil_conv split: if_splits option.splits dest: map_of_SomeD)

lemma static_not_nil: "static_AuthorityCertificate a ref \<noteq> Inr None"
  by (simp add: static_AuthorityCertificate_def split: option.splits)

lemma check_authority_Inr:
  assumes "check_authority L J K v request i token c certificate now = Inr grant"
  shows "lf_NotBefore certificate \<le> now \<and> now \<le> lf_NotAfter certificate \<and>
    compact_Verify J K token (lf_PublicKey certificate) = Inr () \<and>
    attests L J v c i (vr_AccountKeyThumbprint request) now \<and> token_grant L c i = Inr grant"
proof -
  from assms have "lf_NotBefore certificate \<le> now" "now \<le> lf_NotAfter certificate"
    by (auto simp: check_authority_def split: if_splits)
  moreover from assms have "compact_Verify J K token (lf_PublicKey certificate) = Inr ()"
    by (cases "compact_Verify J K token (lf_PublicKey certificate)") (auto simp: check_authority_def split: if_splits)
  moreover from this calculation assms have "checkClaims L J v c i (vr_AccountKeyThumbprint request) now = Inr ()"
    "token_grant L c i = Inr grant"
    by (cases "checkClaims L J v c i (vr_AccountKeyThumbprint request) now";
        auto simp: check_authority_def split: if_splits)+
  ultimately show ?thesis by (simp add: checkClaims_iff)
qed

lemma ValidateGrant_Inr:
  assumes "run_state (ValidateGrant L J K v request) t = (Inr grant, t')"
  obtains i token c ref certificate t1 now where
    "checkTKAuthRequest L request = Inr i" "ParseCompact J StdEncoding_decode (vr_AuthorityToken request) = Inr token"
    "parseAuthorityToken J (cm_Payload token) = Inr c" "authorityRef L (cm_Header token) (cl_Issuer c) = Inr ref"
    "run_state (k1_authorities v ref) t = (Inr (Some certificate), t1)" "run_state (k1_now v) t1 = (now, t')"
    "check_authority L J K v request i token c certificate now = Inr grant"
proof -
  from assms obtain i where i: "checkTKAuthRequest L request = Inr i"
    by (cases "checkTKAuthRequest L request") (simp_all add: ValidateGrant_def State_Monad.return_def)
  from assms i obtain token where token: "ParseCompact J StdEncoding_decode (vr_AuthorityToken request) = Inr token"
    by (cases "ParseCompact J StdEncoding_decode (vr_AuthorityToken request)") (simp_all add: ValidateGrant_def State_Monad.return_def)
  from assms i token obtain c where c: "parseAuthorityToken J (cm_Payload token) = Inr c"
    by (cases "parseAuthorityToken J (cm_Payload token)") (simp_all add: ValidateGrant_def State_Monad.return_def)
  from assms i token c obtain ref where ref: "authorityRef L (cm_Header token) (cl_Issuer c) = Inr ref"
    by (cases "authorityRef L (cm_Header token) (cl_Issuer c)") (simp_all add: ValidateGrant_def State_Monad.return_def)
  obtain r t1 where r: "run_state (k1_authorities v ref) t = (r, t1)" by (cases "run_state (k1_authorities v ref) t")
  from assms i token c ref r obtain certificate where certificate: "r = Inr (Some certificate)"
    by (auto simp: ValidateGrant_def and_also_def State_Monad.bind_def State_Monad.return_def split: sum.splits option.splits)
  obtain now t2 where now: "run_state (k1_now v) t1 = (now, t2)" by (cases "run_state (k1_now v) t1")
  from assms i token c ref r certificate now
  have "t2 = t'" "check_authority L J K v request i token c certificate now = Inr grant"
    by (simp_all add: ValidateGrant_def and_also_def State_Monad.bind_def State_Monad.return_def)
  with i token c ref r certificate now that show thesis by blast
qed

text \<open>
  The seconds of a claim are not bounded before \<^verbatim>\<open>time.Unix\<close> shifts them to the year 1, so the latest start there is wraps to one long ago.
\<close>

lemma not_before_wraps:
  assumes "0 \<le> now" "0 \<le> skew"
  shows "\<not> Before now (time_Add (time_Unix (2 ^ 63 - 1)) (- skew))"
proof -
  have "time_Unix (2 ^ 63 - 1) + - skew < 0" using assms(2) by (simp add: time_Unix_def i64_def second_def)
  hence early: "(time_Unix (2 ^ 63 - 1) + - skew) div second < 0" by (simp add: second_def)
  have "(time_Unix (2 ^ 63 - 1) + - skew) mod second < second" by (simp add: second_def)
  with early have "time_Add (time_Unix (2 ^ 63 - 1)) (- skew) < 0"
    by (auto simp: time_Add_def Let_def second_def)
  with assms(1) show ?thesis by simp
qed


end
