(* ===== verification/JWS_Sound.thy ===== *)
theory JWS_Sound
  imports Acme_JWS
begin

section \<open>What an accepted signature and an accepted key guarantee\<close>

text \<open>
  The rules of \<^theory_text>\<open>Acme_JWS\<close> as properties of what they accept: the shape of a parsed request, which schemes a
  verified message was checked with, the keys \<open>ParseJWK\<close> lets in, and that the canonical form of a key
  determines it and is read back as the same key.
\<close>

definition the_default :: "'a \<Rightarrow> 'a option \<Rightarrow> 'a" where
  "the_default d x = (case x of None \<Rightarrow> d | Some y \<Rightarrow> y)"

lemma the_default_simps [simp]: "the_default d None = d" "the_default d (Some x) = x"
  by (simp_all add: the_default_def)

subsection \<open>Accepted keys\<close>

fun key_ok :: "Crypto \<Rightarrow> PublicKey \<Rightarrow> bool" where
  "key_ok C (ECKey c x y) \<longleftrightarrow> length x = curve_size c \<and> length y = curve_size c \<and> cr_OnCurve C c x y"
| "key_ok C (RSAKey n e) \<longleftrightarrow> MinRSABits \<le> bit_length n \<and> bit_length n \<le> MaxRSABits \<and> odd n \<and> odd e \<and> 3 \<le> e \<and> e \<le> maxRSAExponent"
| "key_ok C (Ed25519Key k) \<longleftrightarrow> length k = 32"
| "key_ok C (OtherKey k) \<longleftrightarrow> False"

lemma parse_key_ok:
  "parseECKey J C k = Inr key \<Longrightarrow> key_ok C key"
  "parseRSAKey k = Inr key \<Longrightarrow> key_ok C key"
  "parseOKPKey J k = Inr key \<Longrightarrow> key_ok C key"
  by (auto simp: parseECKey_def parseRSAKey_def parseOKPKey_def Let_def split: option.splits if_splits)

lemma parsed_key_ok: "ParseJWK J C raw = Inr key \<Longrightarrow> key_ok C key"
  by (auto simp: ParseJWK_def parse_key_ok split: sum.splits if_splits)

text \<open>C29. Every key accepted from a JWK is a point on one of the three curves with coordinates of full width, an RSA key with a modulus
  of 2048 to 4096 bits and an odd exponent of at least 3, or an Ed25519 key of 32 bytes.\<close>

theorem ParseJWK_ok: "ParseJWK J C raw = Inr key \<Longrightarrow> key_ok C key"
  by (rule parsed_key_ok)

subsection \<open>The canonical form\<close>

lemma big_nat_snoc: "big_nat (bs @ [b]) = big_nat bs * 256 + unat b"
  by (simp add: big_nat_def)

lemma big_nat_bytes [simp]: "big_nat (nat_bytes n) = n"
proof (induction n rule: nat_bytes.induct)
  case (1 n)
  show ?case
  proof (cases "n = 0")
    case True
    then show ?thesis by (simp add: nat_bytes.simps [of 0] big_nat_def)
  next
    case False
    then show ?thesis using 1 by (subst nat_bytes.simps) (simp add: big_nat_snoc)
  qed
qed

lemma nat_bytes_Nil [simp]: "nat_bytes n = [] \<longleftrightarrow> n = 0"
  by (subst nat_bytes.simps) simp

lemma encode_base64_inject [simp]: "encode_base64 a = encode_base64 b \<longleftrightarrow> a = b"
  by (metis decode_strict_encode option.inject)

lemma decodeBase64_encode [simp]: "decodeBase64 (encode_base64 b) = Some b"
  by (simp add: decodeBase64_Some_iff)

lemma quote_not_in_base64: "CHR 0x22 \<notin> set (encode_base64 b)"
proof
  assume "CHR 0x22 \<in> set (encode_base64 b)"
  then have "is_base64url_char CHR 0x22"
    using isBase64URL_encode [of b] by (auto simp: isBase64URL_def list_all_iff)
  then show False by (simp add: is_base64url_char_def)
qed

lemma base64_quote_inject [simp]:
  "encode_base64 a @ CHR 0x22 # r = encode_base64 b @ CHR 0x22 # r' \<longleftrightarrow> a = b \<and> r = r'"
  using cut_append [OF quote_not_in_base64] encode_base64_inject by (metis option.inject prod.inject)

lemma nat_bytes_inject [simp]: "nat_bytes m = nat_bytes n \<longleftrightarrow> m = n"
  by (metis big_nat_bytes)

lemma bit_length_0 [simp]: "bit_length 0 = 0"
  by (simp add: bit_length.simps)

lemma curve_name_inject [simp]:
  "curve_name c @ r = curve_name d @ r' \<longleftrightarrow> c = d \<and> r = r'"
  "curve_name c @ r \<noteq> CHR ''E'' # s" "CHR ''E'' # s \<noteq> curve_name c @ r"
  by (cases c; cases d; simp) (cases c; simp)+

text \<open>The members of the canonical form, in their order.\<close>

fun jwk_members :: "PublicKey \<Rightarrow> (string \<times> string) list" where
  "jwk_members (ECKey c x y) = [(''crv'', curve_name c), (''kty'', ''EC''), (''x'', encode_base64 x), (''y'', encode_base64 y)]"
| "jwk_members (RSAKey n e) = [(''e'', encode_base64 (nat_bytes e)), (''kty'', ''RSA''), (''n'', encode_base64 (nat_bytes n))]"
| "jwk_members (Ed25519Key k) = [(''crv'', ''Ed25519''), (''kty'', ''OKP''), (''x'', encode_base64 k)]"
| "jwk_members (OtherKey k) = []"

lemma MarshalJWK_total: "key_ok C key \<Longrightarrow> \<exists>text. MarshalJWK key = Inr text"
  by (cases key) (auto simp: Let_def odd_pos)

text \<open>Two accepted keys with the same canonical form, the text whose hash is the thumbprint, are the same key.\<close>

theorem MarshalJWK_inject:
  assumes "key_ok C key" "key_ok C key'" "MarshalJWK key = MarshalJWK key'"
  shows "key = key'"
  using assms
  by (cases key; cases key') (auto simp: Let_def plain_quote_def odd_pos split: if_splits)

text \<open>What is relied on of \<^verbatim>\<open>encoding/json\<close> for one text: it is read as the object with the given members, all strings.\<close>

definition member_object :: "(string \<times> string) list \<Rightarrow> json" where
  "member_object ms = JObject (map (\<lambda>(name, v). (name, string_bytes (plain_quote v), JString v)) ms)"

definition reads_members_of :: "Json \<Rightarrow> string \<Rightarrow> (string \<times> string) list \<Rightarrow> bool" where
  "reads_members_of J text ms \<longleftrightarrow>
     js_Decode J (string_bytes text) = Inr (member_object ms) \<and>
     js_Tokens J (string_bytes text) = (tokens_of (member_object ms), None)"

lemma nested_member_object: "nested MaxDepth (member_object ms)"
  by (auto simp: member_object_def MaxDepth_def)

lemma distinct_member_object: "distinct (map fst ms) \<Longrightarrow> distinct_members (member_object ms)"
  by (auto simp: member_object_def comp_def split_def)

lemma jwk_fields:
  "jsonFields (strip_pointer jwk_type) =
     map (\<lambda>name. (name, GoOther)) [''kty'', ''crv'', ''x'', ''y'', ''n'', ''e''] @
     map (\<lambda>name. (name, GoPointer GoUnmarshaler)) [''d'', ''p'', ''q'', ''dp'', ''dq'', ''qi'', ''oth'', ''k'']"
  by code_simp

lemma checkMembers_flat:
  assumes "strip_pointer ty = GoStruct fs" "jsonFields (GoStruct fs) = known"
    and "\<And>name v. (name, v) \<in> set ms \<Longrightarrow> map_of known name = Some GoOther"
  shows "checkMembers J (member_object ms) ty = None"
proof -
  have leaf: "checkMembers J (JString v) GoOther = None" for v
    by (simp add: checkMembers.simps)
  show ?thesis
    using assms(3)
    by (subst checkMembers.simps) (fastforce simp: assms(1,2) member_object_def first_error_None leaf)
qed

lemma UnmarshalStrict_members:
  assumes "reads_members_of J text ms" "distinct (map fst ms)" "checkMembers J (member_object ms) ty = None"
    "dec (member_object ms) = Inr v"
  shows "UnmarshalStrict J ty dec (string_bytes text) = Inr v"
proof -
  have "checkJSON J (string_bytes text) = Inr ()"
    using checkJSON_iff_lemma [of J "string_bytes text" "member_object ms"] assms(1,2)
    by (simp add: reads_members_of_def nested_member_object distinct_member_object)
  then show ?thesis
    using assms by (simp add: UnmarshalStrict_def checkMemberNames_def reads_members_of_def)
qed

lemma jwk_members_known: "checkMembers J (member_object (jwk_members key)) jwk_type = None"
proof -
  obtain fs where fs: "strip_pointer jwk_type = GoStruct fs" by (simp add: jwk_type_def)
  show ?thesis
  proof (rule checkMembers_flat [OF fs jwk_fields [unfolded fs]])
    show "map_of (map (\<lambda>name. (name, GoOther)) [''kty'', ''crv'', ''x'', ''y'', ''n'', ''e''] @
        map (\<lambda>name. (name, GoPointer GoUnmarshaler)) [''d'', ''p'', ''q'', ''dp'', ''dq'', ''qi'', ''oth'', ''k'']) name = Some GoOther"
      if "(name, v) \<in> set (jwk_members key)" for name v
      using that by (cases key) auto
  qed
qed

lemma decode_jwk_members:
  assumes "distinct (map fst ms)" "set (map fst ms) \<subseteq> {''kty'', ''crv'', ''x'', ''y'', ''n'', ''e''}"
  shows "decode_jwk (member_object ms) =
    Inr \<lparr>jk_Kty = the_default [] (map_of ms ''kty''), jk_Crv = the_default [] (map_of ms ''crv''),
      jk_X = the_default [] (map_of ms ''x''), jk_Y = the_default [] (map_of ms ''y''), jk_N = the_default [] (map_of ms ''n''),
      jk_E = the_default [] (map_of ms ''e''), jk_Private = replicate 8 None\<rparr>"
proof -
  let ?ms = "map (\<lambda>(name, v). (name, string_bytes (plain_quote v), JString v)) ms"
  have look: "map_of ?ms name = map_option (\<lambda>v. (string_bytes (plain_quote v), JString v)) (map_of ms name)" for name
    by (induction ms) auto
  have str: "as_value go_string [] (member_value ?ms name) = Inr (the_default [] (map_of ms name))" for name
    by (cases "map_of ms name") (simp_all add: member_value_def look)
  have absent: "as_raw_pointer ?ms name = None" if "name \<notin> set (map fst ms)" for name
  proof -
    have "map_of ms name = None" using that by (simp add: map_of_eq_None_iff)
    then show ?thesis by (simp add: as_raw_pointer_def look)
  qed
  have tags: "tag \<notin> set (map fst ms)" if "tag \<in> {''d'', ''p'', ''q'', ''dp'', ''dq'', ''qi'', ''oth'', ''k''}" for tag
  proof
    assume "tag \<in> set (map fst ms)"
    from subsetD [OF assms(2) this] that show False by (elim insertE emptyE; simp)
  qed
  have "snd m \<in> {''d'', ''p'', ''q'', ''dp'', ''dq'', ''qi'', ''oth'', ''k''}" if "m \<in> set private_members" for m
    using that by (simp add: private_members_def) (elim disjE; simp)
  then have "(case m of (name, tag) \<Rightarrow> as_raw_pointer ?ms tag) = None" if "m \<in> set private_members" for m
    using absent [OF tags] that by (metis (no_types, lifting) prod.case_eq_if)
  then have "map (\<lambda>(name, tag). as_raw_pointer ?ms tag) private_members = map (\<lambda>_. None) private_members"
    by (rule map_cong [OF refl])
  also have "\<dots> = replicate 8 None"
    by (simp add: map_replicate_const private_members_def numeral_eq_Suc)
  finally show ?thesis
    by (simp add: decode_jwk_def member_object_def str)
qed

lemma jwk_read_again:
  assumes "key_ok C key" "MarshalJWK key = Inr text" "reads_members_of J text (jwk_members key)"
  shows "ParseJWK J C (string_bytes text) = Inr key"
proof -
  have distinct: "distinct (map fst (jwk_members key))" by (cases key) simp_all
  have "set (map fst (jwk_members key)) \<subseteq> {''kty'', ''crv'', ''x'', ''y'', ''n'', ''e''}" by (cases key) simp_all
  note k = UnmarshalStrict_members [where dec = decode_jwk, OF assms(3) distinct jwk_members_known decode_jwk_members [OF distinct this]]
  have "curve_of (curve_name c) = Some c" for c by (cases c) (simp_all add: curve_of_def)
  then show ?thesis
    using assms(1)
    by (cases key) (auto simp: ParseJWK_def k parseECKey_def parseRSAKey_def parseOKPKey_def Let_def odd_pos maxRSAExponent_def
        list_all_iff)
qed


definition sample_crypto :: Crypto where
  "sample_crypto = \<lparr>cr_SHA256 = \<lambda>b. b, cr_SHA384 = \<lambda>b. b, cr_SHA512 = \<lambda>b. b, cr_ECDSA = \<lambda>_ _ _ _ _ _. False,
     cr_RSA = \<lambda>_ _ _ _. False, cr_Ed25519 = \<lambda>k m s. s = k @ m, cr_HMAC = \<lambda>alg k m. k @ m, cr_OnCurve = \<lambda>_ _ _. True\<rparr>"

definition sample_public_key :: PublicKey where
  "sample_public_key = Ed25519Key (replicate 32 7)"

lemma sample_key_ok: "key_ok sample_crypto sample_public_key"
  by (simp add: sample_public_key_def)

lemma sample_reads: "reads_members_of (sample_json (member_object ms)) text ms"
  by (simp add: reads_members_of_def sample_json_def)

theorem ParseJWK_ok_witness:
  "\<exists>raw key. ParseJWK (sample_json (member_object (jwk_members sample_public_key))) sample_crypto raw = Inr key \<and> key_ok sample_crypto key"
proof -
  obtain x where "MarshalJWK sample_public_key = Inr x" using MarshalJWK_total [OF sample_key_ok] by blast
  from jwk_read_again [OF sample_key_ok this sample_reads] ParseJWK_ok show ?thesis by blast
qed

theorem MarshalJWK_inject_witness:
  "MarshalJWK sample_public_key \<noteq> MarshalJWK (Ed25519Key (replicate 32 8))"
proof
  assume "MarshalJWK sample_public_key = MarshalJWK (Ed25519Key (replicate 32 8))"
  from MarshalJWK_inject [OF sample_key_ok _ this] show False by (simp add: sample_public_key_def)
qed


subsection \<open>Accepted messages\<close>

lemma parseHeader_request:
  "parseHeader J C protected requestProfile = Inr h \<Longrightarrow>
     hd_Algorithm h \<in> set Algorithms \<and> hd_URL h \<noteq> [] \<and> hd_Nonce h \<noteq> [] \<and> isBase64URL (hd_Nonce h) \<and>
     (case hd_Key h of None \<Rightarrow> hd_KeyID h \<noteq> [] | Some key \<Rightarrow> hd_KeyID h = [] \<and> key_ok C key)"
  by (auto simp: parseHeader_def header_nonce_def header_key_def requestProfile_def Let_def parsed_key_ok
      split: sum.splits if_splits option.splits)

text \<open>C27. A request that is parsed names a supported signature algorithm, carries a nonce and a URL, and names its key in exactly one way: by a
  key identifier, or by an embedded key that is itself acceptable.  What is signed is the text of the two parts that
  were decoded.\<close>

theorem jws_Parse_ok:
  assumes "jws_Parse J C body = Inr m"
  shows "hd_Algorithm (msg_Header m) \<in> set Algorithms \<and> hd_URL (msg_Header m) \<noteq> [] \<and>
    hd_Nonce (msg_Header m) \<noteq> [] \<and> isBase64URL (hd_Nonce (msg_Header m)) \<and> msg_signature m \<noteq> [] \<and>
    (case hd_Key (msg_Header m) of None \<Rightarrow> hd_KeyID (msg_Header m) \<noteq> [] | Some key \<Rightarrow> hd_KeyID (msg_Header m) = [] \<and> key_ok C key) \<and>
    (\<exists>protected. protected \<noteq> [] \<and>
       msg_signingInput m = string_bytes (encode_base64 protected @ ''.'' @ encode_base64 (msg_Payload m)) \<and>
       parseHeader J C protected requestProfile = Inr (msg_Header m))"
proof -
  obtain protected where p: "protected \<noteq> []" "msg_signature m \<noteq> []"
    "msg_signingInput m = string_bytes (encode_base64 protected @ ''.'' @ encode_base64 (msg_Payload m))"
    "parseHeader J C protected requestProfile = Inr (msg_Header m)"
    using assms by (auto simp: jws_Parse_def parse_message_def decodeBase64_Some_iff split: sum.splits if_splits option.splits)
  then show ?thesis using parseHeader_request [OF p(4)] by blast
qed

text \<open>A request of the account \<^verbatim>\<open>k\<close>, signed as \<open>sample_crypto\<close> requires.\<close>

definition sample_header :: "(string \<times> string) list" where
  "sample_header = [(''alg'', ''EdDSA''), (''nonce'', ''n''), (''url'', ''u''), (''kid'', ''k'')]"

definition sample_envelope :: "(string \<times> string) list" where
  "sample_envelope = [(''protected'', encode_base64 (string_bytes ''h'')), (''payload'', []), (''signature'', encode_base64 [1])]"

definition sample_request_json :: Json where
  "sample_request_json = \<lparr>js_Tokens = \<lambda>b. (tokens_of (member_object (if b = string_bytes ''h'' then sample_header else sample_envelope)), None),
     js_Decode = \<lambda>b. Inr (member_object (if b = string_bytes ''h'' then sample_header else sample_envelope)),
     js_EqualFold = equal_fold, js_Quote = \<lambda>s. s, js_ParseInt = \<lambda>_. None\<rparr>"

lemma sample_reads_request:
  "reads_members_of sample_request_json ''h'' sample_header" "reads_members_of sample_request_json ''e'' sample_envelope"
  by (simp_all add: reads_members_of_def sample_request_json_def string_bytes_def mk_byte_def)

lemma sample_members:
  "checkMembers sample_request_json (member_object sample_header) header_type = None"
  "checkMembers sample_request_json (member_object sample_envelope) envelope_type = None"
  by code_simp+

theorem jws_Parse_ok_witness:
  "\<exists>m. jws_Parse sample_request_json sample_crypto (string_bytes ''e'') = Inr m \<and> hd_KeyID (msg_Header m) = ''k'' \<and>
     hd_Algorithm (msg_Header m) \<in> set Algorithms"
proof -
  have h: "UnmarshalStrict sample_request_json header_type decode_header (string_bytes ''h'') =
      Inr \<lparr>hj_Alg = Some ''EdDSA'', hj_Nonce = Some ''n'', hj_URL = Some ''u'', hj_KID = Some ''k'', hj_JWK = None, hj_Crit = None, hj_B64 = None\<rparr>"
    by (rule UnmarshalStrict_members [OF sample_reads_request(1) _ sample_members(1)])
      (simp_all add: sample_header_def decode_header_def member_object_def member_value_def as_raw_def)
  have e: "UnmarshalStrict sample_request_json envelope_type decode_envelope (string_bytes ''e'') =
      Inr \<lparr>ev_Protected = Some (encode_base64 (string_bytes ''h'')), ev_Payload = Some [], ev_Signature = Some (encode_base64 [1]),
        ev_Header = None, ev_Signatures = None\<rparr>"
    by (rule UnmarshalStrict_members [OF sample_reads_request(2) _ sample_members(2)])
      (simp_all add: sample_envelope_def decode_envelope_def member_object_def member_value_def as_raw_def)
  have "isBase64URL ''n''" "decodeBase64 [] = Some []" "string_bytes ''h'' \<noteq> []" by code_simp+
  then obtain m where m: "jws_Parse sample_request_json sample_crypto (string_bytes ''e'') = Inr m" "hd_KeyID (msg_Header m) = ''k''"
    by (simp add: jws_Parse_def parse_message_def e parseHeader_def h requestProfile_def Algorithms_def header_nonce_def header_key_def
        del: encode_base64.simps)
  with jws_Parse_ok [OF m(1)] show ?thesis by blast
qed

text \<open>The scheme that accepted a signature.\<close>

definition signed_with :: "Crypto \<Rightarrow> PublicKey \<Rightarrow> string \<Rightarrow> bytes \<Rightarrow> bytes \<Rightarrow> bool" where
  "signed_with C key alg input sig \<longleftrightarrow>
     (case key of
        ECKey c x y \<Rightarrow>
          (alg, c) \<in> {(''ES256'', P256), (''ES384'', P384), (''ES512'', P521)} \<and> length sig = 2 * curve_size c \<and>
          cr_ECDSA C c x y
            ((case c of P256 \<Rightarrow> cr_SHA256 C | P384 \<Rightarrow> cr_SHA384 C | P521 \<Rightarrow> cr_SHA512 C) input)
            (big_nat (take (curve_size c) sig)) (big_nat (drop (curve_size c) sig))
      | RSAKey n e \<Rightarrow> alg = ''RS256'' \<and> cr_RSA C n e (cr_SHA256 C input) sig
      | Ed25519Key k \<Rightarrow> alg = ''EdDSA'' \<and> length k = 32 \<and> cr_Ed25519 C k input sig
      | OtherKey k \<Rightarrow> False)"

text \<open>C28. A signature verifies exactly when the algorithm of the header belongs to the type of the key, the signature has the width of its curve, and
  the scheme of that algorithm accepts it over the signing input.\<close>

theorem verifySignature_iff:
  "verifySignature J C alg key input sig = Inr () \<longleftrightarrow> signed_with C key alg input sig"
  by (cases key) (auto simp: verifySignature_def verifyECDSA_def signed_with_def split: curve.splits)

lemma VerifyMAC_iff:
  "VerifyMAC J C m key = Inr () \<longleftrightarrow>
     (\<exists>n. macHash (hd_Algorithm (msg_Header m)) = Some n \<and> n \<le> length key) \<and>
     cr_HMAC C (hd_Algorithm (msg_Header m)) key (msg_signingInput m) = msg_signature m"
  by (auto simp: VerifyMAC_def Let_def split: option.splits)

end
