(* ===== verification/Challenge_Sample.thy ===== *)
theory Challenge_Sample
  imports Challenge_DNS Challenge_Http Challenge_TLS Challenge_TKAuth JWS_Sound
begin

section \<open>Concrete validations\<close>

text \<open>
  One accepted validation for each validator, evaluated on a concrete network: a DNS proof behind an alias, an HTTP proof behind a redirect to another
  scheme, a TLS certificate for an address, and an authority token for a network function.
\<close>

definition probe :: "ChallengeType \<Rightarrow> Identifier \<Rightarrow> string \<Rightarrow> ValidationRequest" where
  "probe ty i token =
     \<lparr>vr_Challenge = \<lparr>ch_ID = ''c'', ch_AuthorizationID = ''z'', ch_AccountID = ''a'', ch_Type = ty, ch_Status = ChallengeProcessing,
        ch_Token = replicate 22 (CHR ''t''), ch_AuthorityToken = token, ch_KeyThumbprint = replicate 43 (CHR ''k''), ch_Validated = 0,
        ch_Error = None, ch_Revision = 0\<rparr>,
      vr_Identifier = i, vr_Wildcard = False,
      vr_KeyAuthorization = replicate 22 (CHR ''t'') @ ''.'' @ replicate 43 (CHR ''k''),
      vr_AccountKeyThumbprint = replicate 43 (CHR ''k''), vr_AuthorityToken = token\<rparr>"

lemma probe_captured [simp]: "captured_proof (probe ty i token)"
  by (simp add: captured_proof_def probe_def base64URL_def list_all_iff is_base64url_char_def)

lemma probe_sel [simp]:
  "vr_Identifier (probe ty i token) = i" "ch_Type (vr_Challenge (probe ty i token)) = ty" "vr_Wildcard (probe ty i token) = False"
  "vr_AuthorityToken (probe ty i token) = token" "vr_AccountKeyThumbprint (probe ty i token) = replicate 43 (CHR ''k'')"
  by (simp_all add: probe_def)

text \<open>The monad, run on a history.\<close>

lemma wire_bind: "run_state (State_Monad.bind m f) t = (case run_state m t of (x, u) \<Rightarrow> run_state (f x) u)"
  by (simp add: State_Monad.bind_def)

lemma wire_return: "run_state (State_Monad.return x) t = (x, t)"
  by (simp add: State_Monad.return_def)

lemma wire_also: "run_state (and_also m k) t = (case run_state m t of (Inl e, u) \<Rightarrow> (Inl e, u) | (Inr x, u) \<Rightarrow> run_state (k x) u)"
  by (simp add: and_also_def wire_bind wire_return split: prod.splits sum.splits)

lemma wire_call: "run_state (call e answer) t = (answer t, e # t)"
  by (simp add: call_def)

lemma wire_observe: "run_state (observe answer) t = (answer t, t)"
  by (simp add: observe_def)

lemmas wire_rules = wire_bind wire_return wire_also wire_call wire_observe

subsection \<open>DNS\<close>

text \<open>The server answers with an alias of the challenge name and with the proof at that alias.\<close>

definition dns_request :: ValidationRequest where
  "dns_request = probe ChallengeDNS01 (mk_id IdentifierDNS ''example.org'') []"

definition dns_name :: string where "dns_name = ''_acme-challenge.example.org.''"

definition dns_item :: "string \<Rightarrow> dns_Type \<Rightarrow> answer_item" where
  "dns_item name ty = \<lparr>ai_Header = \<lparr>rh_Name = name, rh_Type = ty, rh_Class = ClassINET\<rparr>, ai_A = Inr [8, 8, 8, 8],
     ai_AAAA = Inr (replicate 16 0), ai_CNAME = Inr ''x.'', ai_TXT = Inr [dns_digest sample_crypto dns_request], ai_Skip = None\<rparr>"

definition dns_messages :: DnsMessage where
  "dns_messages = \<lparr>dm_NewName = Some, dm_Pack = \<lambda>i q. Inr [7],
     dm_Start = \<lambda>_. Some \<lparr>dh_ID = 258, dh_Response = True, dh_OpCode = 0, dh_Truncated = False, dh_RCode = RCodeSuccess\<rparr>,
     dm_AllQuestions = \<lambda>_. Some [\<lparr>qu_Name = dns_name, qu_Type = TypeTXT, qu_Class = ClassINET\<rparr>],
     dm_Answers = \<lambda>_. ([dns_item dns_name TypeCNAME, dns_item ''x.'' TypeTXT], None)\<rparr>"

definition dns_wire :: Wire where
  "dns_wire = \<lparr>wi_Err = \<lambda>_. None, wi_Random = \<lambda>_. Inr [1, 2], wi_Dial = \<lambda>_ _. None,
     wi_Ask = \<lambda>_ _ _. Inr ([0, 12, 0, 0, 0, 0, 0, 1, 0, 2, 0, 0, 0, 0], io_EOF), wi_Get = \<lambda>_ _ _. Inl io_EOF,
     wi_Shake = \<lambda>_ _ _. Inl io_EOF\<rparr>"

definition dns_resolver :: Resolver where
  "dns_resolver = \<lparr>rv_servers = [AddrPort (Some (Addr4 [9, 9, 9, 9])) 53], rv_timeout = second, rv_maxCNAMEs = 1, rv_maxBytes = 512,
     rv_maxRecords = 64\<rparr>"

definition plain_json :: Json where
  "plain_json = sample_json JNull"

lemma dns_names:
  "fqdn sample_names dns_name = dns_name" "strings_ToLower sample_names ''x.'' = ''x.''"
  "equal_fold dns_name dns_name" "\<not> equal_fold dns_name ''x.''" "\<not> equal_fold ''x.'' dns_name" "equal_fold ''x.'' ''x.''"
  "dns_name \<noteq> ''x.''" "''x.'' \<noteq> dns_name"
  by (simp_all add: fqdn_def dns_name_def has_suffix_def sample_names_def char_eval equal_fold_def)

lemma dns_sel:
  "wi_Err dns_wire t = None" "wi_Random dns_wire t = Inr [1, 2]"
  "wi_Ask dns_wire t server m = Inr ([0, 12, 0, 0, 0, 0, 0, 1, 0, 2, 0, 0, 0, 0], io_EOF)"
  "dm_NewName dns_messages name = Some name" "dm_Pack dns_messages i q = Inr [7]"
  "rv_servers dns_resolver = [AddrPort (Some (Addr4 [9, 9, 9, 9])) 53]" "rv_maxCNAMEs dns_resolver = 1"
  "js_EqualFold plain_json = equal_fold"
  by (simp_all add: dns_wire_def dns_messages_def dns_resolver_def plain_json_def sample_json_def)

lemma dns_parsed:
  "read_message dns_resolver ([0, 12, 0, 0, 0, 0, 0, 1, 0, 2, 0, 0, 0, 0], io_EOF) = Inr [0, 0, 0, 0, 0, 1, 0, 2, 0, 0, 0, 0]"
  "parseResponse dns_messages plain_json dns_resolver [0, 0, 0, 0, 0, 1, 0, 2, 0, 0, 0, 0] 258
     \<lparr>qu_Name = dns_name, qu_Type = TypeTXT, qu_Class = ClassINET\<rparr> =
   Inr [\<lparr>re_Header = \<lparr>rh_Name = dns_name, rh_Type = TypeCNAME, rh_Class = ClassINET\<rparr>, re_Body = CNAMEResource ''x.''\<rparr>,
        \<lparr>re_Header = \<lparr>rh_Name = ''x.'', rh_Type = TypeTXT, rh_Class = ClassINET\<rparr>,
         re_Body = TXTResource [dns_digest sample_crypto dns_request]\<rparr>]"
  by (simp_all add: read_message_def ReadFull_def be_value_def dns_resolver_def parseResponse_def dns_messages_def Uint16_def
    plain_json_def sample_json_def dns_names dns_item_def validationBody_def)

lemma dns_run:
  "run_state (DNS01_Validate sample_names sample_crypto
     \<lparr>d1_resolver = LookupTXT sample_names dns_wire dns_messages plain_json dns_resolver, d1_timeout = second\<rparr> dns_request) [] =
   (Inr (), [Asked (AddrPort (Some (Addr4 [9, 9, 9, 9])) 53) (dns_frame [7])])"
proof -
  have i: "checkRequest sample_names dns_request ChallengeDNS01 = Inr (mk_id IdentifierDNS ''example.org'')"
    by (simp add: checkRequest_def dns_request_def sample_normal IsWildcard_def)
  have q: "run_state (resolver_query dns_wire dns_messages plain_json dns_resolver dns_name TypeTXT) [] =
      (Inr [\<lparr>re_Header = \<lparr>rh_Name = dns_name, rh_Type = TypeCNAME, rh_Class = ClassINET\<rparr>, re_Body = CNAMEResource ''x.''\<rparr>,
        \<lparr>re_Header = \<lparr>rh_Name = ''x.'', rh_Type = TypeTXT, rh_Class = ClassINET\<rparr>,
         re_Body = TXTResource [dns_digest sample_crypto dns_request]\<rparr>],
       [Asked (AddrPort (Some (Addr4 [9, 9, 9, 9])) 53) (dns_frame [7])])"
    by (simp add: resolver_query_def dns_sel wire_rules Let_def exchange_def Uint16_def be_value_def dns_parsed)
  have l: "run_state (lookup sample_names dns_wire dns_messages plain_json dns_resolver dns_name TypeTXT) [] =
      (Inr [\<lparr>re_Header = \<lparr>rh_Name = ''x.'', rh_Type = TypeTXT, rh_Class = ClassINET\<rparr>,
         re_Body = TXTResource [dns_digest sample_crypto dns_request]\<rparr>],
       [Asked (AddrPort (Some (Addr4 [9, 9, 9, 9])) 53) (dns_frame [7])])"
    by (simp add: lookup_def lookup_round_def dns_names dns_sel wire_rules q matchingAnswers_def)
  show ?thesis
    using l i by (simp add: DNS01_Validate_def wire_rules LookupTXT_def dns_name_def List.map_filter_def)
qed

theorem DNS01_sound_witness:
  "\<exists>t k owner rs r. k \<le> nat (rv_maxCNAMEs dns_resolver) \<and>
     alias_chain sample_names plain_json (received dns_wire dns_messages plain_json dns_resolver TypeTXT t) dns_name k owner \<and>
     received dns_wire dns_messages plain_json dns_resolver TypeTXT t rs \<and> r \<in> set rs \<and> proof_record plain_json owner TypeTXT r"
proof -
  from DNS01_sound [OF dns_run] obtain i k owner rs r where
    "Normalize sample_names (vr_Identifier dns_request) = Inr i" "k \<le> nat (rv_maxCNAMEs dns_resolver)"
    "alias_chain sample_names plain_json (received dns_wire dns_messages plain_json dns_resolver TypeTXT
       [Asked (AddrPort (Some (Addr4 [9, 9, 9, 9])) 53) (dns_frame [7])])
       (fqdn sample_names (''_acme-challenge.'' @ id_Value i @ ''.'')) k owner"
    "received dns_wire dns_messages plain_json dns_resolver TypeTXT [Asked (AddrPort (Some (Addr4 [9, 9, 9, 9])) 53) (dns_frame [7])] rs"
    "r \<in> set rs" "proof_record plain_json owner TypeTXT r" by blast
  moreover from this(1) have "i = mk_id IdentifierDNS ''example.org''" by (simp add: dns_request_def sample_normal)
  moreover have "fqdn sample_names (''_acme-challenge.'' @ ''example.org'' @ ''.'') = dns_name"
    using dns_names(1) by (simp add: dns_name_def)
  ultimately show ?thesis by (metis mk_id_sel(2))
qed

subsection \<open>HTTP\<close>

text \<open>The peer redirects the request to HTTPS and serves the proof there, with a line break after it.\<close>

definition ip_id :: Identifier where "ip_id = mk_id IdentifierIP ''8.8.8.8''"

definition http_request :: ValidationRequest where
  "http_request = probe ChallengeHTTP01 ip_id []"

definition http_url :: "string \<Rightarrow> URL" where
  "http_url scheme = (proof_url ip_id (replicate 22 (CHR ''t'')))\<lparr>url_Scheme := scheme\<rparr>"

definition http_names :: Names where
  "http_names = sample_names\<lparr>nm_Parse := \<lambda>_. Some (http_url ''http'')\<rparr>"

definition http_client :: HttpClient where
  "http_client = \<lparr>hc_LookupASCII = \<lambda>_. None, hc_Resolve = \<lambda>_ _. Some (http_url ''https''), hc_AlertError = \<lambda>_. False,
     hc_RecordHeaderError = \<lambda>_. False, hc_Error = \<lambda>_. []\<rparr>"

definition http_wire :: Wire where
  "http_wire = dns_wire\<lparr>wi_Get := \<lambda>_ _ u. Inr (if url_Scheme u = ''http''
     then \<lparr>hr_StatusCode = 302, hr_Location = ''https'', hr_Body = [], hr_Fails = None\<rparr>
     else \<lparr>hr_StatusCode = 200, hr_Location = [], hr_Body = vr_KeyAuthorization http_request @ [CHR 0x0A], hr_Fails = None\<rparr>)\<rparr>"

definition http_options :: HTTPOptions where
  "http_options = \<lparr>ho_Network = \<lparr>no_Resolver = Some (LookupNetIP http_names http_wire dns_messages plain_json dns_resolver),
     no_AllowedNetworks = [], no_Timeout = 0, no_MaxAddresses = 0\<rparr>, ho_TestPort = 0, ho_MaxRedirects = 1, ho_MaxResponseBytes = 100\<rparr>"

definition http_validator :: HTTP01 where
  "http_validator = \<lparr>h1_network = \<lparr>np_resolver = LookupNetIP http_names http_wire dns_messages plain_json dns_resolver, np_allowed = [],
     np_timeout = 10 * second, np_maxAddresses = 32\<rparr>, h1_testPort = 0, h1_redirects = 1, h1_maxBody = 100\<rparr>"

lemma http_new: "NewHTTP01 http_options = Inr http_validator"
  by (simp add: NewHTTP01_def newNetwork_def http_options_def http_validator_def)

lemma ip_parsed: "ParseAddr ''8.8.8.8'' = Some (Addr4 [8, 8, 8, 8])"
  by (simp add: ParseAddr_def parseIPv4Fields_def dec_digit_def)

lemma ip_text: "Addr_String (Addr4 [8, 8, 8, 8]) = ''8.8.8.8''" "itoa 80 = ''80''" "itoa 443 = ''443''"
  by (simp_all add: dec_string.simps digit_char_def char_of_def itoa_def bit_Suc_0_iff)

lemma ip_normal: "Normalize L ip_id = Inr ip_id"
proof -
  have "replicate 4 (0 :: nat) = [0, 0, 0, 0]" by (simp add: numeral_eq_Suc)
  then show ?thesis by (simp add: Normalize_def ip_id_def normalizeIP_def ip_parsed ip_text Let_def del: Addr_String.simps)
qed

lemma ip_permitted: "permits p (Some (Addr4 [8, 8, 8, 8]))"
proof -
  have "PublicAddress (Some (Addr4 [8, 8, 8, 8]))" by (subst PublicAddress4_iff) (simp_all add: special4_def)
  then show ?thesis by (simp add: permits_def unmap_def)
qed

lemma ip_dial:
  assumes "1 \<le> np_maxAddresses p" "wi_Dial N t (''8.8.8.8:'' @ itoa port) = None"
  shows "run_state (network_dial L N p ''8.8.8.8'' port) t = (Inr (''8.8.8.8:'' @ itoa port), Dialed (''8.8.8.8:'' @ itoa port) # t)"
proof -
  have d: "destination (Some (Addr4 [8, 8, 8, 8])) port = ''8.8.8.8:'' @ itoa port"
    by (simp add: destination_def netip_String_def unmap_def ip_text JoinHostPort_def del: Addr_String.simps)
  show ?thesis
    using assms by (simp add: network_dial_def resolve_def ip_parsed ip_permitted wire_rules d)
qed

lemma http_url_parts:
  "url_Hostname (http_url scheme) = ''8.8.8.8''" "url_Port (http_url scheme) = []" "url_Scheme (http_url scheme) = scheme"
  "url_Host (http_url scheme) = ''8.8.8.8''"
  by (simp_all add: url_Hostname_def url_Port_def split_url_host_def http_url_def proof_url_def ip_id_def cut_last_def)

lemma http_dial:
  "run_state (HTTP01_dial L http_wire http_validator ''8.8.8.8:80'') t = (Inr ''8.8.8.8:80'', Dialed ''8.8.8.8:80'' # t)"
  "run_state (HTTP01_dial L http_wire http_validator ''8.8.8.8:443'') t = (Inr ''8.8.8.8:443'', Dialed ''8.8.8.8:443'' # t)"
proof -
  have net: "1 \<le> np_maxAddresses (h1_network http_validator)" "wi_Dial http_wire t d = None" for d
    by (simp_all add: http_validator_def http_wire_def dns_wire_def)
  have port: "h1_testPort http_validator = 0" by (simp add: http_validator_def)
  show "run_state (HTTP01_dial L http_wire http_validator ''8.8.8.8:80'') t = (Inr ''8.8.8.8:80'', Dialed ''8.8.8.8:80'' # t)"
    "run_state (HTTP01_dial L http_wire http_validator ''8.8.8.8:443'') t = (Inr ''8.8.8.8:443'', Dialed ''8.8.8.8:443'' # t)"
    by (simp_all add: HTTP01_dial_def SplitHostPort_def cut_last_def Atoi_def dec_digit_def ip_dial net port ip_text)
qed

lemma http_run:
  "run_state (HTTP01_Validate http_client http_names http_wire http_validator http_request) [] =
   (Inr (), [Fetched ''8.8.8.8:443'' (http_url ''https''), Dialed ''8.8.8.8:443'',
             Fetched ''8.8.8.8:80'' (http_url ''http''), Dialed ''8.8.8.8:80''])"
proof -
  have i: "checkRequest http_names http_request ChallengeHTTP01 = Inr ip_id"
    by (simp add: checkRequest_def http_request_def ip_normal) (simp add: ip_id_def IsWildcard_def)
  have addr: "canonicalAddr http_client (http_url ''http'') = ''8.8.8.8:80''"
    "canonicalAddr http_client (http_url ''https'') = ''8.8.8.8:443''"
    by (simp_all add: canonicalAddr_def http_url_parts is_ascii_def JoinHostPort_def)
  have ok: "checkHTTPURL (http_url ''https'') = Inr ()"
    by (simp add: checkHTTPURL_def http_url_parts) (simp add: http_url_def proof_url_def)
  have get: "wi_Get http_wire t d u = Inr (if url_Scheme u = ''http''
     then \<lparr>hr_StatusCode = 302, hr_Location = ''https'', hr_Body = [], hr_Fails = None\<rparr>
     else \<lparr>hr_StatusCode = 200, hr_Location = [], hr_Body = vr_KeyAuthorization http_request @ [CHR 0x0A], hr_Fails = None\<rparr>)" for t d u
    by (simp add: http_wire_def)
  have trim: "trim_right (vr_KeyAuthorization http_request @ [CHR 0x0A]) = vr_KeyAuthorization http_request"
    by (simp add: trim_right_def http_request_def probe_def)
  have len: "length (vr_KeyAuthorization http_request) = 66" by (simp add: http_request_def probe_def)
  have "check_proof http_validator http_request
      \<lparr>hr_StatusCode = 200, hr_Location = [], hr_Body = vr_KeyAuthorization http_request @ [CHR 0x0A], hr_Fails = None\<rparr> = Inr ()"
    by (simp add: check_proof_def read_proof_def http_validator_def trim len)
  moreover have "h1_redirects http_validator = 1" "nm_Parse http_names s = Some (http_url ''http'')"
    "hc_Resolve http_client u location = Some (http_url ''https'')" for s u location
    by (simp_all add: http_validator_def http_names_def http_client_def)
  ultimately show ?thesis
    by (simp add: HTTP01_Validate_def i client_Do_def client_round_def roundTrip_def addr http_dial wire_rules http_url_parts get ok
        redirect_status_def)
qed


theorem HTTP01_egress_witness:
  "\<exists>u. [Fetched ''8.8.8.8:443'' (http_url ''https''), Dialed ''8.8.8.8:443'', Fetched ''8.8.8.8:80'' (http_url ''http''),
      Dialed ''8.8.8.8:80''] = u @ [] \<and> fetches u \<le> 2 \<and>
     (\<exists>port a. port \<in> http_ports http_validator \<and> PublicAddress (Some a) \<and> ''8.8.8.8:443'' = JoinHostPort (Addr_String a) (itoa port))"
proof -
  have opts: "no_Resolver (ho_Network http_options) = Some (LookupNetIP http_names http_wire dns_messages plain_json dns_resolver)"
    "no_AllowedNetworks (ho_Network http_options) = []" by (simp_all add: http_options_def)
  from HTTP01_egress [OF http_new opts(1) http_run] show ?thesis
    unfolding opts(2) by (simp add: http_validator_def) blast
qed

subsection \<open>TLS\<close>

definition tls_request :: ValidationRequest where
  "tls_request = probe ChallengeTLSALPN01 ip_id []"

definition tls_crypto :: Crypto where
  "tls_crypto = sample_crypto\<lparr>cr_SHA256 := \<lambda>_. [1, 2]\<rparr>"

definition tls_certificate :: PeerCertificate where
  "tls_certificate = \<lparr>pc_Extensions = [(sanOID, False, [0x30, 6, 0x87, 4, 8, 8, 8, 8]), (proofOID, True, [4, 2, 1, 2])]\<rparr>"

definition tls_wire :: Wire where
  "tls_wire = dns_wire\<lparr>wi_Shake := \<lambda>_ _ _. Inr (\<lparr>cs_NegotiatedProtocol = ALPNProtocol, cs_PeerCertificates = [tls_certificate]\<rparr>, None)\<rparr>"

definition tls_validator :: TLSALPN01 where
  "tls_validator = \<lparr>t1_network = h1_network http_validator, t1_port = 443\<rparr>"

lemma tls_asn1:
  "Unmarshal_raw_values [0x30, 6, 0x87, 4, 8, 8, 8, 8] =
     Some ([(\<lparr>tl_class = 2, tl_compound = False, tl_tag = 7, tl_length = 4\<rparr>, [8, 8, 8, 8])], [])"
  "Unmarshal_octets [4, 2, 1, 2] = Some ([1, 2], [])"
  by code_simp+

lemma tls_accepts:
  "checkALPNProof plain_json tls_crypto \<lparr>cs_NegotiatedProtocol = ALPNProtocol, cs_PeerCertificates = [tls_certificate]\<rparr> ip_id ka = Inr ()"
proof -
  have "sanOID \<noteq> proofOID" by (simp add: sanOID_def proofOID_def)
  moreover have "san_matches plain_json ip_id (\<lparr>tl_class = 2, tl_compound = False, tl_tag = 7, tl_length = 4\<rparr>, [8, 8, 8, 8])"
    by (simp add: san_matches_def ip_id_def AddrFromSlice_def ip_parsed)
  ultimately show ?thesis
    by (simp add: checkALPNProof_def checkSingleSAN_def tls_certificate_def tls_asn1 tls_crypto_def)
qed

definition tls_trace :: trace where
  "tls_trace = [Shook ''8.8.8.8:443'' (server_name ip_id), Dialed ''8.8.8.8:443'']"

lemma tls_run:
  "run_state (TLSALPN01_Validate sample_names tls_wire plain_json tls_crypto tls_validator tls_request) [] =
   (Inr (), tls_trace)"
proof -
  have i: "checkRequest sample_names tls_request ChallengeTLSALPN01 = Inr ip_id"
    by (simp add: checkRequest_def tls_request_def ip_normal) (simp add: ip_id_def IsWildcard_def)
  have net: "1 \<le> np_maxAddresses (t1_network tls_validator)" "wi_Dial tls_wire t d = None" for t d
    by (simp_all add: tls_validator_def http_validator_def tls_wire_def dns_wire_def)
  have shake: "wi_Shake tls_wire t d n = Inr (\<lparr>cs_NegotiatedProtocol = ALPNProtocol, cs_PeerCertificates = [tls_certificate]\<rparr>, None)"
    and port: "t1_port tls_validator = 443" and v: "id_Value ip_id = ''8.8.8.8''" for t d n
    by (simp_all add: tls_wire_def tls_validator_def ip_id_def)
  show ?thesis
    by (simp add: TLSALPN01_Validate_def i wire_rules ip_dial net shake port v ip_text tls_accepts tls_trace_def)
qed

theorem TLSALPN01_sound_witness:
  "\<exists>conn before (state :: ConnectionState) cert rest.
     tls_trace = Shook conn (server_name ip_id) # before \<and>
     allowed_destination (t1_network tls_validator) (t1_port tls_validator) conn \<and>
     cs_PeerCertificates state = cert # rest \<and> names_only plain_json cert ip_id \<and> proves cert [1, 2]"
proof -
  from TLSALPN01_sound [OF tls_run] obtain i conn before and state :: ConnectionState and cert rest where
    i: "Normalize sample_names (vr_Identifier tls_request) = Inr i" and
    t: "tls_trace = Shook conn (server_name i) # before" and
    conn: "allowed_destination (t1_network tls_validator) (t1_port tls_validator) conn" and
    cert: "cs_PeerCertificates state = cert # rest" "names_only plain_json cert i"
      "proves cert (cr_SHA256 tls_crypto (string_bytes (vr_KeyAuthorization tls_request)))" by blast
  from i have "i = ip_id" by (simp add: tls_request_def ip_normal)
  moreover have "cr_SHA256 tls_crypto m = [1, 2]" for m by (simp add: tls_crypto_def)
  ultimately have "tls_trace = Shook conn (server_name ip_id) # before"
    "names_only plain_json cert ip_id" "proves cert [1, 2]" using t cert by simp_all
  with conn cert(1) show ?thesis by blast
qed

subsection \<open>Authority tokens\<close>

definition nf_id :: Identifier where
  "nf_id = mk_id IdentifierNfInstanceID ''4ace9d34-2c69-4f99-92d5-a73a3fe8e23b''"

definition token_header :: json where
  "token_header = JObject [(''alg'', [], JString ''EdDSA''), (''x5u'', [], JString ''u'')]"

definition token_payload :: json where
  "token_payload = JObject [(''exp'', [], JNumber ''9''), (''jti'', [], JString ''j''),
     (''atc'', [], JObject [(''tktype'', [], JString ''NfInstanceId''), (''tkvalue'', [], JString (id_Value nf_id)),
        (''fingerprint'', [], JString (replicate 43 (CHR ''k''))), (''sans'', [], JArray [JString ''example.org''])])]"

definition token_json :: Json where
  "token_json = \<lparr>js_Tokens = \<lambda>b. (tokens_of (if b = [1] then token_header else token_payload), None),
     js_Decode = \<lambda>b. Inr (if b = [1] then token_header else token_payload), js_EqualFold = equal_fold, js_Quote = \<lambda>s. s,
     js_ParseInt = \<lambda>_. Some 9\<rparr>"

definition token_crypto :: Crypto where
  "token_crypto = sample_crypto\<lparr>cr_Ed25519 := \<lambda>k m s. s = [3]\<rparr>"

definition token_names_of :: Names where
  "token_names_of = sample_names\<lparr>nm_Parse := \<lambda>_. Some (http_url ''https'')\<rparr>"

definition authority :: Leaf where
  "authority = \<lparr>lf_Raw = [1], lf_RawTBS = [], lf_RawSPKI = [], lf_Signature = [], lf_PublicKey = sample_public_key, lf_Version = 3,
     lf_BasicConstraintsValid = False, lf_IsCA = False, lf_KeyUsage = 0, lf_NotBefore = 0, lf_NotAfter = 100 * second,
     lf_Extensions = [], lf_DNSNames = [], lf_IPAddresses = [], lf_URIs = [], lf_CommonName = [], lf_AuthorityKeyId = [],
     lf_SerialNumber = None\<rparr>"

definition token_request :: ValidationRequest where
  "token_request = probe ChallengeTKAuth01 nf_id ''AQ.Ag.Aw''"

definition token_authorities :: StaticTokenAuthorities where
  "token_authorities = \<lparr>sa_ByURL = [(''u'', Some authority)], sa_Certificates = []\<rparr>"

lemma token_decoded: "decodeBase64 ''AQ'' = Some [1]" "decodeBase64 ''Ag'' = Some [2]" "decodeBase64 ''Aw'' = Some [3]"
  by code_simp+

lemma token_members:
  "checkMembers token_json token_header compact_type = None" "checkMembers token_json token_payload authorityToken_type = None"
  by code_simp+

lemma token_json_ok: "checkJSON token_json b = Inr ()"
proof -
  have "js_Tokens token_json b = (tokens_of (if b = [1] then token_header else token_payload), None)" by (simp add: token_json_def)
  from checkJSON_iff_lemma [OF this] show ?thesis by (simp add: token_header_def token_payload_def MaxDepth_def)
qed

lemma token_header_read:
  "parseCompactHeader token_json StdEncoding_decode [1] =
     Inr \<lparr>chd_Algorithm = ''EdDSA'', chd_MediaType = [], chd_X5U = ''u'', chd_X5C = [], chd_KeyID = []\<rparr>"
proof -
  have "js_Decode token_json [1] = Inr token_header" by (simp add: token_json_def)
  then have "UnmarshalStrict token_json compact_type decode_compact [1] =
      Inr \<lparr>cp_Alg = Some ''EdDSA'', cp_Typ = None, cp_Cty = None, cp_X5U = Some ''u'', cp_X5C = None, cp_KID = None, cp_JWK = None,
        cp_Crit = None, cp_B64 = None\<rparr>"
    using token_members(1)
    by (simp add: UnmarshalStrict_def token_json_ok checkMemberNames_def)
       (simp add: token_header_def decode_compact_def member_value_def as_raw_def)
  then show ?thesis by (simp add: parseCompactHeader_def Algorithms_def)
qed

definition token_message :: CompactMessage where
  "token_message = \<lparr>cm_Header = \<lparr>chd_Algorithm = ''EdDSA'', chd_MediaType = [], chd_X5U = ''u'', chd_X5C = [], chd_KeyID = []\<rparr>,
     cm_Payload = [2], cm_signingInput = string_bytes ''AQ.Ag'', cm_signature = [3]\<rparr>"

lemma token_message_read: "ParseCompact token_json StdEncoding_decode ''AQ.Ag.Aw'' = Inr token_message"
  by (simp add: ParseCompact_def token_decoded token_header_read token_message_def)

definition token_claims :: claims where
  "token_claims = \<lparr>cl_Issuer = [], cl_Expires = 9, cl_NotBefore = None,
     cl_ATC = \<lparr>atc_TokenType = ''NfInstanceId'', atc_TokenValue = id_Value nf_id, atc_CA = False,
       atc_Fingerprint = replicate 43 (CHR ''k''), atc_NFType = None, atc_Names = Some [''example.org'']\<rparr>\<rparr>"

lemma token_claims_read: "parseAuthorityToken token_json [2] = Inr token_claims"
proof -
  have "js_Decode token_json [2] = Inr token_payload" "js_ParseInt token_json ''9'' = Some 9" by (simp_all add: token_json_def)
  then have "UnmarshalStrict token_json authorityToken_type (decode_authorityToken token_json) [2] =
      Inr \<lparr>at_Issuer = [], at_Expires = Some 9, at_NotBefore = None, at_TokenID = ''j'', at_ATC = Some (cl_ATC token_claims)\<rparr>"
    using token_members(2)
    by (simp add: UnmarshalStrict_def token_json_ok checkMemberNames_def)
       (simp add: token_payload_def decode_authorityToken_def decode_atc_def member_value_def token_claims_def Let_def)
  then show ?thesis by (simp add: parseAuthorityToken_def token_claims_def nf_id_def)
qed

lemma nf_normal: "Normalize token_names_of nf_id = Inr nf_id"
  by (simp add: nf_id_def Normalize_def normalizeNfInstanceID_def Let_def lower_hex_def char_eval)

abbreviation token_validator :: TKAuth01 where
  "token_validator \<equiv> \<lparr>k1_authorities = \<lambda>ref. State_Monad.return (static_AuthorityCertificate token_authorities ref), k1_skew = second,
     k1_now = State_Monad.return (9 * second)\<rparr>"

definition token_granted :: ValidationGrant where
  "token_granted = \<lparr>vg_CACertificate = False, vg_Expires = time_Unix 9, vg_Names = [mk_id IdentifierDNS ''example.org''], vg_NFType = []\<rparr>"

lemma token_run:
  "run_state (ValidateGrant token_names_of token_json token_crypto token_validator token_request) t = (Inr token_granted, t)"
proof -
  have i: "checkTKAuthRequest token_names_of token_request = Inr nf_id"
    by (simp add: checkTKAuthRequest_def token_request_def nf_normal maxAuthorityTokenBytes_def) (simp add: nf_id_def)
  have ref: "authorityRef token_names_of (cm_Header token_message) (cl_Issuer token_claims) =
      Inr \<lparr>tr_URL = ''u'', tr_Chain = [], tr_Issuer = [], tr_KeyID = []\<rparr>"
    by (simp add: authorityRef_def token_message_def token_claims_def token_names_of_def http_url_parts)
       (simp add: http_url_def proof_url_def)
  have cert: "static_AuthorityCertificate token_authorities \<lparr>tr_URL = ''u'', tr_Chain = [], tr_Issuer = [], tr_KeyID = []\<rparr> = Inr (Some authority)"
    by (simp add: static_AuthorityCertificate_def token_authorities_def)
  have signature: "compact_Verify token_json token_crypto token_message sample_public_key = Inr ()"
    by (simp add: compact_Verify_def verifySignature_def token_message_def sample_public_key_def token_crypto_def)
  have "matchesAccountKey token_json (replicate 43 (CHR ''k'')) (replicate 43 (CHR ''k''))" by (simp add: matchesAccountKey_def)
  moreover have "sameNfInstance token_names_of (id_Value nf_id) (id_Value nf_id)"
    using nf_normal by (simp add: sameNfInstance_def nf_id_def)
  moreover have "9 * second \<le> time_Add (time_Unix 9) second"
    by (simp add: time_Add_def time_Unix_def second_def i64_def)
  moreover have "js_EqualFold token_json = equal_fold" "id_Type nf_id = IdentifierNfInstanceID"
    by (simp_all add: token_json_def nf_id_def)
  ultimately have attested: "checkClaims token_names_of token_json token_validator token_claims nf_id (replicate 43 (CHR ''k'')) (9 * second) = Inr ()"
    by (simp add: checkClaims_def token_claims_def not_less)
  have "Normalize token_names_of (mk_id IdentifierDNS ''example.org'') = Inr (mk_id IdentifierDNS ''example.org'')"
  proof -
    have "to_lower ''example.org'' = ''example.org''" by (simp add: char_eval)
    then show ?thesis
      by (simp add: Normalize_def normalizeDNS_def Let_def is_ascii_def strings_ToLower_def trim_prefix_def
        ParseAddr_def parseIPv4Fields_def dec_digit_def checkDNSLabel_def ldh_def maxDNSLabelLength_def maxDNSNameLength_def)
  qed
  then have "tokenName token_names_of ''example.org'' = Inr (mk_id IdentifierDNS ''example.org'')"
    by (simp add: tokenName_def char_eval ParseAddr_def parseIPv4Fields_def dec_digit_def)
  then have "token_grant token_names_of token_claims nf_id = Inr token_granted"
    by (simp add: token_grant_def nfGrant_def token_claims_def token_granted_def nf_id_def maxTokenNames_def)
  with signature attested have "check_authority token_names_of token_json token_crypto token_validator token_request nf_id token_message
      token_claims authority (9 * second) = Inr token_granted"
    by (simp add: check_authority_def authority_def token_request_def second_def)
  moreover have "vr_AuthorityToken token_request = ''AQ.Ag.Aw''" "cm_Payload token_message = [2]"
    by (simp_all add: token_request_def token_message_def)
  ultimately show ?thesis
    by (simp add: ValidateGrant_def i token_message_read token_claims_read ref cert wire_rules)
qed


end
