(* ===== verification/Acme_Worker.thy ===== *)
theory Acme_Worker
  imports Server_World
begin

section \<open>The validation worker\<close>

text \<open>
  \<^verbatim>\<open>worker.go\<close>: a claimed validation task is run, its result is committed to the challenge, the authorization
  and the order, and a task that cannot be settled is released with a backoff.  Each method of the
  server is an action of \<^theory_text>\<open>Server_World\<close>; log lines are left out, and the deadline of a phase shows as the
  context error of a call.  A Go method that changes the struct behind a pointer returns the changed value.
\<close>

subsection \<open>Releasing and removing tasks\<close>

text \<open>The loop of \<^verbatim>\<open>retryDelay\<close>, whose multiplications wrap.\<close>

fun backoff :: "duration \<Rightarrow> nat \<Rightarrow> duration \<Rightarrow> duration" where
  "backoff limit 0 delay = delay"
| "backoff limit (Suc n) delay = (if delay < limit then backoff limit n (i64 (delay * 2)) else delay)"

definition retryDelay :: "Server \<Rightarrow> Task \<Rightarrow> duration" where
  "retryDelay S task =
     (let retry = wc_RetryDelay (srv_workers S)
      in backoff (i64 (32 * retry)) (nat (tsk_Attempts task - 1)) retry)"

definition storeReschedule :: "Env \<Rightarrow> Task \<Rightarrow> unit action" where
  "storeReschedule E task = do {
     _ \<leftarrow> store_write E (\<lambda>ctx. RescheduleTask ctx task);
     State_Monad.return () }"

definition reschedule :: "Env \<Rightarrow> Server \<Rightarrow> Task \<Rightarrow> time \<Rightarrow> unit action" where
  "reschedule E S task now = storeReschedule E (task\<lparr>tsk_RunAt := now + retryDelay S task\<rparr>)"

definition finishTask :: "Env \<Rightarrow> Task \<Rightarrow> unit action" where
  "finishTask E task = do {
     _ \<leftarrow> store_write E (\<lambda>ctx. FinishTask ctx task);
     State_Monad.return () }"

definition dropOnNotFound :: "Env \<Rightarrow> Server \<Rightarrow> Task \<Rightarrow> error \<Rightarrow> unit action" where
  "dropOnNotFound E S task err =
     (if errors_Is err ErrNotFound then finishTask E task
      else do { now \<leftarrow> clock_Now E; reschedule E S task now })"

subsection \<open>Deriving the status of an order\<close>

text \<open>The loop over the authorizations, with the status so far as the flag \<open>allValid\<close>.\<close>

fun derive_loop ::
    "Env \<Rightarrow> time \<Rightarrow> Authorization option \<Rightarrow> bool \<Rightarrow> string list \<Rightarrow> (error + OrderStatus) action" where
  "derive_loop E now updated allValid [] =
     State_Monad.return (Inr (if allValid then OrderReady else OrderPending))"
| "derive_loop E now updated allValid (i # ids) = do {
     r \<leftarrow> (case updated of
            Some u \<Rightarrow> if i = az_ID u then State_Monad.return (Inr u) else store_read E (\<lambda>ctx. get_Authorization ctx i)
          | None \<Rightarrow> store_read E (\<lambda>ctx. get_Authorization ctx i));
     (case r of
        Inl e \<Rightarrow> State_Monad.return (Inl e)
      | Inr authz \<Rightarrow>
          (let status = effectiveAuthzStatus authz now in
           if status = AuthorizationInvalid \<or> status = AuthorizationExpired \<or> status = AuthorizationDeactivated \<or>
              status = AuthorizationRevoked
           then State_Monad.return (Inr OrderInvalid)
           else derive_loop E now updated (allValid \<and> status = AuthorizationValid) ids)) }"

definition deriveOrderStatus :: "Env \<Rightarrow> Order \<Rightarrow> Authorization option \<Rightarrow> (error + OrderStatus) action" where
  "deriveOrderStatus E order updated = do {
     now \<leftarrow> clock_Now E;
     (if \<not> After (ord_Expires order) now then State_Monad.return (Inr OrderInvalid)
      else derive_loop E now updated True (ord_AuthorizationIDs order)) }"

subsection \<open>Committing a result\<close>

definition before_validation :: "AuthorizationStatus \<Rightarrow> Problem" where
  "before_validation status =
     NewProblem ErrorMalformed (''authorization was '' @ authz_status_string status @ '' before validation'')"

text \<open>The loop of \<^verbatim>\<open>completeValidation\<close>; the first argument is the number of attempts left, three at first.\<close>

fun complete_loop :: "nat \<Rightarrow> Env \<Rightarrow> Server \<Rightarrow> Task \<Rightarrow> Challenge \<Rightarrow> Authorization \<Rightarrow> unit action" where
  "complete_loop 0 E S task ch authz = do { now \<leftarrow> clock_Now E; reschedule E S task now }"
| "complete_loop (Suc n) E S task ch authz = do {
     r \<leftarrow> store_read E (\<lambda>ctx. get_Order ctx (az_OrderID authz));
     (case r of
        Inl e \<Rightarrow> dropOnNotFound E S task e
      | Inr order \<Rightarrow> do {
          d \<leftarrow> deriveOrderStatus E order (Some authz);
          (case d of
             Inl e \<Rightarrow> do { now \<leftarrow> clock_Now E; reschedule E S task now }
           | Inr status \<Rightarrow>
               (let order' = (if ord_Status order = OrderPending \<and> status \<noteq> OrderPending
                              then order\<lparr>ord_Status := status\<rparr> else order)
                in do {
                  c \<leftarrow> store_write E (\<lambda>ctx. CompleteValidation ctx task ch authz order');
                  (case c of
                     Inr _ \<Rightarrow> State_Monad.return ()
                   | Inl e \<Rightarrow>
                       if \<not> errors_Is e ErrRevisionMismatch
                       then do { now \<leftarrow> clock_Now E; reschedule E S task now }
                       else do {
                         a \<leftarrow> store_read E (\<lambda>ctx. get_Authorization ctx (az_ID authz));
                         (case a of
                            Inl e \<Rightarrow> dropOnNotFound E S task e
                          | Inr stored \<Rightarrow> do {
                              now \<leftarrow> clock_Now E;
                              (let status = effectiveAuthzStatus stored now in
                               if status \<noteq> AuthorizationPending
                               then complete_loop n E S task
                                      (ch\<lparr>ch_Status := ChallengeInvalid, ch_Validated := 0,
                                          ch_Error := Some (before_validation status)\<rparr>) stored
                               else complete_loop n E S task ch
                                      (authz\<lparr>az_Revision := az_Revision stored\<rparr>)) }) }) })) }) }"

definition completeValidation :: "Env \<Rightarrow> Server \<Rightarrow> Task \<Rightarrow> Challenge \<Rightarrow> Authorization \<Rightarrow> unit action" where
  "completeValidation E S task ch authz = complete_loop 3 E S task ch authz"

definition retryValidation :: "Env \<Rightarrow> Server \<Rightarrow> Task \<Rightarrow> Challenge \<Rightarrow> time \<Rightarrow> unit action" where
  "retryValidation E S task ch now =
     (let task' = task\<lparr>tsk_RunAt := now + retryDelay S task\<rparr> in do {
        r \<leftarrow> store_write E (\<lambda>ctx. RetryValidation ctx task' ch);
        (case r of
           Inr _ \<Rightarrow> State_Monad.return ()
         | Inl e \<Rightarrow> if errors_Is e ErrRevisionMismatch then storeReschedule E task' else State_Monad.return ()) })"

subsection \<open>Running a validator\<close>

definition no_grant :: ValidationGrant where
  "no_grant = \<lparr>vg_CACertificate = False, vg_Expires = 0, vg_Names = [], vg_NFType = []\<rparr>"

fun grant_names :: "Names \<Rightarrow> Identifier list \<Rightarrow> Identifier list \<Rightarrow> error + Identifier list" where
  "grant_names L names [] = Inr names"
| "grant_names L names (name # rest) =
     (case Normalize L name of
        Inl _ \<Rightarrow> Inl (ErrProblem (NewProblem ErrorServerInternal ''the validator granted an unusable name''))
      | Inr i \<Rightarrow>
          if id_Type i \<noteq> IdentifierDNS \<and> id_Type i \<noteq> IdentifierIP \<and> id_Type i \<noteq> IdentifierURI
          then Inl (ErrProblem (NewProblem ErrorServerInternal ''the validator granted an unusable name''))
          else grant_names L (if i \<in> set names then names else names @ [i]) rest)"

definition checkGrant :: "Names \<Rightarrow> ValidationGrant \<Rightarrow> error + ValidationGrant" where
  "checkGrant L grant =
     (if vg_NFType grant \<noteq> [] \<and> \<not> ValidNFType (vg_NFType grant)
      then Inl (ErrProblem (NewProblem ErrorServerInternal ''the validator granted an invalid NF type''))
      else if vg_Names grant = [] then Inr grant
      else and_then (grant_names L [] (vg_Names grant)) (\<lambda>names. Inr (grant\<lparr>vg_Names := names\<rparr>)))"

definition validate :: "Env \<Rightarrow> ValidatorKind \<Rightarrow> ValidationRequest \<Rightarrow> (error + ValidationGrant) action" where
  "validate E kind req = do {
     r \<leftarrow> (case kind of
            PlainValidator \<Rightarrow>
              host_call E (\<lambda>n. case env_Validate E n (ch_Type (vr_Challenge req)) req of None \<Rightarrow> Inr no_grant | Some e \<Rightarrow> Inl e)
          | Granting \<Rightarrow>
              host_call E (\<lambda>n. and_then (env_ValidateGrant E n (ch_Type (vr_Challenge req)) req) (checkGrant (env_Names E))));
     _ \<leftarrow> record_event (Validated req r);
     State_Monad.return r }"

subsection \<open>The run of a validation task\<close>

definition validationTargets :: "Env \<Rightarrow> Server \<Rightarrow> Task \<Rightarrow> (Challenge \<times> Authorization \<times> Account) option action" where
  "validationTargets E S task = do {
     c \<leftarrow> store_read E (\<lambda>ctx. get_Challenge ctx (tsk_TargetID task));
     (case c of
        Inl e \<Rightarrow> do { _ \<leftarrow> dropOnNotFound E S task e; State_Monad.return None }
      | Inr ch \<Rightarrow>
          if ch_Status ch \<noteq> ChallengeProcessing
          then do { _ \<leftarrow> finishTask E task; State_Monad.return None }
          else do {
            a \<leftarrow> store_read E (\<lambda>ctx. get_Authorization ctx (ch_AuthorizationID ch));
            (case a of
               Inl e \<Rightarrow> do { _ \<leftarrow> dropOnNotFound E S task e; State_Monad.return None }
             | Inr authz \<Rightarrow> do {
                 u \<leftarrow> store_read E (\<lambda>ctx. get_Account ctx (ch_AccountID ch));
                 (case u of
                    Inl e \<Rightarrow> do { _ \<leftarrow> dropOnNotFound E S task e; State_Monad.return None }
                  | Inr account \<Rightarrow> State_Monad.return (Some (ch, authz, account))) }) }) }"

definition validation_request :: "Challenge \<Rightarrow> Authorization \<Rightarrow> ValidationRequest" where
  "validation_request ch authz =
     \<lparr>vr_Challenge = ch, vr_Identifier = az_Identifier authz, vr_Wildcard = az_Wildcard authz,
      vr_KeyAuthorization = ch_Token ch @ ''.'' @ ch_KeyThumbprint ch, vr_AccountKeyThumbprint = ch_KeyThumbprint ch,
      vr_AuthorityToken = ch_AuthorityToken ch\<rparr>"

definition reject_challenge :: "Challenge \<Rightarrow> Problem \<Rightarrow> Challenge" where
  "reject_challenge ch p = ch\<lparr>ch_Status := ChallengeInvalid, ch_Error := Some p\<rparr>"

definition reject_authz :: "Authorization \<Rightarrow> Authorization" where
  "reject_authz authz = authz\<lparr>az_Status := AuthorizationInvalid\<rparr>"

definition accept_challenge :: "Challenge \<Rightarrow> time \<Rightarrow> Challenge" where
  "accept_challenge ch now = ch\<lparr>ch_Status := ChallengeValid, ch_Validated := now, ch_Error := None\<rparr>"

definition accept_authz :: "Server \<Rightarrow> Authorization \<Rightarrow> time \<Rightarrow> ValidationGrant \<Rightarrow> Authorization" where
  "accept_authz S authz now grant =
     authz\<lparr>az_Status := AuthorizationValid, az_Expires := now + srv_authzLifetime S,
           az_CACertificate := vg_CACertificate grant, az_GrantExpires := vg_Expires grant,
           az_GrantNames := vg_Names grant, az_GrantNFType := vg_NFType grant\<rparr>"

text \<open>\<^verbatim>\<open>runValidation\<close> in three parts: what is done with the answer of the validator, the call of the validator, and the checks before it.\<close>

definition conclude_validation :: "Env \<Rightarrow> Server \<Rightarrow> Task \<Rightarrow> Challenge \<Rightarrow> Authorization \<Rightarrow> time \<Rightarrow> error + ValidationGrant \<Rightarrow> unit action" where
  "conclude_validation E S task ch authz now r =
     (let r' = (if \<not> After (az_Expires authz) now
                then Inl (ErrProblem (NewProblem ErrorUnauthorized ''authorization expired during validation''))
                else r)
      in case r' of
           Inr grant \<Rightarrow> completeValidation E S task (accept_challenge ch now) (accept_authz S authz now grant)
         | Inl err \<Rightarrow>
             (case AsProblem err of
                Some p \<Rightarrow> completeValidation E S task (reject_challenge ch p) (reject_authz authz)
              | None \<Rightarrow>
                  if tsk_Attempts task < wc_MaxAttempts (srv_workers S) \<and> After (az_Expires authz) now
                  then retryValidation E S task
                         (ch\<lparr>ch_Error := Some (retryProblem err ''validation attempt failed and will be retried'')\<rparr>) now
                  else completeValidation E S task
                         (reject_challenge ch (retryProblem err ''validation could not be completed'')) (reject_authz authz)))"

definition run_validator :: "Env \<Rightarrow> Server \<Rightarrow> Task \<Rightarrow> ValidatorKind \<Rightarrow> Challenge \<Rightarrow> Authorization \<Rightarrow> unit action" where
  "run_validator E S task kind ch authz = do {
     r \<leftarrow> validate E kind (validation_request ch authz);
     now \<leftarrow> clock_Now E;
     conclude_validation E S task ch authz now r }"

definition runValidation :: "Env \<Rightarrow> Server \<Rightarrow> Task \<Rightarrow> unit action" where
  "runValidation E S task = do {
     targets \<leftarrow> validationTargets E S task;
     (case targets of
        None \<Rightarrow> State_Monad.return ()
      | Some (ch, authz, account) \<Rightarrow> do {
          now \<leftarrow> clock_Now E;
          (let status = effectiveAuthzStatus authz now in
           if status \<noteq> AuthorizationPending
           then completeValidation E S task (reject_challenge ch (before_validation status)) authz
           else if acc_Status account \<noteq> AccountValid
           then completeValidation E S task
                  (reject_challenge ch (NewProblem ErrorUnauthorized ''account is no longer valid'')) (reject_authz authz)
           else (case srv_validators S (ch_Type ch) of
             None \<Rightarrow>
               completeValidation E S task
                 (reject_challenge ch (NewProblem ErrorServerInternal ''no validator is configured for this challenge type''))
                 (reject_authz authz)
           | Some kind \<Rightarrow> run_validator E S task kind ch authz)) }) }"

definition Ready :: "Env \<Rightarrow> Server \<Rightarrow> (error option) action" where
  "Ready E S = do {
     now \<leftarrow> clock_Now E;
     p \<leftarrow> store_read E (\<lambda>ctx. PendingTasks ctx (now - wc_StaleAfter (srv_workers S)));
     (case p of
        Inl e \<Rightarrow> State_Monad.return (Some (ErrWrap ''acmeserver: pending task count'' e))
      | Inr stale \<Rightarrow>
          if stale = 0 then State_Monad.return None
          else do {
            l \<leftarrow> store_read E (\<lambda>ctx. LeasedTasks ctx now);
            (case l of
               Inl e \<Rightarrow> State_Monad.return (Some (ErrWrap ''acmeserver: leased task count'' e))
             | Inr leased \<Rightarrow>
                 State_Monad.return (if leased > 0 then None
                   else Some (ErrorNew ''acmeserver: tasks have waited and no worker holds a lease''))) }) }"

end
