(* ===== verification/Worker_Safety.thy ===== *)
theory Worker_Safety
  imports Acme_Worker
begin

section \<open>The validation worker is safe among others\<close>

text \<open>
  The triples of the actions of \<^theory_text>\<open>Acme_Worker\<close>.  The commit of a result is where the work is: \<open>settled\<close>
  says how the challenge and the authorization a worker wants to write differ from the ones it read, and is
  kept when the commit is retried on a newer authorization.  With the order status derived from all authorizations this gives the
  conditions of \<open>proto_CompleteValidation\<close>, whatever happened between the reads and the commit.
\<close>

definition named :: "naming \<Rightarrow> Task \<Rightarrow> bool" where
  "named G t \<longleftrightarrow> G (tsk_ID t) = (tsk_Kind t, tsk_TargetID t)"

lemma named_RunAt [simp]: "named G (t\<lparr>tsk_RunAt := n\<rparr>) \<longleftrightarrow> named G t"
  by (simp add: named_def)

text \<open>A claimed task: its target exists and has been accepted.\<close>

definition live_task :: "naming \<Rightarrow> Task \<Rightarrow> World \<Rightarrow> bool" where
  "live_task G t w \<longleftrightarrow> named G t \<and>
     (tsk_Kind t = TaskValidate \<longrightarrow>
        seen G (\<lambda>s. \<exists>c. st_challenges s (tsk_TargetID t) = Some c \<and> ch_Status c \<noteq> ChallengePending) w) \<and>
     (tsk_Kind t = TaskIssue \<longrightarrow>
        seen G (\<lambda>s. \<exists>v. st_orders s (tsk_TargetID t) = Some v \<and> ord_Status v \<notin> {OrderPending, OrderReady}) w)"

lemma stable_live_task [stable_intros]: "stable G (live_task G t)"
  unfolding live_task_def by (intro stable_intros)

lemma live_task_challenge:
  assumes "good E G w" "live_task G t w" "tsk_Kind t = TaskValidate"
  obtains c where "st_challenges (w_store w) (tsk_TargetID t) = Some c" "ch_Status c \<noteq> ChallengePending"
proof -
  obtain s c where s: "healthy G s" "proto G s (w_store w)" "st_challenges s (tsk_TargetID t) = Some c" "ch_Status c \<noteq> ChallengePending"
    using assms(2,3) by (auto simp: live_task_def seen_def)
  from proto_challenge [OF s(2,1,3)] obtain c' where "st_challenges (w_store w) (tsk_TargetID t) = Some c'" "challenge_le c c'" by blast
  with s(4) show thesis using that challenge_past by (auto simp: challenge_le_def)
qed

lemma live_task_order:
  assumes "good E G w" "live_task G t w" "tsk_Kind t = TaskIssue"
  obtains v where "st_orders (w_store w) (tsk_TargetID t) = Some v" "ord_Status v \<notin> {OrderPending, OrderReady}"
proof -
  obtain s v where s: "healthy G s" "proto G s (w_store w)" "st_orders s (tsk_TargetID t) = Some v"
    "ord_Status v \<notin> {OrderPending, OrderReady}"
    using assms(2,3) by (auto simp: live_task_def seen_def)
  from proto_order [OF s(2,1,3)] obtain v' where v': "st_orders (w_store w) (tsk_TargetID t) = Some v'" "order_le v v'" by blast
  then have "ord_Status v' \<notin> {OrderPending, OrderReady}" using order_past s(4) unfolding order_le_def by blast
  with v'(1) show thesis by (rule that)
qed

lemma spec_ignore:
  assumes "spec E G P m (\<lambda>_ _. True)" "stable G P"
  shows "spec E G P (do { _ \<leftarrow> m; State_Monad.return x }) (\<lambda>y _. y = x)"
  by (rule spec_bind [OF assms]) (simp add: spec_return)

lemma spec_True: "spec E G P m Q \<Longrightarrow> spec E G P m (\<lambda>_ _. True)"
  by (erule spec_conseq) simp_all

text \<open>The outcome of deriving an order status from its authorizations, one of which is \<open>u\<close>.\<close>

definition derived :: "naming \<Rightarrow> Authorization \<Rightarrow> string list \<Rightarrow> OrderStatus \<Rightarrow> World \<Rightarrow> bool" where
  "derived G u ids st w \<longleftrightarrow> st \<in> {OrderReady, OrderPending, OrderInvalid} \<and>
     (st = OrderReady \<longrightarrow> (\<forall>j\<in>set ids. if j = az_ID u then az_Status u = AuthorizationValid
        else \<exists>x. az_ID x = j \<and> az_Status x = AuthorizationValid \<and> saw_authz G x w)) \<and>
     (az_ID u \<in> set ids \<and> authz_Terminal (az_Status u) \<longrightarrow> st = OrderInvalid)"

lemma stable_derived [stable_intros]: "stable G (derived G u ids st)"
  unfolding derived_def by (intro stable_intros)

lemma derived_Cons:
  assumes "derived G u ids st w" "az_ID x = i" "x = u \<or> saw_authz G x w" "i = az_ID u \<Longrightarrow> x = u"
    "st = OrderReady \<Longrightarrow> az_Status x = AuthorizationValid" "\<not> authz_Terminal (az_Status x)"
  shows "derived G u (i # ids) st w"
proof -
  have "if i = az_ID u then az_Status u = AuthorizationValid
      else \<exists>y. az_ID y = i \<and> az_Status y = AuthorizationValid \<and> saw_authz G y w" if "st = OrderReady"
  proof (cases "i = az_ID u")
    case True
    then show ?thesis using assms(4,5) that by simp
  next
    case False
    then have "saw_authz G x w" using assms(2,3) by blast
    with False show ?thesis using assms(2,5) that by auto
  qed
  moreover have "\<not> authz_Terminal (az_Status u)" if "az_ID u = i"
    using assms(4,6) that by blast
  ultimately show ?thesis
    using assms(1) unfolding derived_def by (metis set_ConsD)
qed

text \<open>
  The result a worker wants to commit: the challenge \<open>c0\<close> it read is settled as \<open>c\<close>, and the authorization \<open>a\<close> is the one read, or
  \<open>a0\<close> was pending and is now settled, as valid only on the word of a validator.
\<close>

definition evidence :: "Challenge \<Rightarrow> Authorization \<Rightarrow> World \<Rightarrow> bool" where
  "evidence c0 a0 w \<longleftrightarrow> (\<exists>req g. Validated req (Inr g) \<in> set (w_events w) \<and> vr_Challenge req = c0 \<and>
     vr_Identifier req = az_Identifier a0 \<and> vr_Wildcard req = az_Wildcard a0 \<and>
     vr_KeyAuthorization req = ch_Token c0 @ ''.'' @ ch_KeyThumbprint c0)"

definition settled :: "naming \<Rightarrow> Challenge \<Rightarrow> Challenge \<Rightarrow> Authorization \<Rightarrow> Authorization \<Rightarrow> World \<Rightarrow> bool" where
  "settled G c0 c a0 a w \<longleftrightarrow>
     saw_challenge G c0 w \<and> ch_Status c0 = ChallengeProcessing \<and>
     (\<exists>x y z. c = c0\<lparr>ch_Status := x, ch_Validated := y, ch_Error := z\<rparr> \<and> challenge_Terminal x) \<and>
     saw_authz G a0 w \<and> az_ID a0 = ch_AuthorizationID c0 \<and> az_Revision a = az_Revision a0 \<and>
     (a = a0 \<or> az_Status a0 = AuthorizationPending \<and> authz_le a0 a \<and>
        (az_Status a = AuthorizationInvalid \<or>
         az_Status a = AuthorizationValid \<and> ch_Status c = ChallengeValid \<and> evidence c0 a0 w))"

lemma stable_evidence [stable_intros]: "stable G (evidence c0 a0)"
  unfolding evidence_def by (intro stable_intros)

lemma stable_settled [stable_intros]: "stable G (settled G c0 c a0 a)"
  unfolding settled_def by (intro stable_intros)

lemma settled_le: "ch_Status c0 = ChallengeProcessing \<Longrightarrow> challenge_Terminal x \<Longrightarrow>
    challenge_le c0 (c0\<lparr>ch_Status := x, ch_Validated := y, ch_Error := z\<rparr>)"
  by (auto simp: challenge_le_def challenge_closure challenge_Terminal_def)

lemma derived_order_le:
  "st \<in> {OrderReady, OrderPending, OrderInvalid} \<Longrightarrow>
   order_le v (if ord_Status v = OrderPending \<and> st \<noteq> OrderPending then v\<lparr>ord_Status := st\<rparr> else v)"
  by (auto simp: order_le_def order_closure order_Terminal_def)

text \<open>When the commit succeeds, the store still holds exactly what the worker read.\<close>

lemma commit_reads:
  assumes w: "good E G w" "settled G c0 c a0 a w" and v0: "saw_order G v0 w"
    and v: "ord_ID v = ord_ID v0" "ord_Revision v = ord_Revision v0"
    and run: "CompleteValidation ctx t c a v (w_store w) = Inr (r, s')"
  shows "challenge_le c0 c" "challenge_Terminal (ch_Status c)" "ch_ID c = ch_ID c0"
    "st_challenges (w_store w) (ch_ID c0) = Some c0" "st_authzs (w_store w) (az_ID a) = Some a0"
    "st_orders (w_store w) (ord_ID v0) = Some v0" "authz_le a0 a" "az_ID a0 = ch_AuthorizationID c0" "az_ID a = az_ID a0"
    "a = a0 \<or> az_Status a0 = AuthorizationPending \<and> (az_Status a = AuthorizationInvalid \<or>
       az_Status a = AuthorizationValid \<and> ch_Status c = ChallengeValid \<and> evidence c0 a0 w)"
proof -
  let ?s = "w_store w"
  from w(2) obtain x y z where c0: "saw_challenge G c0 w" "ch_Status c0 = ChallengeProcessing"
    and c: "c = c0\<lparr>ch_Status := x, ch_Validated := y, ch_Error := z\<rparr>" "challenge_Terminal x"
    and a0: "saw_authz G a0 w" "az_ID a0 = ch_AuthorizationID c0" "az_Revision a = az_Revision a0"
      "a = a0 \<or> az_Status a0 = AuthorizationPending \<and> authz_le a0 a \<and>
         (az_Status a = AuthorizationInvalid \<or> az_Status a = AuthorizationValid \<and> ch_Status c = ChallengeValid \<and> evidence c0 a0 w)"
    unfolding settled_def by blast
  have le_a: "authz_le a0 a" using a0(4) by auto
  then have ids: "az_ID a = az_ID a0" by (simp add: authz_le_def)
  from run have runs: "\<exists>u. st_challenges ?s (ch_ID c) = Some u \<and> ch_Revision u = ch_Revision c"
    "\<exists>u. st_authzs ?s (az_ID a) = Some u \<and> az_Revision u = az_Revision a"
    "\<exists>u. st_orders ?s (ord_ID v) = Some u \<and> ord_Revision u = ord_Revision v"
    by (cases r; auto simp: CompleteValidation_Inr)+
  show "challenge_le c0 c" using c c0(2) by (simp add: settled_le)
  show "st_challenges ?s (ch_ID c0) = Some c0"
    using runs(1) saw_same(3) [OF w(1) c0(1)] by (auto simp: c(1))
  show "st_authzs ?s (az_ID a) = Some a0"
    using runs(2) saw_same(2) [OF w(1) a0(1)] by (auto simp: ids a0(3))
  show "st_orders ?s (ord_ID v0) = Some v0"
    using runs(3) saw_same(1) [OF w(1) v0] by (auto simp: v)
qed (use assms(2) in \<open>auto simp: settled_def authz_le_def\<close>)

text \<open>What the links of the store say of an order whose status is derived with \<open>a\<close> in place of \<open>a0\<close>.\<close>

lemma derived_order:
  assumes w: "good E G w" and cur: "st_authzs (w_store w) (az_ID a) = Some a0" "st_orders (w_store w) (ord_ID v0) = Some v0"
    and v0: "ord_ID v0 = az_OrderID a0" and d: "derived G a (ord_AuthorizationIDs v0) st w"
    and a: "a = a0 \<or> az_Status a0 = AuthorizationPending"
    and v: "v = (if ord_Status v0 = OrderPending \<and> st \<noteq> OrderPending then v0\<lparr>ord_Status := st\<rparr> else v0)"
  shows "undispatched v \<Longrightarrow> \<not> authz_Terminal (az_Status a)"
    and "needs_valid v \<Longrightarrow> j \<in> set (ord_AuthorizationIDs v0) \<Longrightarrow> j \<noteq> az_ID a \<Longrightarrow> st_authzs (w_store w) j = Some u \<Longrightarrow>
      az_Status u = AuthorizationValid"
    and "needs_valid v \<Longrightarrow> az_Status a = AuthorizationValid"
proof -
  have l: "linked G (w_store w)" using w by (simp add: good_def healthy_def)
  have st: "st \<in> {OrderReady, OrderPending, OrderInvalid}" using d by (simp add: derived_def)
  have in_v: "az_ID a \<in> set (ord_AuthorizationIDs v0)"
    using linkedD(2) [OF l cur(1)] cur(2) v0 by (auto simp: authz_linked_def)
  have links: "\<exists>x. st_authzs (w_store w) j = Some x \<and> (undispatched v0 \<longrightarrow> \<not> authz_Terminal (az_Status x)) \<and>
      (needs_valid v0 \<longrightarrow> az_Status x = AuthorizationValid)" if "j \<in> set (ord_AuthorizationIDs v0)" for j
    using linkedD(3) [OF l cur(2)] that unfolding order_linked_def by blast
  have a0: "undispatched v0 \<longrightarrow> \<not> authz_Terminal (az_Status a0)" "needs_valid v0 \<longrightarrow> az_Status a0 = AuthorizationValid"
    using links [OF in_v] cur(1) by auto
  show "\<not> authz_Terminal (az_Status a)" if u: "undispatched v"
  proof
    assume ended: "authz_Terminal (az_Status a)"
    have u0: "undispatched v0"
      using order_le_undispatched [OF derived_order_le [OF st]] u unfolding v by blast
    with ended a0(1) a have pending: "az_Status a0 = AuthorizationPending" by auto
    have "st = OrderInvalid" using d ended in_v by (simp add: derived_def)
    then have "ord_Status v0 \<noteq> OrderPending" using u by (auto simp: v undispatched_def)
    with u0 have "needs_valid v0" by (auto simp: undispatched_def needs_valid_def)
    with a0(2) pending show False by simp
  qed
  have ready: "v = v0 \<and> needs_valid v0 \<or> st = OrderReady \<and> undispatched v0" if "needs_valid v"
    using that st by (auto simp: v needs_valid_def undispatched_def split: if_splits)
  show "az_Status a = AuthorizationValid" if "needs_valid v"
    using ready [OF that] a0(2) a d in_v by (auto simp: derived_def)
  show "az_Status u = AuthorizationValid" if n: "needs_valid v" and j: "j \<in> set (ord_AuthorizationIDs v0)" "j \<noteq> az_ID a"
    and u: "st_authzs (w_store w) j = Some u"
  proof (cases "needs_valid v0")
    case True
    then show ?thesis using links [of j] j u by auto
  next
    case False
    with ready [OF n] have r: "st = OrderReady" "undispatched v0" by auto
    with d j obtain x where x: "az_ID x = j" "az_Status x = AuthorizationValid" "saw_authz G x w"
      unfolding derived_def by fastforce
    obtain x' where "st_authzs (w_store w) j = Some x'" "authz_le x x'"
      using saw_authz_now [OF w x(3)] x(1) by metis
    with u x(2) have "az_Status u = AuthorizationValid \<or> authz_Terminal (az_Status u)"
      by (auto simp: authz_le_def authz_closure authz_Terminal_def)
    then show ?thesis using links [of j] j u r(2) by auto
  qed
qed

lemma commit_step:
  assumes w: "good E G w" "settled G c0 c a0 a w" and v0: "saw_order G v0 w" "ord_ID v0 = az_OrderID a"
    and d: "derived G a (ord_AuthorizationIDs v0) st w"
    and v: "v = (if ord_Status v0 = OrderPending \<and> st \<noteq> OrderPending then v0\<lparr>ord_Status := st\<rparr> else v0)"
    and t: "G (tsk_ID t) = (TaskValidate, ch_ID c0)"
    and run: "CompleteValidation ctx t c a v (w_store w) = Inr (r, s')"
  shows "proto G (w_store w) s' \<and> proved (w_events w) (w_store w) s' \<and> published E (w_events w) (w_store w) s'"
proof -
  let ?s = "w_store w"
  have v_ids: "ord_ID v = ord_ID v0" "ord_Revision v = ord_Revision v0" "ord_AuthorizationIDs v = ord_AuthorizationIDs v0"
    by (simp_all add: v)
  have c: "challenge_le c0 c" "challenge_Terminal (ch_Status c)"
      "ch_ID c = ch_ID c0" "st_challenges ?s (ch_ID c0) = Some c0"
    and cur: "st_authzs ?s (az_ID a) = Some a0" "st_orders ?s (ord_ID v0) = Some v0"
    and a: "authz_le a0 a" "az_ID a0 = ch_AuthorizationID c0" "az_ID a = az_ID a0"
      "a = a0 \<or> az_Status a0 = AuthorizationPending \<and> (az_Status a = AuthorizationInvalid \<or>
       az_Status a = AuthorizationValid \<and> ch_Status c = ChallengeValid \<and> evidence c0 a0 w)"
    by (fact commit_reads [OF w v0(1) v_ids(1,2) run])+
  have l: "linked G ?s" using w(1) by (simp add: good_def healthy_def)
  have st: "st \<in> {OrderReady, OrderPending, OrderInvalid}" using d by (simp add: derived_def)
  have v0': "ord_ID v0 = az_OrderID a0" and a': "a = a0 \<or> az_Status a0 = AuthorizationPending"
    using v0(2) a by (auto simp: authz_le_def)
  have in_a: "ch_ID c0 \<in> set (az_ChallengeIDs a0)"
    using linkedD(1) [OF l c(4)] cur(1) a(2,3) by (auto simp: challenge_linked_def)
  note o = derived_order [OF w(1) cur v0' d a' v]
  obtain c' a1 v' where r: "r = (c', a1, v')" by (cases r)
  have "proto G ?s s'"
  proof (rule proto_CompleteValidation [OF run [unfolded r]])
    show "authz_le u a \<and> (az_Status a = AuthorizationValid \<longrightarrow> az_Status u = AuthorizationValid \<or>
        ch_Status c = ChallengeValid \<and> ch_ID c \<in> set (az_ChallengeIDs u))" if "st_authzs ?s (az_ID a) = Some u" for u
      using that cur(1) a in_a c(3) by auto
    show "order_le u v \<and> (ord_Status v = ord_Status u \<and> ord_CertificateID v = ord_CertificateID u \<and>
        ord_Issuance v = ord_Issuance u \<or> ord_Status v \<in> {OrderReady, OrderInvalid})"
      if "st_orders ?s (ord_ID v) = Some u" for u
      using that cur(2) derived_order_le [OF st, of v0] st by (auto simp: v_ids v)
  qed (use c t v_ids v0(2) o in auto)
  moreover have "proved (w_events w) ?s s'"
    using run c cur a unfolding proved_def r CompleteValidation_Inr evidence_def by auto
  moreover have "published E (w_events w) ?s s'"
    using run cur st unfolding published_def r CompleteValidation_Inr by (auto simp: v_ids) (auto simp: v split: if_splits)
  ultimately show ?thesis by blast
qed

text \<open>A commit that met a newer authorization is retried on it.\<close>

lemma settled_again:
  assumes w: "settled G c0 c a0 a w" and cur: "saw_authz G b w" "az_ID b = az_ID a"
  shows "settled G c0 (c\<lparr>ch_Status := ChallengeInvalid, ch_Validated := 0, ch_Error := p\<rparr>) b b w"
proof -
  have "az_ID a = az_ID a0" using w by (auto simp: settled_def authz_le_def)
  moreover obtain x y z where "c = c0\<lparr>ch_Status := x, ch_Validated := y, ch_Error := z\<rparr>"
    using w unfolding settled_def by blast
  then have "c\<lparr>ch_Status := ChallengeInvalid, ch_Validated := 0, ch_Error := p\<rparr> =
      c0\<lparr>ch_Status := ChallengeInvalid, ch_Validated := 0, ch_Error := p\<rparr>" by simp
  ultimately show ?thesis
    using w cur by (auto simp: settled_def challenge_Terminal_def)
qed

lemma authz_same_revision:
  "b\<lparr>az_Revision := 0\<rparr> = a\<lparr>az_Revision := 0\<rparr> \<Longrightarrow> b = a\<lparr>az_Revision := az_Revision b\<rparr>"
  by (cases a, cases b) simp

lemma settled_pending:
  assumes w0: "good E G w0" "settled G c0 c a0 a w0" "st_authzs (w_store w0) (az_ID a) = Some b"
    and w: "settled G c0 c a0 a w" "saw_authz G b w" and pending: "az_Status b = AuthorizationPending"
  shows "settled G c0 c b (a\<lparr>az_Revision := az_Revision b\<rparr>) w"
proof -
  have id: "az_ID a = az_ID a0" using w0(2) by (auto simp: settled_def authz_le_def)
  have "saw_authz G a0 w0" using w0(2) unfolding settled_def by blast
  from saw_authz_now [OF w0(1) this] w0(3) id have "authz_le a0 b" by force
  moreover from this pending have "az_Status a0 = AuthorizationPending"
    by (auto simp: authz_le_def authz_closure)
  ultimately have "b\<lparr>az_Revision := 0\<rparr> = a0\<lparr>az_Revision := 0\<rparr>"
    using pending by (simp add: authz_le_def)
  then have b: "b = a0\<lparr>az_Revision := az_Revision b\<rparr>" by (rule authz_same_revision)
  show ?thesis
  proof (cases "a = a0")
    case True
    have "a\<lparr>az_Revision := az_Revision b\<rparr> = b" using b True by simp
    moreover have "az_ID b = az_ID a0" by (subst b) simp
    ultimately show ?thesis using w unfolding settled_def by auto
  next
    case False
    have "authz_le b (a\<lparr>az_Revision := az_Revision b\<rparr>)"
      using w(1) False pending by (subst b) (auto simp: settled_def authz_le_def)
    moreover have "evidence c0 b w" if "evidence c0 a0 w"
      using that by (subst b) (simp add: evidence_def)
    moreover have "az_ID b = az_ID a0" by (subst b) simp
    ultimately show ?thesis
      using w False pending unfolding settled_def by auto
  qed
qed

lemma settled_exists:
  assumes "good E G w" "settled G c0 c a0 a w"
  shows "st_orders (w_store w) (az_OrderID a) \<noteq> None" "st_authzs (w_store w) (az_ID a) \<noteq> None"
proof -
  have l: "linked G (w_store w)" using assms(1) by (simp add: good_def healthy_def)
  have a0: "saw_authz G a0 w" using assms(2) unfolding settled_def by blast
  have ids: "az_ID a = az_ID a0" "az_OrderID a = az_OrderID a0"
    using assms(2) by (auto simp: settled_def authz_le_def)
  obtain x where x: "st_authzs (w_store w) (az_ID a0) = Some x" "authz_le a0 x"
    using saw_authz_now [OF assms(1) a0] by blast
  then show "st_authzs (w_store w) (az_ID a) \<noteq> None" by (simp add: ids)
  show "st_orders (w_store w) (az_OrderID a) \<noteq> None"
    using linkedD(2) [OF l x(1)] x(2) by (auto simp: authz_linked_def authz_le_def ids)
qed

text \<open>What a validation task is run on.\<close>

definition targets :: "naming \<Rightarrow> Task \<Rightarrow> Challenge \<Rightarrow> Authorization \<Rightarrow> World \<Rightarrow> bool" where
  "targets G t ch authz w \<longleftrightarrow> ch_ID ch = tsk_TargetID t \<and> ch_Status ch = ChallengeProcessing \<and> saw_challenge G ch w \<and>
     az_ID authz = ch_AuthorizationID ch \<and> saw_authz G authz w"

lemma stable_targets [stable_intros]: "stable G (targets G t ch authz)"
  unfolding targets_def by (intro stable_intros)

text \<open>The results the run of a validator can have are settled results.\<close>

lemma settled_change:
  assumes "targets G t ch authz w" "c = ch\<lparr>ch_Status := x, ch_Validated := y, ch_Error := z\<rparr>" "challenge_Terminal x"
    "a = authz \<or> az_Status authz = AuthorizationPending \<and> authz_le authz a \<and>
       (az_Status a = AuthorizationInvalid \<or> az_Status a = AuthorizationValid \<and> x = ChallengeValid \<and> evidence ch authz w)"
    "az_Revision a = az_Revision authz"
  shows "settled G ch c authz a w"
  using assms unfolding settled_def targets_def by auto

lemma settled_rejected:
  assumes "targets G t ch authz w"
  shows "settled G ch (reject_challenge ch p) authz authz w"
    and "az_Status authz = AuthorizationPending \<Longrightarrow> settled G ch (reject_challenge ch p) authz (reject_authz authz) w"
  by (rule settled_change [OF assms, where x = ChallengeInvalid and y = "ch_Validated ch" and z = "Some p"];
      simp add: reject_challenge_def reject_authz_def challenge_Terminal_def authz_le_def authz_closure)+

lemma settled_accepted:
  assumes "targets G t ch authz w" "az_Status authz = AuthorizationPending"
    "Validated (validation_request ch authz) (Inr grant) \<in> set (w_events w)"
  shows "settled G ch (accept_challenge ch now) authz (accept_authz S authz now grant) w"
proof -
  have "evidence ch authz w"
    unfolding evidence_def using assms(3) by (auto simp: validation_request_def)
  with assms show ?thesis
    by (intro settled_change [OF assms(1), where x = ChallengeValid and y = now and z = None])
      (simp_all add: accept_challenge_def accept_authz_def challenge_Terminal_def authz_le_def authz_closure)
qed

lemma challenge_exists:
  assumes "good E G w" "saw_challenge G ch w"
  shows "st_authzs (w_store w) (ch_AuthorizationID ch) \<noteq> None" "st_accounts (w_store w) (ch_AccountID ch) \<noteq> None"
proof -
  have l: "linked G (w_store w)" using assms(1) by (simp add: good_def healthy_def)
  obtain c where c: "st_challenges (w_store w) (ch_ID ch) = Some c" "challenge_le ch c"
    using saw_challenge_now [OF assms] by blast
  obtain a where a: "st_authzs (w_store w) (ch_AuthorizationID ch) = Some a" "az_AccountID a = ch_AccountID ch"
    using linkedD(1) [OF l c(1)] c(2) by (auto simp: challenge_linked_def challenge_le_def)
  obtain v where v: "st_orders (w_store w) (az_OrderID a) = Some v" "ord_AccountID v = az_AccountID a"
    using linkedD(2) [OF l a(1)] by (auto simp: authz_linked_def)
  then show "st_accounts (w_store w) (ch_AccountID ch) \<noteq> None"
    using linkedD(3) [OF l v(1)] a(2) by (auto simp: order_linked_def)
  show "st_authzs (w_store w) (ch_AuthorizationID ch) \<noteq> None" using a(1) by simp
qed

context world
begin

lemma storeReschedule_spec [spec_rules]:
  assumes "stable G P"
  shows "spec E G P (storeReschedule E t) (\<lambda>_ _. True)"
proof -
  have "spec E G P (store_write E (\<lambda>ctx. RescheduleTask ctx t)) (\<lambda>_ _. True)"
    using assms
  proof (rule spec_write)
    fix n w x s'
    assume r: "RescheduleTask (env_ctx E n) t (w_store w) = Inr (x, s')"
    then show "proto G (w_store w) s' \<and> proved (w_events w) (w_store w) s' \<and> published E (w_events w) (w_store w) s'"
      using proto_RescheduleTask [OF r]
      by (auto simp: RescheduleTask_Inr intro: proved_same published_same)
  qed simp_all
  from spec_True [OF spec_ignore [OF this assms]] show ?thesis
    by (simp add: storeReschedule_def)
qed

lemma reschedule_spec [spec_rules]:
  "stable G P \<Longrightarrow> spec E G P (reschedule E S t now) (\<lambda>_ _. True)"
  unfolding reschedule_def by (rule storeReschedule_spec)

lemma reschedule_now_spec:
  "stable G P \<Longrightarrow> spec E G P (do { now \<leftarrow> clock_Now E; reschedule E S t now }) (\<lambda>_ _. True)"
  by (rule spec_bind [OF spec_now]) (simp_all add: reschedule_spec stable_intros)

lemma finishTask_spec:
  assumes "stable G P" and "\<And>w. good E G w \<Longrightarrow> P w \<Longrightarrow> unneeded (w_store w) (G (tsk_ID t))"
  shows "spec E G P (finishTask E t) (\<lambda>_ _. True)"
proof -
  have "spec E G P (store_write E (\<lambda>ctx. FinishTask ctx t)) (\<lambda>_ _. True)"
    using assms(1)
  proof (rule spec_write)
    fix n w x s'
    assume w: "good E G w" "P w" and r: "FinishTask (env_ctx E n) t (w_store w) = Inr (x, s')"
    have "proto G (w_store w) s'" using r by (rule proto_FinishTask) (rule assms(2) [OF w])
    then show "proto G (w_store w) s' \<and> proved (w_events w) (w_store w) s' \<and> published E (w_events w) (w_store w) s'"
      using r by (auto simp: FinishTask_Inr intro: proved_same published_same)
  qed simp_all
  from spec_True [OF spec_ignore [OF this assms(1)]] show ?thesis
    by (simp add: finishTask_def)
qed

text \<open>A target that must exist is never dropped.\<close>

lemma dropOnNotFound_spec:
  assumes "stable G P" "\<not> errors_Is e ErrNotFound"
  shows "spec E G P (dropOnNotFound E S t e) (\<lambda>_ _. True)"
  using reschedule_now_spec [OF assms(1)] assms(2) by (simp add: dropOnNotFound_def)

lemma derive_loop_spec:
  assumes "stable G P"
  shows "spec E G P (derive_loop E now (Some u) allValid ids)
    (\<lambda>r w. case r of Inl e \<Rightarrow> True | Inr st \<Rightarrow> derived G u ids st w \<and> (st = OrderReady \<longrightarrow> allValid))"
  using assms
proof (induction ids arbitrary: allValid P)
  case Nil
  show ?case by (auto simp: derived_def intro!: spec_return)
next
  case (Cons i ids)
  let ?Q = "\<lambda>r w. case r of Inl (e :: error) \<Rightarrow> True | Inr x \<Rightarrow> az_ID x = i \<and> (x = u \<or> saw_authz G x w) \<and> (i = az_ID u \<longrightarrow> x = u)"
  have read: "spec E G P (if i = az_ID u then State_Monad.return (Inr u) else store_read E (\<lambda>ctx. get_Authorization ctx i)) ?Q"
    by (rule spec_if, rule spec_return, simp, rule spec_conseq [OF spec_Authorization [OF Cons.prems]])
      (auto split: sum.splits)
  have stQ: "stable G (?Q r)" for r
    by (intro stable_intros)
  show ?case
    unfolding derive_loop.simps option.case
  proof (rule spec_bind [OF read Cons.prems], rule spec_sum)
    fix r :: "error + Authorization" and x
    assume r: "r = Inr x"
    let ?P = "\<lambda>w. P w \<and> ?Q r w"
    have P: "stable G ?P" using Cons.prems stQ by (rule stable_conj)
    let ?status = "effectiveAuthzStatus x now"
    let ?bad = "?status = AuthorizationInvalid \<or> ?status = AuthorizationExpired \<or> ?status = AuthorizationDeactivated \<or>
      ?status = AuthorizationRevoked"
    show "spec E G ?P (let status = ?status in if status = AuthorizationInvalid \<or> status = AuthorizationExpired \<or>
        status = AuthorizationDeactivated \<or> status = AuthorizationRevoked then State_Monad.return (Inr OrderInvalid)
        else derive_loop E now (Some u) (allValid \<and> status = AuthorizationValid) ids)
      (\<lambda>r w. case r of Inl e \<Rightarrow> True | Inr st \<Rightarrow> derived G u (i # ids) st w \<and> (st = OrderReady \<longrightarrow> allValid))"
    proof (rule spec_Let, rule spec_if)
      show "spec E G ?P (State_Monad.return (Inr OrderInvalid))
        (\<lambda>r w. case r of Inl e \<Rightarrow> True | Inr st \<Rightarrow> derived G u (i # ids) st w \<and> (st = OrderReady \<longrightarrow> allValid))"
        by (rule spec_return) (simp add: derived_def)
      assume "\<not> ?bad"
      then have live: "\<not> authz_Terminal (az_Status x)" "?status = AuthorizationValid \<Longrightarrow> az_Status x = AuthorizationValid"
        by (cases "az_Status x"; auto simp: effectiveAuthzStatus_def authz_Terminal_def split: if_splits)+
      show "spec E G ?P (derive_loop E now (Some u) (allValid \<and> ?status = AuthorizationValid) ids)
        (\<lambda>r w. case r of Inl e \<Rightarrow> True | Inr st \<Rightarrow> derived G u (i # ids) st w \<and> (st = OrderReady \<longrightarrow> allValid))"
      proof (rule spec_conseq [OF spec_frame [OF Cons.IH [OF P] P]])
        fix y w
        assume y: "?P w \<and> (case y of Inl e \<Rightarrow> True | Inr st \<Rightarrow> derived G u ids st w \<and>
          (st = OrderReady \<longrightarrow> allValid \<and> ?status = AuthorizationValid))"
        show "case y of Inl e \<Rightarrow> True | Inr st \<Rightarrow> derived G u (i # ids) st w \<and> (st = OrderReady \<longrightarrow> allValid)"
        proof (cases y)
          case (Inr st)
          with y r live show ?thesis by (auto intro: derived_Cons)
        qed simp
      qed
    qed
  qed (auto intro!: spec_return)
qed

lemma deriveOrderStatus_spec:
  assumes "stable G P"
  shows "spec E G P (deriveOrderStatus E v (Some u))
    (\<lambda>r w. case r of Inl e \<Rightarrow> True | Inr st \<Rightarrow> derived G u (ord_AuthorizationIDs v) st w)"
  unfolding deriveOrderStatus_def
proof (rule spec_bind [OF spec_now assms], rule spec_if)
  show "spec E G (\<lambda>w. P w \<and> True) (State_Monad.return (Inr OrderInvalid))
    (\<lambda>r w. case r of Inl e \<Rightarrow> True | Inr st \<Rightarrow> derived G u (ord_AuthorizationIDs v) st w)"
    by (rule spec_return) (simp add: derived_def)
  show "spec E G (\<lambda>w. P w \<and> True) (derive_loop E now (Some u) True (ord_AuthorizationIDs v))
    (\<lambda>r w. case r of Inl e \<Rightarrow> True | Inr st \<Rightarrow> derived G u (ord_AuthorizationIDs v) st w)" for now
    by (rule spec_conseq [OF derive_loop_spec [OF assms]]) (auto split: sum.splits)
qed

lemma commit_spec:
  assumes "stable G P" and t: "G (tsk_ID t) = (TaskValidate, ch_ID c0)"
    and "\<And>w. P w \<Longrightarrow> settled G c0 c a0 a w" "\<And>w. P w \<Longrightarrow> ord_ID v0 = az_OrderID a \<and> saw_order G v0 w"
    "\<And>w. P w \<Longrightarrow> derived G a (ord_AuthorizationIDs v0) st w"
    and v: "v = (if ord_Status v0 = OrderPending \<and> st \<noteq> OrderPending then v0\<lparr>ord_Status := st\<rparr> else v0)"
  shows "spec E G P (store_write E (\<lambda>ctx. CompleteValidation ctx t c a v)) (\<lambda>_ _. True)"
  using assms(1)
proof (rule spec_write)
  fix n w x s'
  assume w: "good E G w" "P w" and r: "CompleteValidation (env_ctx E n) t c a v (w_store w) = Inr (x, s')"
  show "proto G (w_store w) s' \<and> proved (w_events w) (w_store w) s' \<and> published E (w_events w) (w_store w) s'"
    using commit_step [OF w(1) assms(3) [OF w(2)] _ _ assms(5) [OF w(2)] v t r] assms(4) [OF w(2)] by blast
qed simp_all

text \<open>Reloading the authorization after a conflict, with \<open>loop\<close> as the rest of the run.\<close>

lemma reload_spec:
  assumes P: "stable G P" and settled: "\<And>w. P w \<Longrightarrow> settled G c0 c a0 a w"
    and loop: "\<And>Q c a0 a. stable G Q \<Longrightarrow> (\<And>w. Q w \<Longrightarrow> settled G c0 c a0 a w) \<Longrightarrow> spec E G Q (loop c a) (\<lambda>_ _. True)"
  shows "spec E G P (do {
     r \<leftarrow> store_read E (\<lambda>ctx. get_Authorization ctx (az_ID a));
     (case r of Inl e \<Rightarrow> dropOnNotFound E S t e
      | Inr b \<Rightarrow> do {
          now \<leftarrow> clock_Now E;
          (let status = effectiveAuthzStatus b now in
           if status \<noteq> AuthorizationPending
           then loop (c\<lparr>ch_Status := ChallengeInvalid, ch_Validated := 0, ch_Error := Some (before_validation status)\<rparr>) b
           else loop c (a\<lparr>az_Revision := az_Revision b\<rparr>)) }) }) (\<lambda>_ _. True)"
proof (rule spec_bind [OF spec_Authorization [OF P] P], rule spec_sum)
  fix r e
  assume r: "r = (Inl e :: error + Authorization)"
  have "\<not> errors_Is e ErrNotFound" if "errors_Is e ErrNotFound \<longrightarrow> at_read E G P (\<lambda>s. st_authzs s (az_ID a) = None)"
    using that settled settled_exists(2) by (fastforce simp: at_read_def)
  then show "spec E G (\<lambda>w. P w \<and> (case r of Inl e \<Rightarrow> errors_Is e ErrNotFound \<longrightarrow> at_read E G P (\<lambda>s. st_authzs s (az_ID a) = None)
      | Inr v \<Rightarrow> az_ID v = az_ID a \<and> saw_authz G v w \<and> at_read E G P (\<lambda>s. st_authzs s (az_ID a) = Some v)))
      (dropOnNotFound E S t e) (\<lambda>_ _. True)"
    unfolding r sum.case
    by (intro spec_fact [OF _ dropOnNotFound_spec]) (auto intro!: stable_intros P)
next
  fix r b
  assume r: "r = (Inr b :: error + Authorization)"
  let ?P = "\<lambda>w. P w \<and> az_ID b = az_ID a \<and> saw_authz G b w \<and> at_read E G P (\<lambda>s. st_authzs s (az_ID a) = Some b)"
  have P3: "stable G ?P" by (intro stable_intros P)
  have "spec E G (\<lambda>w. ?P w \<and> True) (loop c (a\<lparr>az_Revision := az_Revision b\<rparr>)) (\<lambda>_ _. True)"
    if "effectiveAuthzStatus b now = AuthorizationPending" for now
  proof (rule loop)
    have pending: "az_Status b = AuthorizationPending" using that by (simp add: effective_pending_iff)
    show "settled G c0 c b (a\<lparr>az_Revision := az_Revision b\<rparr>) w" if "?P w \<and> True" for w
      using that settled_pending [OF _ settled _ settled _ pending] unfolding at_read_def by blast
  qed (use P3 in simp)
  moreover have "spec E G (\<lambda>w. ?P w \<and> True)
      (loop (c\<lparr>ch_Status := ChallengeInvalid, ch_Validated := 0, ch_Error := p\<rparr>) b) (\<lambda>_ _. True)" for p
    using P3 by (intro loop [where ?a0.0 = b]) (simp, blast intro: settled_again [OF settled])
  ultimately have "spec E G ?P (do {
          now \<leftarrow> clock_Now E;
          (let status = effectiveAuthzStatus b now in
           if status \<noteq> AuthorizationPending
           then loop (c\<lparr>ch_Status := ChallengeInvalid, ch_Validated := 0, ch_Error := Some (before_validation status)\<rparr>) b
           else loop c (a\<lparr>az_Revision := az_Revision b\<rparr>)) }) (\<lambda>_ _. True)"
    by (intro spec_bind [OF spec_now P3] spec_Let spec_if) simp_all
  then show "spec E G (\<lambda>w. P w \<and> (case r of Inl e \<Rightarrow> errors_Is e ErrNotFound \<longrightarrow> at_read E G P (\<lambda>s. st_authzs s (az_ID a) = None)
      | Inr v \<Rightarrow> az_ID v = az_ID a \<and> saw_authz G v w \<and> at_read E G P (\<lambda>s. st_authzs s (az_ID a) = Some v)))
      (do { now \<leftarrow> clock_Now E;
          (let status = effectiveAuthzStatus b now in
           if status \<noteq> AuthorizationPending
           then loop (c\<lparr>ch_Status := ChallengeInvalid, ch_Validated := 0, ch_Error := Some (before_validation status)\<rparr>) b
           else loop c (a\<lparr>az_Revision := az_Revision b\<rparr>)) }) (\<lambda>_ _. True)"
    by (simp add: r)
qed

lemma complete_loop_spec:
  assumes t: "G (tsk_ID t) = (TaskValidate, ch_ID c0)"
    and "stable G P" "\<And>w. P w \<Longrightarrow> settled G c0 c a0 a w"
  shows "spec E G P (complete_loop n E S t c a) (\<lambda>_ _. True)"
  using assms(2,3)
proof (induction n arbitrary: c a0 a P)
  case 0
  then show ?case by (simp add: reschedule_now_spec)
next
  case (Suc n)
  note P = Suc.prems(1) and settled = Suc.prems(2)
  show ?case
    unfolding complete_loop.simps
    apply (rule spec_bind [OF spec_Order [OF P] P], rule spec_sum)
    subgoal for r e
      apply (rule spec_fact [where c = "\<not> errors_Is e ErrNotFound"])
       apply (use settled settled_exists(1) in \<open>fastforce simp: at_read_def\<close>)
      apply (rule dropOnNotFound_spec; simp)
      apply (intro stable_intros P)
      done
    subgoal premises r for r v0
    proof -
      let ?P1 = "\<lambda>w. P w \<and> ord_ID v0 = az_OrderID a \<and> saw_order G v0 w"
      have P1: "stable G ?P1" by (intro stable_intros P)
      let ?P2 = "\<lambda>st w. ?P1 w \<and> derived G a (ord_AuthorizationIDs v0) st w"
      have P2: "stable G (?P2 st)" for st by (intro stable_intros P)
      show ?thesis
        apply (rule spec_conseq [where P' = ?P1 and Q' = "\<lambda>_ _. True"])
        apply (rule spec_bind [OF deriveOrderStatus_spec [OF P1] P1], rule spec_sum)
        subgoal by (rule reschedule_now_spec) (auto intro!: stable_intros P)
        subgoal for d st
          apply (simp only: sum.case, rule spec_Let)
          apply (rule spec_bind [OF commit_spec [OF P2 t, of _ c a0 a v0 st] P2])
              apply (use settled in blast)
             apply blast
            apply blast
           apply (rule refl)
          apply (simp only: simp_thms, rule spec_sum, rule spec_if)
            apply (rule reschedule_now_spec [OF P2])
           apply (rule reload_spec [OF P2 _ Suc.IH])
             apply (use settled in blast)
            apply assumption+
          apply (rule spec_return, rule TrueI)
          done
        using r by auto
    qed
    done
qed

subsection \<open>The run of a validation task\<close>

lemma completeValidation_spec:
  "G (tsk_ID t) = (TaskValidate, ch_ID c0) \<Longrightarrow> stable G P \<Longrightarrow> (\<And>w. P w \<Longrightarrow> settled G c0 c a0 a w) \<Longrightarrow>
   spec E G P (completeValidation E S t c a) (\<lambda>_ _. True)"
  unfolding completeValidation_def by (rule complete_loop_spec)

lemma retryValidation_spec:
  assumes P: "stable G P" and c0: "\<And>w. P w \<Longrightarrow> saw_challenge G c0 w" "ch_Status c0 = ChallengeProcessing"
    and c: "c = c0\<lparr>ch_Error := p\<rparr>"
  shows "spec E G P (retryValidation E S t c now) (\<lambda>_ _. True)"
proof -
  let ?t = "t\<lparr>tsk_RunAt := now + retryDelay S t\<rparr>"
  have "spec E G P (store_write E (\<lambda>ctx. RetryValidation ctx ?t c)) (\<lambda>_ _. True)"
    using P
  proof (rule spec_write)
    fix n w x s'
    assume w: "good E G w" "P w" and r: "RetryValidation (env_ctx E n) ?t c (w_store w) = Inr (x, s')"
    obtain t' c' where x: "x = (t', c')" by (cases x)
    have "proto G (w_store w) s'"
    proof (rule proto_RetryValidation [OF r [unfolded x]])
      fix u
      assume "st_challenges (w_store w) (ch_ID c) = Some u" "ch_Revision u = ch_Revision c"
      then have "u = c0" using saw_same(3) [OF w(1) c0(1) [OF w(2)]] by (simp add: c)
      then show "challenge_le u c \<and> ch_Status u = ch_Status c"
        using c0(2) by (simp add: c challenge_le_def challenge_Terminal_def)
    qed
    then show "proto G (w_store w) s' \<and> proved (w_events w) (w_store w) s' \<and> published E (w_events w) (w_store w) s'"
      using r by (auto simp: x RetryValidation_Inr intro: proved_same published_same)
  qed simp_all
  then show ?thesis
    unfolding retryValidation_def
    by (intro spec_Let spec_bind [OF _ P] spec_sum spec_if)
      (auto intro!: spec_return storeReschedule_spec stable_intros P)
qed

lemma validate_spec:
  assumes P: "stable G P"
  shows "spec E G P (validate E kind req) (\<lambda>r w. Validated req r \<in> set (w_events w))"
proof -
  have host: "spec E G P (case kind of
            PlainValidator \<Rightarrow>
              host_call E (\<lambda>n. case env_Validate E n (ch_Type (vr_Challenge req)) req of None \<Rightarrow> Inr no_grant | Some e \<Rightarrow> Inl e)
          | Granting \<Rightarrow>
              host_call E (\<lambda>n. and_then (env_ValidateGrant E n (ch_Type (vr_Challenge req)) req) (checkGrant (env_Names E))))
      (\<lambda>_ _. True)"
    by (cases kind) (simp_all add: spec_True [OF spec_host])
  show ?thesis
    unfolding validate_def
  proof (rule spec_bind [OF host P])
    fix r
    show "spec E G (\<lambda>w. P w \<and> True) (do { _ \<leftarrow> record_event (Validated req r); State_Monad.return r })
        (\<lambda>r w. Validated req r \<in> set (w_events w))"
      by (rule spec_bind [OF spec_record]) (auto intro!: spec_return stable_intros P)
  qed
qed

lemma drop_existing_spec:
  assumes P: "stable G P" and "errors_Is e ErrNotFound \<Longrightarrow> False"
  shows "spec E G P (do { _ \<leftarrow> dropOnNotFound E S t e; State_Monad.return x }) (\<lambda>y _. y = x)"
  using assms by (intro spec_ignore [OF dropOnNotFound_spec]) auto

lemma validationTargets_spec:
  assumes P: "stable G P" and live: "\<And>w. P w \<Longrightarrow> live_task G t w" and kind: "tsk_Kind t = TaskValidate"
  shows "spec E G P (validationTargets E S t)
    (\<lambda>r w. case r of None \<Rightarrow> True | Some (ch, authz, account) \<Rightarrow> targets G t ch authz w)"
  unfolding validationTargets_def
  apply (rule bind_Challenge [OF P P])
  subgoal for e
    apply (rule spec_conseq [OF drop_existing_spec [OF P]])
    using live live_task_challenge [OF _ _ kind] unfolding at_read_def by fastforce+
  subgoal premises c for ch
  proof (rule spec_if)
    let ?P = "\<lambda>w. P w \<and> saw_challenge G ch w"
    have P1: "stable G ?P" by (intro stable_intros P)
    have past: "ch_Status ch \<noteq> ChallengePending"
      using c(2) live live_task_challenge [OF _ _ kind] unfolding at_read_def by force
    have "spec E G ?P (finishTask E t) (\<lambda>_ _. True)" if "ch_Status ch \<noteq> ChallengeProcessing"
      using P1
    proof (rule finishTask_spec)
      fix w
      assume w: "good E G w" "?P w"
      then obtain u where u: "st_challenges (w_store w) (ch_ID ch) = Some u" "challenge_le ch u"
        using saw_challenge_now by blast
      then have "ch_Status u \<noteq> ChallengeProcessing"
        using that past by (auto simp: challenge_le_def challenge_closure)
      then show "unneeded (w_store w) (G (tsk_ID t))"
        using u(1) c(1) live [of w] w(2) kind by (auto simp: unneeded_def live_task_def named_def)
    qed
    from spec_ignore [OF this P1] show "spec E G ?P (do { _ \<leftarrow> finishTask E t; State_Monad.return None })
        (\<lambda>r w. case r of None \<Rightarrow> True | Some (ch, authz, account) \<Rightarrow> targets G t ch authz w)"
      if "ch_Status ch \<noteq> ChallengeProcessing"
      by (rule spec_conseq) (use that in auto)
    let ?Q = "\<lambda>authz w. ?P w \<and> saw_authz G authz w"
    have P2: "stable G (?Q authz)" for authz by (intro stable_intros P)
    assume processing: "\<not> ch_Status ch \<noteq> ChallengeProcessing"
    show "spec E G ?P (do {
            a \<leftarrow> store_read E (\<lambda>ctx. get_Authorization ctx (ch_AuthorizationID ch));
            (case a of
               Inl e \<Rightarrow> do { _ \<leftarrow> dropOnNotFound E S t e; State_Monad.return None }
             | Inr authz \<Rightarrow> do {
                 u \<leftarrow> store_read E (\<lambda>ctx. get_Account ctx (ch_AccountID ch));
                 (case u of
                    Inl e \<Rightarrow> do { _ \<leftarrow> dropOnNotFound E S t e; State_Monad.return None }
                  | Inr account \<Rightarrow> State_Monad.return (Some (ch, authz, account))) }) })
        (\<lambda>r w. case r of None \<Rightarrow> True | Some (ch, authz, account) \<Rightarrow> targets G t ch authz w)"
      apply (rule bind_Authorization [OF P1 P1])
      subgoal
        apply (rule spec_conseq [OF drop_existing_spec [OF P1]])
        using challenge_exists(1) unfolding at_read_def by fastforce+
      apply (rule bind_Account [OF P2 P2])
      subgoal
        apply (rule spec_conseq [OF drop_existing_spec [OF P2]])
        using challenge_exists(2) unfolding at_read_def by fastforce+
      apply (rule spec_return)
      using processing c(1) by (auto simp: targets_def)
  qed
  done

lemma conclude_validation_spec:
  assumes name: "G (tsk_ID t) = (TaskValidate, ch_ID ch)" and P: "stable G P"
    and targets: "\<And>w. P w \<Longrightarrow> targets G t ch authz w" and pending: "az_Status authz = AuthorizationPending"
    and event: "\<And>w. P w \<Longrightarrow> Validated (validation_request ch authz) r \<in> set (w_events w)"
  shows "spec E G P (conclude_validation E S t ch authz now r) (\<lambda>_ _. True)"
proof -
  note reject = completeValidation_spec [OF name P settled_rejected(2) [OF targets pending]]
  have accept: "spec E G P (completeValidation E S t (accept_challenge ch now) (accept_authz S authz now grant)) (\<lambda>_ _. True)"
    if "r = Inr grant" for grant
    using event that by (intro completeValidation_spec [OF name P settled_accepted [OF targets pending]]) simp_all
  have retry: "spec E G P (retryValidation E S t (ch\<lparr>ch_Error := p\<rparr>) now) (\<lambda>_ _. True)" for p
  proof (rule spec_fact)
    show "ch_Status ch = ChallengeProcessing" if "P w" for w using targets [OF that] by (simp add: targets_def)
    show ?thesis if "ch_Status ch = ChallengeProcessing"
      by (rule retryValidation_spec [OF P _ that refl]) (use targets in \<open>unfold targets_def, blast\<close>)
  qed
  show ?thesis
    unfolding conclude_validation_def
    by (intro spec_Let spec_sum spec_option spec_if reject retry accept) (auto split: if_splits)
qed

lemma runValidation_spec:
  assumes P: "stable G P" and live: "\<And>w. P w \<Longrightarrow> live_task G t w" and kind: "tsk_Kind t = TaskValidate"
  shows "spec E G P (runValidation E S t) (\<lambda>_ _. True)"
  unfolding runValidation_def
  apply (rule spec_bind [OF validationTargets_spec [OF P _ kind] P], erule live, rule spec_option)
   apply (simp add: spec_return)
  subgoal premises r for r y
  proof (cases y)
    case (fields ch authz account)
    let ?P = "\<lambda>w. P w \<and> targets G t ch authz w"
    have P1: "stable G ?P" by (intro stable_intros P)
    show ?thesis
      unfolding fields r prod.case option.case
    proof (rule spec_fact [where c = "G (tsk_ID t) = (TaskValidate, ch_ID ch)"])
      show "G (tsk_ID t) = (TaskValidate, ch_ID ch)" if "?P w" for w
        using that live [of w] kind by (auto simp: live_task_def named_def targets_def)
      assume name: "G (tsk_ID t) = (TaskValidate, ch_ID ch)"
      have reject: "spec E G ?P (completeValidation E S t (reject_challenge ch p) authz) (\<lambda>_ _. True)" for p
        by (rule completeValidation_spec [OF name P1 settled_rejected(1)]) blast
      have reject_all: "spec E G ?P (completeValidation E S t (reject_challenge ch p) (reject_authz authz)) (\<lambda>_ _. True)"
        if "az_Status authz = AuthorizationPending" for p
        using that by (intro completeValidation_spec [OF name P1 settled_rejected(2)]) blast+
      have run: "spec E G ?P (run_validator E S t k ch authz) (\<lambda>_ _. True)" if "az_Status authz = AuthorizationPending" for k
        unfolding run_validator_def
        by (rule spec_bind [OF validate_spec [OF P1] P1], rule bind_now, (intro stable_intros P)[1],
            rule conclude_validation_spec [OF name _ _ that]) (auto intro!: stable_intros P)
      show "spec E G ?P (do {
          now \<leftarrow> clock_Now E;
          (let status = effectiveAuthzStatus authz now in
           if status \<noteq> AuthorizationPending
           then completeValidation E S t (reject_challenge ch (before_validation status)) authz
           else if acc_Status account \<noteq> AccountValid
           then completeValidation E S t
                  (reject_challenge ch (NewProblem ErrorUnauthorized ''account is no longer valid'')) (reject_authz authz)
           else (case srv_validators S (ch_Type ch) of
             None \<Rightarrow>
               completeValidation E S t
                 (reject_challenge ch (NewProblem ErrorServerInternal ''no validator is configured for this challenge type''))
                 (reject_authz authz)
           | Some kind \<Rightarrow> run_validator E S t kind ch authz)) }) (\<lambda>_ _. True)"
        by (intro bind_now [OF P1] spec_Let spec_if spec_option reject reject_all run)
          (auto simp: effective_pending_iff)
    qed
  qed
  done

end

end
