(* ===== verification/Acme_Request.thy ===== *)
theory Acme_Request
  imports Server_World
begin

section \<open>Signed requests and answers\<close>

text \<open>
  The code every handler shares: the writers of \<^verbatim>\<open>server.go\<close> and \<^verbatim>\<open>wire.go\<close>, \<^verbatim>\<open>readSignedRequest\<close> of
  \<^verbatim>\<open>request.go\<close> with what it calls, \<^verbatim>\<open>checkLimit\<close> of \<^verbatim>\<open>limit.go\<close> and \<^verbatim>\<open>recordRefusal\<close> of \<^verbatim>\<open>refusal.go\<close>.  A Go
  function that returns a value or a \<^verbatim>\<open>*Problem\<close> returns \<open>Problem + 'a\<close> here.
\<close>

subsection \<open>Nonces\<close>

text \<open>
  The in-memory manager under its lock.  One call may read the random source as often as
  \<open>env_nonce_reads\<close> has entries; a call whose reads all collide with live nonces, which the code would go on with,
  ends with an error.
\<close>

definition nonce_Issue :: "Env \<Rightarrow> (error + string) action" where
  "nonce_Issue E = do {
     n \<leftarrow> enter E;
     w \<leftarrow> State_Monad.get;
     (case Issue (env_ctx E n) (env_now E n) (env_nonce_reads E n) (w_nonces w) of
        None \<Rightarrow> State_Monad.return (Inl (ErrorNew ''random source exhausted''))
      | Some (r, m) \<Rightarrow> do { _ \<leftarrow> State_Monad.set (w\<lparr>w_nonces := m\<rparr>); State_Monad.return r }) }"

definition nonce_Consume :: "Env \<Rightarrow> string \<Rightarrow> (error + bool) action" where
  "nonce_Consume E value = do {
     n \<leftarrow> enter E;
     w \<leftarrow> State_Monad.get;
     (case Consume (env_ctx E n) (env_now E n) value (w_nonces w) of
        (r, m) \<Rightarrow> do { _ \<leftarrow> State_Monad.set (w\<lparr>w_nonces := m\<rparr>); State_Monad.return r }) }"

subsection \<open>Answers\<close>

definition respond :: "(Response \<Rightarrow> Response) \<Rightarrow> unit action" where
  "respond f = State (\<lambda>w. ((), w\<lparr>w_response := f (w_response w)\<rparr>))"

definition checkLimit :: "Env \<Rightarrow> Server \<Rightarrow> LimitRequest \<Rightarrow> Problem option action" where
  "checkLimit E S req =
     (if \<not> srv_limits S then State_Monad.return None
      else do {
        err \<leftarrow> host_call E (\<lambda>n. env_Allow E n req);
        State_Monad.return (hostProblem err ''rate limit check'') })"

definition link :: "string \<Rightarrow> string \<Rightarrow> string" where
  "link url rel = ''<'' @ url @ ''>;rel='' @ plain_quote rel"

definition setCommonHeaders :: "Server \<Rightarrow> Response \<Rightarrow> Response" where
  "setCommonHeaders S rs =
     header_add ''Link'' (link (resourceURL S resourceDirectory) ''index'') (header_set ''Cache-Control'' ''no-store'' rs)"

definition addNonce :: "Env \<Rightarrow> unit action" where
  "addNonce E = do {
     r \<leftarrow> nonce_Issue E;
     (case r of
        Inl _ \<Rightarrow> State_Monad.return ()
      | Inr nonce \<Rightarrow> respond (header_set ''Replay-Nonce'' nonce)) }"

definition writeBody :: "body \<Rightarrow> Response \<Rightarrow> Response" where
  "writeBody v rs = rs\<lparr>rs_Body := v\<rparr>"

text \<open>A positive delay in whole seconds, rounded up.\<close>

definition ceil_seconds :: "duration \<Rightarrow> int" where
  "ceil_seconds d = (d + second - 1) div second"

definition writeProblemWithoutNonce :: "Server \<Rightarrow> Problem \<Rightarrow> unit action" where
  "writeProblemWithoutNonce S p = respond (\<lambda>rs.
     let rs = setCommonHeaders S rs;
         rs = (if p_RetryAfter p > 0 then header_set ''Retry-After'' (itoa (ceil_seconds (p_RetryAfter p))) rs else rs);
         rs = header_set ''Content-Type'' contentTypeProblem rs
     in writeBody (ProblemBody p) (write_status (HTTPStatus p) rs))"

definition writeProblem :: "Env \<Rightarrow> Server \<Rightarrow> Problem \<Rightarrow> unit action" where
  "writeProblem E S p = do {
     w \<leftarrow> State_Monad.get;
     refusal \<leftarrow> (if \<not> rst_nonceSpent (w_request w)
       then checkLimit E S (limit_request LimitNewNonce (rst_client (w_request w)))
       else State_Monad.return None);
     (case refusal of
        Some q \<Rightarrow> writeProblemWithoutNonce S (if p_Type p = ErrorBadNonce then q else p)
      | None \<Rightarrow> do { _ \<leftarrow> addNonce E; writeProblemWithoutNonce S p }) }"

definition writeMethodNotAllowed :: "Env \<Rightarrow> Server \<Rightarrow> string list \<Rightarrow> unit action" where
  "writeMethodNotAllowed E S allowed = do {
     _ \<leftarrow> respond (header_set ''Allow'' (join '', '' allowed));
     writeProblem E S (WithStatus (NewProblem ErrorMalformed ''method not allowed'') 405) }"

definition writeJSON :: "Env \<Rightarrow> Server \<Rightarrow> int \<Rightarrow> body \<Rightarrow> unit action" where
  "writeJSON E S status v = do {
     _ \<leftarrow> respond (setCommonHeaders S);
     _ \<leftarrow> addNonce E;
     respond (\<lambda>rs. writeBody v (write_status status (header_set ''Content-Type'' contentTypeJSON rs))) }"

definition processingRetryAfter :: int where
  "processingRetryAfter = 3"

definition writeOrder :: "Env \<Rightarrow> Server \<Rightarrow> int \<Rightarrow> Order \<Rightarrow> time \<Rightarrow> unit action" where
  "writeOrder E S status order now = do {
     _ \<leftarrow> respond (header_set ''Location'' (resourceURL S (orderPathPrefix @ ord_ID order)));
     (let view = orderView (srv_baseURL S) order now in do {
        _ \<leftarrow> respond (\<lambda>rs. if oj_Status view = OrderProcessing
               then header_set ''Retry-After'' (itoa processingRetryAfter) rs else rs);
        writeJSON E S status (OrderBody view) }) }"

definition writeChallenge :: "Env \<Rightarrow> Server \<Rightarrow> Challenge \<Rightarrow> unit action" where
  "writeChallenge E S ch = do {
     _ \<leftarrow> respond (\<lambda>rs. if ch_Status ch = ChallengeProcessing
            then header_set ''Retry-After'' (itoa processingRetryAfter) rs else rs);
     writeJSON E S 200 (ChallengeBody (challengeView (srv_baseURL S) (srv_tokenAuthority S) ch)) }"

text \<open>\<^verbatim>\<open>if p != nil { s.writeProblem(ctx, w, p); return }\<close>\<close>

definition or_problem :: "Env \<Rightarrow> Server \<Rightarrow> Problem + 'a \<Rightarrow> ('a \<Rightarrow> unit action) \<Rightarrow> unit action" where
  "or_problem E S r k = (case r of Inl p \<Rightarrow> writeProblem E S p | Inr x \<Rightarrow> k x)"

text \<open>The recorder sees a refusal unless it is the server's own fault.\<close>

definition recordRefusal :: "Env \<Rightarrow> Server \<Rightarrow> Refusal \<Rightarrow> Problem \<Rightarrow> unit action" where
  "recordRefusal E S refusal p =
     (if \<not> srv_refusals S \<or> p_Type p = ErrorServerInternal then State_Monad.return ()
      else do { _ \<leftarrow> enter E; record_event (Refused (refusal\<lparr>rf_Problem := Some p\<rparr>)) })"

subsection \<open>Payloads\<close>

definition decodePayload :: "Env \<Rightarrow> gotype \<Rightarrow> (json \<Rightarrow> string + 'a) \<Rightarrow> bytes \<Rightarrow> Problem + 'a" where
  "decodePayload E ty dec payload =
     (case UnmarshalStrict (env_Json E) ty dec payload of
        Inl e \<Rightarrow> Inl (NewProblem ErrorMalformed (''request payload: '' @ je_Detail e))
      | Inr v \<Rightarrow> Inr v)"

definition requireEmptyPayload :: "signedRequest \<Rightarrow> Problem + unit" where
  "requireEmptyPayload req =
     (if sr_Payload req \<noteq> [] then Inl (NewProblem ErrorMalformed ''this resource only accepts POST-as-GET requests'')
      else Inr ())"

subsection \<open>Reading a signed request\<close>

definition problemFromJWS :: "jws_error \<Rightarrow> Problem" where
  "problemFromJWS err =
     (case je_Code err of
        CodeBadNonce \<Rightarrow> NewProblem ErrorBadNonce (je_Detail err)
      | CodeBadSignatureAlgorithm \<Rightarrow> WithAlgorithms (NewProblem ErrorBadSignatureAlgorithm (je_Detail err)) Algorithms
      | CodeBadPublicKey \<Rightarrow> NewProblem ErrorBadPublicKey (je_Detail err)
      | CodeBadSignature \<Rightarrow> NewProblem ErrorUnauthorized (je_Detail err)
      | CodeMalformed \<Rightarrow> NewProblem ErrorMalformed (je_Detail err))"

text \<open>
  \<^verbatim>\<open>io.LimitReader\<close> with a limit that is not positive delivers nothing, and one that is reached hides what the
  reader would do next.
\<close>

definition readBody :: "Server \<Rightarrow> Request \<Rightarrow> Problem + bytes" where
  "readBody S r =
     (case rq_Body r of
        None \<Rightarrow> Inl (NewProblem ErrorMalformed ''request has no body'')
      | Some (data, fails) \<Rightarrow>
          (let limit = i64 (srv_maxBody S + 1);
               body = take (nat limit) data in
           if fails \<and> int (length data) < limit
           then Inl (NewProblem ErrorMalformed ''request body could not be read'')
           else if int (length body) > srv_maxBody S
           then Inl (WithStatus (NewProblem ErrorMalformed (''request body exceeds '' @ itoa (srv_maxBody S) @ '' bytes'')) 413)
           else Inr body))"

text \<open>With the largest configurable limit the sum overflows, and every body is read as empty.\<close>

lemma readBody_overflow: "srv_maxBody S = 2 ^ 63 - 1 \<Longrightarrow> rq_Body r = Some (data, False) \<Longrightarrow> readBody S r = Inr []"
  by (simp add: readBody_def i64_def Let_def)

definition accountIDFromURL :: "Server \<Rightarrow> string \<Rightarrow> string option" where
  "accountIDFromURL S u =
     (case cut_prefix u (resourceURL S accountPathPrefix) of
        None \<Rightarrow> None
      | Some i \<Rightarrow> if validID i then Some i else None)"

definition lookupAccount :: "Env \<Rightarrow> Server \<Rightarrow> string \<Rightarrow> (Problem + Account) action" where
  "lookupAccount E S kid =
     (case accountIDFromURL S kid of
        None \<Rightarrow> State_Monad.return (Inl (NewProblem ErrorMalformed ''JWS kid is not an account URL of this server''))
      | Some i \<Rightarrow> do {
          r \<leftarrow> store_read E (\<lambda>ctx. get_Account ctx i);
          State_Monad.return
            (case r of
               Inl e \<Rightarrow>
                 if errors_Is e ErrNotFound then Inl (NewProblem ErrorAccountDoesNotExist ''account does not exist'')
                 else Inl (NewProblem ErrorServerInternal ''account lookup failed'')
             | Inr account \<Rightarrow>
                 if acc_Status account \<noteq> AccountValid
                 then Inl (NewProblem ErrorUnauthorized (''account is '' @ account_status_string (acc_Status account)))
                 else Inr account) })"

definition spend_nonce :: "unit action" where
  "spend_nonce = State (\<lambda>w. ((), w\<lparr>w_request := (w_request w)\<lparr>rst_nonceSpent := True\<rparr>\<rparr>))"

text \<open>The URL a request must be signed for.\<close>

definition expected_url :: "Server \<Rightarrow> Request \<Rightarrow> string \<Rightarrow> string" where
  "expected_url S r rel =
     resourceURL S rel @ (if rq_RawQuery r \<noteq> [] \<or> rq_ForceQuery r then ''?'' @ rq_RawQuery r else [])"

text \<open>The key a request is verified with, and the account that owns it.\<close>

definition signing_key :: "Env \<Rightarrow> Server \<Rightarrow> keyMode \<Rightarrow> Message \<Rightarrow> (Problem + Account option \<times> PublicKey) action" where
  "signing_key E S mode msg =
     (case hd_Key (msg_Header msg) of
        Some key \<Rightarrow> State_Monad.return
          (if mode = keyModeAccount
           then Inl (NewProblem ErrorMalformed ''this resource requires kid, not an embedded jwk'')
           else Inr (None, key))
      | None \<Rightarrow>
          if mode = keyModeEmbedded
          then State_Monad.return (Inl (NewProblem ErrorMalformed ''this resource requires an embedded jwk, not kid''))
          else do {
            a \<leftarrow> lookupAccount E S (hd_KeyID (msg_Header msg));
            State_Monad.return (case a of Inl p \<Rightarrow> Inl p | Inr account \<Rightarrow> Inr (Some account, acc_Key account)) })"

text \<open>The part of \<^verbatim>\<open>readSignedRequest\<close> after the nonce was accepted.\<close>

definition authenticate :: "Env \<Rightarrow> Server \<Rightarrow> Request \<Rightarrow> string \<Rightarrow> keyMode \<Rightarrow> Message \<Rightarrow> (Problem + signedRequest) action" where
  "authenticate E S r rel mode msg =
     (if hd_URL (msg_Header msg) \<noteq> expected_url S r rel \<or> rq_EscapedPath r \<noteq> srv_basePath S @ rel
      then State_Monad.return (Inl (NewProblem ErrorUnauthorized ''JWS url does not match the request URL''))
      else do {
        k \<leftarrow> signing_key E S mode msg;
        State_Monad.return
          (case k of
             Inl p \<Rightarrow> Inl p
           | Inr (account, key) \<Rightarrow>
               (case jws_Verify (env_Json E) (env_Crypto E) msg key of
                  Inl e \<Rightarrow> Inl (problemFromJWS e)
                | Inr _ \<Rightarrow> Inr \<lparr>sr_Account = account, sr_Key = key, sr_Payload = msg_Payload msg\<rparr>)) })"

definition bad_nonce :: Problem where
  "bad_nonce = NewProblem ErrorBadNonce ''JWS has an invalid anti-replay nonce: it is unknown, expired or was already used''"

definition readSignedRequest :: "Env \<Rightarrow> Server \<Rightarrow> Request \<Rightarrow> string \<Rightarrow> keyMode \<Rightarrow> (Problem + signedRequest) action" where
  "readSignedRequest E S r rel mode =
     (if ht_ParseMediaType (env_Http E) (rq_ContentType r) \<noteq> Some contentTypeJOSE
      then State_Monad.return (Inl (WithStatus (NewProblem ErrorMalformed (''Content-Type must be '' @ contentTypeJOSE)) 415))
      else case readBody S r of
        Inl p \<Rightarrow> State_Monad.return (Inl p)
      | Inr body \<Rightarrow>
          (case jws_Parse (env_Json E) (env_Crypto E) body of
             Inl e \<Rightarrow> State_Monad.return (Inl (problemFromJWS e))
           | Inr msg \<Rightarrow> do {
               c \<leftarrow> nonce_Consume E (hd_Nonce (msg_Header msg));
               (case c of
                  Inl _ \<Rightarrow> State_Monad.return (Inl (NewProblem ErrorServerInternal ''nonce lookup failed''))
                | Inr valid \<Rightarrow>
                    if \<not> valid then State_Monad.return (Inl bad_nonce)
                    else do { _ \<leftarrow> spend_nonce; authenticate E S r rel mode msg }) }))"


text \<open>Handlers that require \<^verbatim>\<open>kid\<close> use the account of the request, which is then not nil.\<close>

definition with_account :: "signedRequest \<Rightarrow> (Account \<Rightarrow> unit action) \<Rightarrow> unit action" where
  "with_account req k = (case sr_Account req of Some account \<Rightarrow> k account | None \<Rightarrow> State_Monad.return ())"

end
