(* ===== verification/Acme_Accounts.thy ===== *)
theory Acme_Accounts
  imports Acme_Request
begin

section \<open>Account handlers\<close>

text \<open>
  \<^verbatim>\<open>account.go\<close> and \<^verbatim>\<open>eab.go\<close>: creating, updating and deactivating an account, changing its key, listing its orders, and
  the external account binding.
\<close>

definition maxContacts :: nat where "maxContacts = 10"
definition ordersPageSize :: nat where "ordersPageSize = 100"
definition maxExternalAccountKeyID :: nat where "maxExternalAccountKeyID = 256"

subsection \<open>Payloads\<close>

record newAccountJSON =
  na_Contact :: "string list"
  na_TermsOfServiceAgreed :: bool
  na_OnlyReturnExisting :: bool
  na_ExternalAccountBinding :: bytes

definition newAccount_type :: gotype where
  "newAccount_type = GoPointer (GoStruct
     [go_member ''Contact'' ''contact'' (GoSlice GoOther), go_member ''TermsOfServiceAgreed'' ''termsOfServiceAgreed'' GoOther,
      go_member ''OnlyReturnExisting'' ''onlyReturnExisting'' GoOther,
      go_member ''ExternalAccountBinding'' ''externalAccountBinding'' GoUnmarshaler])"

definition decode_newAccount :: "json \<Rightarrow> string + newAccountJSON" where
  "decode_newAccount v = and_then (as_object v) (\<lambda>ms.
     and_then (as_value (go_slice go_string []) [] (member_value ms ''contact'')) (\<lambda>contact.
     and_then (as_value go_bool False (member_value ms ''termsOfServiceAgreed'')) (\<lambda>agreed.
     and_then (as_value go_bool False (member_value ms ''onlyReturnExisting'')) (\<lambda>only.
       Inr \<lparr>na_Contact = contact, na_TermsOfServiceAgreed = agreed, na_OnlyReturnExisting = only,
         na_ExternalAccountBinding = (case as_raw ms ''externalAccountBinding'' of None \<Rightarrow> [] | Some raw \<Rightarrow> raw)\<rparr>))))"

record accountUpdateJSON =
  au_Contact :: "string list option"
  au_Status :: "string option"

definition accountUpdate_type :: gotype where
  "accountUpdate_type = GoPointer (GoStruct
     [go_member ''Contact'' ''contact'' (GoPointer (GoSlice GoOther)), go_member ''Status'' ''status'' (GoPointer GoOther)])"

definition decode_accountUpdate :: "json \<Rightarrow> string + accountUpdateJSON" where
  "decode_accountUpdate v = and_then (as_object v) (\<lambda>ms.
     and_then (as_pointer (go_slice go_string []) (member_value ms ''contact'')) (\<lambda>contact.
     and_then (as_pointer go_string (member_value ms ''status'')) (\<lambda>status.
       Inr \<lparr>au_Contact = contact, au_Status = status\<rparr>)))"

record keyChangeJSON =
  kc_Account :: string
  kc_OldKey :: bytes

definition keyChange_type :: gotype where
  "keyChange_type = GoPointer (GoStruct
     [go_member ''Account'' ''account'' GoOther, go_member ''OldKey'' ''oldKey'' GoUnmarshaler])"

definition decode_keyChange :: "json \<Rightarrow> string + keyChangeJSON" where
  "decode_keyChange v = and_then (as_object v) (\<lambda>ms.
     and_then (as_value go_string [] (member_value ms ''account'')) (\<lambda>account.
       Inr \<lparr>kc_Account = account, kc_OldKey = (case as_raw ms ''oldKey'' of None \<Rightarrow> [] | Some raw \<Rightarrow> raw)\<rparr>))"

subsection \<open>Contacts\<close>

definition checkContact :: "Env \<Rightarrow> string \<Rightarrow> Problem option" where
  "checkContact E contact =
     (let quoted = js_Quote (env_Json E) contact in
      case nm_Parse (env_Names E) contact of
        None \<Rightarrow> Some (NewProblem ErrorInvalidContact (''contact '' @ quoted @ '' is not a URL''))
      | Some u \<Rightarrow>
          if url_Scheme u = [] then Some (NewProblem ErrorInvalidContact (''contact '' @ quoted @ '' is not a URL''))
          else if \<not> equal_fold (url_Scheme u) ''mailto''
          then Some (NewProblem ErrorUnsupportedContact
                 (''contact scheme '' @ js_Quote (env_Json E) (url_Scheme u) @ '' is not supported''))
          else if url_Opaque u = [] \<or> url_RawQuery u \<noteq> [] \<or> url_Fragment u \<noteq> [] \<or> CHR '','' \<in> set (url_Opaque u)
          then Some (NewProblem ErrorInvalidContact
                 (''contact '' @ quoted @ '' must be a single mailto address without parameters''))
          else if ht_ParseAddress (env_Http E) (url_Opaque u) \<noteq> Some ([], url_Opaque u)
          then Some (NewProblem ErrorInvalidContact (''contact '' @ quoted @ '' is not a valid email address''))
          else None)"

definition validateContacts :: "Env \<Rightarrow> string list \<Rightarrow> Problem + unit" where
  "validateContacts E contacts =
     (if length contacts > maxContacts
      then Inl (NewProblem ErrorMalformed (''at most '' @ dec_string maxContacts @ '' contacts are allowed''))
      else case first_error (checkContact E) contacts of Some p \<Rightarrow> Inl p | None \<Rightarrow> Inr ())"

subsection \<open>External account binding\<close>

definition shortMACKeyProblem :: "bytes \<Rightarrow> jws_error \<Rightarrow> Problem" where
  "shortMACKeyProblem key cause =
     (let usable = MACAlgorithmsFor (length key) in
      if usable = []
      then NewProblem ErrorUnauthorized
        ''external account key is too short for any HMAC algorithm. Ask the server operator for a new key''
      else WithAlgorithms (NewProblem ErrorBadSignatureAlgorithm (''externalAccountBinding: '' @ je_Detail cause)) usable)"

text \<open>What is checked of a binding once the key is known.\<close>

definition check_binding :: "Env \<Rightarrow> string \<Rightarrow> Message \<Rightarrow> bytes \<Rightarrow> Problem + string" where
  "check_binding E accountThumbprint msg key =
     (case VerifyMAC (env_Json E) (env_Crypto E) msg key of
        Inl e \<Rightarrow>
          if je_Code e = CodeBadSignatureAlgorithm then Inl (shortMACKeyProblem key e)
          else Inl (NewProblem ErrorUnauthorized ''externalAccountBinding signature verification failed'')
      | Inr _ \<Rightarrow>
          (case ParseJWK (env_Json E) (env_Crypto E) (msg_Payload msg) of
             Inl e \<Rightarrow> Inl (NewProblem ErrorMalformed (''externalAccountBinding payload: '' @ je_Detail e))
           | Inr boundKey \<Rightarrow>
               if Thumbprint (env_Crypto E) boundKey \<noteq> Inr accountThumbprint
               then Inl (NewProblem ErrorMalformed ''externalAccountBinding payload is not the account key'')
               else Inr (hd_KeyID (msg_Header msg))))"

definition verifyExternalAccountBinding :: "Env \<Rightarrow> Server \<Rightarrow> string \<Rightarrow> bytes \<Rightarrow> (Problem + string) action" where
  "verifyExternalAccountBinding E S accountThumbprint raw =
     (if \<not> srv_eabKeys S
      then State_Monad.return (Inl (NewProblem ErrorMalformed ''external account bindings are not accepted''))
      else case ParseMAC (env_Json E) (env_Crypto E) raw of
        Inl e \<Rightarrow> State_Monad.return
          (let p = problemFromJWS e in
           if p_Type p = ErrorBadSignatureAlgorithm then Inl (WithAlgorithms p MACAlgorithms)
           else Inl (NewProblem ErrorMalformed (''externalAccountBinding: '' @ p_Detail p)))
      | Inr msg \<Rightarrow>
          if hd_URL (msg_Header msg) \<noteq> resourceURL S resourceNewAccount
          then State_Monad.return (Inl (NewProblem ErrorMalformed ''externalAccountBinding url does not match the request URL''))
          else if length (hd_KeyID (msg_Header msg)) > maxExternalAccountKeyID
          then State_Monad.return (Inl (NewProblem ErrorMalformed
                 (''externalAccountBinding kid exceeds '' @ dec_string maxExternalAccountKeyID @ '' bytes'')))
          else do {
            k \<leftarrow> host_call E (\<lambda>n. env_MACKey E n (hd_KeyID (msg_Header msg)));
            State_Monad.return
              (case k of
                 Inl err \<Rightarrow>
                   if errors_Is err ErrNotFound then Inl (NewProblem ErrorUnauthorized ''external account key is unknown'')
                   else (case hostProblem (Some err) ''external account key lookup'' of
                           Some p \<Rightarrow> Inl p
                         | None \<Rightarrow> check_binding E accountThumbprint msg [])
               | Inr key \<Rightarrow> check_binding E accountThumbprint msg key) })"

subsection \<open>Creating an account\<close>

definition writeExistingAccount :: "Env \<Rightarrow> Server \<Rightarrow> Account \<Rightarrow> unit action" where
  "writeExistingAccount E S account =
     (if acc_Status account \<noteq> AccountValid
      then writeProblem E S (NewProblem ErrorUnauthorized
             (''the account owning this key is '' @ account_status_string (acc_Status account)))
      else do {
        _ \<leftarrow> respond (header_set ''Location'' (accountURL (srv_baseURL S) (acc_ID account)));
        writeJSON E S 200 (AccountBody (accountView (srv_baseURL S) account)) })"

text \<open>The external identity of the account: none, or that of a verified binding.\<close>

definition external_identity :: "Env \<Rightarrow> Server \<Rightarrow> string \<Rightarrow> bytes \<Rightarrow> (Problem + string) action" where
  "external_identity E S thumbprint binding =
     (if binding = [] \<and> dm_ExternalAccountRequired (srv_meta S)
      then State_Monad.return (Inl (NewProblem ErrorExternalAccountRequired ''an external account binding is required''))
      else if binding \<noteq> [] then verifyExternalAccountBinding E S thumbprint binding
      else State_Monad.return (Inr []))"

definition new_account :: "Server \<Rightarrow> signedRequest \<Rightarrow> string \<Rightarrow> newAccountJSON \<Rightarrow> string \<Rightarrow> string \<Rightarrow> time \<Rightarrow> Account" where
  "new_account S req thumbprint payload externalID i now =
     \<lparr>acc_ID = i, acc_Status = AccountValid, acc_Key = sr_Key req, acc_KeyThumbprint = thumbprint,
      acc_Contact = na_Contact payload, acc_TermsOfServiceAgreed = na_TermsOfServiceAgreed payload,
      acc_ExternalAccountID = externalID, acc_ExternalAccountClaim = (if srv_singleUseEAB S then externalID else []),
      acc_CreatedAt = now, acc_Revision = 0\<rparr>"

text \<open>The limiter and the policy are asked about the account last.\<close>

definition review_account :: "Env \<Rightarrow> Server \<Rightarrow> Addr option \<Rightarrow> Account \<Rightarrow> (Problem + Account) action" where
  "review_account E S client account = do {
     l \<leftarrow> checkLimit E S ((limit_request LimitNewAccount client)\<lparr>lr_Account := Some account\<rparr>);
     (case l of
        Some p \<Rightarrow> State_Monad.return (Inl p)
      | None \<Rightarrow> do {
          err \<leftarrow> host_call E (\<lambda>n. env_NewAccount E n account);
          State_Monad.return (case hostProblem err ''account policy'' of Some p \<Rightarrow> Inl p | None \<Rightarrow> Inr account) }) }"

definition buildAccount ::
    "Env \<Rightarrow> Server \<Rightarrow> signedRequest \<Rightarrow> string \<Rightarrow> newAccountJSON \<Rightarrow> Addr option \<Rightarrow> (Problem + Account) action" where
  "buildAccount E S req thumbprint payload client =
     (case validateContacts E (na_Contact payload) of
        Inl p \<Rightarrow> State_Monad.return (Inl p)
      | Inr _ \<Rightarrow>
          if srv_requireTOS S \<and> \<not> na_TermsOfServiceAgreed payload
          then State_Monad.return (Inl (NewProblem ErrorUserActionRequired ''the terms of service must be agreed to''))
          else do {
            x \<leftarrow> external_identity E S thumbprint (na_ExternalAccountBinding payload);
            (case x of
               Inl p \<Rightarrow> State_Monad.return (Inl p)
             | Inr externalID \<Rightarrow> do {
                 d \<leftarrow> draw_ID E;
                 (case d of
                    Inl _ \<Rightarrow> State_Monad.return (Inl (NewProblem ErrorServerInternal ''account creation failed''))
                  | Inr i \<Rightarrow> do {
                      now \<leftarrow> clock_Now E;
                      review_account E S client (new_account S req thumbprint payload externalID i now) }) }) })"

definition create_conflict :: "Env \<Rightarrow> Server \<Rightarrow> string \<Rightarrow> Account \<Rightarrow> unit action" where
  "create_conflict E S thumbprint account = do {
     l \<leftarrow> store_read E (\<lambda>ctx. AccountByKey ctx thumbprint);
     (case l of
        Inr existing \<Rightarrow> writeExistingAccount E S existing
      | Inl e \<Rightarrow>
          if errors_Is e ErrNotFound \<and> acc_ExternalAccountClaim account \<noteq> []
          then writeProblem E S (NewProblem ErrorUnauthorized ''the external account key is already bound to another account'')
          else writeProblem E S (NewProblem ErrorServerInternal ''account creation failed'')) }"

definition create_account :: "Env \<Rightarrow> Server \<Rightarrow> string \<Rightarrow> Account \<Rightarrow> unit action" where
  "create_account E S thumbprint account = do {
     c \<leftarrow> store_write E (\<lambda>ctx. CreateAccount ctx account);
     (case c of
        Inl e \<Rightarrow>
          if errors_Is e ErrConflict then create_conflict E S thumbprint account
          else writeProblem E S (NewProblem ErrorServerInternal ''account creation failed'')
      | Inr stored \<Rightarrow> do {
          _ \<leftarrow> respond (header_set ''Location'' (accountURL (srv_baseURL S) (acc_ID stored)));
          writeJSON E S 201 (AccountBody (accountView (srv_baseURL S) stored)) }) }"

definition find_or_create :: "Env \<Rightarrow> Server \<Rightarrow> Request \<Rightarrow> signedRequest \<Rightarrow> newAccountJSON \<Rightarrow> string \<Rightarrow> unit action" where
  "find_or_create E S r req payload thumbprint = do {
     x \<leftarrow> store_read E (\<lambda>ctx. AccountByKey ctx thumbprint);
     (case x of
        Inr existing \<Rightarrow> writeExistingAccount E S existing
      | Inl e \<Rightarrow>
          if \<not> errors_Is e ErrNotFound then writeProblem E S (NewProblem ErrorServerInternal ''account lookup failed'')
          else if na_OnlyReturnExisting payload
          then writeProblem E S (NewProblem ErrorAccountDoesNotExist ''no account owns this key'')
          else do {
            a \<leftarrow> buildAccount E S req thumbprint payload (clientAddr (env_Http E) r);
            or_problem E S a (create_account E S thumbprint) }) }"

definition serveNewAccount :: "Env \<Rightarrow> Server \<Rightarrow> Request \<Rightarrow> unit action" where
  "serveNewAccount E S r = do {
     _ \<leftarrow> respond (\<lambda>rs. if dm_TermsOfService (srv_meta S) \<noteq> []
            then header_add ''Link'' (link (dm_TermsOfService (srv_meta S)) ''terms-of-service'') rs else rs);
     q \<leftarrow> readSignedRequest E S r resourceNewAccount keyModeEmbedded;
     or_problem E S q (\<lambda>req.
       or_problem E S (decodePayload E newAccount_type decode_newAccount (sr_Payload req)) (\<lambda>payload.
         (case Thumbprint (env_Crypto E) (sr_Key req) of
            Inl _ \<Rightarrow> writeProblem E S (NewProblem ErrorBadPublicKey ''account key cannot be thumbprinted'')
          | Inr thumbprint \<Rightarrow> find_or_create E S r req payload thumbprint))) }"


subsection \<open>Updating an account\<close>

definition readOwnedAccount :: "Env \<Rightarrow> Server \<Rightarrow> Request \<Rightarrow> string \<Rightarrow> string \<Rightarrow> (Problem + Account \<times> signedRequest) action" where
  "readOwnedAccount E S r i rel = do {
     q \<leftarrow> readSignedRequest E S r rel keyModeAccount;
     State_Monad.return
       (case q of
          Inl p \<Rightarrow> Inl p
        | Inr req \<Rightarrow>
            (case sr_Account req of
               Some account \<Rightarrow>
                 if acc_ID account \<noteq> i
                 then Inl (NewProblem ErrorUnauthorized ''the signing account does not own this resource'')
                 else Inr (account, req)
             | None \<Rightarrow> Inl (NewProblem ErrorUnauthorized ''the signing account does not own this resource''))) }"

definition updateAccount :: "Env \<Rightarrow> Account \<Rightarrow> (Problem + Account) action" where
  "updateAccount E account = do {
     u \<leftarrow> store_write E (\<lambda>ctx. UpdateAccount ctx account);
     State_Monad.return
       (case u of
          Inr stored \<Rightarrow> Inr stored
        | Inl e \<Rightarrow>
            if errors_Is e ErrConflict
            then Inl (WithStatus (NewProblem ErrorMalformed ''another account already uses this key'') 409)
            else if errors_Is e ErrRevisionMismatch
            then Inl (WithStatus (NewProblem ErrorMalformed ''the account changed concurrently, retry the request'') 409)
            else if errors_Is e ErrNotFound then Inl (NewProblem ErrorAccountDoesNotExist ''account does not exist'')
            else Inl (NewProblem ErrorServerInternal ''account update failed'')) }"

text \<open>The update a payload asks for.\<close>

definition update_account :: "Env \<Rightarrow> accountUpdateJSON \<Rightarrow> Account \<Rightarrow> Problem + Account" where
  "update_account E payload account =
     (if au_Status payload \<notin> {None, Some (account_status_string AccountDeactivated)}
      then Inl (NewProblem ErrorMalformed ''status can only be changed to deactivated'')
      else and_then
        (case au_Contact payload of
           None \<Rightarrow> Inr account
         | Some contacts \<Rightarrow> and_then (validateContacts E contacts) (\<lambda>_. Inr (account\<lparr>acc_Contact := contacts\<rparr>)))
        (\<lambda>account. Inr (if au_Status payload \<noteq> None then account\<lparr>acc_Status := AccountDeactivated\<rparr> else account)))"

definition serveAccount :: "Env \<Rightarrow> Server \<Rightarrow> Request \<Rightarrow> string \<Rightarrow> unit action" where
  "serveAccount E S r i = do {
     q \<leftarrow> readOwnedAccount E S r i (accountPathPrefix @ i);
     or_problem E S q (\<lambda>(account, req).
       if sr_Payload req = [] then writeJSON E S 200 (AccountBody (accountView (srv_baseURL S) account))
       else or_problem E S (decodePayload E accountUpdate_type decode_accountUpdate (sr_Payload req)) (\<lambda>payload.
         or_problem E S (update_account E payload account) (\<lambda>changed. do {
           u \<leftarrow> updateAccount E changed;
           or_problem E S u (\<lambda>stored. writeJSON E S 200 (AccountBody (accountView (srv_baseURL S) stored))) }))) }"

subsection \<open>Listing the orders\<close>

text \<open>The loop over the page: the URLs of the orders that are not invalid now.\<close>

fun order_urls :: "Env \<Rightarrow> Server \<Rightarrow> time \<Rightarrow> string list \<Rightarrow> (error + string list) action" where
  "order_urls E S now [] = State_Monad.return (Inr [])"
| "order_urls E S now (i # ids) = do {
     r \<leftarrow> store_read E (\<lambda>ctx. get_Order ctx i);
     (case r of
        Inl e \<Rightarrow> State_Monad.return (Inl e)
      | Inr order \<Rightarrow> do {
          rest \<leftarrow> order_urls E S now ids;
          State_Monad.return
            (case rest of
               Inl e \<Rightarrow> Inl e
             | Inr urls \<Rightarrow> Inr (if StatusAt order now \<noteq> OrderInvalid then resourceURL S (orderPathPrefix @ i) # urls else urls)) }) }"

definition orders_page :: "Env \<Rightarrow> Server \<Rightarrow> string \<Rightarrow> string list \<Rightarrow> unit action" where
  "orders_page E S i found =
     (let more = (length found > ordersPageSize);
          ids = take ordersPageSize found
      in do {
        now \<leftarrow> clock_Now E;
        u \<leftarrow> order_urls E S now ids;
        (case u of
           Inl _ \<Rightarrow> writeProblem E S (NewProblem ErrorServerInternal ''order listing failed'')
         | Inr urls \<Rightarrow> do {
             _ \<leftarrow> respond (\<lambda>rs. if more
                    then header_add ''Link'' (link (resourceURL S (accountPathPrefix @ i @ ''/orders'') @ ''?cursor='' @
                           ht_QueryEscape (env_Http E) (last ids)) ''next'') rs
                    else rs);
             writeJSON E S 200 (OrdersBody urls) }) })"

definition serveAccountOrders :: "Env \<Rightarrow> Server \<Rightarrow> Request \<Rightarrow> string \<Rightarrow> unit action" where
  "serveAccountOrders E S r i = do {
     q \<leftarrow> readOwnedAccount E S r i (accountPathPrefix @ i @ ''/orders'');
     or_problem E S q (\<lambda>(account, req).
       or_problem E S (requireEmptyPayload req) (\<lambda>_.
         (let cursor = rq_Query r ''cursor'' in
          if cursor \<noteq> [] \<and> \<not> validID cursor then writeProblem E S (NewProblem ErrorMalformed ''unknown cursor'')
          else do {
            x \<leftarrow> store_read E (\<lambda>ctx. OrderIDs ctx i cursor (int ordersPageSize + 1));
            (case x of
               Inl e \<Rightarrow>
                 if errors_Is e ErrNotFound then writeProblem E S (NewProblem ErrorMalformed ''unknown cursor'')
                 else writeProblem E S (NewProblem ErrorServerInternal ''order listing failed'')
             | Inr ids \<Rightarrow> orders_page E S i ids) }))) }"

subsection \<open>Changing the key\<close>

definition innerProblem :: "jws_error \<Rightarrow> Problem" where
  "innerProblem err =
     (let p = problemFromJWS err in
      if p_Type p = ErrorBadSignatureAlgorithm \<or> p_Type p = ErrorBadPublicKey then p
      else NewProblem ErrorMalformed (''inner JWS: '' @ p_Detail p))"

text \<open>The checks of the inner message: the new key and its thumbprint.\<close>

definition check_keyChange :: "Env \<Rightarrow> Server \<Rightarrow> Account \<Rightarrow> bytes \<Rightarrow> Problem + PublicKey \<times> string" where
  "check_keyChange E S account body =
     (case ParseInner (env_Json E) (env_Crypto E) body of
        Inl e \<Rightarrow> Inl (innerProblem e)
      | Inr inner \<Rightarrow>
          if hd_URL (msg_Header inner) \<noteq> resourceURL S resourceKeyChange
          then Inl (NewProblem ErrorMalformed ''inner JWS url does not match the outer JWS url'')
          else case hd_Key (msg_Header inner) of
            None \<Rightarrow> Inl (innerProblem (keyMismatch (hd_Algorithm (msg_Header inner))))
          | Some key \<Rightarrow>
              (case jws_Verify (env_Json E) (env_Crypto E) inner key of
                 Inl e \<Rightarrow> Inl (innerProblem e)
               | Inr _ \<Rightarrow>
                   and_then (decodePayload E keyChange_type decode_keyChange (msg_Payload inner)) (\<lambda>payload.
                     if kc_Account payload \<noteq> accountURL (srv_baseURL S) (acc_ID account)
                     then Inl (NewProblem ErrorMalformed ''inner JWS account does not match the signing account'')
                     else case ParseJWK (env_Json E) (env_Crypto E) (kc_OldKey payload) of
                       Inl e \<Rightarrow> Inl (NewProblem ErrorMalformed (''inner JWS oldKey: '' @ je_Detail e))
                     | Inr oldKey \<Rightarrow>
                         if Thumbprint (env_Crypto E) oldKey \<noteq> Inr (acc_KeyThumbprint account)
                         then Inl (NewProblem ErrorMalformed ''inner JWS oldKey is not the current account key'')
                         else case Thumbprint (env_Crypto E) key of
                           Inl _ \<Rightarrow> Inl (NewProblem ErrorBadPublicKey ''new key cannot be thumbprinted'')
                         | Inr newThumbprint \<Rightarrow>
                             if newThumbprint = acc_KeyThumbprint account
                             then Inl (NewProblem ErrorMalformed ''new key is the current account key'')
                             else Inr (key, newThumbprint))))"

text \<open>A conflict names the account that owns the new key.\<close>

definition name_owner :: "Env \<Rightarrow> Server \<Rightarrow> Problem \<Rightarrow> string \<Rightarrow> unit action" where
  "name_owner E S p newThumbprint =
     (if p_Type p = ErrorMalformed \<and> p_Status p = 409 then do {
        x \<leftarrow> store_read E (\<lambda>ctx. AccountByKey ctx newThumbprint);
        (case x of
           Inl _ \<Rightarrow> State_Monad.return ()
         | Inr other \<Rightarrow> respond (header_set ''Location'' (accountURL (srv_baseURL S) (acc_ID other)))) }
      else State_Monad.return ())"

definition serveKeyChange :: "Env \<Rightarrow> Server \<Rightarrow> Request \<Rightarrow> unit action" where
  "serveKeyChange E S r = do {
     q \<leftarrow> readSignedRequest E S r resourceKeyChange keyModeAccount;
     or_problem E S q (\<lambda>req. with_account req (\<lambda>account.
       or_problem E S (check_keyChange E S account (sr_Payload req)) (\<lambda>(key, newThumbprint). do {
         u \<leftarrow> updateAccount E (account\<lparr>acc_Key := key, acc_KeyThumbprint := newThumbprint\<rparr>);
         (case u of
            Inl p \<Rightarrow> do { _ \<leftarrow> name_owner E S p newThumbprint; writeProblem E S p }
          | Inr stored \<Rightarrow> writeJSON E S 200 (AccountBody (accountView (srv_baseURL S) stored))) }))) }"

end
