(* ===== verification/Acme_Orders.thy ===== *)
theory Acme_Orders
  imports Acme_Request Acme_Worker
begin

section \<open>Order, authorization and challenge handlers\<close>

text \<open>
  \<^verbatim>\<open>order.go\<close> and the parts of \<^verbatim>\<open>renewal.go\<close> a new order uses: checking a newOrder payload, building the authorizations and
  challenges, reading orders and authorizations, deactivating an authorization, and accepting a challenge
  response.
\<close>

subsection \<open>Payloads\<close>

record newOrderJSON =
  no_Identifiers :: "Identifier list"
  no_NotBefore :: string
  no_NotAfter :: string
  no_Replaces :: string
  no_Profile :: string

definition newOrder_type :: gotype where
  "newOrder_type = GoPointer (GoStruct
     [go_member ''Identifiers'' ''identifiers''
        (GoSlice (GoStruct [go_member ''Type'' ''type'' GoOther, go_member ''Value'' ''value'' GoOther])),
      go_member ''NotBefore'' ''notBefore'' GoOther, go_member ''NotAfter'' ''notAfter'' GoOther,
      go_member ''Replaces'' ''replaces'' GoOther, go_member ''Profile'' ''profile'' GoOther])"

text \<open>The conversion \<^verbatim>\<open>IdentifierType(s)\<close> of a string.\<close>

definition identifier_type_of_string :: "string \<Rightarrow> IdentifierType" where
  "identifier_type_of_string s =
     (if s = ''dns'' then IdentifierDNS else if s = ''ip'' then IdentifierIP
      else if s = ''TNAuthList'' then IdentifierTNAuthList else if s = ''NfInstanceId'' then IdentifierNfInstanceID
      else if s = ''uri'' then IdentifierURI else IdentifierTypeOther s)"

definition decode_identifier :: "json \<Rightarrow> string + Identifier" where
  "decode_identifier v = and_then (as_object v) (\<lambda>ms.
     and_then (as_value go_string [] (member_value ms ''type'')) (\<lambda>t.
     and_then (as_value go_string [] (member_value ms ''value'')) (\<lambda>x.
       Inr \<lparr>id_Type = identifier_type_of_string t, id_Value = x\<rparr>)))"

definition decode_newOrder :: "json \<Rightarrow> string + newOrderJSON" where
  "decode_newOrder v = and_then (as_object v) (\<lambda>ms.
     let str = (\<lambda>name. as_value go_string [] (member_value ms name)) in
     and_then (as_value (go_slice decode_identifier \<lparr>id_Type = IdentifierTypeOther [], id_Value = []\<rparr>) []
       (member_value ms ''identifiers'')) (\<lambda>ids.
     and_then (str ''notBefore'') (\<lambda>notBefore. and_then (str ''notAfter'') (\<lambda>notAfter.
     and_then (str ''replaces'') (\<lambda>replaces. and_then (str ''profile'') (\<lambda>profile.
       Inr \<lparr>no_Identifiers = ids, no_NotBefore = notBefore, no_NotAfter = notAfter, no_Replaces = replaces,
            no_Profile = profile\<rparr>))))))"

definition authorizationUpdate_type :: gotype where
  "authorizationUpdate_type = GoPointer (GoStruct [go_member ''Status'' ''status'' GoOther])"

definition decode_authorizationUpdate :: "json \<Rightarrow> string + string" where
  "decode_authorizationUpdate v = and_then (as_object v) (\<lambda>ms. as_value go_string [] (member_value ms ''status''))"

record challengeResponseJSON =
  cr_TKAuth :: string
  cr_ATC :: string

definition challengeResponse_type :: gotype where
  "challengeResponse_type = GoPointer (GoStruct [go_member ''TKAuth'' ''tkauth'' GoOther, go_member ''ATC'' ''atc'' GoOther])"

definition decode_challengeResponse :: "json \<Rightarrow> string + challengeResponseJSON" where
  "decode_challengeResponse v = and_then (as_object v) (\<lambda>ms.
     and_then (as_value go_string [] (member_value ms ''tkauth'')) (\<lambda>tkauth.
     and_then (as_value go_string [] (member_value ms ''atc'')) (\<lambda>atc. Inr \<lparr>cr_TKAuth = tkauth, cr_ATC = atc\<rparr>)))"

definition authorityToken :: "challengeResponseJSON \<Rightarrow> string" where
  "authorityToken p = (if cr_TKAuth p \<noteq> [] then cr_TKAuth p else cr_ATC p)"

definition maxAuthorityTokenLength :: nat where
  "maxAuthorityTokenLength = 16384"

subsection \<open>Helpers\<close>

definition countIdentifiers :: "Identifier list \<Rightarrow> IdentifierType \<Rightarrow> nat" where
  "countIdentifiers ids t = length (filter (\<lambda>i. id_Type i = t) ids)"

definition challengeTypesFor :: "Server \<Rightarrow> Identifier \<Rightarrow> ChallengeType list" where
  "challengeTypesFor S i =
     (let token = (id_Type i = IdentifierTNAuthList \<or> id_Type i = IdentifierNfInstanceID) in
      filter (\<lambda>t. srv_validators S t \<noteq> None \<and> (t = ChallengeTKAuth01) = token \<and>
          \<not> (IsWildcard i \<and> t \<noteq> ChallengeDNS01) \<and> \<not> (id_Type i = IdentifierIP \<and> t = ChallengeDNS01))
        [ChallengeHTTP01, ChallengeDNS01, ChallengeTLSALPN01, ChallengeTKAuth01])"

definition checkChallengeResponse :: "ChallengeType \<Rightarrow> challengeResponseJSON \<Rightarrow> Problem option" where
  "checkChallengeResponse t payload =
     (if t \<noteq> ChallengeTKAuth01 then
        (if authorityToken payload \<noteq> []
         then Some (NewProblem ErrorMalformed (''a '' @ challenge_type_string t @ '' response does not carry an authority token''))
         else None)
      else if authorityToken payload = []
      then Some (NewProblem ErrorMalformed ''a tkauth-01 response needs the authority token in tkauth or atc'')
      else if cr_TKAuth payload \<noteq> [] \<and> cr_ATC payload \<noteq> [] \<and> cr_TKAuth payload \<noteq> cr_ATC payload
      then Some (NewProblem ErrorMalformed ''the tkauth and atc fields carry different authority tokens'')
      else if length (authorityToken payload) > maxAuthorityTokenLength
      then Some (NewProblem ErrorMalformed
             (''the authority token exceeds '' @ dec_string maxAuthorityTokenLength @ '' characters''))
      else None)"

definition newToken :: "error + bytes \<Rightarrow> error + string" where
  "newToken random = and_then random (\<lambda>b. Inr (encode_base64 b))"

definition draw_token :: "Env \<Rightarrow> (error + string) action" where
  "draw_token E = do { n \<leftarrow> enter E; State_Monad.return (newToken (env_random E n)) }"

definition parseTime :: "Http \<Rightarrow> string \<Rightarrow> string \<Rightarrow> Problem + time" where
  "parseTime H v field =
     (if v = [] then Inr 0
      else case ht_ParseTime H v of
        None \<Rightarrow> Inl (NewProblem ErrorMalformed (field @ '' is not an RFC 3339 timestamp''))
      | Some t \<Rightarrow> Inr t)"

definition sharesIdentifier :: "Validation list \<Rightarrow> Identifier list \<Rightarrow> bool" where
  "sharesIdentifier validations identifiers = list_ex (\<lambda>v. v_Identifier v \<in> set identifiers) validations"

definition replacementProblem :: "error \<Rightarrow> Problem option" where
  "replacementProblem err =
     (if errors_Is err ErrAlreadyReplaced
      then Some (NewProblem ErrorAlreadyReplaced ''the certificate is already being replaced by another order'')
      else if errors_Is err ErrNotFound then Some (NewProblem ErrorMalformed ''replaces names an unknown certificate'')
      else None)"

definition checkReplaces :: "Env \<Rightarrow> Server \<Rightarrow> Account \<Rightarrow> Identifier list \<Rightarrow> string \<Rightarrow> (Problem + string) action" where
  "checkReplaces E S account identifiers replaces =
     (if replaces = [] \<or> \<not> srv_renewal S then State_Monad.return (Inr [])
      else if \<not> validRenewalID replaces
      then State_Monad.return (Inl (NewProblem ErrorMalformed ''replaces is not a certificate identifier''))
      else do {
        c \<leftarrow> store_read E (\<lambda>ctx. CertificateByRenewalID ctx replaces);
        State_Monad.return
          (case c of
             Inl e \<Rightarrow>
               if errors_Is e ErrNotFound then Inl (NewProblem ErrorMalformed ''replaces names an unknown certificate'')
               else Inl (storeProblem e ''certificate'')
           | Inr cert \<Rightarrow>
               if crt_AccountID cert \<noteq> acc_ID account
               then Inl (NewProblem ErrorUnauthorized ''replaces names a certificate of another account'')
               else if \<not> sharesIdentifier (crt_Validations cert) identifiers
               then Inl (NewProblem ErrorMalformed ''the order shares no identifier with the certificate it replaces'')
               else Inr replaces) })"

subsection \<open>Checking a new order\<close>

definition host_problem :: "string \<Rightarrow> string \<Rightarrow> Problem" where
  "host_problem detail what =
     (case hostProblem (Some (ErrorNew detail)) what of Some p \<Rightarrow> p | None \<Rightarrow> NewProblem ErrorServerInternal what)"

definition selectProfile :: "Env \<Rightarrow> Server \<Rightarrow> Account \<Rightarrow> string \<Rightarrow> (Problem + string) action" where
  "selectProfile E S account requested =
     (if requested \<noteq> [] then State_Monad.return
        (if srv_profiles S requested = None
         then Inl (NewProblem ErrorInvalidProfile ''the server does not offer the requested profile'')
         else Inr requested)
      else if \<not> pk_ProfileChooser (srv_policy S) then State_Monad.return (Inr (srv_defaultProfile S))
      else do {
        c \<leftarrow> host_call E (\<lambda>n. env_DefaultProfile E n account);
        State_Monad.return
          (case c of
             Inl err \<Rightarrow> (case hostProblem (Some err) ''profile choice'' of Some p \<Rightarrow> Inl p | None \<Rightarrow> Inr (srv_defaultProfile S))
           | Inr chosen \<Rightarrow>
               if chosen = [] then Inr (srv_defaultProfile S)
               else if srv_profiles S chosen = None
               then Inl (host_problem ''the policy chose a profile the server does not offer'' ''profile choice'')
               else Inr chosen) })"

text \<open>The first loop over the payload: identifier types the server does not accept.\<close>

definition check_supported :: "Server \<Rightarrow> Identifier \<Rightarrow> Problem option" where
  "check_supported S i =
     (if id_Type i = IdentifierIP \<and> \<not> srv_ipIdentifiers S
      then Some (WithIdentifier (NewProblem ErrorUnsupportedIdentifier ''IP identifiers are not supported'') i)
      else if id_Type i = IdentifierTNAuthList \<and> \<not> srv_tnAuthList S
      then Some (WithIdentifier (NewProblem ErrorUnsupportedIdentifier ''TNAuthList identifiers are not supported'') i)
      else if id_Type i = IdentifierNfInstanceID \<and> \<not> srv_nfInstanceIDs S
      then Some (WithIdentifier (NewProblem ErrorUnsupportedIdentifier ''NfInstanceId identifiers are not supported'') i)
      else if id_Type i = IdentifierURI
      then Some (WithIdentifier (NewProblem ErrorUnsupportedIdentifier ''uri names come only from authority tokens'') i)
      else None)"

definition check_method :: "Server \<Rightarrow> Identifier \<Rightarrow> Problem option" where
  "check_method S i =
     (if challengeTypesFor S i = []
      then Some (WithIdentifier (NewProblem ErrorRejectedIdentifier ''no supported validation method for this identifier'') i)
      else None)"

text \<open>Everything \<^verbatim>\<open>buildOrder\<close> checks of the identifiers: what is returned is the normalized list.\<close>

definition check_identifiers :: "Env \<Rightarrow> Server \<Rightarrow> Identifier list \<Rightarrow> Problem + Identifier list" where
  "check_identifiers E S requested =
     (if requested = [] then Inl (NewProblem ErrorMalformed ''an order needs at least one identifier'')
      else if int (length requested) > srv_maxIdentifiers S
      then Inl (NewProblem ErrorMalformed (''an order may have at most '' @ itoa (srv_maxIdentifiers S) @ '' identifiers''))
      else case first_error (check_supported S) requested of
        Some p \<Rightarrow> Inl p
      | None \<Rightarrow>
          (case NormalizeIdentifiers (env_Names E) requested of
             Inl e \<Rightarrow> Inl (case AsProblem e of Some p \<Rightarrow> p | None \<Rightarrow> NewProblem ErrorServerInternal [])
           | Inr ids \<Rightarrow>
               if countIdentifiers ids IdentifierTNAuthList > 1
               then Inl (NewProblem ErrorMalformed ''an order may have at most one TNAuthList identifier'')
               else if countIdentifiers ids IdentifierNfInstanceID > 1
               then Inl (NewProblem ErrorMalformed ''an order may have at most one NfInstanceId identifier'')
               else if countIdentifiers ids IdentifierNfInstanceID > 0 \<and> countIdentifiers ids IdentifierTNAuthList > 0
               then Inl (NewProblem ErrorMalformed ''an order may not combine NfInstanceId and TNAuthList identifiers'')
               else case first_error (check_method S) ids of Some p \<Rightarrow> Inl p | None \<Rightarrow> Inr ids))"

definition order_validity :: "Http \<Rightarrow> newOrderJSON \<Rightarrow> Problem + time \<times> time" where
  "order_validity H payload =
     and_then (parseTime H (no_NotBefore payload) ''notBefore'') (\<lambda>notBefore.
     and_then (parseTime H (no_NotAfter payload) ''notAfter'') (\<lambda>notAfter.
       if notBefore \<noteq> 0 \<and> notAfter \<noteq> 0 \<and> \<not> After notAfter notBefore
       then Inl (NewProblem ErrorMalformed ''notAfter must be later than notBefore'')
       else Inr (notBefore, notAfter)))"

definition reviewOrder :: "Env \<Rightarrow> Account \<Rightarrow> Order \<Rightarrow> (Problem + Order) action" where
  "reviewOrder E account order = do {
     r \<leftarrow> host_call E (\<lambda>n. env_NewOrder E n account order);
     State_Monad.return
       (case r of (err, reviewed) \<Rightarrow>
          (case hostProblem err ''order policy'' of
             Some p \<Rightarrow> Inl p
           | None \<Rightarrow>
               if reviewed\<lparr>ord_NotBefore := ord_NotBefore order, ord_NotAfter := ord_NotAfter order\<rparr> \<noteq> order
               then Inl (host_problem ''the policy changed order fields other than NotBefore and NotAfter'' ''order policy'')
               else if ord_NotBefore reviewed \<noteq> 0 \<and> ord_NotAfter reviewed \<noteq> 0 \<and>
                 \<not> After (ord_NotAfter reviewed) (ord_NotBefore reviewed)
               then Inl (host_problem ''the policy set NotAfter no later than NotBefore'' ''order policy'')
               else Inr (order\<lparr>ord_NotBefore := ord_NotBefore reviewed, ord_NotAfter := ord_NotAfter reviewed\<rparr>))) }"

definition new_order :: "Server \<Rightarrow> Account \<Rightarrow> Identifier list \<Rightarrow> time \<times> time \<Rightarrow> string \<Rightarrow> string \<Rightarrow> string \<Rightarrow> time \<Rightarrow> Order" where
  "new_order S account ids validity profile replaces i now =
     \<lparr>ord_ID = i, ord_AccountID = acc_ID account, ord_Status = OrderPending, ord_Expires = now + srv_orderLifetime S,
      ord_Identifiers = ids, ord_NotBefore = fst validity, ord_NotAfter = snd validity, ord_AuthorizationIDs = [],
      ord_Error = None, ord_CSR = [], ord_CertificateID = [], ord_Issuance = None, ord_UnpublishedResult = None,
      ord_Replaces = replaces, ord_Profile = profile, ord_CreatedAt = now, ord_Revision = 0\<rparr>"

text \<open>The limiter and the policy are asked about the order.\<close>

definition admit_order :: "Env \<Rightarrow> Server \<Rightarrow> Account \<Rightarrow> Addr option \<Rightarrow> Order \<Rightarrow> (Problem + Order) action" where
  "admit_order E S account client order = do {
     l \<leftarrow> checkLimit E S ((limit_request LimitNewOrder client)
            \<lparr>lr_Account := Some account, lr_Identifiers := ord_Identifiers order, lr_Replaces := ord_Replaces order\<rparr>);
     (case l of
        Some p \<Rightarrow> State_Monad.return (Inl p)
      | None \<Rightarrow> reviewOrder E account order) }"

definition buildOrder :: "Env \<Rightarrow> Server \<Rightarrow> Account \<Rightarrow> newOrderJSON \<Rightarrow> time \<Rightarrow> Addr option \<Rightarrow> (Problem + Order) action" where
  "buildOrder E S account payload now client =
     (case check_identifiers E S (no_Identifiers payload) of
        Inl p \<Rightarrow> State_Monad.return (Inl p)
      | Inr ids \<Rightarrow>
          (case order_validity (env_Http E) payload of
             Inl p \<Rightarrow> State_Monad.return (Inl p)
           | Inr validity \<Rightarrow> do {
               f \<leftarrow> selectProfile E S account (no_Profile payload);
               (case f of
                  Inl p \<Rightarrow> State_Monad.return (Inl p)
                | Inr profile \<Rightarrow> do {
                    x \<leftarrow> checkReplaces E S account ids (no_Replaces payload);
                    (case x of
                       Inl p \<Rightarrow> State_Monad.return (Inl p)
                     | Inr replaces \<Rightarrow> do {
                         d \<leftarrow> draw_ID E;
                         (case d of
                            Inl _ \<Rightarrow> State_Monad.return (Inl (NewProblem ErrorServerInternal ''order creation failed''))
                          | Inr i \<Rightarrow> admit_order E S account client (new_order S account ids validity profile replaces i now)) }) }) }))"


subsection \<open>Authorizations and challenges of a new order\<close>

text \<open>The map of granted identifiers is the list of its keys.\<close>

fun grant_loop :: "Names \<Rightarrow> Identifier list \<Rightarrow> Identifier list \<Rightarrow> Identifier list \<Rightarrow> Identifier list option" where
  "grant_loop L identifiers granted [] = Some granted"
| "grant_loop L identifiers granted (i # ids) =
     (case Normalize L i of
        Inl _ \<Rightarrow> None
      | Inr normalized \<Rightarrow>
          if normalized \<notin> set identifiers then None
          else grant_loop L identifiers (if normalized \<in> set granted then granted else granted @ [normalized]) ids)"

definition preApprove :: "Env \<Rightarrow> Server \<Rightarrow> Account \<Rightarrow> Order \<Rightarrow> (Problem + Identifier list) action" where
  "preApprove E S account order =
     (if \<not> pk_PreApprover (srv_policy S) then State_Monad.return (Inr [])
      else do {
        r \<leftarrow> host_call E (\<lambda>n. env_PreApprove E n account order);
        State_Monad.return
          (case r of
             (Inl err, reviewed) \<Rightarrow>
               (case hostProblem (Some err) ''pre-approval policy'' of Some p \<Rightarrow> Inl p | None \<Rightarrow> Inr [])
           | (Inr ids, reviewed) \<Rightarrow>
               if reviewed \<noteq> order then Inl (host_problem ''the policy changed the order'' ''pre-approval policy'')
               else case grant_loop (env_Names E) (ord_Identifiers order) [] ids of
                 None \<Rightarrow> Inl (host_problem ''the policy returned an identifier the order does not contain'' ''pre-approval policy'')
               | Some granted \<Rightarrow> Inr granted) })"

definition new_challenge :: "string \<Rightarrow> string \<Rightarrow> ChallengeType \<Rightarrow> string \<Rightarrow> string \<Rightarrow> Challenge" where
  "new_challenge authzID accountID t i token =
     \<lparr>ch_ID = i, ch_AuthorizationID = authzID, ch_AccountID = accountID, ch_Type = t, ch_Status = ChallengePending,
      ch_Token = token, ch_AuthorityToken = [], ch_KeyThumbprint = [], ch_Validated = 0, ch_Error = None, ch_Revision = 0\<rparr>"

fun build_challenges :: "Env \<Rightarrow> string \<Rightarrow> string \<Rightarrow> ChallengeType list \<Rightarrow> (error + Challenge list) action" where
  "build_challenges E authzID accountID [] = State_Monad.return (Inr [])"
| "build_challenges E authzID accountID (t # types) = do {
     d \<leftarrow> draw_ID E;
     (case d of
        Inl e \<Rightarrow> State_Monad.return (Inl e)
      | Inr i \<Rightarrow> do {
          k \<leftarrow> draw_token E;
          (case k of
             Inl e \<Rightarrow> State_Monad.return (Inl e)
           | Inr token \<Rightarrow> do {
               rest \<leftarrow> build_challenges E authzID accountID types;
               State_Monad.return
                 (case rest of
                    Inl e \<Rightarrow> Inl e
                  | Inr cs \<Rightarrow> Inr (new_challenge authzID accountID t i token # cs)) }) }) }"

definition new_authz :: "Order \<Rightarrow> Identifier \<Rightarrow> string \<Rightarrow> bool \<Rightarrow> string list \<Rightarrow> Authorization" where
  "new_authz order i authzID approved challengeIDs =
     \<lparr>az_ID = authzID, az_AccountID = ord_AccountID order, az_OrderID = ord_ID order,
      az_Identifier = (if IsWildcard i then i\<lparr>id_Value := trim_prefix (id_Value i) ''*.''\<rparr> else i),
      az_Status = (if approved then AuthorizationValid else AuthorizationPending), az_Expires = ord_Expires order,
      az_Wildcard = IsWildcard i, az_ChallengeIDs = challengeIDs, az_CACertificate = False, az_GrantExpires = 0,
      az_GrantNames = [], az_GrantNFType = [], az_PreApproved = approved, az_CreatedAt = ord_CreatedAt order, az_Revision = 0\<rparr>"

fun build_loop ::
    "Env \<Rightarrow> Server \<Rightarrow> Order \<Rightarrow> Identifier list \<Rightarrow> Identifier list \<Rightarrow> (error + Authorization list \<times> Challenge list) action" where
  "build_loop E S order preApproved [] = State_Monad.return (Inr ([], []))"
| "build_loop E S order preApproved (i # ids) = do {
     d \<leftarrow> draw_ID E;
     (case d of
        Inl e \<Rightarrow> State_Monad.return (Inl e)
      | Inr authzID \<Rightarrow> do {
          c \<leftarrow> (if i \<in> set preApproved then State_Monad.return (Inr [])
                else build_challenges E authzID (ord_AccountID order) (challengeTypesFor S i));
          (case c of
             Inl e \<Rightarrow> State_Monad.return (Inl e)
           | Inr cs \<Rightarrow> do {
               rest \<leftarrow> build_loop E S order preApproved ids;
               State_Monad.return
                 (case rest of
                    Inl e \<Rightarrow> Inl e
                  | Inr (as', cs') \<Rightarrow>
                      Inr (new_authz order i authzID (i \<in> set preApproved) (map ch_ID cs) # as', cs @ cs')) }) }) }"

definition buildAuthorizations ::
    "Env \<Rightarrow> Server \<Rightarrow> Order \<Rightarrow> Identifier list \<Rightarrow> (Problem + Order \<times> Authorization list \<times> Challenge list) action" where
  "buildAuthorizations E S order preApproved = do {
     b \<leftarrow> build_loop E S order preApproved (ord_Identifiers order);
     State_Monad.return
       (case b of
          Inl _ \<Rightarrow> Inl (NewProblem ErrorServerInternal ''order creation failed'')
        | Inr (authzs, challenges) \<Rightarrow>
            Inr (order\<lparr>ord_AuthorizationIDs := map az_ID authzs,
                 ord_Status := (if length preApproved = length (ord_Identifiers order) then OrderReady else ord_Status order)\<rparr>,
               authzs, challenges)) }"

definition store_order :: "Env \<Rightarrow> Server \<Rightarrow> time \<Rightarrow> Order \<times> Authorization list \<times> Challenge list \<Rightarrow> unit action" where
  "store_order E S now built =
     (case built of (order, authzs, challenges) \<Rightarrow> do {
        c \<leftarrow> store_write E (\<lambda>ctx. CreateOrder ctx order authzs challenges);
        (case c of
           Inl e \<Rightarrow>
             writeProblem E S
               (case replacementProblem e of
                  Some p \<Rightarrow> if ord_Replaces order \<noteq> [] then p else NewProblem ErrorServerInternal ''order creation failed''
                | None \<Rightarrow> NewProblem ErrorServerInternal ''order creation failed'')
         | Inr (stored, _, _) \<Rightarrow> writeOrder E S 201 stored now) })"

definition serveNewOrder :: "Env \<Rightarrow> Server \<Rightarrow> Request \<Rightarrow> unit action" where
  "serveNewOrder E S r = do {
     q \<leftarrow> readSignedRequest E S r resourceNewOrder keyModeAccount;
     or_problem E S q (\<lambda>req. with_account req (\<lambda>account.
       or_problem E S (decodePayload E newOrder_type decode_newOrder (sr_Payload req)) (\<lambda>payload. do {
         now \<leftarrow> clock_Now E;
         b \<leftarrow> buildOrder E S account payload now (clientAddr (env_Http E) r);
         or_problem E S b (\<lambda>order. do {
           g \<leftarrow> preApprove E S account order;
           or_problem E S g (\<lambda>preApproved. do {
             a \<leftarrow> buildAuthorizations E S order preApproved;
             or_problem E S a (store_order E S now) }) }) }))) }"

subsection \<open>Reading orders and authorizations\<close>

definition readOwnedOrder ::
    "Env \<Rightarrow> Server \<Rightarrow> Request \<Rightarrow> string \<Rightarrow> string \<Rightarrow> (Problem + Account \<times> signedRequest \<times> Order) action" where
  "readOwnedOrder E S r i rel = do {
     q \<leftarrow> readSignedRequest E S r rel keyModeAccount;
     (case q of
        Inl p \<Rightarrow> State_Monad.return (Inl p)
      | Inr req \<Rightarrow> do {
          x \<leftarrow> store_read E (\<lambda>ctx. get_Order ctx i);
          (case x of
             Inl e \<Rightarrow> State_Monad.return (Inl (storeProblem e ''order''))
           | Inr order \<Rightarrow>
               (case sr_Account req of
                  None \<Rightarrow> State_Monad.return (Inl (NewProblem ErrorUnauthorized ''the signing account does not own this order''))
                | Some account \<Rightarrow>
                    if ord_AccountID order \<noteq> acc_ID account
                    then State_Monad.return (Inl (NewProblem ErrorUnauthorized ''the signing account does not own this order''))
                    else if ord_Status order = OrderPending \<or> ord_Status order = OrderReady
                    then do {
                      d \<leftarrow> deriveOrderStatus E order None;
                      State_Monad.return
                        (case d of
                           Inl e \<Rightarrow> Inl (storeProblem e ''authorization'')
                         | Inr status \<Rightarrow> Inr (account, req, order\<lparr>ord_Status := status\<rparr>)) }
                    else State_Monad.return (Inr (account, req, order)))) }) }"

definition serveOrder :: "Env \<Rightarrow> Server \<Rightarrow> Request \<Rightarrow> string \<Rightarrow> unit action" where
  "serveOrder E S r i = do {
     q \<leftarrow> readOwnedOrder E S r i (orderPathPrefix @ i);
     or_problem E S q (\<lambda>(account, req, order).
       or_problem E S (requireEmptyPayload req) (\<lambda>_. do {
         now \<leftarrow> clock_Now E;
         writeOrder E S 200 order now })) }"

definition deactivateAuthorization :: "Env \<Rightarrow> Authorization \<Rightarrow> time \<Rightarrow> (Problem + Authorization) action" where
  "deactivateAuthorization E authz now =
     (let status = effectiveAuthzStatus authz now in
      if status = AuthorizationDeactivated then State_Monad.return (Inr authz)
      else if \<not> authz_CanTransition status AuthorizationDeactivated
      then State_Monad.return (Inl (NewProblem ErrorMalformed
             (''authorization is '' @ authz_status_string status @ '' and cannot be deactivated'')))
      else do {
        u \<leftarrow> store_write E (\<lambda>ctx. UpdateAuthorization ctx (authz\<lparr>az_Status := AuthorizationDeactivated\<rparr>));
        State_Monad.return
          (case u of
             Inr stored \<Rightarrow> Inr stored
           | Inl e \<Rightarrow>
               if errors_Is e ErrRevisionMismatch
               then Inl (WithStatus (NewProblem ErrorMalformed ''the authorization changed concurrently, retry the request'') 409)
               else Inl (NewProblem ErrorServerInternal ''authorization update failed'')) })"

fun loadChallenges :: "Env \<Rightarrow> string list \<Rightarrow> (Problem + Challenge list) action" where
  "loadChallenges E [] = State_Monad.return (Inr [])"
| "loadChallenges E (i # ids) = do {
     r \<leftarrow> store_read E (\<lambda>ctx. get_Challenge ctx i);
     (case r of
        Inl _ \<Rightarrow> State_Monad.return (Inl (NewProblem ErrorServerInternal ''challenge lookup failed''))
      | Inr ch \<Rightarrow> do {
          rest \<leftarrow> loadChallenges E ids;
          State_Monad.return (case rest of Inl p \<Rightarrow> Inl p | Inr cs \<Rightarrow> Inr (ch # cs)) }) }"

text \<open>The update a payload asks for, if there is one.\<close>

definition change_authorization :: "Env \<Rightarrow> bytes \<Rightarrow> Authorization \<Rightarrow> time \<Rightarrow> (Problem + Authorization) action" where
  "change_authorization E payload authz now =
     (if payload = [] then State_Monad.return (Inr authz)
      else case decodePayload E authorizationUpdate_type decode_authorizationUpdate payload of
        Inl p \<Rightarrow> State_Monad.return (Inl p)
      | Inr status \<Rightarrow>
          if status \<noteq> authz_status_string AuthorizationDeactivated
          then State_Monad.return (Inl (NewProblem ErrorMalformed ''status can only be changed to deactivated''))
          else deactivateAuthorization E authz now)"

definition serveAuthorization :: "Env \<Rightarrow> Server \<Rightarrow> Request \<Rightarrow> string \<Rightarrow> unit action" where
  "serveAuthorization E S r i = do {
     q \<leftarrow> readSignedRequest E S r (authzPathPrefix @ i) keyModeAccount;
     or_problem E S q (\<lambda>req. with_account req (\<lambda>account. do {
       a \<leftarrow> store_read E (\<lambda>ctx. get_Authorization ctx i);
       (case a of
          Inl e \<Rightarrow> writeProblem E S (storeProblem e ''authorization'')
        | Inr authz \<Rightarrow>
            if az_AccountID authz \<noteq> acc_ID account
            then writeProblem E S (NewProblem ErrorUnauthorized ''the signing account does not own this authorization'')
            else do {
              now \<leftarrow> clock_Now E;
              c \<leftarrow> change_authorization E (sr_Payload req) authz now;
              or_problem E S c (\<lambda>authz. do {
                l \<leftarrow> loadChallenges E (az_ChallengeIDs authz);
                or_problem E S l (\<lambda>challenges.
                  writeJSON E S 200 (AuthorizationBody
                    (authorizationView (srv_baseURL S) (srv_tokenAuthority S) authz challenges now))) }) }) })) }"

subsection \<open>Accepting a challenge response\<close>

definition accepted_challenge :: "Challenge \<Rightarrow> Account \<Rightarrow> challengeResponseJSON \<Rightarrow> Challenge" where
  "accepted_challenge ch account payload =
     ch\<lparr>ch_Status := ChallengeProcessing, ch_KeyThumbprint := acc_KeyThumbprint account,
        ch_AuthorityToken := authorityToken payload\<rparr>"

definition new_task :: "string \<Rightarrow> TaskKind \<Rightarrow> string \<Rightarrow> string \<Rightarrow> time \<Rightarrow> Task" where
  "new_task i kind target accountID now =
     \<lparr>tsk_ID = i, tsk_Kind = kind, tsk_TargetID = target, tsk_AccountID = accountID, tsk_RunAt = now, tsk_Attempts = 0,
      tsk_LeaseUntil = 0, tsk_Fence = 0, tsk_CreatedAt = now\<rparr>"

definition update_failed :: Problem where
  "update_failed = NewProblem ErrorServerInternal ''challenge update failed''"

definition enqueue_validation :: "Env \<Rightarrow> Challenge \<Rightarrow> Task \<Rightarrow> (Problem + Challenge) action" where
  "enqueue_validation E ch task = do {
     u \<leftarrow> store_write E (\<lambda>ctx. AcceptChallenge ctx ch task);
     (case u of
        Inr (stored, _) \<Rightarrow> State_Monad.return (Inr stored)
      | Inl e \<Rightarrow>
          if errors_Is e ErrRevisionMismatch then do {
            c \<leftarrow> store_read E (\<lambda>ctx. get_Challenge ctx (ch_ID ch));
            State_Monad.return
              (case c of
                 Inl _ \<Rightarrow> Inl update_failed
               | Inr stored \<Rightarrow> if ch_Status stored \<noteq> ChallengePending then Inr stored else Inl update_failed) }
          else State_Monad.return (Inl update_failed)) }"

text \<open>The part of \<^verbatim>\<open>acceptChallenge\<close> after the authorization was found pending.\<close>

definition admit_validation ::
    "Env \<Rightarrow> Server \<Rightarrow> Challenge \<Rightarrow> Account \<Rightarrow> Addr option \<Rightarrow> challengeResponseJSON \<Rightarrow> Authorization \<Rightarrow> time \<Rightarrow>
     (Problem + Challenge) action" where
  "admit_validation E S ch account client payload authz now = do {
     v \<leftarrow> store_read E (\<lambda>ctx. AccountValidations ctx (acc_ID account));
     (case v of
        Inl _ \<Rightarrow> State_Monad.return (Inl (NewProblem ErrorServerInternal ''validation count failed''))
      | Inr waiting \<Rightarrow>
          if int waiting \<ge> srv_maxValidations S
          then State_Monad.return (Inl (WithRetryAfter (NewProblem ErrorRateLimited
                 (''the account has '' @ dec_string waiting @ '' validations waiting or running, the limit is '' @
                  itoa (srv_maxValidations S))) (wc_TaskTimeout (srv_workers S))))
          else do {
            l \<leftarrow> checkLimit E S ((limit_request LimitChallengeResponse client)
                   \<lparr>lr_Account := Some account, lr_Identifiers := [orderIdentifier authz], lr_PendingValidations := waiting\<rparr>);
            (case l of
               Some p \<Rightarrow> State_Monad.return (Inl p)
             | None \<Rightarrow> do {
                 d \<leftarrow> draw_ID E;
                 (case d of
                    Inl _ \<Rightarrow> State_Monad.return (Inl update_failed)
                  | Inr taskID \<Rightarrow>
                      enqueue_validation E (accepted_challenge ch account payload)
                        (new_task taskID TaskValidate (ch_ID ch) (acc_ID account) now)) }) }) }"

definition acceptChallenge ::
    "Env \<Rightarrow> Server \<Rightarrow> Challenge \<Rightarrow> Account \<Rightarrow> Addr option \<Rightarrow> challengeResponseJSON \<Rightarrow> (Problem + Challenge) action" where
  "acceptChallenge E S ch account client payload =
     (if ch_Status ch \<noteq> ChallengePending then State_Monad.return (Inr ch)
      else case checkChallengeResponse (ch_Type ch) payload of
        Some p \<Rightarrow> State_Monad.return (Inl p)
      | None \<Rightarrow> do {
          a \<leftarrow> store_read E (\<lambda>ctx. get_Authorization ctx (ch_AuthorizationID ch));
          (case a of
             Inl _ \<Rightarrow> State_Monad.return (Inl (NewProblem ErrorServerInternal ''authorization lookup failed''))
           | Inr authz \<Rightarrow> do {
               now \<leftarrow> clock_Now E;
               (let status = effectiveAuthzStatus authz now in
                if status \<noteq> AuthorizationPending
                then State_Monad.return (Inl (NewProblem ErrorMalformed (''authorization is '' @ authz_status_string status)))
                else admit_validation E S ch account client payload authz now) }) })"

definition serveChallenge :: "Env \<Rightarrow> Server \<Rightarrow> Request \<Rightarrow> string \<Rightarrow> unit action" where
  "serveChallenge E S r i = do {
     q \<leftarrow> readSignedRequest E S r (challengePathPrefix @ i) keyModeAccount;
     or_problem E S q (\<lambda>req. with_account req (\<lambda>account. do {
       c \<leftarrow> store_read E (\<lambda>ctx. get_Challenge ctx i);
       (case c of
          Inl e \<Rightarrow> writeProblem E S (storeProblem e ''challenge'')
        | Inr ch \<Rightarrow>
            if ch_AccountID ch \<noteq> acc_ID account
            then writeProblem E S (NewProblem ErrorUnauthorized ''the signing account does not own this challenge'')
            else do {
              _ \<leftarrow> respond (header_add ''Link'' (link (resourceURL S (authzPathPrefix @ ch_AuthorizationID ch)) ''up''));
              (if sr_Payload req = [] then writeChallenge E S ch
               else or_problem E S (decodePayload E challengeResponse_type decode_challengeResponse (sr_Payload req)) (\<lambda>payload. do {
                 a \<leftarrow> acceptChallenge E S ch account (clientAddr (env_Http E) r) payload;
                 or_problem E S a (writeChallenge E S) })) }) })) }"

end
