(* ===== verification/Acme_Finalize.thy ===== *)
theory Acme_Finalize
  imports Acme_Orders
begin

section \<open>Finalizing, revoking and renewing\<close>

text \<open>
  \<^verbatim>\<open>finalize.go\<close>, \<^verbatim>\<open>certificate.go\<close>, \<^verbatim>\<open>revoke.go\<close> and the handler and advisor of \<^verbatim>\<open>renewal.go\<close>.
\<close>

subsection \<open>Finalizing an order\<close>

definition finalize_type :: gotype where
  "finalize_type = GoPointer (GoStruct [go_member ''CSR'' ''csr'' GoOther])"

definition decode_finalize :: "json \<Rightarrow> string + string" where
  "decode_finalize v = and_then (as_object v) (\<lambda>ms. as_value go_string [] (member_value ms ''csr''))"

text \<open>The \<^verbatim>\<open>refuse\<close> closure of both handlers.\<close>

definition refuse :: "Env \<Rightarrow> Server \<Rightarrow> Refusal \<Rightarrow> Problem \<Rightarrow> unit action" where
  "refuse E S refusal p = do { _ \<leftarrow> recordRefusal E S refusal p; writeProblem E S p }"

fun orderAuthorizations :: "Env \<Rightarrow> string list \<Rightarrow> (Problem + Authorization list) action" where
  "orderAuthorizations E [] = State_Monad.return (Inr [])"
| "orderAuthorizations E (i # ids) = do {
     r \<leftarrow> store_read E (\<lambda>ctx. get_Authorization ctx i);
     (case r of
        Inl e \<Rightarrow> State_Monad.return (Inl (storeProblem e ''authorization''))
      | Inr authz \<Rightarrow> do {
          rest \<leftarrow> orderAuthorizations E ids;
          State_Monad.return (case rest of Inl p \<Rightarrow> Inl p | Inr as \<Rightarrow> Inr (authz # as)) }) }"

definition finalized_order :: "Order \<Rightarrow> bytes \<Rightarrow> Order" where
  "finalized_order order der = order\<lparr>ord_Status := OrderProcessing, ord_CSR := der\<rparr>"

definition commit_finalize :: "Env \<Rightarrow> Server \<Rightarrow> Order \<Rightarrow> bytes \<Rightarrow> Task \<Rightarrow> time \<Rightarrow> unit action" where
  "commit_finalize E S order der task now = do {
     u \<leftarrow> store_write E (\<lambda>ctx. FinalizeOrder ctx (finalized_order order der) task);
     (case u of
        Inr (stored, _) \<Rightarrow> writeOrder E S 200 stored now
      | Inl e \<Rightarrow>
          if errors_Is e ErrRevisionMismatch then do {
            c \<leftarrow> store_read E (\<lambda>ctx. get_Order ctx (ord_ID order));
            (case c of
               Inl _ \<Rightarrow> writeProblem E S (NewProblem ErrorOrderNotReady ''order changed concurrently, retry the request'')
             | Inr stored \<Rightarrow>
                 if ord_CSR stored \<noteq> der
                 then writeProblem E S (NewProblem ErrorOrderNotReady ''order changed concurrently, retry the request'')
                 else writeOrder E S 200 stored now) }
          else writeProblem E S (NewProblem ErrorServerInternal ''finalization failed'')) }"

text \<open>What is checked of the request once the order is ready, and the commit.\<close>

definition finalize_ready :: "Env \<Rightarrow> Server \<Rightarrow> Account \<Rightarrow> Order \<Rightarrow> bytes \<Rightarrow> Refusal \<Rightarrow> time \<Rightarrow> unit action" where
  "finalize_ready E S account order der refusal now =
     (if ord_Profile order \<noteq> [] \<and> srv_profiles S (ord_Profile order) = None
      then refuse E S refusal (NewProblem ErrorInvalidProfile ''the server no longer offers the profile of this order'')
      else do {
        a \<leftarrow> orderAuthorizations E (ord_AuthorizationIDs order);
        (case a of
           Inl p \<Rightarrow> refuse E S refusal p
         | Inr authzs \<Rightarrow>
             (case checkCSR (env_X509 E) (env_Names E) der order account (concat (map az_GrantNames authzs)) of
                Inl p \<Rightarrow> refuse E S refusal p
              | Inr csr \<Rightarrow>
                  (case checkCAGrants (env_X509 E) authzs csr of
                     Some p \<Rightarrow> refuse E S refusal p
                   | None \<Rightarrow> do {
                       d \<leftarrow> draw_ID E;
                       (case d of
                          Inl _ \<Rightarrow> writeProblem E S (NewProblem ErrorServerInternal ''finalization failed'')
                        | Inr taskID \<Rightarrow>
                            commit_finalize E S order der
                              (new_task taskID TaskIssue (ord_ID order) (ord_AccountID order) now) now) }))) })"

definition finalize_refusal :: "Order \<Rightarrow> Refusal" where
  "finalize_refusal order = \<lparr>rf_Kind = RefusalFinalize, rf_AccountID = ord_AccountID order, rf_OrderID = ord_ID order,
     rf_Identifiers = ord_Identifiers order, rf_CSR = [], rf_Certificate = [], rf_Reason = 0, rf_Problem = None\<rparr>"

definition serveFinalize :: "Env \<Rightarrow> Server \<Rightarrow> Request \<Rightarrow> string \<Rightarrow> unit action" where
  "serveFinalize E S r i = do {
     q \<leftarrow> readOwnedOrder E S r i (orderPathPrefix @ i @ ''/finalize'');
     or_problem E S q (\<lambda>(account, req, order).
       (let refusal = finalize_refusal order in
        case decodePayload E finalize_type decode_finalize (sr_Payload req) of
          Inl p \<Rightarrow> refuse E S refusal p
        | Inr csr \<Rightarrow>
            (case decode_strict csr of
               None \<Rightarrow> refuse E S refusal (NewProblem ErrorMalformed ''csr is not valid base64url'')
             | Some der \<Rightarrow>
                 if der = [] then refuse E S refusal (NewProblem ErrorMalformed ''csr is not valid base64url'')
                 else do {
                   now \<leftarrow> clock_Now E;
                   (let refusal = refusal\<lparr>rf_CSR := der\<rparr>; status = StatusAt order now in
                    if status = OrderReady then finalize_ready E S account order der refusal now
                    else if (status = OrderProcessing \<or> status = OrderValid) \<and> ord_CSR order = der
                    then writeOrder E S 200 order now
                    else if status = OrderProcessing \<or> status = OrderValid
                    then refuse E S refusal (NewProblem ErrorOrderNotReady ''order was already finalized with a different CSR'')
                    else refuse E S refusal (NewProblem ErrorOrderNotReady (''order is '' @ order_status_string status))) }))) }"

subsection \<open>Downloading a certificate\<close>

text \<open>The chain itself stands for its PEM text.\<close>

definition serveCertificate :: "Env \<Rightarrow> Server \<Rightarrow> Request \<Rightarrow> string \<Rightarrow> unit action" where
  "serveCertificate E S r i = do {
     q \<leftarrow> readSignedRequest E S r (certPathPrefix @ i) keyModeAccount;
     or_problem E S q (\<lambda>req. with_account req (\<lambda>account. do {
       c \<leftarrow> store_read E (\<lambda>ctx. get_Certificate ctx i);
       (case c of
          Inl e \<Rightarrow> writeProblem E S (storeProblem e ''certificate'')
        | Inr cert \<Rightarrow>
            if crt_AccountID cert \<noteq> acc_ID account
            then writeProblem E S (NewProblem ErrorUnauthorized ''the signing account does not own this certificate'')
            else or_problem E S (requireEmptyPayload req) (\<lambda>_. do {
              _ \<leftarrow> respond (setCommonHeaders S);
              _ \<leftarrow> addNonce E;
              respond (\<lambda>rs. writeBody (ChainBody (crt_Chain cert))
                (write_status 200 (header_set ''Content-Type'' contentTypePEMChain rs))) })) })) }"

subsection \<open>Renewal information\<close>

definition DefaultRenewalRetryAfter :: duration where
  "DefaultRenewalRetryAfter = 6 * 3600 * second"

text \<open>\<^verbatim>\<open>Round(time.Second)\<close> rounds halves up.\<close>

definition round_seconds :: "duration \<Rightarrow> int" where
  "round_seconds d = (d + second div 2) div second"

definition ImmediateRenewal :: "time \<Rightarrow> time \<Rightarrow> time \<times> time" where
  "ImmediateRenewal since now =
     (let end = truncate_second now; start = truncate_second since in
      (if \<not> Before start end then end - 60 * second else start, end))"

definition renewal_answer :: "Env \<Rightarrow> Server \<Rightarrow> RenewalInfo \<Rightarrow> unit action" where
  "renewal_answer E S info =
     (if \<not> After (ri_End info) (ri_Start info)
      then writeProblem E S (NewProblem ErrorServerInternal ''renewal information unavailable'')
      else (let retry = (if ri_RetryAfter info \<le> 0 then DefaultRenewalRetryAfter else ri_RetryAfter info) in
        respond (\<lambda>rs. writeBody
          (RenewalBody \<lparr>rj_Start = ri_Start info, rj_End = ri_End info, rj_ExplanationURL = ri_ExplanationURL info\<rparr>)
          (write_status 200 (header_set ''Content-Type'' contentTypeJSON
            (header_set ''Retry-After'' (itoa (round_seconds retry)) (setCommonHeaders S rs)))))))"

definition serveRenewalInfo :: "Env \<Rightarrow> Server \<Rightarrow> Request \<Rightarrow> string \<Rightarrow> unit action" where
  "serveRenewalInfo E S r i =
     (if rq_Method r \<noteq> ''GET'' \<and> rq_Method r \<noteq> ''HEAD'' then writeMethodNotAllowed E S [''GET'', ''HEAD'']
      else if \<not> srv_renewal S \<or> \<not> validRenewalID i then writeProblem E S notFound
      else do {
        l \<leftarrow> checkLimit E S (limit_request LimitRenewalInfo (clientAddr (env_Http E) r));
        (case l of
           Some p \<Rightarrow> writeProblemWithoutNonce S p
         | None \<Rightarrow> do {
             c \<leftarrow> store_read E (\<lambda>ctx. CertificateByRenewalID ctx i);
             (case c of
                Inl e \<Rightarrow> writeProblem E S (storeProblem e ''certificate'')
              | Inr cert \<Rightarrow> do {
                  x \<leftarrow> host_call E (\<lambda>n. env_RenewalInfo E n cert);
                  (case x of
                     Inl err \<Rightarrow> writeProblem E S
                       (case AsProblem err of
                          Some p \<Rightarrow> p
                        | None \<Rightarrow> NewProblem ErrorServerInternal ''renewal information unavailable'')
                   | Inr info \<Rightarrow> renewal_answer E S info) }) }) })"

subsection \<open>Revoking a certificate\<close>

record revokeJSON =
  rv_Certificate :: string
  rv_Reason :: "int option"

definition revoke_type :: gotype where
  "revoke_type = GoPointer (GoStruct [go_member ''Certificate'' ''certificate'' GoOther, go_member ''Reason'' ''reason'' (GoPointer GoOther)])"

definition decode_revoke :: "Json \<Rightarrow> json \<Rightarrow> string + revokeJSON" where
  "decode_revoke J v = and_then (as_object v) (\<lambda>ms.
     and_then (as_value go_string [] (member_value ms ''certificate'')) (\<lambda>certificate.
     and_then (as_pointer (go_int J) (member_value ms ''reason'')) (\<lambda>reason.
       Inr \<lparr>rv_Certificate = certificate, rv_Reason = reason\<rparr>)))"

definition authorizeRevocation :: "Env \<Rightarrow> signedRequest \<Rightarrow> Certificate \<Rightarrow> Leaf \<Rightarrow> (Problem + unit) action" where
  "authorizeRevocation E req cert leaf =
     (case sr_Account req of
        Some account \<Rightarrow>
          if acc_ID account = crt_AccountID cert then State_Monad.return (Inr ())
          else case revocationIdentifiers (env_X509 E) (env_Names E) leaf of
            Inl _ \<Rightarrow> State_Monad.return (Inl (NewProblem ErrorUnauthorized ''certificate identifiers cannot be authorized''))
          | Inr ids \<Rightarrow>
              if list_ex (\<lambda>i. id_Type i = IdentifierNfInstanceID) ids
              then State_Monad.return (Inl (NewProblem ErrorUnauthorized
                     ''a network function certificate is revoked by the enrolling account or with the certificate key''))
              else do {
                now \<leftarrow> clock_Now E;
                a \<leftarrow> store_read E (\<lambda>ctx. AuthorizedFor ctx (acc_ID account) ids now);
                State_Monad.return
                  (case a of
                     Inl e \<Rightarrow> Inl (storeProblem e ''authorization'')
                   | Inr allowed \<Rightarrow>
                       if allowed then Inr ()
                       else Inl (NewProblem ErrorUnauthorized
                              ''the signing account is not authorized for every certificate identifier'')) }
      | None \<Rightarrow> State_Monad.return
          (case Thumbprint (env_Crypto E) (sr_Key req) of
             Inl _ \<Rightarrow> Inl (NewProblem ErrorBadPublicKey ''signing key cannot be thumbprinted'')
           | Inr signer \<Rightarrow>
               if Thumbprint (env_Crypto E) (lf_PublicKey leaf) \<noteq> Inr signer
               then Inl (NewProblem ErrorUnauthorized ''the signing key is not the certificate key'')
               else Inr ()))"

definition revocation_failed :: Problem where
  "revocation_failed = NewProblem ErrorServerInternal ''revocation could not be recorded''"

text \<open>Both loops run at most twice; the first argument is the number of rounds left.\<close>

fun begin_loop :: "nat \<Rightarrow> Env \<Rightarrow> Certificate \<Rightarrow> int \<Rightarrow> (Problem + Certificate) action" where
  "begin_loop 0 E cert reason = State_Monad.return (Inl revocation_failed)"
| "begin_loop (Suc k) E cert reason =
     (if crt_Revoked cert then State_Monad.return (Inl (NewProblem ErrorAlreadyRevoked ''certificate is already revoked''))
      else if crt_RevocationOperationID cert \<noteq> [] then State_Monad.return (Inr cert)
      else do {
        d \<leftarrow> draw_ID E;
        (case d of
           Inl _ \<Rightarrow> State_Monad.return (Inl revocation_failed)
         | Inr i \<Rightarrow> do {
             now \<leftarrow> clock_Now E;
             u \<leftarrow> store_write E (\<lambda>ctx. UpdateCertificate ctx
                   (cert\<lparr>crt_RevocationOperationID := i, crt_RevocationReason := reason, crt_RevocationRequestedAt := now\<rparr>));
             (case u of
                Inr stored \<Rightarrow> State_Monad.return (Inr stored)
              | Inl e \<Rightarrow>
                  if \<not> errors_Is e ErrRevisionMismatch then State_Monad.return (Inl revocation_failed)
                  else do {
                    c \<leftarrow> store_read E (\<lambda>ctx. get_Certificate ctx (crt_ID cert));
                    (case c of
                       Inl e \<Rightarrow> State_Monad.return (Inl (storeProblem e ''certificate''))
                     | Inr stored \<Rightarrow> begin_loop k E stored reason) }) }) })"

definition beginRevocation :: "Env \<Rightarrow> Certificate \<Rightarrow> int \<Rightarrow> (Problem + Certificate) action" where
  "beginRevocation E cert reason = begin_loop 2 E cert reason"

text \<open>\<open>op\<close> is the certificate as it was when the revoker accepted, whose operation is written over the present record.\<close>

definition revoked_certificate :: "Certificate \<Rightarrow> time \<Rightarrow> Certificate \<Rightarrow> Certificate" where
  "revoked_certificate op now cert =
     cert\<lparr>crt_Revoked := True, crt_RevokedAt := now, crt_RevocationOperationID := crt_RevocationOperationID op,
          crt_RevocationReason := crt_RevocationReason op, crt_RevocationRequestedAt := crt_RevocationRequestedAt op\<rparr>"

fun record_loop :: "nat \<Rightarrow> Env \<Rightarrow> Certificate \<Rightarrow> Certificate \<Rightarrow> (Problem + unit) action" where
  "record_loop 0 E op cert = State_Monad.return (Inl revocation_failed)"
| "record_loop (Suc k) E op cert = do {
     now \<leftarrow> clock_Now E;
     u \<leftarrow> store_write E (\<lambda>ctx. UpdateCertificate ctx (revoked_certificate op now cert));
     (case u of
        Inr _ \<Rightarrow> State_Monad.return (Inr ())
      | Inl e \<Rightarrow>
          if \<not> errors_Is e ErrRevisionMismatch then State_Monad.return (Inl revocation_failed)
          else do {
            c \<leftarrow> store_read E (\<lambda>ctx. get_Certificate ctx (crt_ID cert));
            (case c of
               Inl _ \<Rightarrow> State_Monad.return (Inl revocation_failed)
             | Inr stored \<Rightarrow> if crt_Revoked stored then State_Monad.return (Inr ()) else record_loop k E op stored) }) }"

definition recordRevocation :: "Env \<Rightarrow> Certificate \<Rightarrow> (Problem + unit) action" where
  "recordRevocation E cert = record_loop 2 E cert cert"

definition abandonRevocation :: "Env \<Rightarrow> Certificate \<Rightarrow> unit action" where
  "abandonRevocation E cert = do {
     _ \<leftarrow> store_write E (\<lambda>ctx. UpdateCertificate ctx
           (cert\<lparr>crt_RevocationOperationID := [], crt_RevocationReason := 0, crt_RevocationRequestedAt := 0\<rparr>));
     State_Monad.return () }"

definition revoke_request :: "signedRequest \<Rightarrow> Certificate \<Rightarrow> Leaf \<Rightarrow> bytes \<Rightarrow> RevokeRequest" where
  "revoke_request req cert leaf der =
     \<lparr>rr_OperationID = crt_RevocationOperationID cert, rr_Certificate = leaf, rr_DER = der,
      rr_Reason = crt_RevocationReason cert,
      rr_AccountID = (case sr_Account req of Some account \<Rightarrow> acc_ID account | None \<Rightarrow> [])\<rparr>"

text \<open>The part of \<^verbatim>\<open>serveRevokeCert\<close> after the operation was recorded.\<close>

definition call_revoker :: "Env \<Rightarrow> Server \<Rightarrow> Refusal \<Rightarrow> RevokeRequest \<Rightarrow> Certificate \<Rightarrow> unit action" where
  "call_revoker E S refusal rreq cert = do {
     err \<leftarrow> host_recorded E (\<lambda>n. env_Revoke E n rreq) (Revoking rreq);
     (case err of
        Some e \<Rightarrow>
          (case AsProblem e of
             Some p \<Rightarrow> do { _ \<leftarrow> abandonRevocation E cert; refuse E S refusal p }
           | None \<Rightarrow> writeProblem E S (NewProblem ErrorServerInternal ''revocation failed''))
      | None \<Rightarrow> do {
          x \<leftarrow> recordRevocation E cert;
          or_problem E S x (\<lambda>_. do {
            _ \<leftarrow> respond (setCommonHeaders S);
            _ \<leftarrow> addNonce E;
            respond (write_status 200) }) }) }"

definition revoke_certificate :: "Env \<Rightarrow> Server \<Rightarrow> signedRequest \<Rightarrow> Refusal \<Rightarrow> bytes \<Rightarrow> Leaf \<Rightarrow> unit action" where
  "revoke_certificate E S req refusal der leaf = do {
     c \<leftarrow> store_read E (\<lambda>ctx. get_Certificate ctx (certificateID (env_sha256 E) der));
     (let unknown = WithStatus (NewProblem ErrorMalformed ''certificate was not issued by this server'') 404 in
      case c of
        Inl e \<Rightarrow> refuse E S refusal (if \<not> errors_Is e ErrNotFound then storeProblem e ''certificate'' else unknown)
      | Inr cert \<Rightarrow>
          if crt_Chain cert = [] \<or> hd (crt_Chain cert) \<noteq> der then refuse E S refusal unknown
          else do {
            a \<leftarrow> authorizeRevocation E req cert leaf;
            (case a of
               Inl p \<Rightarrow> refuse E S refusal p
             | Inr _ \<Rightarrow> do {
                 b \<leftarrow> beginRevocation E cert (rf_Reason refusal);
                 (case b of
                    Inl p \<Rightarrow> refuse E S refusal p
                  | Inr cert \<Rightarrow> call_revoker E S refusal (revoke_request req cert leaf der) cert) }) }) }"

definition revocation_refusal :: "signedRequest \<Rightarrow> Refusal" where
  "revocation_refusal req = \<lparr>rf_Kind = RefusalRevocation,
     rf_AccountID = (case sr_Account req of Some account \<Rightarrow> acc_ID account | None \<Rightarrow> []), rf_OrderID = [],
     rf_Identifiers = [], rf_CSR = [], rf_Certificate = [], rf_Reason = 0, rf_Problem = None\<rparr>"

definition serveRevokeCert :: "Env \<Rightarrow> Server \<Rightarrow> Request \<Rightarrow> unit action" where
  "serveRevokeCert E S r = do {
     q \<leftarrow> readSignedRequest E S r resourceRevokeCert keyModeEither;
     or_problem E S q (\<lambda>req.
       (let refusal = revocation_refusal req in
        case decodePayload E revoke_type (decode_revoke (env_Json E)) (sr_Payload req) of
          Inl p \<Rightarrow> refuse E S refusal p
        | Inr payload \<Rightarrow>
            (let refusal = (case rv_Reason payload of Some n \<Rightarrow> refusal\<lparr>rf_Reason := n\<rparr> | None \<Rightarrow> refusal) in
             case decode_strict (rv_Certificate payload) of
               None \<Rightarrow> refuse E S refusal (NewProblem ErrorMalformed ''certificate is not valid base64url'')
             | Some der \<Rightarrow>
                 if der = [] then refuse E S refusal (NewProblem ErrorMalformed ''certificate is not valid base64url'')
                 else (let refusal = refusal\<lparr>rf_Certificate := der\<rparr> in
                   case x5_ParseCertificate (env_X509 E) der of
                     None \<Rightarrow> refuse E S refusal (NewProblem ErrorMalformed ''certificate could not be parsed'')
                   | Some leaf \<Rightarrow>
                       if rf_Reason refusal \<notin> set (srv_revocationReasons S)
                       then refuse E S refusal (NewProblem ErrorBadRevocationReason
                              (''revocation reason '' @ itoa (rf_Reason refusal) @ '' is not allowed. '' @ srv_reasonsText S))
                       else revoke_certificate E S req refusal der leaf)))) }"

end
