(* ===== verification/Acme_Server.thy ===== *)
theory Acme_Server
  imports Acme_Accounts Acme_Finalize
begin

section \<open>Routing\<close>

text \<open>
  \<^verbatim>\<open>ServeHTTP\<close> and the handlers of \<^verbatim>\<open>server.go\<close> that need no account: the directory, the profile descriptions and newNonce.
\<close>

subsection \<open>Directory, profiles and nonces\<close>

definition profileURL :: "Server \<Rightarrow> Profile \<Rightarrow> string" where
  "profileURL S p = (if pf_URL p \<noteq> [] then pf_URL p else resourceURL S (profilePathPrefix @ pf_Name p))"

definition metaObject :: "Server \<Rightarrow> metaJSON" where
  "metaObject S = \<lparr>mj_TermsOfService = dm_TermsOfService (srv_meta S), mj_Website = dm_Website (srv_meta S),
     mj_CAAIdentities = dm_CAAIdentities (srv_meta S), mj_ExternalAccountRequired = dm_ExternalAccountRequired (srv_meta S),
     mj_Profiles = (\<lambda>name. map_option (profileURL S) (srv_profiles S name))\<rparr>"

definition directory_entries :: "Server \<Rightarrow> (string \<times> string) list" where
  "directory_entries S =
     [(''newNonce'', resourceURL S resourceNewNonce), (''newAccount'', resourceURL S resourceNewAccount),
      (''newOrder'', resourceURL S resourceNewOrder), (''revokeCert'', resourceURL S resourceRevokeCert),
      (''keyChange'', resourceURL S resourceKeyChange)] @
     (if srv_renewal S then [(''renewalInfo'', resourceURL S (butlast renewalPathPrefix))] else [])"

definition serveDirectory :: "Env \<Rightarrow> Server \<Rightarrow> Request \<Rightarrow> unit action" where
  "serveDirectory E S r =
     (if rq_Method r \<noteq> ''GET'' \<and> rq_Method r \<noteq> ''HEAD'' then writeMethodNotAllowed E S [''GET'', ''HEAD'']
      else respond (\<lambda>rs. writeBody (DirectoryBody (directory_entries S) (if srv_hasMeta S then Some (metaObject S) else None))
        (write_status 200 (header_set ''Content-Type'' contentTypeJSON rs))))"

definition serveProfile :: "Env \<Rightarrow> Server \<Rightarrow> Request \<Rightarrow> string \<Rightarrow> unit action" where
  "serveProfile E S r name =
     (if rq_Method r \<noteq> ''GET'' \<and> rq_Method r \<noteq> ''HEAD'' then writeMethodNotAllowed E S [''GET'', ''HEAD'']
      else case srv_profiles S name of
        None \<Rightarrow> writeProblem E S notFound
      | Some p \<Rightarrow>
          if pf_Description p = [] then writeProblem E S notFound
          else respond (\<lambda>rs.
            let rs = write_status 200 (header_set ''Content-Length'' (dec_string (length (pf_Description p)))
                       (header_set ''Content-Type'' contentTypeText rs))
            in if rq_Method r = ''GET'' then writeBody (TextBody (pf_Description p)) rs else rs))"

definition serveNewNonce :: "Env \<Rightarrow> Server \<Rightarrow> Request \<Rightarrow> unit action" where
  "serveNewNonce E S r =
     (if rq_Method r \<noteq> ''GET'' \<and> rq_Method r \<noteq> ''HEAD'' then writeMethodNotAllowed E S [''GET'', ''HEAD'']
      else do {
        l \<leftarrow> checkLimit E S (limit_request LimitNewNonce (clientAddr (env_Http E) r));
        (case l of
           Some p \<Rightarrow> writeProblemWithoutNonce S p
         | None \<Rightarrow> do {
             n \<leftarrow> nonce_Issue E;
             (case n of
                Inl _ \<Rightarrow> writeProblemWithoutNonce S (NewProblem ErrorServerInternal ''nonce issuance failed'')
              | Inr nonce \<Rightarrow> respond (\<lambda>rs. write_status (if rq_Method r = ''HEAD'' then 200 else 204)
                  (header_set ''Replay-Nonce'' nonce (setCommonHeaders S rs)))) }) })"

subsection \<open>Dispatch\<close>

definition servePOST :: "Env \<Rightarrow> Server \<Rightarrow> Request \<Rightarrow> unit action \<Rightarrow> unit action" where
  "servePOST E S r handler =
     (if rq_Method r \<noteq> ''POST'' then writeMethodNotAllowed E S [''POST''] else handler)"

definition serveResource :: "Env \<Rightarrow> Server \<Rightarrow> Request \<Rightarrow> string \<Rightarrow> unit action" where
  "serveResource E S r rel =
     (case cut rel CHR ''/'' of
        None \<Rightarrow> writeProblem E S notFound
      | Some (kind, rest) \<Rightarrow>
          if kind @ ''/'' = renewalPathPrefix then serveRenewalInfo E S r rest
          else if kind @ ''/'' = profilePathPrefix then serveProfile E S r rest
          else (let (i, suffix) = (case cut rest CHR ''/'' of None \<Rightarrow> (rest, []) | Some p \<Rightarrow> p) in
            if \<not> validID i then writeProblem E S notFound
            else if kind @ ''/'' = accountPathPrefix \<and> suffix = [] then servePOST E S r (serveAccount E S r i)
            else if kind @ ''/'' = accountPathPrefix \<and> suffix = ''orders'' then servePOST E S r (serveAccountOrders E S r i)
            else if kind @ ''/'' = orderPathPrefix \<and> suffix = [] then servePOST E S r (serveOrder E S r i)
            else if kind @ ''/'' = orderPathPrefix \<and> suffix = ''finalize'' then servePOST E S r (serveFinalize E S r i)
            else if kind @ ''/'' = authzPathPrefix \<and> suffix = [] then servePOST E S r (serveAuthorization E S r i)
            else if kind @ ''/'' = challengePathPrefix \<and> suffix = [] then servePOST E S r (serveChallenge E S r i)
            else if kind @ ''/'' = certPathPrefix \<and> suffix = [] then servePOST E S r (serveCertificate E S r i)
            else writeProblem E S notFound))"

text \<open>A request starts with its own state and an empty response.\<close>

definition begin_request :: "Env \<Rightarrow> Request \<Rightarrow> unit action" where
  "begin_request E r = State (\<lambda>w. ((), w\<lparr>w_request := \<lparr>rst_client = clientAddr (env_Http E) r, rst_nonceSpent = False\<rparr>,
     w_response := no_response\<rparr>))"

definition ServeHTTP :: "Env \<Rightarrow> Server \<Rightarrow> Request \<Rightarrow> unit action" where
  "ServeHTTP E S r = do {
     _ \<leftarrow> begin_request E r;
     (case cut_prefix (rq_Path r) (srv_basePath S) of
        None \<Rightarrow> writeProblem E S notFound
      | Some rel \<Rightarrow>
          if rel = resourceDirectory then serveDirectory E S r
          else if rel = resourceNewNonce then serveNewNonce E S r
          else if rel = resourceNewAccount then servePOST E S r (serveNewAccount E S r)
          else if rel = resourceNewOrder then servePOST E S r (serveNewOrder E S r)
          else if rel = resourceRevokeCert then servePOST E S r (serveRevokeCert E S r)
          else if rel = resourceKeyChange then servePOST E S r (serveKeyChange E S r)
          else serveResource E S r rel) }"

end
