(* ===== verification/Request_Safety.thy ===== *)
theory Request_Safety
  imports Worker_Safety Acme_Server
begin

section \<open>Request handlers are safe among others\<close>

text \<open>
  The triples of the handlers.  Most actions only read the store and write the response: \<open>calm\<close> says that such an action
  may run anywhere, and its rules are collected in \<open>calm_rules\<close>.  The actions that write have triples that
  carry what the handler has read, \<open>signed\<close> for a verified request, to the write.
\<close>

named_theorems calm_rules \<open>actions that may run anywhere\<close>

abbreviation calm :: "Env \<Rightarrow> naming \<Rightarrow> 'a action \<Rightarrow> bool" where
  "calm E G m \<equiv> spec E G (\<lambda>_. True) m (\<lambda>_ _. True)"

lemma calm_spec: "calm E G m \<Longrightarrow> spec E G P m (\<lambda>_ _. True)"
  by (erule spec_conseq) simp_all

lemma calm_return [calm_rules]: "calm E G (State_Monad.return x)"
  by (rule spec_return) simp

lemma calm_bind [calm_rules]: "calm E G m \<Longrightarrow> (\<And>x. calm E G (f x)) \<Longrightarrow> calm E G (State_Monad.bind m f)"
  by (rule spec_bind) (simp_all add: stable_const)

lemmas calm_splits [calm_rules] =
  spec_if [where P = "\<lambda>_. True" and Q = "\<lambda>_ _. True"] spec_option [where P = "\<lambda>_. True" and Q = "\<lambda>_ _. True"]
  spec_sum [where P = "\<lambda>_. True" and Q = "\<lambda>_ _. True"] spec_prod [where P = "\<lambda>_. True" and Q = "\<lambda>_ _. True"]
  spec_Let [where P = "\<lambda>_. True" and Q = "\<lambda>_ _. True"]

text \<open>A step that touches neither the store nor the events.\<close>

lemma spec_quiet:
  assumes "\<And>w x w'. run_state m w = (x, w') \<Longrightarrow> w_store w' = w_store w \<and> w_events w' = w_events w \<and> w_tick w' = w_tick w"
  shows "spec E G P m (\<lambda>_ _. True)"
proof (rule specI)
  fix w x w'
  assume "good E G w" "run_state m w = (x, w')"
  then show "leads G w w' \<and> good E G w' \<and> True"
    using assms [of w x w'] by (simp add: leads_def good_def)
qed

lemma calm_quiet [calm_rules]:
  "calm E G (respond f)" "calm E G spend_nonce" "calm E G (begin_request E' r)" "calm E G State_Monad.get"
  by (rule spec_quiet, auto simp: respond_def spend_nonce_def begin_request_def State_Monad.get_def)+

text \<open>What is known of a verified request.\<close>

definition authentic :: "Env \<Rightarrow> Server \<Rightarrow> Request \<Rightarrow> string \<Rightarrow> PublicKey \<Rightarrow> bytes \<Rightarrow> bool" where
  "authentic E S r rel key payload \<longleftrightarrow>
     (\<exists>body msg. readBody S r = Inr body \<and> jws_Parse (env_Json E) (env_Crypto E) body = Inr msg \<and>
        hd_URL (msg_Header msg) = expected_url S r rel \<and> rq_EscapedPath r = srv_basePath S @ rel \<and>
        jws_Verify (env_Json E) (env_Crypto E) msg key = Inr () \<and> payload = msg_Payload msg)"

definition signed :: "Env \<Rightarrow> naming \<Rightarrow> Server \<Rightarrow> Request \<Rightarrow> string \<Rightarrow> keyMode \<Rightarrow> signedRequest \<Rightarrow> World \<Rightarrow> bool" where
  "signed E G S r rel mode req w \<longleftrightarrow>
     authentic E S r rel (sr_Key req) (sr_Payload req) \<and>
     (case sr_Account req of
        None \<Rightarrow> mode \<noteq> keyModeAccount
      | Some a \<Rightarrow> mode \<noteq> keyModeEmbedded \<and> acc_Status a = AccountValid \<and> sr_Key req = acc_Key a \<and> saw_account G a w)"

lemma stable_signed [stable_intros]: "stable G (signed E G S r rel mode req)"
  unfolding signed_def by (intro stable_intros)

context world
begin

lemma calm_enter [calm_rules]: "calm E G (enter E)"
  by (rule spec_enter)

lemma calm_read [calm_rules]: "calm E G (store_read E f)"
  by (rule spec_read) (simp_all add: stable_const)

lemma calm_now [calm_rules]: "calm E G (clock_Now E)"
  by (rule spec_now)

lemma calm_draw [calm_rules]: "calm E G (draw_ID E)"
  using spec_draw by (rule spec_True)

lemma calm_token [calm_rules]: "calm E G (draw_token E)"
  unfolding draw_token_def by (intro calm_rules)

lemma calm_host [calm_rules]: "calm E G (host_call E f)"
  using spec_host by (rule spec_True)

lemma spec_set_nonces: "spec E G P (do { w \<leftarrow> State_Monad.get; (case f w of (x, m) \<Rightarrow> do { _ \<leftarrow> State_Monad.set (w\<lparr>w_nonces := m\<rparr>); State_Monad.return x }) }) (\<lambda>_ _. True)"
  by (rule spec_quiet) (auto simp: State_Monad.bind_def State_Monad.get_def State_Monad.set_def State_Monad.return_def split: prod.splits)

lemma calm_Consume [calm_rules]: "calm E G (nonce_Consume E value)"
  unfolding nonce_Consume_def by (rule calm_bind [OF calm_enter]) (rule spec_set_nonces)

lemma calm_Issue [calm_rules]: "calm E G (nonce_Issue E)"
  unfolding nonce_Issue_def
  by (rule calm_bind [OF calm_enter], rule spec_quiet)
    (auto simp: State_Monad.bind_def State_Monad.get_def State_Monad.set_def State_Monad.return_def split: prod.splits option.splits)

lemma calm_checkLimit [calm_rules]: "calm E G (checkLimit E S req)"
  unfolding checkLimit_def by (intro calm_rules)

lemma calm_addNonce [calm_rules]: "calm E G (addNonce E)"
  unfolding addNonce_def by (intro calm_rules)

lemma calm_writeProblemWithoutNonce [calm_rules]: "calm E G (writeProblemWithoutNonce S p)"
  unfolding writeProblemWithoutNonce_def by (intro calm_rules)

lemma calm_writeProblem [calm_rules]: "calm E G (writeProblem E S p)"
  unfolding writeProblem_def by (intro calm_rules)

lemma calm_writers [calm_rules]:
  "calm E G (writeMethodNotAllowed E S allowed)" "calm E G (writeJSON E S status v)"
  unfolding writeMethodNotAllowed_def writeJSON_def by (intro calm_rules)+

lemma calm_resource_writers [calm_rules]: "calm E G (writeOrder E S status v now)" "calm E G (writeChallenge E S ch)"
  unfolding writeOrder_def writeChallenge_def by (intro calm_rules)+

lemma calm_or_problem [calm_rules]: "(\<And>x. r = Inr x \<Longrightarrow> calm E G (k x)) \<Longrightarrow> calm E G (or_problem E S r k)"
  unfolding or_problem_def by (intro calm_rules)

lemma spec_or_problem:
  "(\<And>x. r = Inr x \<Longrightarrow> spec E G P (k x) (\<lambda>_ _. True)) \<Longrightarrow> spec E G P (or_problem E S r k) (\<lambda>_ _. True)"
  unfolding or_problem_def by (rule spec_sum) (simp_all add: calm_spec [OF calm_writeProblem])

lemma calm_recordRefusal [calm_rules]: "calm E G (recordRefusal E S refusal p)"
  unfolding recordRefusal_def by (intro calm_rules spec_True [OF spec_record]) simp_all

lemma calm_refuse [calm_rules]: "calm E G (refuse E S refusal p)"
  unfolding refuse_def by (intro calm_rules)

text \<open>Reading a request.\<close>

lemma lookupAccount_spec:
  assumes "stable G P"
  shows "spec E G P (lookupAccount E S kid)
    (\<lambda>r w. case r of Inl _ \<Rightarrow> True | Inr a \<Rightarrow> acc_Status a = AccountValid \<and> saw_account G a w)"
  unfolding lookupAccount_def
  by (intro spec_option spec_bind [OF spec_Account] assms spec_return) (auto split: sum.splits)

lemma signing_key_spec:
  assumes "stable G P"
  shows "spec E G P (signing_key E S mode msg)
    (\<lambda>r w. case r of Inl _ \<Rightarrow> True | Inr (a, key) \<Rightarrow>
       (case a of None \<Rightarrow> mode \<noteq> keyModeAccount
        | Some a \<Rightarrow> mode \<noteq> keyModeEmbedded \<and> acc_Status a = AccountValid \<and> key = acc_Key a \<and> saw_account G a w))"
  unfolding signing_key_def
  by (intro spec_option spec_if spec_bind [OF lookupAccount_spec] assms spec_return) (auto split: sum.splits)

lemma authenticate_spec:
  assumes P: "stable G P" and body: "readBody S r = Inr body" "jws_Parse (env_Json E) (env_Crypto E) body = Inr msg"
  shows "spec E G P (authenticate E S r rel mode msg) (\<lambda>q w. case q of Inl _ \<Rightarrow> True | Inr req \<Rightarrow> signed E G S r rel mode req w)"
  unfolding authenticate_def
proof (intro spec_if spec_bind [OF signing_key_spec [OF P] P] spec_return)
  fix k :: "Problem + Account option \<times> PublicKey" and w
  assume url: "\<not> (hd_URL (msg_Header msg) \<noteq> expected_url S r rel \<or> rq_EscapedPath r \<noteq> srv_basePath S @ rel)"
    and k: "P w \<and> (case k of Inl _ \<Rightarrow> True | Inr (a, key) \<Rightarrow>
       (case a of None \<Rightarrow> mode \<noteq> keyModeAccount
        | Some a \<Rightarrow> mode \<noteq> keyModeEmbedded \<and> acc_Status a = AccountValid \<and> key = acc_Key a \<and> saw_account G a w))"
  have "authentic E S r rel key (msg_Payload msg)" if "jws_Verify (env_Json E) (env_Crypto E) msg key = Inr ()" for key
    using that url body unfolding authentic_def by blast
  then show "case (case k of Inl p \<Rightarrow> Inl p | Inr (account, key) \<Rightarrow>
      (case jws_Verify (env_Json E) (env_Crypto E) msg key of Inl e \<Rightarrow> Inl (problemFromJWS e)
       | Inr _ \<Rightarrow> Inr \<lparr>sr_Account = account, sr_Key = key, sr_Payload = msg_Payload msg\<rparr>)) of
      Inl _ \<Rightarrow> True | Inr req \<Rightarrow> signed E G S r rel mode req w"
    using k by (auto simp: signed_def split: sum.splits prod.splits option.splits)
qed simp

lemma readSignedRequest_spec:
  assumes "stable G P"
  shows "spec E G P (readSignedRequest E S r rel mode) (\<lambda>q w. case q of Inl _ \<Rightarrow> True | Inr req \<Rightarrow> signed E G S r rel mode req w)"
proof -
  have "spec E G P (State_Monad.return (Inl p :: Problem + signedRequest))
      (\<lambda>q w. case q of Inl _ \<Rightarrow> True | Inr req \<Rightarrow> signed E G S r rel mode req w)" for p
    by (rule spec_return) simp
  then show ?thesis
    unfolding readSignedRequest_def
    by (intro spec_if spec_sum bind_unit [OF calm_spec [OF calm_Consume]] bind_unit [OF calm_spec [OF calm_quiet(2)]]
      authenticate_spec assms)
qed

text \<open>A handler that goes on with a verified request, and one that requires an account.\<close>

lemma serve_signed:
  assumes "\<And>req. spec E G (signed E G S r rel mode req) (k req) (\<lambda>_ _. True)"
  shows "calm E G (do { q \<leftarrow> readSignedRequest E S r rel mode; or_problem E S q k })"
proof (rule spec_bind [OF readSignedRequest_spec [OF stable_const] stable_const], rule spec_or_problem)
  show "spec E G (\<lambda>w. True \<and> (case q of Inl _ \<Rightarrow> True | Inr req \<Rightarrow> signed E G S r rel mode req w)) (k x) (\<lambda>_ _. True)"
    if "q = Inr x" for q x
    using assms [of x] that by simp
qed

lemma spec_account:
  assumes "\<And>a. acc_Status a = AccountValid \<Longrightarrow> spec E G (saw_account G a) (k a) (\<lambda>_ _. True)"
  shows "spec E G (signed E G S r rel keyModeAccount req) (with_account req k) (\<lambda>_ _. True)"
proof (cases "sr_Account req")
  case (Some a)
  have "spec E G (\<lambda>w. saw_account G a w \<and> acc_Status a = AccountValid) (k a) (\<lambda>_ _. True)"
    using assms by (intro spec_pure)
  then show ?thesis
    unfolding with_account_def Some option.case by (rule spec_conseq) (auto simp: signed_def Some)
qed (simp add: with_account_def calm_spec [OF calm_return])

end

end
