(* ===== verification/Account_Safety.thy ===== *)
theory Account_Safety
  imports Request_Safety
begin

section \<open>Account and revocation handlers are safe\<close>

text \<open>
  The triples of the writes to accounts and certificates.  An account is written only while it is valid and as the request
  was signed; a certificate only while it is not revoked, and the revoker is called only after its operation was recorded.
\<close>

text \<open>The certificate of an operation: the record that was read, still not revoked, with an operation.\<close>

definition in_operation :: "naming \<Rightarrow> Certificate \<Rightarrow> Certificate \<Rightarrow> World \<Rightarrow> bool" where
  "in_operation G c v w \<longleftrightarrow> saw_certificate G v w \<and> \<not> crt_Revoked v \<and> crt_RevocationOperationID v \<noteq> [] \<and>
     crt_ID v = crt_ID c \<and> crt_Chain v = crt_Chain c"

lemma stable_in_operation [stable_intros]: "stable G (in_operation G c v)"
  unfolding in_operation_def by (intro stable_intros)

context world
begin

subsection \<open>Accounts\<close>

lemma calm_CreateAccount [calm_rules]: "calm E G (store_write E (\<lambda>ctx. CreateAccount ctx a))"
proof (rule spec_write)
  fix n w x s'
  assume c: "CreateAccount (env_ctx E n) a (w_store w) = Inr (x, s')"
  show "proto G (w_store w) s' \<and> proved (w_events w) (w_store w) s' \<and> published E (w_events w) (w_store w) s'"
    using proto_CreateAccount [OF c] CreateAccount_Inr(8) [OF c] by (auto intro!: proved_same published_same)
qed (simp_all add: stable_const)

lemma updateAccount_spec:
  assumes "stable G P" and saw: "\<And>w. P w \<Longrightarrow> saw_account G a w"
    and a: "account_le a a'" "acc_Revision a' = acc_Revision a"
  shows "spec E G P (updateAccount E a') (\<lambda>_ _. True)"
  unfolding updateAccount_def
proof (rule bind_unit [OF _ assms(1)])
  show "spec E G P (store_write E (\<lambda>ctx. UpdateAccount ctx a')) (\<lambda>_ _. True)"
    using assms(1)
  proof (rule spec_write)
    fix n w x s'
    assume w: "good E G w" "P w" and c: "UpdateAccount (env_ctx E n) a' (w_store w) = Inr (x, s')"
    have "acc_ID a' = acc_ID a" using a(1) by (simp add: account_le_def)
    then have "account_le v a'" if "st_accounts (w_store w) (acc_ID a') = Some v" "acc_Revision v = acc_Revision a'" for v
      using saw_same(4) [OF w(1) saw [OF w(2)], of v] that a by simp
    then have "proto G (w_store w) s'" by (rule proto_UpdateAccount [OF c])
    moreover have "st_authzs s' = st_authzs (w_store w) \<and> st_orders s' = st_orders (w_store w)"
      by (rule UpdateAccount_Inr [OF c]) simp
    ultimately show "proto G (w_store w) s' \<and> proved (w_events w) (w_store w) s' \<and> published E (w_events w) (w_store w) s'"
      by (auto intro!: proved_same published_same)
  qed simp_all
qed (rule calm_spec [OF calm_return])

lemma calm_binding [calm_rules]: "calm E G (verifyExternalAccountBinding E S thumbprint raw)"
  unfolding verifyExternalAccountBinding_def by (intro calm_rules)

lemma calm_external_identity [calm_rules]: "calm E G (external_identity E S thumbprint binding)"
  unfolding external_identity_def by (intro calm_rules)

lemma calm_review_account [calm_rules]: "calm E G (review_account E S client account)"
  unfolding review_account_def by (intro calm_rules)

lemma calm_buildAccount [calm_rules]: "calm E G (buildAccount E S req thumbprint payload client)"
  unfolding buildAccount_def by (intro calm_rules)

lemma calm_writeExistingAccount [calm_rules]: "calm E G (writeExistingAccount E S account)"
  unfolding writeExistingAccount_def by (intro calm_rules)

lemma calm_create_conflict [calm_rules]: "calm E G (create_conflict E S thumbprint account)"
  unfolding create_conflict_def by (intro calm_rules)

lemma calm_create_account [calm_rules]: "calm E G (create_account E S thumbprint account)"
  unfolding create_account_def by (intro calm_rules)

lemma calm_find_or_create [calm_rules]: "calm E G (find_or_create E S r req payload thumbprint)"
  unfolding find_or_create_def by (intro calm_rules)

lemma calm_readSignedRequest [calm_rules]: "calm E G (readSignedRequest E S r rel mode)"
  using readSignedRequest_spec [OF stable_const] by (rule spec_True)

lemma calm_serveNewAccount [calm_rules]: "calm E G (serveNewAccount E S r)"
  unfolding serveNewAccount_def by (intro calm_rules)

text \<open>An account that owns the request.\<close>

lemma readOwnedAccount_spec:
  "spec E G (\<lambda>_. True) (readOwnedAccount E S r i rel)
    (\<lambda>q w. case q of Inl _ \<Rightarrow> True | Inr (a, req) \<Rightarrow> acc_ID a = i \<and> acc_Status a = AccountValid \<and> saw_account G a w)"
  unfolding readOwnedAccount_def
  by (rule spec_bind [OF readSignedRequest_spec [OF stable_const] stable_const], rule spec_return)
    (auto simp: signed_def split: sum.splits option.splits)

lemma update_account_le:
  assumes "update_account E payload a = Inr a'" "acc_Status a = AccountValid"
  shows "account_le a a'" "acc_Revision a' = acc_Revision a"
  using assms by (auto simp: update_account_def account_le_def account_closure account_CanTransition_def
      split: if_splits option.splits sum.splits)

lemma serve_owned_account:
  assumes "\<And>a req. acc_ID a = i \<Longrightarrow> acc_Status a = AccountValid \<Longrightarrow> spec E G (saw_account G a) (k (a, req)) (\<lambda>_ _. True)"
  shows "calm E G (do { q \<leftarrow> readOwnedAccount E S r i rel; or_problem E S q k })"
proof (rule spec_bind [OF readOwnedAccount_spec stable_const], rule spec_or_problem)
  fix q :: "Problem + Account \<times> signedRequest" and x
  assume q: "q = Inr x"
  obtain a req where x: "x = (a, req)" by (cases x)
  have "spec E G (\<lambda>w. saw_account G a w \<and> acc_ID a = i \<and> acc_Status a = AccountValid) (k x) (\<lambda>_ _. True)"
    using assms x by (intro spec_pure) blast
  then show "spec E G (\<lambda>w. True \<and> (case q of Inl _ \<Rightarrow> True | Inr (a, req) \<Rightarrow> acc_ID a = i \<and> acc_Status a = AccountValid \<and>
      saw_account G a w)) (k x) (\<lambda>_ _. True)"
    by (rule spec_conseq) (auto simp: q x)
qed

lemma calm_serveAccount [calm_rules]: "calm E G (serveAccount E S r i)"
  unfolding serveAccount_def
proof (rule serve_owned_account, unfold prod.case, intro spec_if spec_or_problem)
  fix a req payload a'
  assume a: "acc_Status a = AccountValid" "update_account E payload a = Inr a'"
  show "spec E G (saw_account G a) (do { u \<leftarrow> updateAccount E a';
      or_problem E S u (\<lambda>stored. writeJSON E S 200 (AccountBody (accountView (srv_baseURL S) stored))) }) (\<lambda>_ _. True)"
    by (rule bind_unit [OF updateAccount_spec [OF stable_seen _ update_account_le [OF a(2,1)]] stable_seen], assumption)
      (rule calm_spec, intro calm_rules)
qed (rule calm_spec, intro calm_rules)

lemma calm_order_urls [calm_rules]: "calm E G (order_urls E S now ids)"
  by (induction ids) (simp_all, (intro calm_rules | assumption)+)

lemma calm_orders_page [calm_rules]: "calm E G (orders_page E S i ids)"
  unfolding orders_page_def by (intro calm_rules)

lemma calm_readOwnedAccount [calm_rules]: "calm E G (readOwnedAccount E S r i rel)"
  using readOwnedAccount_spec by (rule spec_True)

lemma calm_serveAccountOrders [calm_rules]: "calm E G (serveAccountOrders E S r i)"
  unfolding serveAccountOrders_def by (intro calm_rules)

lemma calm_name_owner [calm_rules]: "calm E G (name_owner E S p thumbprint)"
  unfolding name_owner_def by (intro calm_rules)

lemma calm_serveKeyChange [calm_rules]: "calm E G (serveKeyChange E S r)"
  unfolding serveKeyChange_def
proof (rule serve_signed, rule spec_account, intro spec_or_problem spec_prod)
  fix a :: Account and key thumbprint
  assume "acc_Status a = AccountValid"
  then have le: "account_le a (a\<lparr>acc_Key := key, acc_KeyThumbprint := thumbprint\<rparr>)"
    by (simp add: account_le_def)
  show "spec E G (saw_account G a) (do { u \<leftarrow> updateAccount E (a\<lparr>acc_Key := key, acc_KeyThumbprint := thumbprint\<rparr>);
      (case u of
         Inl p \<Rightarrow> do { _ \<leftarrow> name_owner E S p thumbprint; writeProblem E S p }
       | Inr stored \<Rightarrow> writeJSON E S 200 (AccountBody (accountView (srv_baseURL S) stored))) }) (\<lambda>_ _. True)"
    by (intro bind_unit [OF updateAccount_spec [OF stable_seen _ le] stable_seen]) (simp_all, rule calm_spec, intro calm_rules)
qed

subsection \<open>Revocations\<close>

lemma UpdateCertificate_spec:
  assumes "stable G P" and saw: "\<And>w. P w \<Longrightarrow> saw_certificate G c w"
    and c: "certificate_le c c'" "crt_Revision c' = crt_Revision c"
  shows "spec E G P (store_write E (\<lambda>ctx. UpdateCertificate ctx c'))
    (\<lambda>r w. case r of Inl _ \<Rightarrow> True | Inr v \<Rightarrow> v = c'\<lparr>crt_Revision := crt_Revision c' + 1\<rparr> \<and> saw_certificate G v w)"
  using assms(1)
proof (rule spec_write)
  have same: "crt_ID c' = crt_ID c" using c(1) by (simp add: certificate_le_def)
  fix n w x s'
  assume w: "good E G w" "P w" and u: "UpdateCertificate (env_ctx E n) c' (w_store w) = Inr (x, s')"
  have "certificate_le v c'" if "st_certificates (w_store w) (crt_ID c') = Some v" "crt_Revision v = crt_Revision c'" for v
    using saw_same(5) [OF w(1) saw [OF w(2)], of v] that c same by simp
  then have "proto G (w_store w) s'" by (rule proto_UpdateCertificate [OF u])
  moreover have "st_authzs s' = st_authzs (w_store w) \<and> st_orders s' = st_orders (w_store w)"
    by (rule UpdateCertificate_Inr [OF u]) simp
  ultimately show "proto G (w_store w) s' \<and> proved (w_events w) (w_store w) s' \<and> published E (w_events w) (w_store w) s'"
    by (auto intro!: proved_same published_same)
next
  fix n w x s' w'
  assume w: "good E G w'" "w_store w' = s'" and u: "UpdateCertificate (env_ctx E n) c' (w_store w) = Inr (x, s')"
  have "st_certificates s' (crt_ID x) = Some x" "x = c'\<lparr>crt_Revision := crt_Revision c' + 1\<rparr>"
    by (rule UpdateCertificate_Inr [OF u], simp)+
  then show "case Inr x of Inl _ \<Rightarrow> True | Inr v \<Rightarrow> v = c'\<lparr>crt_Revision := crt_Revision c' + 1\<rparr> \<and> saw_certificate G v w'"
    using seen_now [OF good_healthy [OF w(1)], of "\<lambda>s. st_certificates s (crt_ID x) = Some x"] w(2) by simp
qed simp

lemma certificate_same:
  assumes "good E G w" "saw_certificate G c w" "st_certificates (w_store w) (crt_ID c) = Some v"
  shows "crt_Chain v = crt_Chain c"
  using saw_certificate_now [OF assms(1,2)] assms(3) unfolding certificate_le_def by (metis option.inject)

lemma reread_certificate:
  assumes P: "stable G P" and saw: "\<And>w. P w \<Longrightarrow> saw_certificate G c w"
    and f: "\<And>e. spec E G P (f e) R"
    and g: "\<And>v. crt_ID v = crt_ID c \<Longrightarrow> crt_Chain v = crt_Chain c \<Longrightarrow> spec E G (saw_certificate G v) (g v) R"
  shows "spec E G P (State_Monad.bind (store_read E (\<lambda>ctx. get_Certificate ctx (crt_ID c))) (case_sum f g)) R"
proof (rule spec_bind [OF spec_Certificate [OF P] P], rule spec_sum)
  fix r :: "error + Certificate" and v
  assume r: "r = Inr v"
  let ?Q = "\<lambda>w. case r of Inr v \<Rightarrow> crt_ID v = crt_ID c \<and> saw_certificate G v w \<and>
      at_read E G P (\<lambda>s. st_certificates s (crt_ID c) = Some v) | Inl e \<Rightarrow> True"
  have "spec E G (\<lambda>w. saw_certificate G v w \<and> crt_ID v = crt_ID c \<and> crt_Chain v = crt_Chain c) (g v) R"
    using g by (intro spec_pure) blast
  then show "spec E G (\<lambda>w. P w \<and> ?Q w) (g v) R"
  proof (rule spec_conseq)
    fix w
    assume "P w \<and> ?Q w"
    then show "saw_certificate G v w \<and> crt_ID v = crt_ID c \<and> crt_Chain v = crt_Chain c"
      using saw certificate_same unfolding r at_read_def by auto
  qed
next
  fix r :: "error + Certificate" and e
  assume "r = Inl e"
  then show "spec E G (\<lambda>w. P w \<and> (case r of Inr v \<Rightarrow> crt_ID v = crt_ID c \<and> saw_certificate G v w \<and>
      at_read E G P (\<lambda>s. st_certificates s (crt_ID c) = Some v) | Inl e \<Rightarrow> True)) (f e) R"
    using f [of e] by simp
qed

lemma begin_loop_spec:
  assumes ids: "\<And>n i. newID (env_random E n) = Inr i \<Longrightarrow> i \<noteq> []"
  shows "spec E G (saw_certificate G c) (begin_loop k E c reason)
    (\<lambda>r w. case r of Inl _ \<Rightarrow> True | Inr v \<Rightarrow> in_operation G c v w)"
proof (induction k arbitrary: c)
  case 0
  show ?case unfolding begin_loop.simps by (rule spec_return) simp
next
  case (Suc k)
  let ?R = "\<lambda>r w. case r of Inl (_ :: Problem) \<Rightarrow> True | Inr v \<Rightarrow> in_operation G c v w"
  have fail: "spec E G P (State_Monad.return (Inl p)) ?R" for p P
    by (rule spec_return) simp
  let ?c = "\<lambda>i now. c\<lparr>crt_RevocationOperationID := i, crt_RevocationReason := reason, crt_RevocationRequestedAt := now\<rparr>"
  have again: "spec E G (saw_certificate G c) (do {
      r \<leftarrow> store_read E (\<lambda>ctx. get_Certificate ctx (crt_ID c));
      (case r of Inl e \<Rightarrow> State_Monad.return (Inl (storeProblem e ''certificate'')) | Inr v \<Rightarrow> begin_loop k E v reason) }) ?R"
  proof (rule reread_certificate [OF stable_seen _ fail])
    fix v :: Certificate
    assume "crt_ID v = crt_ID c" "crt_Chain v = crt_Chain c"
    then show "spec E G (saw_certificate G v) (begin_loop k E v reason) ?R"
      by (intro spec_conseq [OF Suc.IH]) (auto simp: in_operation_def split: sum.splits)
  qed assumption
  have attempt: "spec E G (saw_certificate G c) (do {
      u \<leftarrow> store_write E (\<lambda>ctx. UpdateCertificate ctx (?c i now));
      (case u of Inr stored \<Rightarrow> State_Monad.return (Inr stored)
       | Inl e \<Rightarrow> if \<not> errors_Is e ErrRevisionMismatch then State_Monad.return (Inl revocation_failed)
           else do {
             r \<leftarrow> store_read E (\<lambda>ctx. get_Certificate ctx (crt_ID c));
             (case r of Inl e \<Rightarrow> State_Monad.return (Inl (storeProblem e ''certificate'')) | Inr v \<Rightarrow> begin_loop k E v reason) }) }) ?R"
    if new: "\<not> crt_Revoked c" "i \<noteq> []" for i now
  proof (rule bind_write [OF UpdateCertificate_spec [OF stable_seen] stable_seen])
    show "certificate_le c (?c i now)" using new(1) by (simp add: certificate_le_def)
    show "spec E G (\<lambda>w. saw_certificate G c w \<and> v = (?c i now)\<lparr>crt_Revision := crt_Revision (?c i now) + 1\<rparr> \<and> saw_certificate G v w)
        (State_Monad.return (Inr v)) ?R" for v
      by (rule spec_return) (auto simp: in_operation_def new)
  qed (use again fail in \<open>simp_all\<close>)
  show ?case
    unfolding begin_loop.simps
    by (intro spec_if fail bind_draw bind_now stable_seen attempt ids spec_return) (auto simp: in_operation_def)
qed

lemma record_loop_spec:
  assumes "\<not> crt_Revoked c"
  shows "spec E G (saw_certificate G c) (record_loop k E op c) (\<lambda>_ _. True)"
  using assms
proof (induction k arbitrary: c)
  case 0
  show ?case unfolding record_loop.simps by (rule calm_spec [OF calm_return])
next
  case (Suc k)
  have le: "certificate_le c (revoked_certificate op now c)" "crt_Revision (revoked_certificate op now c) = crt_Revision c" for now
    using Suc.prems by (simp_all add: certificate_le_def revoked_certificate_def)
  have again: "spec E G (saw_certificate G c) (do {
      r \<leftarrow> store_read E (\<lambda>ctx. get_Certificate ctx (crt_ID c));
      (case r of Inl _ \<Rightarrow> State_Monad.return (Inl revocation_failed)
       | Inr v \<Rightarrow> if crt_Revoked v then State_Monad.return (Inr ()) else record_loop k E op v) }) (\<lambda>_ _. True)"
    by (rule reread_certificate [OF stable_seen _ calm_spec [OF calm_return]], assumption)
      (intro spec_if Suc.IH calm_spec [OF calm_return])
  show ?case
    unfolding record_loop.simps
    by (intro bind_now stable_seen bind_unit [OF spec_True [OF UpdateCertificate_spec [OF stable_seen _ le]] stable_seen]
      spec_sum spec_if again calm_spec [OF calm_return])
qed

lemma abandonRevocation_spec:
  assumes "\<not> crt_Revoked c"
  shows "spec E G (saw_certificate G c) (abandonRevocation E c) (\<lambda>_ _. True)"
  unfolding abandonRevocation_def
  by (rule bind_unit [OF spec_True [OF UpdateCertificate_spec [OF stable_seen, where c = c]] stable_seen])
    (use assms in \<open>simp_all add: certificate_le_def calm_spec [OF calm_return]\<close>)

lemma calm_authorizeRevocation [calm_rules]: "calm E G (authorizeRevocation E req cert leaf)"
  unfolding authorizeRevocation_def by (intro calm_rules)

lemma call_revoker_spec:
  assumes c: "crt_ID c = certificateID (env_sha256 E) der" "crt_Chain c \<noteq> []" "hd (crt_Chain c) = der"
  shows "spec E G (in_operation G c v) (call_revoker E S refusal (revoke_request req v leaf der) v) (\<lambda>_ _. True)"
proof -
  let ?P = "in_operation G c v" and ?req = "revoke_request req v leaf der"
  have ok: "event_ok E G (w_events w) (Revoking ?req (w_store w) x)" if "?P w" for w x
  proof -
    from that obtain s where "healthy G s" "proto G s (w_store w)" "st_certificates s (crt_ID v) = Some v"
      by (auto simp: in_operation_def seen_def)
    then show ?thesis
      using that c unfolding event_ok.simps revocation_recorded_def
      by (intro exI [of _ s] exI [of _ v]) (simp add: revoke_request_def in_operation_def)
  qed
  have call: "spec E G ?P (host_recorded E (\<lambda>n. env_Revoke E n ?req) (Revoking ?req)) (\<lambda>_ _. True)"
    by (rule spec_True [OF spec_host_recorded]) (simp_all add: ok stable_in_operation del: event_ok.simps)
  have weaken: "spec E G ?P m (\<lambda>_ _. True)"
    if "\<not> crt_Revoked v \<Longrightarrow> spec E G (saw_certificate G v) m (\<lambda>_ _. True)" for m :: "'b action"
  proof -
    have "spec E G (\<lambda>w. saw_certificate G v w \<and> \<not> crt_Revoked v) m (\<lambda>_ _. True)"
      using that by (rule spec_pure)
    then show ?thesis by (rule spec_conseq) (auto simp: in_operation_def)
  qed
  have abandon: "spec E G ?P (do { _ \<leftarrow> abandonRevocation E v; refuse E S refusal p }) (\<lambda>_ _. True)" for p
    by (rule bind_unit [OF weaken [OF abandonRevocation_spec] stable_in_operation]) (simp_all add: calm_spec [OF calm_refuse])
  have finish: "spec E G ?P (do { x \<leftarrow> recordRevocation E v; or_problem E S x (\<lambda>_. do {
      _ \<leftarrow> respond (setCommonHeaders S); _ \<leftarrow> addNonce E; respond (write_status 200) }) }) (\<lambda>_ _. True)"
    unfolding recordRevocation_def
    by (rule bind_unit [OF weaken [OF record_loop_spec] stable_in_operation], assumption, rule calm_spec, intro calm_rules)
  show ?thesis
    unfolding call_revoker_def
    by (intro bind_unit [OF call stable_in_operation] spec_option abandon finish calm_spec [OF calm_writeProblem])
qed

lemma revoke_certificate_spec:
  assumes ids: "\<And>n i. newID (env_random E n) = Inr i \<Longrightarrow> i \<noteq> []"
  shows "calm E G (revoke_certificate E S req refusal der leaf)"
proof -
  let ?i = "certificateID (env_sha256 E) der"
  have go_on: "spec E G (saw_certificate G c) (do {
      a \<leftarrow> authorizeRevocation E req c leaf;
      (case a of Inl p \<Rightarrow> refuse E S refusal p | Inr _ \<Rightarrow> do {
         b \<leftarrow> beginRevocation E c (rf_Reason refusal);
         (case b of Inl p \<Rightarrow> refuse E S refusal p
          | Inr v \<Rightarrow> call_revoker E S refusal (revoke_request req v leaf der) v) }) }) (\<lambda>_ _. True)"
    if "crt_ID c = ?i" "crt_Chain c \<noteq> []" "hd (crt_Chain c) = der" for c
  proof -
    have "spec E G (\<lambda>w. saw_certificate G c w \<and> (case b of Inl _ \<Rightarrow> True | Inr v \<Rightarrow> in_operation G c v w))
        (case b of Inl p \<Rightarrow> refuse E S refusal p | Inr v \<Rightarrow> call_revoker E S refusal (revoke_request req v leaf der) v) (\<lambda>_ _. True)"
      for b :: "Problem + Certificate"
      by (rule spec_sum, rule calm_spec [OF calm_refuse], rule spec_conseq [OF call_revoker_spec [OF that]]) simp_all
    then have "spec E G (saw_certificate G c) (do {
        b \<leftarrow> beginRevocation E c (rf_Reason refusal);
        (case b of Inl p \<Rightarrow> refuse E S refusal p
         | Inr v \<Rightarrow> call_revoker E S refusal (revoke_request req v leaf der) v) }) (\<lambda>_ _. True)"
      unfolding beginRevocation_def by (intro spec_bind [OF begin_loop_spec [OF ids] stable_seen])
    then show ?thesis
      by (intro bind_unit [OF calm_spec [OF calm_authorizeRevocation] stable_seen] spec_sum calm_spec [OF calm_refuse])
  qed
  show ?thesis
    unfolding revoke_certificate_def Let_def
  proof (rule spec_bind [OF spec_Certificate [OF stable_const] stable_const], rule spec_sum)
    fix r :: "error + Certificate" and c
    assume "r = Inr c"
    then have "spec E G (\<lambda>w. saw_certificate G c w \<and> crt_ID c = ?i) (if crt_Chain c = [] \<or> hd (crt_Chain c) \<noteq> der
        then refuse E S refusal (WithStatus (NewProblem ErrorMalformed ''certificate was not issued by this server'') 404)
        else do {
          a \<leftarrow> authorizeRevocation E req c leaf;
          (case a of Inl p \<Rightarrow> refuse E S refusal p | Inr _ \<Rightarrow> do {
             b \<leftarrow> beginRevocation E c (rf_Reason refusal);
             (case b of Inl p \<Rightarrow> refuse E S refusal p
              | Inr v \<Rightarrow> call_revoker E S refusal (revoke_request req v leaf der) v) }) }) (\<lambda>_ _. True)"
      by (intro spec_pure spec_if go_on calm_spec [OF calm_refuse]) simp_all
    then show "spec E G (\<lambda>w. True \<and> (case r of Inr v \<Rightarrow> crt_ID v = ?i \<and> saw_certificate G v w \<and>
        at_read E G (\<lambda>w. True) (\<lambda>s. st_certificates s ?i = Some v) | Inl e \<Rightarrow> True))
        (if crt_Chain c = [] \<or> hd (crt_Chain c) \<noteq> der
         then refuse E S refusal (WithStatus (NewProblem ErrorMalformed ''certificate was not issued by this server'') 404)
         else do {
           a \<leftarrow> authorizeRevocation E req c leaf;
           (case a of Inl p \<Rightarrow> refuse E S refusal p | Inr _ \<Rightarrow> do {
              b \<leftarrow> beginRevocation E c (rf_Reason refusal);
              (case b of Inl p \<Rightarrow> refuse E S refusal p
               | Inr v \<Rightarrow> call_revoker E S refusal (revoke_request req v leaf der) v) }) }) (\<lambda>_ _. True)"
      by (rule spec_conseq) (auto simp: \<open>r = Inr c\<close>)
  qed (rule calm_spec [OF calm_refuse])
qed

lemma calm_serveRevokeCert:
  assumes "\<And>n i. newID (env_random E n) = Inr i \<Longrightarrow> i \<noteq> []"
  shows "calm E G (serveRevokeCert E S r)"
  unfolding serveRevokeCert_def by (intro calm_rules revoke_certificate_spec assms)

end

end
