(* ===== verification/Acme_Issuance.thy ===== *)
theory Acme_Issuance
  imports Acme_Worker
begin

section \<open>The issuance worker\<close>

text \<open>
  \<^verbatim>\<open>issuance.go\<close>, with \<^verbatim>\<open>process\<close> and one turn of the loop of \<^verbatim>\<open>Run\<close> from \<^verbatim>\<open>worker.go\<close>.  The first run of an issuance task reads the account
  and the authorizations, asks the issuance policy and commits the decision (\<^verbatim>\<open>BeginIssuance\<close>); only then
  is the issuer called.  Later runs recover the same operation.  A returned chain is published if it passes
  \<open>checkChain\<close> and kept with the failed order otherwise.
\<close>

subsection \<open>Outcomes\<close>

definition completeIssuance :: "Env \<Rightarrow> Task \<Rightarrow> Order \<Rightarrow> Certificate option \<Rightarrow> (error + Order) action" where
  "completeIssuance E task order cert = store_write E (\<lambda>ctx. CompleteIssuance ctx task order cert)"

definition handleIssuanceCommit :: "Env \<Rightarrow> Server \<Rightarrow> Task \<Rightarrow> error + Order \<Rightarrow> unit action" where
  "handleIssuanceCommit E S task r =
     (case r of
        Inr _ \<Rightarrow> State_Monad.return ()
      | Inl _ \<Rightarrow> do { now \<leftarrow> clock_Now E; reschedule E S task now })"

definition failOrder :: "Env \<Rightarrow> Server \<Rightarrow> Task \<Rightarrow> Order \<Rightarrow> Problem \<Rightarrow> unit action" where
  "failOrder E S task order p = do {
     r \<leftarrow> completeIssuance E task (order\<lparr>ord_Status := OrderInvalid, ord_Error := Some p\<rparr>) None;
     handleIssuanceCommit E S task r }"

subsection \<open>The request to the issuer\<close>

definition issueRequest :: "Env \<Rightarrow> Server \<Rightarrow> Order \<Rightarrow> (error + IssueRequest) action" where
  "issueRequest E S order =
     (case x5_ParseCSR (env_X509 E) (ord_CSR order) of
        None \<Rightarrow> State_Monad.return (Inl (ErrorNew ''x509: malformed certificate request''))
      | Some csr \<Rightarrow>
          (case ord_Issuance order of
             None \<Rightarrow> State_Monad.return (Inl nil_dereference)
           | Some state \<Rightarrow> do {
               now \<leftarrow> clock_Now E;
               State_Monad.return (Inr
                 \<lparr>iq_OperationID = is_OperationID state, iq_AccountID = ord_AccountID order,
                  iq_AccountURL = accountURL (srv_baseURL S) (ord_AccountID order), iq_OrderID = ord_ID order,
                  iq_CSR = csr, iq_CSRDER = ord_CSR order, iq_Identifiers = ord_Identifiers order,
                  iq_NotBefore = ord_NotBefore order, iq_NotAfter = issuedNotAfter order,
                  iq_Validations = is_Validations state, iq_Deadline = is_Deadline state,
                  iq_RecoveryOnly = (\<not> After (is_Deadline state) now), iq_Profile = ord_Profile order\<rparr>) }))"

text \<open>The call of the issuer, recorded with the store at that moment.\<close>

definition issue :: "Env \<Rightarrow> IssueRequest \<Rightarrow> (IssueResult \<times> error option) action" where
  "issue E req = host_recorded E (\<lambda>n. env_Issue E n req) (\<lambda>s a. Issued req s (fst a) (snd a))"

subsection \<open>The dispatch decision\<close>

text \<open>The loop over the challenges of an authorization.\<close>

fun evidence_loop :: "Env \<Rightarrow> Validation \<Rightarrow> string list \<Rightarrow> (error + Validation) action" where
  "evidence_loop E v [] = State_Monad.return (Inl (ErrorNew ''valid authorization has no successful challenge''))"
| "evidence_loop E v (i # ids) = do {
     r \<leftarrow> store_read E (\<lambda>ctx. get_Challenge ctx i);
     (case r of
        Inl e \<Rightarrow> State_Monad.return (Inl e)
      | Inr ch \<Rightarrow>
          if ch_Status ch = ChallengeValid
          then State_Monad.return (Inr (v\<lparr>v_Type := Some (ch_Type ch), v_Validated := ch_Validated ch\<rparr>))
          else evidence_loop E v ids) }"

definition validationEvidence :: "Env \<Rightarrow> Server \<Rightarrow> Authorization \<Rightarrow> (error + Validation) action" where
  "validationEvidence E S a =
     (let v = \<lparr>v_Identifier = orderIdentifier a, v_Type = None, v_Validated = 0, v_CACertificate = az_CACertificate a,
               v_GrantExpires = (if srv_tnAuthListOutlive S \<and> id_Type (az_Identifier a) = IdentifierTNAuthList
                                 then 0 else az_GrantExpires a),
               v_Names = az_GrantNames a, v_NFType = az_GrantNFType a, v_PreApproved = False\<rparr>
      in if az_PreApproved a
         then State_Monad.return (Inr (v\<lparr>v_PreApproved := True, v_Validated := az_CreatedAt a\<rparr>))
         else evidence_loop E v (az_ChallengeIDs a))"

text \<open>
  The deadline after one authorization: its own expiry and that of its grant.
\<close>

definition narrow_deadline :: "Authorization \<Rightarrow> time \<Rightarrow> time" where
  "narrow_deadline a deadline =
     (let d = (if Before (az_Expires a) deadline then az_Expires a else deadline)
      in if \<not> IsZero (az_GrantExpires a) \<and> Before (az_GrantExpires a) d then az_GrantExpires a else d)"

fun authorization_loop ::
    "Env \<Rightarrow> Server \<Rightarrow> time \<Rightarrow> Authorization list \<Rightarrow> IssuanceState \<Rightarrow> string list \<Rightarrow>
     (error + Problem + Authorization list \<times> IssuanceState) action" where
  "authorization_loop E S now authzs state [] = State_Monad.return (Inr (Inr (authzs, state)))"
| "authorization_loop E S now authzs state (i # ids) = do {
     r \<leftarrow> store_read E (\<lambda>ctx. get_Authorization ctx i);
     (case r of
        Inl e \<Rightarrow> State_Monad.return (Inl e)
      | Inr a \<Rightarrow>
          if effectiveAuthzStatus a now \<noteq> AuthorizationValid
          then State_Monad.return (Inr (Inl InvalidAuthorizationProblem))
          else if \<not> IsZero (az_GrantExpires a) \<and> \<not> After (az_GrantExpires a) now
          then State_Monad.return (Inr (Inl (NewProblem ErrorUnauthorized ''authority token expired before issuance dispatch'')))
          else do {
            v \<leftarrow> validationEvidence E S a;
            (case v of
               Inl e \<Rightarrow> State_Monad.return (Inl e)
             | Inr validation \<Rightarrow>
                 authorization_loop E S now (authzs @ [a])
                   (state\<lparr>is_Validations := is_Validations state @ [validation],
                          is_Deadline := narrow_deadline a (is_Deadline state)\<rparr>) ids) }) }"

definition issuanceAuthorization ::
    "Env \<Rightarrow> Server \<Rightarrow> string \<Rightarrow> Order \<Rightarrow> time \<Rightarrow> (error + Problem + Authorization list \<times> IssuanceState) action" where
  "issuanceAuthorization E S operationID order now =
     authorization_loop E S now []
       \<lparr>is_OperationID = operationID, is_AuthorizedAt = now, is_Deadline = ord_Expires order, is_Validations = []\<rparr>
       (ord_AuthorizationIDs order)"

definition dispatchSnapshot ::
    "Env \<Rightarrow> Server \<Rightarrow> Task \<Rightarrow> Order \<Rightarrow> (Authorization list \<times> Account \<times> Order) option action" where
  "dispatchSnapshot E S task order = do {
     now \<leftarrow> clock_Now E;
     (if \<not> After (ord_Expires order) now
      then do {
        _ \<leftarrow> failOrder E S task order (NewProblem ErrorUnauthorized ''order expired before issuance dispatch'');
        State_Monad.return None }
      else do {
        u \<leftarrow> store_read E (\<lambda>ctx. get_Account ctx (ord_AccountID order));
        (case u of
           Inl e \<Rightarrow> do { _ \<leftarrow> dropOnNotFound E S task e; State_Monad.return None }
         | Inr account \<Rightarrow>
             if acc_Status account \<noteq> AccountValid
             then do {
               _ \<leftarrow> failOrder E S task order (NewProblem ErrorUnauthorized ''account is no longer valid'');
               State_Monad.return None }
             else do {
               r \<leftarrow> issuanceAuthorization E S (tsk_ID task) order now;
               (case r of
                  Inl e \<Rightarrow> do { _ \<leftarrow> dropOnNotFound E S task e; State_Monad.return None }
                | Inr d \<Rightarrow>
                    (case d of
                       Inl p \<Rightarrow> do { _ \<leftarrow> failOrder E S task order p; State_Monad.return None }
                     | Inr (authzs, state) \<Rightarrow>
                         State_Monad.return (Some (authzs, account, order\<lparr>ord_Issuance := Some state\<rparr>)))) }) }) }"

definition authorizeIssuance :: "Env \<Rightarrow> IssueRequest \<Rightarrow> (error option) action" where
  "authorizeIssuance E req = host_call E (\<lambda>n. env_AuthorizeIssuance E n req)"

definition checkIssuancePolicy :: "Env \<Rightarrow> Server \<Rightarrow> Task \<Rightarrow> Order \<Rightarrow> bool action" where
  "checkIssuancePolicy E S task order = do {
     r \<leftarrow> issueRequest E S order;
     err \<leftarrow> (case r of
              Inl e \<Rightarrow> State_Monad.return (Some e)
            | Inr req \<Rightarrow> if srv_issuancePolicy S then authorizeIssuance E req else State_Monad.return None);
     (case err of
        None \<Rightarrow> State_Monad.return True
      | Some e \<Rightarrow>
          (let order' = order\<lparr>ord_Issuance := None\<rparr> in do {
             _ \<leftarrow> (case AsProblem e of
                    Some p \<Rightarrow> failOrder E S task order' p
                  | None \<Rightarrow>
                      if tsk_Attempts task < wc_MaxAttempts (srv_workers S)
                      then do { now \<leftarrow> clock_Now E; reschedule E S task now }
                      else failOrder E S task order' (NewProblem ErrorServerInternal ''issuance policy could not be evaluated''));
             State_Monad.return False })) }"

definition storeDispatch :: "Env \<Rightarrow> Server \<Rightarrow> Task \<Rightarrow> Order \<Rightarrow> Account \<Rightarrow> Authorization list \<Rightarrow> Order option action" where
  "storeDispatch E S task order account authzs = do {
     r \<leftarrow> store_write E (\<lambda>ctx. BeginIssuance ctx task order account authzs);
     (case r of
        Inr order' \<Rightarrow> State_Monad.return (Some order')
      | Inl e \<Rightarrow> do { _ \<leftarrow> do { now \<leftarrow> clock_Now E; reschedule E S task now }; State_Monad.return None }) }"

definition beginIssuance :: "Env \<Rightarrow> Server \<Rightarrow> Task \<Rightarrow> Order \<Rightarrow> Order option action" where
  "beginIssuance E S task order = do {
     d \<leftarrow> dispatchSnapshot E S task order;
     (case d of
        None \<Rightarrow> State_Monad.return None
      | Some (authzs, account, order1) \<Rightarrow> do {
          ok \<leftarrow> checkIssuancePolicy E S task order1;
          (if \<not> ok then State_Monad.return None
           else do {
             now \<leftarrow> clock_Now E;
             (if (case ord_Issuance order1 of None \<Rightarrow> True | Some state \<Rightarrow> \<not> After (is_Deadline state) now)
              then do {
                _ \<leftarrow> failOrder E S task (order1\<lparr>ord_Issuance := None\<rparr>)
                      (NewProblem ErrorUnauthorized ''authorization expired before issuance dispatch'');
                State_Monad.return None }
              else storeDispatch E S task order1 account authzs) }) }) }"

subsection \<open>The run of an issuance task\<close>

text \<open>
  The Go code dereferences \<^verbatim>\<open>order.Issuance\<close> from here on.  The pointer is not nil: \<open>runIssuance\<close> goes on only with an
  order whose dispatch is recorded, and \<open>dispatchSnapshot\<close> returns an order only with the state it proposes.  The
  equations for \<^const>\<open>None\<close> are therefore never reached.
\<close>

definition issued_certificate :: "Env \<Rightarrow> Order \<Rightarrow> IssueResult \<Rightarrow> Leaf \<Rightarrow> time \<Rightarrow> Certificate" where
  "issued_certificate E order result leaf now =
     \<lparr>crt_ID = certificateID (env_sha256 E) (hd (ir_Chain result)), crt_AccountID = ord_AccountID order,
      crt_OrderID = ord_ID order, crt_CAReference = ir_CAReference result, crt_Chain = ir_Chain result,
      crt_NotBefore = lf_NotBefore leaf, crt_NotAfter = lf_NotAfter leaf, crt_Revoked = False, crt_RevokedAt = 0,
      crt_RevocationReason = 0, crt_RevocationOperationID = [], crt_RevocationRequestedAt = 0,
      crt_RenewalID = renewalID (lf_AuthorityKeyId leaf) (lf_SerialNumber leaf), crt_ReplacedByOrderID = [],
      crt_Validations = (case ord_Issuance order of None \<Rightarrow> [] | Some state \<Rightarrow> is_Validations state),
      crt_CreatedAt = now, crt_Revision = 0\<rparr>"

definition recordIssuedResult ::
    "Env \<Rightarrow> Server \<Rightarrow> Task \<Rightarrow> Order \<Rightarrow> CSR \<Rightarrow> IssueResult \<Rightarrow> time \<Rightarrow> error option \<Rightarrow> unit action" where
  "recordIssuedResult E S task order csr result now issueErr =
     (case checkChain (env_X509 E) (env_Names E) (ir_Chain result) csr order now of
        Inl _ \<Rightarrow>
          failOrder E S task (order\<lparr>ord_UnpublishedResult := Some result\<rparr>)
            (NewProblem ErrorServerInternal ''issuer returned an unacceptable certificate'')
      | Inr leaf \<Rightarrow>
          if issueErr \<noteq> None \<or> ir_Pending result \<or> ir_Rejected result \<noteq> None
          then failOrder E S task (order\<lparr>ord_UnpublishedResult := Some result\<rparr>)
                 (NewProblem ErrorServerInternal ''issuer returned an unacceptable certificate'')
          else
            (let cert = issued_certificate E order result leaf now;
                 order1 = order\<lparr>ord_Status := OrderValid, ord_CertificateID := crt_ID cert, ord_Error := None\<rparr>
             in do {
               r \<leftarrow> completeIssuance E task order1 (Some cert);
               (case r of
                  Inl e \<Rightarrow>
                    if errors_Is e ErrConflict
                    then failOrder E S task
                           (order1\<lparr>ord_UnpublishedResult := Some result, ord_CertificateID := []\<rparr>)
                           (NewProblem ErrorServerInternal ''issuer returned a duplicate certificate'')
                    else handleIssuanceCommit E S task r
                | Inr _ \<Rightarrow> handleIssuanceCommit E S task r) }))"

definition issuanceOrder :: "Env \<Rightarrow> Server \<Rightarrow> Task \<Rightarrow> Order option action" where
  "issuanceOrder E S task = do {
     r \<leftarrow> store_read E (\<lambda>ctx. get_Order ctx (tsk_TargetID task));
     (case r of
        Inl e \<Rightarrow> do { _ \<leftarrow> dropOnNotFound E S task e; State_Monad.return None }
      | Inr order \<Rightarrow>
          if ord_Status order \<noteq> OrderProcessing
          then do { _ \<leftarrow> finishTask E task; State_Monad.return None }
          else State_Monad.return (Some order)) }"

text \<open>What follows the answer of the issuer.\<close>

definition conclude_issuance ::
    "Env \<Rightarrow> Server \<Rightarrow> Task \<Rightarrow> Order \<Rightarrow> IssueRequest \<Rightarrow> IssueResult \<times> error option \<Rightarrow> unit action" where
  "conclude_issuance E S task order req answer = do {
     now \<leftarrow> clock_Now E;
     (let result = fst answer; err = snd answer in
      if ir_Chain result \<noteq> [] then recordIssuedResult E S task order (iq_CSR req) result now err
      else if err \<noteq> None then reschedule E S task now
      else (case ir_Rejected result of
              Some p \<Rightarrow> if \<not> ir_Pending result then failOrder E S task order p else reschedule E S task now
            | None \<Rightarrow>
                if ir_Pending result
                then storeReschedule E (task\<lparr>tsk_RunAt :=
                       now + max (ir_RetryAfter result) (wc_PollInterval (srv_workers S))\<rparr>)
                else reschedule E S task now)) }"

definition runIssuance :: "Env \<Rightarrow> Server \<Rightarrow> Task \<Rightarrow> unit action" where
  "runIssuance E S task = do {
     t \<leftarrow> issuanceOrder E S task;
     (case t of
        None \<Rightarrow> State_Monad.return ()
      | Some order0 \<Rightarrow> do {
          d \<leftarrow> (if ord_Issuance order0 = None then beginIssuance E S task order0 else State_Monad.return (Some order0));
          (case d of
             None \<Rightarrow> State_Monad.return ()
           | Some order \<Rightarrow> do {
               r \<leftarrow> issueRequest E S order;
               (case r of
                  Inl e \<Rightarrow> do { now \<leftarrow> clock_Now E; reschedule E S task now }
                | Inr req \<Rightarrow> do {
                    answer \<leftarrow> issue E req;
                    conclude_issuance E S task order req answer }) }) }) }"

subsection \<open>Running a task\<close>

definition process :: "Env \<Rightarrow> Server \<Rightarrow> Task \<Rightarrow> unit action" where
  "process E S task =
     (case tsk_Kind task of
        TaskValidate \<Rightarrow> runValidation E S task
      | TaskIssue \<Rightarrow> runIssuance E S task
      | TaskKindOther _ \<Rightarrow> finishTask E task)"

text \<open>One turn of the loop of \<^verbatim>\<open>Run\<close>: claim a task and, when there is one, process it.\<close>

definition run_once :: "Env \<Rightarrow> Server \<Rightarrow> unit action" where
  "run_once E S = do {
     now \<leftarrow> clock_Now E;
     r \<leftarrow> store_write E (\<lambda>ctx. ClaimTask ctx now (now + wc_Lease (srv_workers S)));
     (case r of
        Inl e \<Rightarrow> State_Monad.return ()
      | Inr task \<Rightarrow> process E S task) }"

end
