(* ===== verification/Issuance_Safety.thy ===== *)
theory Issuance_Safety
  imports Worker_Safety Acme_Issuance
begin

section \<open>The issuance worker is safe among others\<close>

text \<open>
  The triples of the actions of \<^theory_text>\<open>Acme_Issuance\<close>, up to one turn of the worker loop: whatever the requests and the other
  workers do to the store in between, the issuer is asked only for committed dispatches, an order becomes valid only with a
  chain that was checked, and no processing order loses its task.
\<close>

text \<open>The order of a claimed issuance task, as it was read.\<close>

definition in_process :: "naming \<Rightarrow> Task \<Rightarrow> Order \<Rightarrow> World \<Rightarrow> bool" where
  "in_process G t v w \<longleftrightarrow> named G t \<and> tsk_Kind t = TaskIssue \<and> tsk_TargetID t = ord_ID v \<and>
     ord_Status v = OrderProcessing \<and> saw_order G v w"

lemma stable_in_process [stable_intros]: "stable G (in_process G t v)"
  unfolding in_process_def by (intro stable_intros)

text \<open>A chain the issuer returned for the order and \<open>checkChain\<close> accepted.\<close>

definition backed :: "Env \<Rightarrow> Order \<Rightarrow> Certificate \<Rightarrow> World \<Rightarrow> bool" where
  "backed E v crt w \<longleftrightarrow>
     (\<exists>req u res now leaf. Issued req u res None \<in> set (w_events w) \<and> iq_OrderID req = ord_ID v \<and>
        checkChain (env_X509 E) (env_Names E) (ir_Chain res) (iq_CSR req) v now = Inr leaf \<and> crt_Chain crt = ir_Chain res)"

lemma stable_backed [stable_intros]: "stable G (backed E v crt)"
  unfolding backed_def by (intro stable_intros)

text \<open>The outcomes an issuance worker commits.\<close>

definition outcome :: "Env \<Rightarrow> Order \<Rightarrow> Order \<Rightarrow> Certificate option \<Rightarrow> World \<Rightarrow> bool" where
  "outcome E v v' cert w \<longleftrightarrow> order_le v v' \<and> ord_Revision v' = ord_Revision v \<and>
     (case cert of None \<Rightarrow> ord_Status v' = OrderInvalid
      | Some crt \<Rightarrow> ord_Status v' = OrderValid \<and> crt_ID crt = ord_CertificateID v' \<and> crt_OrderID crt = ord_ID v' \<and> backed E v crt w)"

lemma outcome_step:
  assumes w: "good E G w" and v: "in_process G t v w" and out: "outcome E v v' cert w"
    and run: "CompleteIssuance ctx t v' cert (w_store w) = Inr (x, s')"
  shows "proto G (w_store w) s' \<and> proved (w_events w) (w_store w) s' \<and> published E (w_events w) (w_store w) s'"
proof -
  let ?s = "w_store w"
  have le: "order_le v v'" "ord_Revision v' = ord_Revision v" "ord_ID v' = ord_ID v"
    using out by (simp_all add: outcome_def order_le_def)
  have name: "G (tsk_ID t) = (TaskIssue, ord_ID v')"
    using v le(3) by (simp add: in_process_def named_def)
  have saw: "saw_order G v w" using v unfolding in_process_def by blast
  have same: "u = v" if "st_orders ?s (ord_ID v') = Some u" "ord_Revision u = ord_Revision v'" for u
    using saw_same(1) [OF w saw] that le by simp
  from run obtain u s1 where u: "st_orders ?s (ord_ID v') = Some u" "ord_Revision u = ord_Revision v'"
    and s': "s' = removeTask (tsk_ID t) (put_order (bump_order v') s1)"
    and s1: "(case cert of None \<Rightarrow> Inr ?s | Some c \<Rightarrow> store_certificate c ?s) = Inr s1"
    by (auto simp: CompleteIssuance_Inr)
  have "st_orders s1 = st_orders ?s" "st_authzs s1 = st_authzs ?s"
    using s1 store_certificate_Inr(4) by (cases cert; fastforce)+
  then have tables: "st_orders s' = (st_orders ?s)(ord_ID v' \<mapsto> bump_order v')" "st_authzs s' = st_authzs ?s"
    "st_certificates s' = st_certificates s1"
    by (simp_all add: s')
  have cert: "case cert of None \<Rightarrow> ord_Status v' = OrderInvalid
      | Some c \<Rightarrow> ord_Status v' = OrderValid \<and> crt_ID c = ord_CertificateID v' \<and> crt_OrderID c = ord_ID v'"
    using out by (auto simp: outcome_def split: option.splits)
  have "proto G ?s s'"
    using run by (rule proto_CompleteIssuance) (use same le(1) cert name in blast)+
  moreover have "proved (w_events w) ?s s'" by (rule proved_same) (simp add: tables)
  moreover have "published E (w_events w) ?s s'"
    unfolding published_def
  proof (intro allI impI)
    fix i y y'
    assume y: "st_orders ?s i = Some y" "st_orders s' i = Some y'" "ord_Status y \<noteq> OrderValid" "ord_Status y' = OrderValid"
    then have i: "i = ord_ID v'" "y' = bump_order v'" "y = v"
      using same [OF u] u(1) by (auto simp: tables split: if_splits)
    with y(4) out obtain crt where crt: "cert = Some crt" "crt_ID crt = ord_CertificateID v'" "backed E v crt w"
      by (auto simp: outcome_def split: option.splits)
    have "\<exists>c. st_certificates s' (ord_CertificateID y') = Some c \<and> crt_Chain c = crt_Chain crt"
      using s1 crt(1,2) by (auto simp: tables i(2) store_certificate_def Let_def split: if_splits)
    then show "\<exists>req u res now leaf crt. Issued req u res None \<in> set (w_events w) \<and> iq_OrderID req = i \<and>
        checkChain (env_X509 E) (env_Names E) (ir_Chain res) (iq_CSR req) y now = Inr leaf \<and>
        st_certificates s' (ord_CertificateID y') = Some crt \<and> crt_Chain crt = ir_Chain res"
      using crt(3) i(1,3) le(3) unfolding backed_def by metis
  qed
  ultimately show ?thesis by blast
qed

lemma outcome_refusal:
  "ord_Status v = OrderProcessing \<Longrightarrow>
   v' = v\<lparr>ord_Status := OrderInvalid, ord_CertificateID := c, ord_Error := p, ord_UnpublishedResult := r\<rparr> \<Longrightarrow>
   outcome E v v' None w"
  by (simp add: outcome_def order_le_def order_closure order_Terminal_def)

text \<open>What the worker sends to the issuer is what was committed with the order, and stays so.\<close>

definition request_of :: "Env \<Rightarrow> Order \<Rightarrow> IssueRequest \<Rightarrow> bool" where
  "request_of E v req \<longleftrightarrow> iq_OrderID req = ord_ID v \<and>
     (\<exists>st. ord_Issuance v = Some st \<and> iq_OperationID req = is_OperationID st \<and> iq_Validations req = is_Validations st \<and>
        iq_Deadline req = is_Deadline st) \<and>
     iq_CSRDER req = ord_CSR v \<and> x5_ParseCSR (env_X509 E) (ord_CSR v) = Some (iq_CSR req) \<and>
     iq_Identifiers req = ord_Identifiers v \<and> iq_AccountID req = ord_AccountID v \<and>
     iq_NotBefore req = ord_NotBefore v \<and> iq_NotAfter req = issuedNotAfter v \<and> iq_Profile req = ord_Profile v"

lemma request_dispatched:
  assumes w: "good E G w" and v: "in_process G t v w" and req: "request_of E v req"
  shows "dispatched E req (w_store w)"
proof -
  have saw: "saw_order G v w" "ord_Status v = OrderProcessing" using v unfolding in_process_def by blast+
  obtain v' where v': "st_orders (w_store w) (ord_ID v) = Some v'" "order_le v v'"
    using saw_order_now [OF w saw(1)] by blast
  obtain st where st: "ord_Issuance v = Some st" using req by (auto simp: request_of_def)
  have eq: "ord_Issuance v' = Some st" "ord_CSR v' = ord_CSR v" "ord_Identifiers v' = ord_Identifiers v"
    "ord_AccountID v' = ord_AccountID v" "ord_NotBefore v' = ord_NotBefore v" "ord_NotAfter v' = ord_NotAfter v"
    "ord_Profile v' = ord_Profile v"
    using v'(2) st saw(2) by (simp_all add: order_le_def)
  then have "issuedNotAfter v' = issuedNotAfter v" by (simp add: issuedNotAfter_def st Let_def)
  moreover have "ord_Status v' \<notin> {OrderPending, OrderReady}"
    using v'(2) saw(2) order_past unfolding order_le_def by (metis OrderStatus.distinct insertE singletonD)
  ultimately show ?thesis using eq v'(1) st req by (auto simp: dispatched_def request_of_def)
qed

text \<open>The challenges of a valid authorization, one of which is known to have succeeded.\<close>

definition valid_among :: "naming \<Rightarrow> string list \<Rightarrow> World \<Rightarrow> bool" where
  "valid_among G ids = seen G (\<lambda>s. (\<forall>j\<in>set ids. st_challenges s j \<noteq> None) \<and>
     (\<exists>j\<in>set ids. \<exists>c. st_challenges s j = Some c \<and> ch_Status c = ChallengeValid))"

lemma stable_valid_among [stable_intros]: "stable G (valid_among G ids)"
  unfolding valid_among_def by (rule stable_seen)

lemma valid_among_now:
  assumes "good E G w" "valid_among G ids w"
  shows "\<forall>j\<in>set ids. st_challenges (w_store w) j \<noteq> None"
    "\<exists>j\<in>set ids. \<exists>c. st_challenges (w_store w) j = Some c \<and> ch_Status c = ChallengeValid"
proof -
  from assms(2) obtain s where s: "healthy G s" "proto G s (w_store w)" "\<forall>j\<in>set ids. st_challenges s j \<noteq> None"
    "\<exists>j\<in>set ids. \<exists>c. st_challenges s j = Some c \<and> ch_Status c = ChallengeValid"
    unfolding valid_among_def seen_def by blast
  have step: "\<exists>c'. st_challenges (w_store w) j = Some c' \<and> (ch_Status c = ChallengeValid \<longrightarrow> ch_Status c' = ChallengeValid)"
    if c: "st_challenges s j = Some c" for j c
  proof -
    obtain c' where c': "st_challenges (w_store w) j = Some c'" "challenge_le c c'"
      using proto_challenge [OF s(2,1) c] by blast
    then have "challenge_CanTransition\<^sup>*\<^sup>* (ch_Status c) (ch_Status c')" by (simp add: challenge_le_def)
    with c'(1) show ?thesis by (auto simp: challenge_closure)
  qed
  show "\<forall>j\<in>set ids. st_challenges (w_store w) j \<noteq> None"
  proof
    fix j
    assume "j \<in> set ids"
    then obtain c where "st_challenges s j = Some c" using s(3) by blast
    from step [OF this] show "st_challenges (w_store w) j \<noteq> None" by auto
  qed
  from s(4) step show "\<exists>j\<in>set ids. \<exists>c. st_challenges (w_store w) j = Some c \<and> ch_Status c = ChallengeValid" by blast
qed

lemma valid_among_tail:
  assumes "good E G w" "valid_among G (i # ids) w" "st_challenges (w_store w) i = Some c" "ch_Status c \<noteq> ChallengeValid"
  shows "valid_among G ids w"
  unfolding valid_among_def
proof (rule seen_now)
  show "healthy G (w_store w)" using assms(1) by (simp add: good_def)
  show "(\<forall>j\<in>set ids. st_challenges (w_store w) j \<noteq> None) \<and>
      (\<exists>j\<in>set ids. \<exists>c. st_challenges (w_store w) j = Some c \<and> ch_Status c = ChallengeValid)"
    using valid_among_now [OF assms(1,2)] assms(3,4) by auto
qed

lemma valid_among_authz:
  assumes "good E G w" "st_authzs (w_store w) i = Some a" "az_Status a = AuthorizationValid" "\<not> az_PreApproved a"
  shows "valid_among G (az_ChallengeIDs a) w"
  unfolding valid_among_def
proof (rule seen_now)
  show h: "healthy G (w_store w)" using assms(1) by (simp add: good_def)
  show "(\<forall>j\<in>set (az_ChallengeIDs a). st_challenges (w_store w) j \<noteq> None) \<and>
      (\<exists>j\<in>set (az_ChallengeIDs a). \<exists>c. st_challenges (w_store w) j = Some c \<and> ch_Status c = ChallengeValid)"
    using linkedD(2) [OF healthy_linked [OF h] assms(2)] assms(3,4) by (fastforce simp: authz_linked_def)
qed

text \<open>The account and the authorizations of an order that was read exist.\<close>

lemma order_exists:
  assumes "good E G w" "saw_order G v w"
  shows "st_accounts (w_store w) (ord_AccountID v) \<noteq> None"
    "\<forall>j \<in> set (ord_AuthorizationIDs v). st_authzs (w_store w) j \<noteq> None"
proof -
  have l: "linked G (w_store w)" using assms(1) by (simp add: good_def healthy_def)
  obtain v' where v': "st_orders (w_store w) (ord_ID v) = Some v'" "order_le v v'"
    using saw_order_now [OF assms] by blast
  have eq: "ord_AccountID v' = ord_AccountID v" "ord_AuthorizationIDs v' = ord_AuthorizationIDs v"
    using v'(2) by (simp_all add: order_le_def)
  from linkedD(3) [OF l v'(1)] show "st_accounts (w_store w) (ord_AccountID v) \<noteq> None"
    "\<forall>j \<in> set (ord_AuthorizationIDs v). st_authzs (w_store w) j \<noteq> None"
    by (auto simp: order_linked_def eq)
qed

text \<open>Going on with a result of which only the error says something.\<close>

lemma bind_checked:
  assumes "spec E G P m (\<lambda>r _. case r of Inl e \<Rightarrow> b e | Inr v \<Rightarrow> True)" "stable G P"
    and f: "\<And>e. b e \<Longrightarrow> spec E G P (f e) R" and g: "\<And>v. spec E G P (g v) R"
  shows "spec E G P (State_Monad.bind m (case_sum f g)) R"
  using assms(1,2)
proof (rule spec_bind, intro spec_pure)
  show "spec E G P (case_sum f g r) R" if "case r of Inl e \<Rightarrow> b e | Inr v \<Rightarrow> True" for r
    using that f g by (cases r) simp_all
qed

context world
begin

subsection \<open>Committing an outcome\<close>

lemma completeIssuance_spec:
  assumes P: "stable G P" and v: "\<And>w. P w \<Longrightarrow> in_process G t v w" and out: "\<And>w. P w \<Longrightarrow> outcome E v v' cert w"
  shows "spec E G P (completeIssuance E t v' cert) (\<lambda>_ _. True)"
  unfolding completeIssuance_def
  using P by (rule spec_write) (use outcome_step v out in blast)+

lemma handleIssuanceCommit_spec: "stable G P \<Longrightarrow> spec E G P (handleIssuanceCommit E S t r) (\<lambda>_ _. True)"
  unfolding handleIssuanceCommit_def by (intro spec_sum reschedule_now_spec spec_return TrueI)

lemma failOrder_spec:
  assumes P: "stable G P" and v: "\<And>w. P w \<Longrightarrow> in_process G t v w"
    and v': "v'\<lparr>ord_Status := OrderInvalid, ord_Error := Some p\<rparr> =
      v\<lparr>ord_Status := OrderInvalid, ord_CertificateID := c, ord_Error := Some p, ord_UnpublishedResult := r\<rparr>"
  shows "spec E G P (failOrder E S t v' p) (\<lambda>_ _. True)"
  unfolding failOrder_def v'
proof (rule spec_fact)
  show "ord_Status v = OrderProcessing" if "P w" for w
    using v [OF that] by (simp add: in_process_def)
  assume "ord_Status v = OrderProcessing"
  note out = outcome_refusal [OF this refl]
  show "spec E G P (do { y \<leftarrow> completeIssuance E t (v\<lparr>ord_Status := OrderInvalid, ord_CertificateID := c, ord_Error := Some p,
      ord_UnpublishedResult := r\<rparr>) None; handleIssuanceCommit E S t y }) (\<lambda>_ _. True)"
    by (rule bind_unit [OF completeIssuance_spec [OF P v out] P handleIssuanceCommit_spec [OF P]]) assumption
qed

lemma fail_here_spec:
  "stable G P \<Longrightarrow> (\<And>w. P w \<Longrightarrow> in_process G t v w) \<Longrightarrow> spec E G P (failOrder E S t v p) (\<lambda>_ _. True)"
  by (rule failOrder_spec [where v = v and c = "ord_CertificateID v" and r = "ord_UnpublishedResult v"]) (assumption, blast, cases v, simp)

subsection \<open>The dispatch\<close>

lemma evidence_read_spec:
  assumes P: "stable G P" and v: "\<And>w. P w \<Longrightarrow> valid_among G (i # ids) w"
  shows "spec E G P (store_read E (\<lambda>ctx. get_Challenge ctx i))
    (\<lambda>r w. case r of Inl e \<Rightarrow> context_error e | Inr c \<Rightarrow> ch_Status c = ChallengeValid \<or> valid_among G ids w)"
  using P
proof (rule spec_read)
  fix n w
  assume w: "good E G w" "P w"
  show "case get_Challenge (env_ctx E n) i (w_store w) of Inl e \<Rightarrow> context_error e
      | Inr c \<Rightarrow> ch_Status c = ChallengeValid \<or> valid_among G ids w"
    using valid_among_now(1) [OF w(1) v [OF w(2)]] valid_among_tail [OF w(1) v [OF w(2)]] ctx_error [of n]
    by (cases "env_ctx E n") (auto simp: get_Challenge_def with_ctx_def split: option.splits)
qed

lemma evidence_loop_spec:
  assumes "stable G P" "\<And>w. P w \<Longrightarrow> valid_among G ids w"
  shows "spec E G P (evidence_loop E v ids) (\<lambda>r _. case r of Inl e \<Rightarrow> context_error e | Inr v' \<Rightarrow> True)"
  using assms
proof (induction ids arbitrary: P)
  case Nil
  have "False" if "good E G w" "P w" for w
    using valid_among_now(2) [OF that(1) Nil(2) [OF that(2)]] by simp
  then show ?case by (auto intro: spec_return)
next
  case (Cons i ids)
  have "spec E G (\<lambda>w. P w \<and> valid_among G ids w) (evidence_loop E v ids)
      (\<lambda>r _. case r of Inl e \<Rightarrow> context_error e | Inr v' \<Rightarrow> True)"
    by (intro Cons.IH stable_intros Cons.prems) auto
  then show ?case
    unfolding evidence_loop.simps
    by (intro spec_bind [OF evidence_read_spec [OF Cons.prems] Cons.prems(1)] spec_splits)
      (auto intro: spec_return)
qed

lemma validationEvidence_spec:
  assumes "stable G P" "\<And>w. P w \<Longrightarrow> az_PreApproved a \<or> valid_among G (az_ChallengeIDs a) w"
  shows "spec E G P (validationEvidence E S a) (\<lambda>r _. case r of Inl e \<Rightarrow> context_error e | Inr v' \<Rightarrow> True)"
  unfolding validationEvidence_def
  by (intro spec_Let spec_if evidence_loop_spec assms(1)) (use assms(2) in \<open>auto intro: spec_return\<close>)

lemma authorization_read_spec:
  assumes P: "stable G P" and i: "\<And>w. good E G w \<Longrightarrow> P w \<Longrightarrow> st_authzs (w_store w) i \<noteq> None"
  shows "spec E G P (store_read E (\<lambda>ctx. get_Authorization ctx i))
    (\<lambda>r w. case r of Inl e \<Rightarrow> context_error e | Inr a \<Rightarrow> az_Status a = AuthorizationValid \<longrightarrow> az_PreApproved a \<or> valid_among G (az_ChallengeIDs a) w)"
  using P
proof (rule spec_read)
  fix n w
  assume w: "good E G w" "P w"
  show "case get_Authorization (env_ctx E n) i (w_store w) of Inl e \<Rightarrow> context_error e
      | Inr a \<Rightarrow> az_Status a = AuthorizationValid \<longrightarrow> az_PreApproved a \<or> valid_among G (az_ChallengeIDs a) w"
    using i [OF w] valid_among_authz [OF w(1)] ctx_error [of n]
    by (cases "env_ctx E n") (auto simp: get_Authorization_def with_ctx_def split: option.splits)
qed

lemma authorization_loop_spec:
  assumes "stable G P" "\<And>w j. good E G w \<Longrightarrow> P w \<Longrightarrow> j \<in> set ids \<Longrightarrow> st_authzs (w_store w) j \<noteq> None"
  shows "spec E G P (authorization_loop E S now as st ids) (\<lambda>r _. case r of Inl e \<Rightarrow> context_error e | Inr d \<Rightarrow> True)"
  using assms
proof (induction ids arbitrary: as st P)
  case Nil
  then show ?case by (auto intro: spec_return)
next
  case (Cons i ids)
  let ?Q = "\<lambda>a w. az_Status a = AuthorizationValid \<longrightarrow> az_PreApproved a \<or> valid_among G (az_ChallengeIDs a) w"
  have i: "st_authzs (w_store w) i \<noteq> None" if "good E G w" "P w" for w
    using Cons.prems(2) that by simp
  have P1: "stable G (\<lambda>w. P w \<and> ?Q a w)" for a by (intro stable_intros Cons.prems(1))
  have evidence: "spec E G (\<lambda>w. P w \<and> ?Q a w) (validationEvidence E S a)
      (\<lambda>r _. case r of Inl e \<Rightarrow> context_error e | Inr v \<Rightarrow> True)"
    if "\<not> effectiveAuthzStatus a now \<noteq> AuthorizationValid" for a
    using that by (intro validationEvidence_spec P1) (auto simp: effectiveAuthzStatus_def split: if_splits)
  have loop: "spec E G (\<lambda>w. P w \<and> ?Q a w) (authorization_loop E S now as' st' ids)
      (\<lambda>r _. case r of Inl e \<Rightarrow> context_error e | Inr d \<Rightarrow> True)" for a as' st'
    using Cons.prems(2) by (intro Cons.IH P1) auto
  have rest: "spec E G (\<lambda>w. P w \<and> ?Q a w) (do {
            v \<leftarrow> validationEvidence E S a;
            (case v of
               Inl e \<Rightarrow> State_Monad.return (Inl e)
             | Inr validation \<Rightarrow>
                 authorization_loop E S now (as @ [a])
                   (st\<lparr>is_Validations := is_Validations st @ [validation],
                          is_Deadline := narrow_deadline a (is_Deadline st)\<rparr>) ids) })
      (\<lambda>r _. case r of Inl e \<Rightarrow> context_error e | Inr d \<Rightarrow> True)"
    if "\<not> effectiveAuthzStatus a now \<noteq> AuthorizationValid" for a
    using evidence [OF that] P1 by (rule bind_checked) (auto intro: spec_return loop)
  show ?case
    unfolding authorization_loop.simps
    apply (rule spec_bind [OF authorization_read_spec [OF Cons.prems(1) i] Cons.prems(1)], assumption+)
    subgoal for r by (cases r) (auto intro!: spec_return spec_if rest)
    done
qed

lemma drop_context_spec:
  "stable G P \<Longrightarrow> context_error e \<Longrightarrow> spec E G P (do { _ \<leftarrow> dropOnNotFound E S t e; State_Monad.return x }) (\<lambda>y _. y = x)"
  by (rule drop_existing_spec) (auto simp: context_error_def)

lemma fail_and_stop_spec:
  "stable G P \<Longrightarrow> (\<And>w. P w \<Longrightarrow> in_process G t v w) \<Longrightarrow>
   spec E G P (do { _ \<leftarrow> failOrder E S t v p; State_Monad.return x }) (\<lambda>y _. y = x)"
  by (rule spec_ignore [OF fail_here_spec])

lemma dispatchSnapshot_spec:
  assumes P: "stable G P" and v: "\<And>w. P w \<Longrightarrow> in_process G t v w"
  shows "spec E G P (dispatchSnapshot E S t v)
    (\<lambda>r _. case r of None \<Rightarrow> True | Some (as, acc, v1) \<Rightarrow> \<exists>st. v1 = v\<lparr>ord_Issuance := Some st\<rparr>)"
  (is "spec E G P _ ?R")
proof -
  have stop: "spec E G Q m ?R" if "spec E G Q m (\<lambda>y _. y = None)" for Q m
    using that by (rule spec_conseq) auto
  have saw: "saw_order G v w" if "P w" for w using v [OF that] unfolding in_process_def by blast
  have missing: "\<not> at_read E G P (\<lambda>s. st_accounts s (ord_AccountID v) = None)"
    using order_exists(1) saw unfolding at_read_def by blast
  have P1: "stable G (\<lambda>w. P w \<and> saw_account G u w)" for u by (intro stable_intros P)
  have auth: "spec E G (\<lambda>w. P w \<and> saw_account G u w) (issuanceAuthorization E S (tsk_ID t) v now)
      (\<lambda>r _. case r of Inl e \<Rightarrow> context_error e | Inr d \<Rightarrow> True)" for u now
    unfolding issuanceAuthorization_def
    using order_exists(2) saw by (intro authorization_loop_spec P1) blast
  show ?thesis
    unfolding dispatchSnapshot_def
    apply (rule bind_now [OF P], rule spec_if)
    subgoal by (rule stop, rule fail_and_stop_spec [OF P v])
    apply (rule bind_Account [OF P P])
    subgoal by (rule stop, rule drop_existing_spec [OF P]) (use missing in blast)
    apply (rule spec_if)
    subgoal by (rule stop, rule fail_and_stop_spec [OF P1]) (use v in blast)
    apply (rule bind_checked [OF auth P1])
    subgoal by (rule stop, rule drop_context_spec [OF P1])
    apply (rule spec_sum)
    subgoal by (rule stop, rule fail_and_stop_spec [OF P1]) (use v in blast)
    apply (rule spec_prod, rule spec_return)
    by auto
qed

lemma issueRequest_spec:
  assumes "stable G P"
  shows "spec E G P (issueRequest E S v) (\<lambda>r _. case r of Inl e \<Rightarrow> True | Inr req \<Rightarrow> request_of E v req)"
  unfolding issueRequest_def
  by (intro spec_splits bind_now assms spec_return) (auto simp: request_of_def)

lemma checkIssuancePolicy_spec:
  assumes P: "stable G P" and v: "\<And>w. P w \<Longrightarrow> in_process G t v w" and v1: "v1\<lparr>ord_Issuance := None\<rparr> = v"
  shows "spec E G P (checkIssuancePolicy E S t v1) (\<lambda>_ _. True)"
proof -
  have ask: "spec E G P (case r of Inl e \<Rightarrow> State_Monad.return (Some e)
      | Inr req \<Rightarrow> if srv_issuancePolicy S then authorizeIssuance E req else State_Monad.return None) (\<lambda>_ _. True)" for r
    unfolding authorizeIssuance_def
    by (intro spec_splits spec_return spec_True [OF spec_host] TrueI)
  note fail = fail_here_spec [OF P v]
  show ?thesis
    unfolding checkIssuancePolicy_def Let_def v1
    by (intro bind_unit [OF spec_True [OF issueRequest_spec [OF P]] P] bind_unit [OF ask P] spec_option spec_return TrueI
        spec_True [OF spec_ignore [OF _ P]] spec_if fail reschedule_now_spec [OF P])
qed

lemma storeDispatch_spec:
  assumes P: "stable G P" and v: "\<And>w. P w \<Longrightarrow> in_process G t v w" and none: "ord_Issuance v = None"
    and v1: "v1 = v\<lparr>ord_Issuance := Some st\<rparr>"
  shows "spec E G P (storeDispatch E S t v1 acc as)
    (\<lambda>r w. case r of None \<Rightarrow> True | Some v' \<Rightarrow> in_process G t v' w)"
proof -
  have "spec E G P (store_write E (\<lambda>ctx. BeginIssuance ctx t v1 acc as))
      (\<lambda>r w. case r of Inl e \<Rightarrow> True | Inr v' \<Rightarrow> in_process G t v' w)"
    using P
  proof (rule spec_write)
    fix n w x s'
    assume w: "good E G w" "P w" and r: "BeginIssuance (env_ctx E n) t v1 acc as (w_store w) = Inr (x, s')"
    have x: "x = bump_order v1" "s' = put_order x (w_store w)" using r by (rule BeginIssuance_Inr; blast)+
    have v: "in_process G t v w" using v w(2) .
    then have saw: "saw_order G v w" "ord_Status v = OrderProcessing" unfolding in_process_def by blast+
    have same: "u = v" if "st_orders (w_store w) (ord_ID v1) = Some u" "ord_Revision u = ord_Revision v1" for u
      using saw_same(1) [OF w(1) saw(1)] that by (simp add: v1)
    have "order_le v v1 \<and> ord_Status v1 = ord_Status v"
      using none saw(2) by (simp add: v1 order_le_def order_Terminal_def)
    with same have proto: "proto G (w_store w) s'"
      by (intro proto_BeginIssuance [OF r]) blast
    moreover have "published E (w_events w) (w_store w) s'"
      using saw(2) by (auto simp: published_def x put_order_def v1 split: if_splits)
    ultimately show "proto G (w_store w) s' \<and> proved (w_events w) (w_store w) s' \<and> published E (w_events w) (w_store w) s'"
      by (auto simp: x intro: proved_same)
    show "case Inr x of Inl e \<Rightarrow> True | Inr v' \<Rightarrow> in_process G t v' w'" if "good E G w'" "w_store w' = s'" for w'
    proof -
      have "saw_order G x w'"
        by (rule seen_now [OF good_healthy [OF that(1)]]) (simp add: that(2) x put_order_def)
      then show ?thesis using v by (simp add: in_process_def x(1) v1)
    qed
  qed simp
  then show ?thesis
    unfolding storeDispatch_def
    apply (rule bind_write [OF _ P])
    subgoal by (rule spec_conseq [OF spec_ignore [OF reschedule_now_spec [OF P] P]]) simp_all
    by (rule spec_return) simp
qed

lemma beginIssuance_spec:
  assumes P: "stable G P" and v: "\<And>w. P w \<Longrightarrow> in_process G t v w" and none: "ord_Issuance v = None"
  shows "spec E G P (beginIssuance E S t v) (\<lambda>r w. case r of None \<Rightarrow> True | Some v' \<Rightarrow> in_process G t v' w)"
  unfolding beginIssuance_def
  apply (rule spec_bind [OF dispatchSnapshot_spec [OF P v] P], assumption, rule spec_option)
  subgoal by (rule spec_return) simp
  subgoal for d y
    apply (cases y rule: prod_cases3, simp only: option.case prod.case)
    subgoal premises d for as acc v1
    proof (rule spec_pure)
      assume "\<exists>st. v1 = v\<lparr>ord_Issuance := Some st\<rparr>"
      then obtain st where v1: "v1 = v\<lparr>ord_Issuance := Some st\<rparr>" by blast
      have undo: "v1\<lparr>ord_Issuance := None\<rparr> = v" using none by (cases v) (simp add: v1)
      show "spec E G P (do {
          ok \<leftarrow> checkIssuancePolicy E S t v1;
          (if \<not> ok then State_Monad.return None
           else do {
             now \<leftarrow> clock_Now E;
             (if (case ord_Issuance v1 of None \<Rightarrow> True | Some state \<Rightarrow> \<not> After (is_Deadline state) now)
              then do {
                _ \<leftarrow> failOrder E S t (v1\<lparr>ord_Issuance := None\<rparr>)
                      (NewProblem ErrorUnauthorized ''authorization expired before issuance dispatch'');
                State_Monad.return None }
              else storeDispatch E S t v1 acc as) }) })
          (\<lambda>r w. case r of None \<Rightarrow> True | Some v' \<Rightarrow> in_process G t v' w)"
        unfolding undo
        by (intro bind_unit [OF checkIssuancePolicy_spec [OF P v undo] P] spec_if bind_now P spec_return
            storeDispatch_spec [OF P v none v1] spec_conseq [OF fail_and_stop_spec [OF P v]]) simp_all
    qed
    done
  done

subsection \<open>The call of the issuer and its result\<close>

lemma issue_spec:
  assumes P: "stable G P" and v: "\<And>w. P w \<Longrightarrow> in_process G t v w" and req: "request_of E v req"
  shows "spec E G P (issue E req) (\<lambda>a w. \<exists>u. Issued req u (fst a) (snd a) \<in> set (w_events w))"
  unfolding issue_def
  by (rule spec_host_recorded [OF P]) (simp_all add: request_dispatched [OF _ v req])

lemma recordIssuedResult_spec:
  assumes P: "stable G P" and v: "\<And>w. P w \<Longrightarrow> in_process G t v w" and req: "request_of E v req"
    and event: "\<And>w. P w \<Longrightarrow> \<exists>u. Issued req u res err \<in> set (w_events w)"
  shows "spec E G P (recordIssuedResult E S t v (iq_CSR req) res now err) (\<lambda>_ _. True)"
proof -
  have unpublished: "spec E G P (failOrder E S t (v\<lparr>ord_UnpublishedResult := r\<rparr>) p) (\<lambda>_ _. True)" for r p
    by (rule failOrder_spec [OF P v, where c = "ord_CertificateID v" and r = r]) (assumption, cases v, simp)
  have duplicate: "spec E G P (failOrder E S t (v\<lparr>ord_Status := OrderValid, ord_CertificateID := i, ord_Error := None,
      ord_UnpublishedResult := r, ord_CertificateID := []\<rparr>) p) (\<lambda>_ _. True)" for i r p
    by (rule failOrder_spec [OF P v, where c = "[]" and r = r]) (assumption, cases v, simp)
  have publish: "spec E G P (completeIssuance E t
        (v\<lparr>ord_Status := OrderValid, ord_CertificateID := crt_ID (issued_certificate E v res leaf now), ord_Error := None\<rparr>)
        (Some (issued_certificate E v res leaf now))) (\<lambda>_ _. True)"
    if leaf: "checkChain (env_X509 E) (env_Names E) (ir_Chain res) (iq_CSR req) v now = Inr leaf" and ok: "err = None" for leaf
  proof (rule completeIssuance_spec [OF P v], assumption)
    fix w
    assume w: "P w"
    have "ord_Status v = OrderProcessing" using v [OF w] by (simp add: in_process_def)
    moreover have "backed E v (issued_certificate E v res leaf now) w"
    proof -
      obtain u where "Issued req u res None \<in> set (w_events w)" using event [OF w] ok by blast
      moreover have "iq_OrderID req = ord_ID v" using req by (simp add: request_of_def)
      ultimately show ?thesis using leaf unfolding backed_def issued_certificate_def by fastforce
    qed
    ultimately show "outcome E v (v\<lparr>ord_Status := OrderValid, ord_CertificateID := crt_ID (issued_certificate E v res leaf now),
        ord_Error := None\<rparr>) (Some (issued_certificate E v res leaf now)) w"
      by (simp add: outcome_def order_le_def order_closure order_Terminal_def issued_certificate_def)
  qed
  show ?thesis
    unfolding recordIssuedResult_def Let_def
    apply (rule spec_sum, rule unpublished, rule spec_if, rule unpublished)
    subgoal for leaf
      apply (rule bind_unit [OF publish P], assumption, simp)
      by (intro spec_sum spec_if handleIssuanceCommit_spec [OF P] duplicate)
    done
qed

lemma conclude_issuance_spec:
  assumes P: "stable G P" and v: "\<And>w. P w \<Longrightarrow> in_process G t v w" and req: "request_of E v req"
    and event: "\<And>w. P w \<Longrightarrow> \<exists>u. Issued req u (fst a) (snd a) \<in> set (w_events w)"
  shows "spec E G P (conclude_issuance E S t v req a) (\<lambda>_ _. True)"
  unfolding conclude_issuance_def Let_def
  by (intro bind_now P spec_if spec_option recordIssuedResult_spec [OF P v req event] reschedule_spec storeReschedule_spec
      fail_here_spec [OF P v])

lemma issuanceOrder_spec:
  assumes P: "stable G P" and live: "\<And>w. P w \<Longrightarrow> live_task G t w" and kind: "tsk_Kind t = TaskIssue"
  shows "spec E G P (issuanceOrder E S t) (\<lambda>r w. case r of None \<Rightarrow> True | Some v \<Rightarrow> in_process G t v w)"
  unfolding issuanceOrder_def
  apply (rule bind_Order [OF P P])
  subgoal for e
    apply (rule spec_conseq [OF drop_existing_spec [OF P]])
    using live live_task_order [OF _ _ kind] unfolding at_read_def by fastforce+
  subgoal premises c for v
  proof (rule spec_if)
    let ?P = "\<lambda>w. P w \<and> saw_order G v w"
    have P1: "stable G ?P" by (intro stable_intros P)
    have past: "ord_Status v \<notin> {OrderPending, OrderReady}"
      using c(2) live live_task_order [OF _ _ kind] unfolding at_read_def by (metis option.inject)
    have "spec E G ?P (finishTask E t) (\<lambda>_ _. True)" if final: "ord_Status v \<noteq> OrderProcessing"
      using P1
    proof (rule finishTask_spec)
      fix w
      assume w: "good E G w" "?P w"
      then obtain u where u: "st_orders (w_store w) (ord_ID v) = Some u" "order_le v u"
        using saw_order_now by blast
      then have "order_CanTransition\<^sup>*\<^sup>* (ord_Status v) (ord_Status u)" by (simp add: order_le_def)
      then have "ord_Status u \<noteq> OrderProcessing"
        using final past by (auto simp: order_closure)
      then show "unneeded (w_store w) (G (tsk_ID t))"
        using u(1) c(1) live [of w] w(2) kind by (auto simp: unneeded_def live_task_def named_def)
    qed
    from spec_ignore [OF this P1] show "spec E G ?P (do { _ \<leftarrow> finishTask E t; State_Monad.return None })
        (\<lambda>r w. case r of None \<Rightarrow> True | Some v \<Rightarrow> in_process G t v w)"
      if "ord_Status v \<noteq> OrderProcessing"
      by (rule spec_conseq) (use that in auto)
    show "spec E G ?P (State_Monad.return (Some v)) (\<lambda>r w. case r of None \<Rightarrow> True | Some v \<Rightarrow> in_process G t v w)"
      if "\<not> ord_Status v \<noteq> OrderProcessing"
      by (rule spec_return) (use that c(1) kind live in \<open>auto simp: in_process_def live_task_def\<close>)
  qed
  done

lemma runIssuance_spec:
  assumes P: "stable G P" and live: "\<And>w. P w \<Longrightarrow> live_task G t w" and kind: "tsk_Kind t = TaskIssue"
  shows "spec E G P (runIssuance E S t) (\<lambda>_ _. True)"
proof -
  let ?Q = "\<lambda>r w. case r of None \<Rightarrow> True | Some v \<Rightarrow> in_process G t v w"
  have start: "spec E G (\<lambda>w. P w \<and> ?Q (Some v) w)
      (if ord_Issuance v = None then beginIssuance E S t v else State_Monad.return (Some v)) ?Q" for v
    by (intro spec_if beginIssuance_spec stable_intros P spec_return) simp_all
  have rest: "spec E G Q (do {
      r \<leftarrow> issueRequest E S v;
      (case r of Inl e \<Rightarrow> do { now \<leftarrow> clock_Now E; reschedule E S t now }
       | Inr req \<Rightarrow> do { answer \<leftarrow> issue E req; conclude_issuance E S t v req answer }) }) (\<lambda>_ _. True)"
    if Q: "stable G Q" "\<And>w. Q w \<Longrightarrow> in_process G t v w" for Q v
  proof (rule spec_bind [OF issueRequest_spec [OF Q(1)] Q(1)], intro spec_pure, rule spec_sum)
    fix r req
    assume r: "case r of Inl e \<Rightarrow> True | Inr req \<Rightarrow> request_of E v req" "r = (Inr req :: error + IssueRequest)"
    then have req: "request_of E v req" by simp
    show "spec E G Q (do { answer \<leftarrow> issue E req; conclude_issuance E S t v req answer }) (\<lambda>_ _. True)"
      by (rule spec_bind [OF issue_spec [OF Q req] Q(1)], assumption, rule conclude_issuance_spec [OF _ _ req])
        (use Q in \<open>auto intro!: stable_intros\<close>)
  qed (rule reschedule_now_spec [OF Q(1)])
  show ?thesis
    unfolding runIssuance_def
    apply (rule spec_bind [OF issuanceOrder_spec [OF P _ kind] P], erule live, rule spec_option)
    subgoal by (rule spec_return) simp
    subgoal for r v
      apply (simp only:)
      apply (rule spec_bind [OF start])
       apply (intro stable_intros P)
      apply (rule spec_option)
       apply (rule spec_return, simp)
      apply (rule rest)
       apply (intro stable_intros P)
      by simp
    done
qed

subsection \<open>A turn of the worker\<close>

lemma process_spec:
  assumes P: "stable G P" and live: "\<And>w. P w \<Longrightarrow> live_task G t w"
  shows "spec E G P (process E S t) (\<lambda>_ _. True)"
proof (cases "tsk_Kind t")
  case TaskValidate
  then show ?thesis using runValidation_spec [OF P live TaskValidate] by (simp add: process_def)
next
  case TaskIssue
  then show ?thesis using runIssuance_spec [OF P live TaskIssue] by (simp add: process_def)
next
  case (TaskKindOther k)
  have "spec E G P (finishTask E t) (\<lambda>_ _. True)"
    using P
  proof (rule finishTask_spec)
    show "unneeded (w_store w) (G (tsk_ID t))" if "P w" for w
      using live [OF that] TaskKindOther by (simp add: unneeded_def live_task_def named_def)
  qed
  then show ?thesis by (simp add: process_def TaskKindOther)
qed

lemma claim_spec:
  assumes P: "stable G P"
  shows "spec E G P (store_write E (\<lambda>ctx. ClaimTask ctx now lease))
    (\<lambda>r w. case r of Inl e \<Rightarrow> True | Inr t \<Rightarrow> live_task G t w)"
  using P
proof (rule spec_write)
  fix n w x s'
  assume r: "ClaimTask (env_ctx E n) now lease (w_store w) = Inr (x, s')"
  show "proto G (w_store w) s' \<and> proved (w_events w) (w_store w) s' \<and> published E (w_events w) (w_store w) s'"
    using proto_ClaimTask [OF r] r by (auto simp: ClaimTask_Inr intro: proved_same published_same)
  show "case Inr x of Inl e \<Rightarrow> True | Inr t \<Rightarrow> live_task G t w'" if w': "good E G w'" "w_store w' = s'" for w'
  proof -
    note h = good_healthy [OF w'(1)]
    have "map_of (st_tasks (w_store w')) (tsk_ID x) = Some x"
      using r w'(2) by (auto simp: ClaimTask_Inr put_task_def)
    from linkedD(4) [OF healthy_linked [OF h] this] show ?thesis
      by (auto simp: live_task_def task_linked_def named_def intro: seen_now [OF h])
  qed
qed simp

lemma run_once_spec:
  assumes P: "stable G P"
  shows "spec E G P (run_once E S) (\<lambda>_ _. True)"
  unfolding run_once_def
  apply (rule bind_now [OF P], rule bind_write [OF claim_spec [OF P] P])
   apply (rule spec_return, rule TrueI)
  by (rule process_spec) (auto intro!: stable_intros P)

end

end
