(* ===== verification/Order_Safety.thy ===== *)
theory Order_Safety
  imports Account_Safety Issuance_Safety
begin

section \<open>Order handlers are safe\<close>

text \<open>
  The triples of the handlers that create orders, deactivate authorizations, accept challenge responses and finalize, and
  of \<^const>\<open>ServeHTTP\<close>.  A new order needs identifiers that were not drawn before: \<open>drawn\<close> collects the ones that were.
\<close>

subsection \<open>Identifiers\<close>

text \<open>What is relied on of the random source: an identifier is not empty and none is drawn twice.\<close>

definition ids_ok :: "Env \<Rightarrow> bool" where
  "ids_ok E \<longleftrightarrow> (\<forall>n i. newID (env_random E n) = Inr i \<longrightarrow> i \<noteq> []) \<and>
     (\<forall>m n i. newID (env_random E m) = Inr i \<longrightarrow> newID (env_random E n) = Inr i \<longrightarrow> m = n)"

definition drawn :: "Env \<Rightarrow> string set \<Rightarrow> World \<Rightarrow> bool" where
  "drawn E I w \<longleftrightarrow> (\<forall>i\<in>I. \<exists>n < w_tick w. newID (env_random E n) = Inr i)"

lemma stable_drawn [stable_intros]: "stable G (drawn E I)"
  unfolding stable_def drawn_def leads_def by (metis order_less_le_trans)

lemma drawn_simps [simp]: "drawn E {} w" "drawn E (I \<union> J) w \<longleftrightarrow> drawn E I w \<and> drawn E J w"
  by (auto simp: drawn_def)

subsection \<open>The authorizations and challenges of a new order\<close>

definition challenges_of :: "string \<Rightarrow> string \<Rightarrow> Challenge list \<Rightarrow> bool" where
  "challenges_of authzID accountID cs \<longleftrightarrow>
     list_all (\<lambda>c. ch_Status c = ChallengePending \<and> ch_AuthorizationID c = authzID \<and> ch_AccountID c = accountID) cs"

definition built :: "Order \<Rightarrow> Identifier list \<Rightarrow> Identifier list \<Rightarrow> Authorization list \<Rightarrow> Challenge list \<Rightarrow> bool" where
  "built order approved ids as cs \<longleftrightarrow>
     distinct (map az_ID as @ map ch_ID cs) \<and> length as = length ids \<and>
     list_all (\<lambda>a. az_OrderID a = ord_ID order \<and> az_AccountID a = ord_AccountID order \<and>
        az_ChallengeIDs a = map ch_ID (filter (\<lambda>c. ch_AuthorizationID c = az_ID a) cs) \<and>
        (az_Status a = AuthorizationPending \<or> az_Status a = AuthorizationValid \<and> az_PreApproved a) \<and>
        (set ids \<subseteq> set approved \<longrightarrow> az_Status a = AuthorizationValid)) as \<and>
     list_all (\<lambda>c. ch_Status c = ChallengePending \<and> ch_AuthorizationID c \<in> az_ID ` set as \<and>
        ch_AccountID c = ord_AccountID order) cs"

lemma filter_none: "list_all (\<lambda>x. \<not> p x) xs \<Longrightarrow> filter p xs = []"
  by (induction xs) auto

lemma filter_every: "list_all p xs \<Longrightarrow> filter p xs = xs"
  by (induction xs) auto

lemma built_Cons:
  assumes b: "built order approved ids as cs" and c: "challenges_of i (ord_AccountID order) cs1"
    and new: "distinct (i # map ch_ID cs1)" "set (i # map ch_ID cs1) \<inter> set (map az_ID as @ map ch_ID cs) = {}"
    and a: "a = new_authz order x i (x \<in> set approved) (map ch_ID cs1)"
  shows "built order approved (x # ids) (a # as) (cs1 @ cs)"
proof -
  have i: "az_ID a = i" "i \<notin> az_ID ` set as" using a new by (auto simp: new_authz_def)
  have "ch_AuthorizationID c \<noteq> i" if "c \<in> set cs" for c
    using b i(2) that unfolding built_def list_all_iff by metis
  then have none: "filter (\<lambda>c. ch_AuthorizationID c = i) cs = []" by (intro filter_none) (simp add: list_all_iff)
  have own: "filter (\<lambda>c. ch_AuthorizationID c = i) cs1 = cs1"
    using c by (intro filter_every) (simp add: challenges_of_def list_all_iff)
  have others: "filter (\<lambda>c. ch_AuthorizationID c = az_ID a') (cs1 @ cs) = filter (\<lambda>c. ch_AuthorizationID c = az_ID a') cs"
    if "a' \<in> set as" for a'
    using c i(2) that by (auto simp: challenges_of_def list_all_iff intro!: filter_none [unfolded list_all_iff])
  show ?thesis
    unfolding built_def
  proof (intro conjI)
    show "distinct (map az_ID (a # as) @ map ch_ID (cs1 @ cs))"
      using b new i by (auto simp: built_def)
    show "length (a # as) = length (x # ids)" using b by (simp add: built_def)
    show "list_all (\<lambda>a. az_OrderID a = ord_ID order \<and> az_AccountID a = ord_AccountID order \<and>
        az_ChallengeIDs a = map ch_ID (filter (\<lambda>c. ch_AuthorizationID c = az_ID a) (cs1 @ cs)) \<and>
        (az_Status a = AuthorizationPending \<or> az_Status a = AuthorizationValid \<and> az_PreApproved a) \<and>
        (set (x # ids) \<subseteq> set approved \<longrightarrow> az_Status a = AuthorizationValid)) (a # as)"
      using b others i(1) unfolding list_all_iff built_def by (auto simp: a new_authz_def own none)
    show "list_all (\<lambda>c. ch_Status c = ChallengePending \<and> ch_AuthorizationID c \<in> az_ID ` set (a # as) \<and>
        ch_AccountID c = ord_AccountID order) (cs1 @ cs)"
      using b c i(1) by (auto simp: built_def challenges_of_def list_all_iff)
  qed
qed

lemma grant_loop_ok:
  "grant_loop L ids granted xs = Some g \<Longrightarrow> distinct granted \<Longrightarrow> set granted \<subseteq> set ids \<Longrightarrow> distinct g \<and> set g \<subseteq> set ids"
  by (induction xs arbitrary: granted) (auto split: sum.splits if_splits)

text \<open>As many approved identifiers as there are identifiers: all are approved.\<close>

lemma all_approved:
  assumes "distinct g" "set g \<subseteq> set ids" "length g = length ids"
  shows "set ids \<subseteq> set g"
proof -
  have "card (set ids) \<le> card (set g)"
    using assms(1,3) card_length [of ids] by (simp add: distinct_card)
  then show ?thesis
    using card_seteq [OF _ assms(2)] by simp
qed

lemma built_ok:
  assumes "built order approved (ord_Identifiers order) as cs" "distinct approved" "set approved \<subseteq> set (ord_Identifiers order)"
    "ord_Status order = OrderPending"
  shows "new_order_ok (order\<lparr>ord_AuthorizationIDs := map az_ID as,
      ord_Status := (if length approved = length (ord_Identifiers order) then OrderReady else ord_Status order)\<rparr>) as cs"
  using assms all_approved [OF assms(2,3)]
  by (auto simp: built_def new_order_ok_def list_all_iff)

subsection \<open>Orders that were read\<close>

text \<open>Every authorization in the list was valid when it was read.\<close>

definition all_valid :: "naming \<Rightarrow> string list \<Rightarrow> World \<Rightarrow> bool" where
  "all_valid G ids w \<longleftrightarrow> (\<forall>j\<in>set ids. \<exists>x. az_ID x = j \<and> az_Status x = AuthorizationValid \<and> saw_authz G x w)"

lemma stable_all_valid [stable_intros]: "stable G (all_valid G ids)"
  unfolding all_valid_def by (intro stable_intros)

text \<open>
  The order a handler works with: the stored one, or a pending or ready one with the status its authorizations give.
\<close>

definition owned_order :: "naming \<Rightarrow> string \<Rightarrow> Account \<Rightarrow> Order \<Rightarrow> World \<Rightarrow> bool" where
  "owned_order G i a v w \<longleftrightarrow>
     (\<exists>v0. ord_ID v0 = i \<and> ord_AccountID v0 = acc_ID a \<and> saw_order G v0 w \<and>
        (v = v0 \<and> ord_Status v0 \<notin> {OrderPending, OrderReady} \<or>
         ord_Status v0 \<in> {OrderPending, OrderReady} \<and>
         (\<exists>st. v = v0\<lparr>ord_Status := st\<rparr> \<and> (st = OrderReady \<longrightarrow> all_valid G (ord_AuthorizationIDs v0) w))))"

lemma stable_owned_order [stable_intros]: "stable G (owned_order G i a v)"
  unfolding owned_order_def by (intro stable_intros)

lemma derived_all_valid:
  assumes "derived G u ids OrderReady w" "az_ID u \<notin> set ids"
  shows "all_valid G ids w"
  unfolding all_valid_def
proof
  fix j
  assume j: "j \<in> set ids"
  have "\<forall>j\<in>set ids. if j = az_ID u then az_Status u = AuthorizationValid
      else \<exists>x. az_ID x = j \<and> az_Status x = AuthorizationValid \<and> saw_authz G x w"
    using assms(1) by (simp add: derived_def)
  from bspec [OF this j] show "\<exists>x. az_ID x = j \<and> az_Status x = AuthorizationValid \<and> saw_authz G x w"
    using assms(2) j by (simp split: if_splits)
qed

lemma derive_loop_None: "az_ID u \<notin> set ids \<Longrightarrow> derive_loop E now None b ids = derive_loop E now (Some u) b ids"
proof (induction ids arbitrary: b)
  case (Cons j ids)
  then have "az_ID u \<noteq> j" "\<And>b. derive_loop E now None b ids = derive_loop E now (Some u) b ids" by auto
  then show ?case by (simp add: Let_def cong: if_cong)
qed simp

text \<open>While the order is the one that was read, its authorizations are still valid.\<close>

lemma all_valid_now:
  assumes w: "good E G w" "all_valid G (ord_AuthorizationIDs v) w" and v: "st_orders (w_store w) (ord_ID v) = Some v" "undispatched v"
    and j: "j \<in> set (ord_AuthorizationIDs v)" "st_authzs (w_store w) j = Some a"
  shows "az_Status a = AuthorizationValid"
proof -
  obtain x where x: "az_ID x = j" "az_Status x = AuthorizationValid" "saw_authz G x w"
    using w(2) j(1) by (auto simp: all_valid_def)
  from saw_authz_now [OF w(1) x(3)] obtain a' where "st_authzs (w_store w) (az_ID x) = Some a'" "authz_le x a'" by blast
  with j(2) x have "authz_CanTransition\<^sup>*\<^sup>* AuthorizationValid (az_Status a)" by (auto simp: authz_le_def)
  moreover have "linked G (w_store w)" using w(1) healthy_linked by (simp add: good_def)
  from linkedD(3) [OF this v(1)] have "\<not> authz_Terminal (az_Status a)"
    using j v(2) unfolding order_linked_def by fastforce
  ultimately show ?thesis by (auto simp: authz_closure authz_Terminal_def)
qed

context world
begin

lemma bind_draw_fresh:
  assumes P: "stable G P" "\<And>w. P w \<Longrightarrow> drawn E I w" and ids: "ids_ok E"
    and f: "\<And>e. spec E G P (f e) R"
    and g: "\<And>i. i \<notin> I \<Longrightarrow> spec E G (\<lambda>w. P w \<and> drawn E {i} w) (g i) R"
  shows "spec E G P (State_Monad.bind (draw_ID E) (case_sum f g)) R"
proof (rule specI)
  fix w x w'
  assume w: "good E G w" "P w" and run: "run_state (State_Monad.bind (draw_ID E) (case_sum f g)) w = (x, w')"
  obtain n v where v: "run_state (enter E) w = (n, v)" by (cases "run_state (enter E) w")
  note e = enter_leads [OF w(1) v]
  have n: "n = w_tick w" "w_tick v = Suc n" using v by (auto simp: enter_def)
  have Pv: "P v" using stableD [OF P(1) w(2) e(1)] .
  have run': "run_state (case_sum f g (newID (env_random E n))) v = (x, w')"
    using run v by (simp add: draw_ID_def State_Monad.bind_def State_Monad.return_def)
  show "leads G w w' \<and> good E G w' \<and> R x w'"
  proof (cases "newID (env_random E n)")
    case (Inl err)
    then show ?thesis using specD [OF f e(2) Pv] run' e(1) leads_trans by auto
  next
    case (Inr i)
    have "i \<notin> I"
      using P(2) [OF w(2)] ids Inr n(1) unfolding drawn_def ids_ok_def by (metis less_irrefl)
    moreover have "drawn E {i} v" using Inr n(2) by (auto simp: drawn_def)
    ultimately show ?thesis
      using specD [OF g e(2), of i x w'] Pv run' Inr e(1) leads_trans by auto
  qed
qed

lemma build_challenges_spec:
  assumes "stable G P" "\<And>w. P w \<Longrightarrow> drawn E I w" "ids_ok E"
  shows "spec E G P (build_challenges E authzID accountID types)
    (\<lambda>r w. case r of Inl _ \<Rightarrow> True | Inr cs \<Rightarrow> challenges_of authzID accountID cs \<and> distinct (map ch_ID cs) \<and>
       set (map ch_ID cs) \<inter> I = {} \<and> drawn E (set (map ch_ID cs)) w)"
  using assms(1,2)
proof (induction types arbitrary: P I)
  case Nil
  show ?case unfolding build_challenges.simps by (rule spec_return) (simp add: challenges_of_def)
next
  case (Cons t types)
  let ?R = "\<lambda>r w. case r of Inl (_ :: error) \<Rightarrow> True | Inr cs \<Rightarrow> challenges_of authzID accountID cs \<and> distinct (map ch_ID cs) \<and>
       set (map ch_ID cs) \<inter> I = {} \<and> drawn E (set (map ch_ID cs)) w"
  have fail: "spec E G Q (State_Monad.return (Inl e)) ?R" for e Q
    by (rule spec_return) simp
  show ?case
    unfolding build_challenges.simps
  proof (rule bind_draw_fresh [OF Cons.prems assms(3) fail])
    fix i
    assume i: "i \<notin> I"
    let ?P = "\<lambda>w. P w \<and> drawn E {i} w"
    have P: "stable G ?P" by (intro stable_intros Cons.prems)
    have "drawn E (I \<union> {i}) w" if "?P w" for w
      using that Cons.prems(2) by (simp only: drawn_simps)
    note IH = Cons.IH [OF P this]
    have "spec E G ?P (do { rest \<leftarrow> build_challenges E authzID accountID types;
        State_Monad.return (case rest of Inl e \<Rightarrow> Inl e
          | Inr cs \<Rightarrow> Inr (new_challenge authzID accountID t i token # cs)) }) ?R" for token
      by (rule spec_bind [OF IH P], assumption, rule spec_return)
        (auto simp: challenges_of_def new_challenge_def drawn_def i split: sum.splits)
    then show "spec E G ?P (do { k \<leftarrow> draw_token E;
        (case k of Inl e \<Rightarrow> State_Monad.return (Inl e)
         | Inr token \<Rightarrow> do { rest \<leftarrow> build_challenges E authzID accountID types;
             State_Monad.return (case rest of Inl e \<Rightarrow> Inl e
               | Inr cs \<Rightarrow> Inr (new_challenge authzID accountID t i token # cs)) }) }) ?R"
      by (intro bind_unit [OF calm_spec [OF calm_token] P] spec_sum fail)
  qed
qed

lemma build_loop_spec:
  assumes "stable G P" "\<And>w. P w \<Longrightarrow> drawn E I w" "ids_ok E"
  shows "spec E G P (build_loop E S order approved ids)
    (\<lambda>r w. case r of Inl _ \<Rightarrow> True | Inr (as, cs) \<Rightarrow> built order approved ids as cs \<and>
       set (map az_ID as @ map ch_ID cs) \<inter> I = {} \<and> drawn E (set (map az_ID as @ map ch_ID cs)) w)"
  using assms(1,2)
proof (induction ids arbitrary: P I)
  case Nil
  show ?case unfolding build_loop.simps by (rule spec_return) (simp add: built_def)
next
  case (Cons x ids)
  let ?Q = "\<lambda>I ids r w. case r of Inl (_ :: error) \<Rightarrow> True | Inr (as, cs) \<Rightarrow> built order approved ids as cs \<and>
       set (map az_ID as @ map ch_ID cs) \<inter> I = {} \<and> drawn E (set (map az_ID as @ map ch_ID cs)) w"
  let ?R = "?Q I (x # ids)"
  have fail: "spec E G P (State_Monad.return (Inl e)) ?R" for e P
    by (rule spec_return) simp
  show ?case
    unfolding build_loop.simps
  proof (rule bind_draw_fresh [OF Cons.prems assms(3) fail])
    fix i
    assume i: "i \<notin> I"
    let ?P = "\<lambda>w. P w \<and> drawn E {i} w"
    have P: "stable G ?P" by (intro stable_intros Cons.prems)
    have I: "drawn E (I \<union> {i}) w" if "?P w" for w
      using that Cons.prems(2) by (simp only: drawn_simps)
    let ?C = "\<lambda>r w. case r of Inl (_ :: error) \<Rightarrow> True | Inr cs \<Rightarrow> challenges_of i (ord_AccountID order) cs \<and>
        distinct (map ch_ID cs) \<and> set (map ch_ID cs) \<inter> (I \<union> {i}) = {} \<and> drawn E (set (map ch_ID cs)) w"
    have challenges: "spec E G ?P (if x \<in> set approved then State_Monad.return (Inr [])
        else build_challenges E i (ord_AccountID order) (challengeTypesFor S x)) ?C"
      by (rule spec_if, rule spec_return) (simp_all add: challenges_of_def build_challenges_spec [OF P I assms(3)])
    have rest: "spec E G (\<lambda>w. ?P w \<and> ?C (Inr cs1) w) (do { rest \<leftarrow> build_loop E S order approved ids;
        State_Monad.return (case rest of Inl e \<Rightarrow> Inl e | Inr (as', cs') \<Rightarrow>
          Inr (new_authz order x i (x \<in> set approved) (map ch_ID cs1) # as', cs1 @ cs')) }) ?R" for cs1
    proof -
      let ?J = "I \<union> {i} \<union> set (map ch_ID cs1)"
      have st: "stable G (\<lambda>w. ?P w \<and> ?C (Inr cs1) w)"
        unfolding sum.case by (intro stable_intros Cons.prems)
      have "drawn E ?J w" if "?P w \<and> ?C (Inr cs1) w" for w
        using that I by (simp only: drawn_simps sum.case)
      note IH = Cons.IH [OF st this]
      show ?thesis
      proof (rule spec_bind [OF IH st], assumption, rule spec_return)
        fix rest :: "error + Authorization list \<times> Challenge list" and w
        assume w: "(?P w \<and> ?C (Inr cs1) w) \<and> ?Q ?J ids rest w"
        show "?R (case rest of Inl e \<Rightarrow> Inl e | Inr (as', cs') \<Rightarrow>
            Inr (new_authz order x i (x \<in> set approved) (map ch_ID cs1) # as', cs1 @ cs')) w"
        proof (cases rest)
          case (Inr r)
          obtain as' cs' where r: "r = (as', cs')" by (cases r)
          from w Inr r have q: "built order approved ids as' cs'" "set (map az_ID as' @ map ch_ID cs') \<inter> ?J = {}"
            "drawn E (set (map az_ID as' @ map ch_ID cs')) w" "challenges_of i (ord_AccountID order) cs1"
            "distinct (map ch_ID cs1)" "set (map ch_ID cs1) \<inter> (I \<union> {i}) = {}" "drawn E (set (map ch_ID cs1)) w" "drawn E {i} w"
            by simp_all
          have "built order approved (x # ids) (new_authz order x i (x \<in> set approved) (map ch_ID cs1) # as') (cs1 @ cs')"
            by (rule built_Cons [OF q(1,4) _ _ refl]) (use q in auto)
          then show ?thesis
            using q i by (auto simp: Inr r new_authz_def drawn_def)
        qed simp
      qed
    qed
    show "spec E G ?P (do {
        c \<leftarrow> (if x \<in> set approved then State_Monad.return (Inr [])
              else build_challenges E i (ord_AccountID order) (challengeTypesFor S x));
        (case c of Inl e \<Rightarrow> State_Monad.return (Inl e)
         | Inr cs \<Rightarrow> do { rest \<leftarrow> build_loop E S order approved ids;
             State_Monad.return (case rest of Inl e \<Rightarrow> Inl e | Inr (as', cs') \<Rightarrow>
               Inr (new_authz order x i (x \<in> set approved) (map ch_ID cs) # as', cs @ cs')) }) }) ?R"
    proof (rule spec_bind [OF challenges P], rule spec_sum)
      show "spec E G (\<lambda>w. ?P w \<and> ?C c w) (do { rest \<leftarrow> build_loop E S order approved ids;
             State_Monad.return (case rest of Inl e \<Rightarrow> Inl e | Inr (as', cs') \<Rightarrow>
               Inr (new_authz order x i (x \<in> set approved) (map ch_ID cs1) # as', cs1 @ cs')) }) ?R" if "c = Inr cs1" for c cs1
        unfolding that by (rule rest)
    qed (rule fail)
  qed
qed

lemma buildAuthorizations_spec:
  assumes "stable G P" "ids_ok E" and v: "ord_Status v = OrderPending" "distinct g" "set g \<subseteq> set (ord_Identifiers v)"
  shows "spec E G P (buildAuthorizations E S v g)
    (\<lambda>r w. case r of Inl _ \<Rightarrow> True | Inr (v', as, cs) \<Rightarrow> new_order_ok v' as cs \<and> ord_AccountID v' = ord_AccountID v)"
  unfolding buildAuthorizations_def
  by (rule spec_bind [OF build_loop_spec [OF assms(1) _ assms(2), of "{}"] assms(1)], simp, rule spec_return)
    (auto split: sum.splits split del: if_split intro!: built_ok v)

lemma preApprove_spec:
  assumes "stable G P"
  shows "spec E G P (preApprove E S account v)
    (\<lambda>r w. case r of Inl _ \<Rightarrow> True | Inr g \<Rightarrow> distinct g \<and> set g \<subseteq> set (ord_Identifiers v))"
  unfolding preApprove_def
  by (intro spec_if spec_return bind_host assms) (auto dest: grant_loop_ok split: prod.splits sum.splits option.splits if_splits)

lemma reviewOrder_spec:
  assumes "stable G P"
  shows "spec E G P (reviewOrder E account v)
    (\<lambda>r _. case r of Inl _ \<Rightarrow> True | Inr v' \<Rightarrow> ord_AccountID v' = ord_AccountID v \<and> ord_Status v' = ord_Status v)"
  unfolding reviewOrder_def
  by (intro bind_host assms spec_return) (auto split: prod.splits option.splits)

lemma admit_order_spec:
  assumes "stable G P"
  shows "spec E G P (admit_order E S account client v)
    (\<lambda>r _. case r of Inl _ \<Rightarrow> True | Inr v' \<Rightarrow> ord_AccountID v' = ord_AccountID v \<and> ord_Status v' = ord_Status v)"
  unfolding admit_order_def
  by (intro bind_unit [OF calm_spec [OF calm_checkLimit]] assms spec_option reviewOrder_spec spec_return) simp

lemma calm_selectProfile [calm_rules]: "calm E G (selectProfile E S account requested)"
  unfolding selectProfile_def by (intro calm_rules)

lemma calm_checkReplaces [calm_rules]: "calm E G (checkReplaces E S account ids replaces)"
  unfolding checkReplaces_def by (intro calm_rules)

lemma buildOrder_spec:
  assumes P: "stable G P"
  shows "spec E G P (buildOrder E S account payload now client)
    (\<lambda>r _. case r of Inl _ \<Rightarrow> True | Inr v \<Rightarrow> ord_AccountID v = acc_ID account \<and> ord_Status v = OrderPending)"
proof -
  let ?R = "\<lambda>r (_ :: World). case r of Inl (_ :: Problem) \<Rightarrow> True | Inr v \<Rightarrow> ord_AccountID v = acc_ID account \<and> ord_Status v = OrderPending"
  have fail: "spec E G P (State_Monad.return (Inl p)) ?R" for p
    by (rule spec_return) simp
  have admit: "spec E G P (admit_order E S account client (new_order S account ids validity profile replaces i now)) ?R"
    for ids validity profile replaces i
    by (rule spec_conseq [OF admit_order_spec [OF P]]) (auto simp: new_order_def split: sum.splits)
  show ?thesis
    unfolding buildOrder_def
    by (intro spec_sum fail bind_unit [OF calm_spec [OF calm_selectProfile] P] bind_unit [OF calm_spec [OF calm_checkReplaces] P]
      bind_draw P admit)
qed

lemma CreateOrder_spec:
  assumes "new_order_ok v as cs" "ord_AccountID v = acc_ID a"
  shows "spec E G (saw_account G a) (store_write E (\<lambda>ctx. CreateOrder ctx v as cs)) (\<lambda>_ _. True)"
  using stable_seen
proof (rule spec_write)
  fix n w r s'
  assume w: "good E G w" "saw_account G a w" and c: "CreateOrder (env_ctx E n) v as cs (w_store w) = Inr (r, s')"
  have "st_accounts (w_store w) (ord_AccountID v) \<noteq> None"
    by (rule saw_account_now [OF w]) (simp add: assms(2))
  then have "proto G (w_store w) s'" by (rule proto_CreateOrder [OF c assms(1)])
  moreover have ids: "distinct (map az_ID as)" "distinct (map ch_ID cs)"
    using assms(1) by (simp_all add: new_order_ok_def)
  note t = CreateOrder_tables [OF c ids]
  have "st_authzs s' i = Some x" if "st_authzs (w_store w) i = Some x" for i x
  proof -
    have "i \<notin> az_ID ` set as" using t(7) that by fastforce
    then show ?thesis using t(9) [of i x] that by simp
  qed
  moreover have "st_orders s' i = Some x" if "st_orders (w_store w) i = Some x" for i x
    using t(2,3) that by auto
  ultimately show "proto G (w_store w) s' \<and> proved (w_events w) (w_store w) s' \<and> published E (w_events w) (w_store w) s'"
    by (auto intro!: proved_same published_same)
qed simp_all

lemma store_order_spec:
  assumes "new_order_ok v as cs" "ord_AccountID v = acc_ID a"
  shows "spec E G (saw_account G a) (store_order E S now (v, as, cs)) (\<lambda>_ _. True)"
  unfolding store_order_def prod.case
  by (rule bind_unit [OF CreateOrder_spec [OF assms] stable_seen], rule calm_spec, intro calm_rules)

lemma spec_then:
  assumes m: "spec E G P m (\<lambda>r w. case r of Inl _ \<Rightarrow> True | Inr x \<Rightarrow> q x)" and P: "stable G P"
    and k: "\<And>x. q x \<Longrightarrow> spec E G P (k x) (\<lambda>_ _. True)"
  shows "spec E G P (do { r \<leftarrow> m; or_problem E S r k }) (\<lambda>_ _. True)"
proof (rule spec_bind [OF m P], rule spec_or_problem)
  fix r :: "Problem + 'a" and x
  assume "r = Inr x"
  moreover have "spec E G (\<lambda>w. P w \<and> q x) (k x) (\<lambda>_ _. True)" by (rule spec_pure) (rule k)
  ultimately show "spec E G (\<lambda>w. P w \<and> (case r of Inl _ \<Rightarrow> True | Inr x \<Rightarrow> q x)) (k x) (\<lambda>_ _. True)" by simp
qed

lemma calm_serveNewOrder:
  assumes ids: "ids_ok E"
  shows "calm E G (serveNewOrder E S r)"
  unfolding serveNewOrder_def
proof (rule serve_signed, rule spec_account, intro spec_or_problem bind_now stable_seen, rule spec_then [OF buildOrder_spec stable_seen])
  fix a :: Account and payload now and v :: Order
  assume v: "ord_AccountID v = acc_ID a \<and> ord_Status v = OrderPending"
  show "spec E G (saw_account G a) (do { g \<leftarrow> preApprove E S a v; or_problem E S g (\<lambda>preApproved. do {
      b \<leftarrow> buildAuthorizations E S v preApproved; or_problem E S b (store_order E S now) }) }) (\<lambda>_ _. True)"
  proof (rule spec_then [OF preApprove_spec stable_seen])
    fix g
    assume g: "distinct g \<and> set g \<subseteq> set (ord_Identifiers v)"
    show "spec E G (saw_account G a) (do { b \<leftarrow> buildAuthorizations E S v g; or_problem E S b (store_order E S now) }) (\<lambda>_ _. True)"
    proof (rule spec_then [where q = "\<lambda>(v', as, cs). new_order_ok v' as cs \<and> ord_AccountID v' = ord_AccountID v"])
      show "spec E G (saw_account G a) (store_order E S now b) (\<lambda>_ _. True)"
        if "case b of (v', as, cs) \<Rightarrow> new_order_ok v' as cs \<and> ord_AccountID v' = ord_AccountID v" for b
        using that v store_order_spec by (cases b) auto
    qed (use buildAuthorizations_spec [OF stable_seen ids] g v in \<open>auto simp: stable_seen\<close>)
  qed (rule stable_seen)
qed (rule stable_seen)

lemma deriveOrderStatus_None_spec:
  assumes "stable G P"
  shows "spec E G P (deriveOrderStatus E v None)
    (\<lambda>r w. case r of Inl _ \<Rightarrow> True | Inr st \<Rightarrow> st = OrderReady \<longrightarrow> all_valid G (ord_AuthorizationIDs v) w)"
proof -
  obtain i :: string where i: "i \<notin> set (ord_AuthorizationIDs v)"
    using ex_new_if_finite [OF infinite_UNIV_listI] by blast
  define u where "u = new_authz undefined undefined i undefined undefined"
  have u: "az_ID u \<notin> set (ord_AuthorizationIDs v)" using i by (simp add: u_def new_authz_def)
  have "deriveOrderStatus E v None = deriveOrderStatus E v (Some u)"
    by (simp add: deriveOrderStatus_def derive_loop_None [OF u] cong: if_cong)
  then show ?thesis
    by (auto intro!: spec_conseq [OF deriveOrderStatus_spec [OF assms, of v u]] derived_all_valid [OF _ u]
      split: sum.splits)
qed

lemma readOwnedOrder_spec:
  "spec E G (\<lambda>_. True) (readOwnedOrder E S r i rel)
    (\<lambda>q w. case q of Inl _ \<Rightarrow> True | Inr (a, req, v) \<Rightarrow> saw_account G a w \<and> owned_order G i a v w)"
proof -
  let ?R = "\<lambda>q w. case q of Inl (_ :: Problem) \<Rightarrow> True | Inr (a, req :: signedRequest, v) \<Rightarrow> saw_account G a w \<and> owned_order G i a v w"
  have fail: "spec E G P (State_Monad.return (Inl p)) ?R" for p P
    by (rule spec_return) simp
  have derive: "spec E G (\<lambda>w. signed E G S r rel keyModeAccount req w \<and> saw_order G v w) (do {
      d \<leftarrow> deriveOrderStatus E v None;
      State_Monad.return (case d of Inl e \<Rightarrow> Inl (storeProblem e ''authorization'')
        | Inr status \<Rightarrow> Inr (a, req, v\<lparr>ord_Status := status\<rparr>)) }) ?R"
    if "sr_Account req = Some a" "ord_AccountID v = acc_ID a" "ord_Status v = OrderPending \<or> ord_Status v = OrderReady" "ord_ID v = i"
    for req a v
    by (rule spec_bind [OF deriveOrderStatus_None_spec], (intro stable_intros)+, rule spec_return)
      (use that in \<open>auto simp: signed_def owned_order_def split: sum.splits\<close>)
  have found: "spec E G (\<lambda>w. signed E G S r rel keyModeAccount req w \<and> saw_order G v w) (case sr_Account req of
      None \<Rightarrow> State_Monad.return (Inl (NewProblem ErrorUnauthorized ''the signing account does not own this order''))
    | Some account \<Rightarrow>
        if ord_AccountID v \<noteq> acc_ID account
        then State_Monad.return (Inl (NewProblem ErrorUnauthorized ''the signing account does not own this order''))
        else if ord_Status v = OrderPending \<or> ord_Status v = OrderReady
        then do {
          d \<leftarrow> deriveOrderStatus E v None;
          State_Monad.return (case d of Inl e \<Rightarrow> Inl (storeProblem e ''authorization'')
            | Inr status \<Rightarrow> Inr (account, req, v\<lparr>ord_Status := status\<rparr>)) }
        else State_Monad.return (Inr (account, req, v))) ?R" if "ord_ID v = i" for req v
    using that
    by (intro spec_option spec_if fail derive spec_return) (auto simp: signed_def owned_order_def)
  show ?thesis
    unfolding readOwnedOrder_def
  proof (rule spec_bind [OF readSignedRequest_spec [OF stable_const] stable_const], rule spec_sum)
    fix q :: "Problem + signedRequest" and req
    assume q: "q = Inr req"
    have "spec E G (signed E G S r rel keyModeAccount req) (do {
        x \<leftarrow> store_read E (\<lambda>ctx. get_Order ctx i);
        (case x of
           Inl e \<Rightarrow> State_Monad.return (Inl (storeProblem e ''order''))
         | Inr v \<Rightarrow> (case sr_Account req of
              None \<Rightarrow> State_Monad.return (Inl (NewProblem ErrorUnauthorized ''the signing account does not own this order''))
            | Some account \<Rightarrow>
                if ord_AccountID v \<noteq> acc_ID account
                then State_Monad.return (Inl (NewProblem ErrorUnauthorized ''the signing account does not own this order''))
                else if ord_Status v = OrderPending \<or> ord_Status v = OrderReady
                then do {
                  d \<leftarrow> deriveOrderStatus E v None;
                  State_Monad.return (case d of Inl e \<Rightarrow> Inl (storeProblem e ''authorization'')
                    | Inr status \<Rightarrow> Inr (account, req, v\<lparr>ord_Status := status\<rparr>)) }
                else State_Monad.return (Inr (account, req, v)))) }) ?R"
      by (rule bind_Order [OF stable_signed stable_signed]) (rule fail found, assumption?)+
    then show "spec E G (\<lambda>w. True \<and> (case q of Inl _ \<Rightarrow> True | Inr req \<Rightarrow> signed E G S r rel keyModeAccount req w)) (do {
        x \<leftarrow> store_read E (\<lambda>ctx. get_Order ctx i);
        (case x of
           Inl e \<Rightarrow> State_Monad.return (Inl (storeProblem e ''order''))
         | Inr v \<Rightarrow> (case sr_Account req of
              None \<Rightarrow> State_Monad.return (Inl (NewProblem ErrorUnauthorized ''the signing account does not own this order''))
            | Some account \<Rightarrow>
                if ord_AccountID v \<noteq> acc_ID account
                then State_Monad.return (Inl (NewProblem ErrorUnauthorized ''the signing account does not own this order''))
                else if ord_Status v = OrderPending \<or> ord_Status v = OrderReady
                then do {
                  d \<leftarrow> deriveOrderStatus E v None;
                  State_Monad.return (case d of Inl e \<Rightarrow> Inl (storeProblem e ''authorization'')
                    | Inr status \<Rightarrow> Inr (account, req, v\<lparr>ord_Status := status\<rparr>)) }
                else State_Monad.return (Inr (account, req, v)))) }) ?R"
      by (rule spec_conseq) (simp_all add: q)
  qed (rule fail)
qed

end

end
