(* ===== verification/Server_Safety.thy ===== *)
theory Server_Safety
  imports Order_Safety
begin

section \<open>Triples of the remaining handlers and of the dispatcher\<close>

text \<open>
  The handlers of orders, authorizations and challenges, the read-only ones, and \<open>ServeHTTP\<close> itself.  Two
  handlers create a task, and \<open>task_of\<close> reads off the path of a request which one it is.
\<close>

definition names_task :: "Env \<Rightarrow> naming \<Rightarrow> TaskKind \<times> string \<Rightarrow> bool" where
  "names_task E G t \<longleftrightarrow> (\<forall>n i. newID (env_random E n) = Inr i \<longrightarrow> G i = t)"

definition task_of :: "Server \<Rightarrow> Request \<Rightarrow> (TaskKind \<times> string) option" where
  "task_of S r =
     Option.bind (cut_prefix (rq_Path r) (srv_basePath S)) (\<lambda>rel. Option.bind (cut rel CHR ''/'') (\<lambda>(kind, rest).
       let (i, suffix) = (case cut rest CHR ''/'' of None \<Rightarrow> (rest, []) | Some p \<Rightarrow> p) in
       if kind @ ''/'' = orderPathPrefix \<and> suffix = ''finalize'' then Some (TaskIssue, i)
       else if kind @ ''/'' = challengePathPrefix \<and> suffix = [] then Some (TaskValidate, i)
       else None))"

context world
begin

lemma calm_loadChallenges [calm_rules]: "calm E G (loadChallenges E ids)"
  by (induction ids) (simp_all, (intro calm_rules | assumption)+)

lemma calm_orderAuthorizations [calm_rules]: "calm E G (orderAuthorizations E ids)"
  by (induction ids) (simp_all, (intro calm_rules | assumption)+)

lemma calm_serveOrder: "calm E G (serveOrder E S r i)"
  unfolding serveOrder_def
  by (rule calm_bind [OF spec_True [OF readOwnedOrder_spec]]) (intro calm_rules)

subsection \<open>Authorizations\<close>

lemma deactivate_write_spec:
  assumes a: "az_Status a = AuthorizationPending \<or> az_Status a = AuthorizationValid"
  shows "spec E G (saw_authz G a) (store_write E (\<lambda>ctx. UpdateAuthorization ctx (a\<lparr>az_Status := AuthorizationDeactivated\<rparr>))) (\<lambda>_ _. True)"
  using stable_seen
proof (rule spec_write)
  fix n w r s'
  let ?a = "a\<lparr>az_Status := AuthorizationDeactivated\<rparr>"
  assume w: "good E G w" "saw_authz G a w" and c: "UpdateAuthorization (env_ctx E n) ?a (w_store w) = Inr (r, s')"
  have "authz_le a ?a" using a by (auto simp: authz_le_def authz_closure)
  then have "proto G (w_store w) s'"
    by (intro proto_UpdateAuthorization [OF c]) (use saw_same(2) [OF w] in auto)
  moreover have "proved (w_events w) (w_store w) s' \<and> published E (w_events w) (w_store w) s'"
    by (rule UpdateAuthorization_Inr [OF c])
      (auto simp: proved_def published_def bump_authz_def split: option.splits if_splits)
  ultimately show "proto G (w_store w) s' \<and> proved (w_events w) (w_store w) s' \<and> published E (w_events w) (w_store w) s'"
    by blast
qed simp_all

lemma deactivateAuthorization_spec: "spec E G (saw_authz G a) (deactivateAuthorization E a now) (\<lambda>_ _. True)"
proof -
  have "az_Status a = AuthorizationPending \<or> az_Status a = AuthorizationValid"
    if "authz_CanTransition (effectiveAuthzStatus a now) AuthorizationDeactivated"
    using that by (auto simp: effectiveAuthzStatus_def split: if_splits elim: authz_CanTransition.elims)
  then show ?thesis
    unfolding deactivateAuthorization_def Let_def
    by (intro spec_if bind_unit [OF deactivate_write_spec stable_seen] calm_spec [OF calm_return]) auto
qed

lemma calm_serveAuthorization: "calm E G (serveAuthorization E S r i)"
proof -
  have change: "spec E G (saw_authz G a) (change_authorization E payload a now) (\<lambda>_ _. True)" for payload a now
    unfolding change_authorization_def
    by (intro spec_if spec_sum calm_spec [OF calm_return] deactivateAuthorization_spec)
  have read: "spec E G (saw_authz G a) (do { now \<leftarrow> clock_Now E; c \<leftarrow> change_authorization E payload a now; or_problem E S c (k now) }) (\<lambda>_ _. True)"
    if "\<And>now x. calm E G (k now x)" for payload a k
    by (intro bind_now stable_seen bind_unit [OF change stable_seen] spec_or_problem calm_spec [OF that])
  show ?thesis
    unfolding serveAuthorization_def
    by (rule serve_signed, rule spec_account, rule bind_Authorization [OF stable_const stable_const, THEN calm_spec])
      ((intro calm_rules spec_if calm_spec [OF calm_writeProblem])+, (rule spec_conseq [OF read], intro calm_rules, simp_all)?)
qed

subsection \<open>Challenges\<close>

lemma AcceptChallenge_spec:
  assumes c: "ch_Status c = ChallengePending" and t: "G i = (TaskValidate, ch_ID c)"
  shows "spec E G (saw_challenge G c) (store_write E (\<lambda>ctx. AcceptChallenge ctx (accepted_challenge c account payload)
    (new_task i TaskValidate (ch_ID c) accountID now))) (\<lambda>_ _. True)"
  using stable_seen
proof (rule spec_write)
  fix n w r s'
  let ?c = "accepted_challenge c account payload" and ?t = "new_task i TaskValidate (ch_ID c) accountID now"
  assume w: "good E G w" "saw_challenge G c w" and r: "AcceptChallenge (env_ctx E n) ?c ?t (w_store w) = Inr (r, s')"
  obtain c' t' where "r = (c', t')" by fastforce
  with r have r': "AcceptChallenge (env_ctx E n) ?c ?t (w_store w) = Inr ((c', t'), s')" by simp
  have le: "challenge_le c ?c" using c by (simp add: challenge_le_def accepted_challenge_def challenge_closure challenge_Terminal_def)
  have "proto G (w_store w) s'"
  proof (rule proto_AcceptChallenge [OF r'])
    show "challenge_le v ?c" if "st_challenges (w_store w) (ch_ID ?c) = Some v" "ch_Revision v = ch_Revision ?c" for v
      using saw_same(3) [OF w, of v] that le by (simp add: accepted_challenge_def)
  qed (use t in \<open>simp_all add: accepted_challenge_def new_task_def\<close>)
  moreover have "st_authzs s' = st_authzs (w_store w) \<and> st_orders s' = st_orders (w_store w)"
    using r' by (auto simp: AcceptChallenge_Inr prod_eq_iff)
  ultimately show "proto G (w_store w) s' \<and> proved (w_events w) (w_store w) s' \<and> published E (w_events w) (w_store w) s'"
    by (auto intro!: proved_same published_same)
qed simp_all

lemma enqueue_validation_spec:
  assumes "ch_Status c = ChallengePending" "G i = (TaskValidate, ch_ID c)"
  shows "spec E G (saw_challenge G c) (enqueue_validation E (accepted_challenge c account payload)
    (new_task i TaskValidate (ch_ID c) accountID now)) (\<lambda>_ _. True)"
  unfolding enqueue_validation_def
  by (rule bind_unit [OF AcceptChallenge_spec [OF assms] stable_seen], rule calm_spec, intro calm_rules)

lemma acceptChallenge_spec:
  assumes G: "names_task E G (TaskValidate, ch_ID c)"
  shows "spec E G (saw_challenge G c) (acceptChallenge E S c account client payload) (\<lambda>_ _. True)"
proof -
  have answer: "spec E G P (State_Monad.return x) (\<lambda>_ _. True)" for P and x :: "Problem + Challenge"
    by (rule calm_spec [OF calm_return])
  have enqueue: "spec E G (saw_challenge G c) (enqueue_validation E (accepted_challenge c account payload)
      (new_task i TaskValidate (ch_ID c) (acc_ID account) now)) (\<lambda>_ _. True)"
    if "ch_Status c = ChallengePending" "newID (env_random E n) = Inr i" for i n now
    using enqueue_validation_spec that G by (simp add: names_task_def)
  have admit: "spec E G (saw_challenge G c) (admit_validation E S c account client payload authz now) (\<lambda>_ _. True)"
    if "ch_Status c = ChallengePending" for authz now
    unfolding admit_validation_def
    by (rule bind_unit [OF calm_spec [OF calm_read] stable_seen], rule spec_sum, rule answer, rule spec_if, rule answer,
        rule bind_unit [OF calm_spec [OF calm_checkLimit] stable_seen], rule spec_option)
      ((intro bind_draw stable_seen answer, erule enqueue [OF that]), rule answer)
  have settled: "spec E G (saw_challenge G c) (do {
      a \<leftarrow> store_read E (\<lambda>ctx. get_Authorization ctx (ch_AuthorizationID c));
      (case a of
         Inl _ \<Rightarrow> State_Monad.return (Inl (NewProblem ErrorServerInternal ''authorization lookup failed''))
       | Inr authz \<Rightarrow> do {
           now \<leftarrow> clock_Now E;
           (let status = effectiveAuthzStatus authz now in
            if status \<noteq> AuthorizationPending
            then State_Monad.return (Inl (NewProblem ErrorMalformed (''authorization is '' @ authz_status_string status)))
            else admit_validation E S c account client payload authz now) }) }) (\<lambda>_ _. True)"
    if "ch_Status c = ChallengePending"
    by (rule bind_unit [OF calm_spec [OF calm_read] stable_seen], rule spec_sum, rule answer)
      (intro bind_now stable_seen spec_Let spec_if answer admit [OF that])
  show ?thesis
    unfolding acceptChallenge_def
    by (rule spec_if, rule answer, rule spec_option) (rule settled, simp, rule answer)
qed

lemma calm_serveChallenge:
  assumes G: "names_task E G (TaskValidate, i)"
  shows "calm E G (serveChallenge E S r i)"
proof -
  have accept: "spec E G (saw_challenge G c) (do { a \<leftarrow> acceptChallenge E S c account client payload;
      or_problem E S a (writeChallenge E S) }) (\<lambda>_ _. True)" if "ch_ID c = i" for c account client payload
    using G that
    by (intro bind_unit [OF acceptChallenge_spec stable_seen] calm_spec [OF calm_or_problem [OF calm_resource_writers(2)]]) simp
  have owned: "spec E G (saw_challenge G c) (do {
      _ \<leftarrow> respond f;
      (if sr_Payload req = [] then writeChallenge E S c
       else or_problem E S (decodePayload E challengeResponse_type decode_challengeResponse (sr_Payload req)) (\<lambda>payload. do {
         a \<leftarrow> acceptChallenge E S c account (clientAddr (env_Http E) r) payload;
         or_problem E S a (writeChallenge E S) })) }) (\<lambda>_ _. True)" if "ch_ID c = i" for c account req f
    by (rule bind_unit [OF calm_spec [OF calm_quiet(1)] stable_seen], rule spec_if,
        rule calm_spec [OF calm_resource_writers(2)], rule spec_or_problem, rule accept [OF that])
  show ?thesis
    unfolding serveChallenge_def
    by (rule serve_signed, rule spec_account, rule bind_Challenge [OF stable_const stable_const, THEN calm_spec],
        rule calm_writeProblem, rule spec_if, rule calm_spec [OF calm_writeProblem], rule spec_conseq [OF owned]) simp_all
qed

subsection \<open>Finalizing\<close>

text \<open>A ready order is committed only while its authorizations are the valid ones that were read.\<close>

lemma finalized_order_ok:
  assumes w: "good E G w" "owned_order G i a v w" and v: "ord_Status v = OrderReady"
    and cur: "st_orders (w_store w) (ord_ID v) = Some x" "ord_Revision x = ord_Revision v"
  shows "order_le x (finalized_order v der) \<and>
    (\<forall>j \<in> set (ord_AuthorizationIDs x). \<forall>y. st_authzs (w_store w) j = Some y \<longrightarrow> az_Status y = AuthorizationValid)"
proof -
  obtain v0 where v0: "saw_order G v0 w" "ord_Status v0 \<in> {OrderPending, OrderReady}" "v = v0\<lparr>ord_Status := OrderReady\<rparr>"
    "all_valid G (ord_AuthorizationIDs v0) w"
    using w(2) v by (auto simp: owned_order_def)
  have x: "x = v0" using saw_same(1) [OF w(1) v0(1), of x] cur v0(3) by simp
  have "order_le v0 (finalized_order v der)"
    using v0(2) by (auto simp: v0(3) finalized_order_def order_le_def order_closure order_Terminal_def)
  moreover have "undispatched v0" using v0(2) by (auto simp: undispatched_def)
  ultimately show ?thesis
    using all_valid_now [OF w(1) v0(4)] cur(1) x v0(3) by auto
qed

lemma FinalizeOrder_spec:
  assumes v: "ord_Status v = OrderReady" and t: "G i = (TaskIssue, ord_ID v)"
  shows "spec E G (owned_order G j a v) (store_write E (\<lambda>ctx. FinalizeOrder ctx (finalized_order v der)
    (new_task i TaskIssue (ord_ID v) accountID now))) (\<lambda>_ _. True)"
  using stable_owned_order
proof (rule spec_write)
  fix n w r s'
  let ?v = "finalized_order v der" and ?t = "new_task i TaskIssue (ord_ID v) accountID now"
  assume w: "good E G w" "owned_order G j a v w" and r: "FinalizeOrder (env_ctx E n) ?v ?t (w_store w) = Inr (r, s')"
  obtain v' t' where "r = (v', t')" by fastforce
  with r have r': "FinalizeOrder (env_ctx E n) ?v ?t (w_store w) = Inr ((v', t'), s')" by simp
  have "proto G (w_store w) s'"
    by (rule proto_FinalizeOrder [OF r'], rule finalized_order_ok [OF w v])
      (use t in \<open>simp_all add: finalized_order_def new_task_def\<close>)
  moreover have "st_authzs s' = st_authzs (w_store w) \<and> st_orders s' = (st_orders (w_store w))(ord_ID v \<mapsto> bump_order ?v)"
    using r' by (auto simp: FinalizeOrder_Inr prod_eq_iff finalized_order_def bump_order_def)
  then have "proved (w_events w) (w_store w) s' \<and> published E (w_events w) (w_store w) s'"
    by (auto simp: proved_def published_def finalized_order_def bump_order_def split: if_splits)
  ultimately show "proto G (w_store w) s' \<and> proved (w_events w) (w_store w) s' \<and> published E (w_events w) (w_store w) s'"
    by blast
qed simp_all

lemma finalize_ready_spec:
  assumes v: "ord_Status v = OrderReady" and G: "names_task E G (TaskIssue, ord_ID v)"
  shows "spec E G (owned_order G j a v) (finalize_ready E S account v der refusal now) (\<lambda>_ _. True)"
proof -
  have commit: "spec E G (owned_order G j a v) (commit_finalize E S v der (new_task i TaskIssue (ord_ID v) accountID now) now) (\<lambda>_ _. True)"
    if "newID (env_random E n) = Inr i" for i n accountID
    unfolding commit_finalize_def
    by (rule bind_unit [OF FinalizeOrder_spec [OF v] stable_owned_order], use G that in \<open>simp add: names_task_def\<close>,
        rule calm_spec, intro calm_rules)
  show ?thesis
    unfolding finalize_ready_def
    by (rule spec_if, rule calm_spec [OF calm_refuse],
        rule bind_unit [OF calm_spec [OF calm_orderAuthorizations] stable_owned_order],
        rule spec_sum, rule calm_spec [OF calm_refuse], rule spec_sum, rule calm_spec [OF calm_refuse], rule spec_option)
      (rule bind_draw [OF stable_owned_order calm_spec [OF calm_writeProblem] commit], assumption, rule calm_spec [OF calm_refuse])
qed

lemma serve_owned:
  assumes "\<And>a req v. spec E G (owned_order G i a v) (k (a, req, v)) (\<lambda>_ _. True)"
  shows "calm E G (do { q \<leftarrow> readOwnedOrder E S r i rel; or_problem E S q k })"
proof (rule spec_bind [OF readOwnedOrder_spec stable_const], rule spec_or_problem)
  fix q :: "Problem + Account \<times> signedRequest \<times> Order" and x
  assume q: "q = Inr x"
  obtain a req v where x: "x = (a, req, v)" by (cases x)
  show "spec E G (\<lambda>w. True \<and> (case q of Inl _ \<Rightarrow> True | Inr (a, req, v) \<Rightarrow> saw_account G a w \<and> owned_order G i a v w)) (k x) (\<lambda>_ _. True)"
    unfolding x by (rule spec_conseq [OF assms]) (simp_all add: q x)
qed

lemma calm_serveFinalize:
  assumes G: "names_task E G (TaskIssue, i)"
  shows "calm E G (serveFinalize E S r i)"
proof -
  have ready: "spec E G (owned_order G i a v) (finalize_ready E S account v der refusal now) (\<lambda>_ _. True)"
    if "StatusAt v now = OrderReady" for a v account der refusal now
  proof -
    have v: "ord_Status v = OrderReady" using that by (auto simp: StatusAt_def split: if_splits)
    have "spec E G (\<lambda>w. owned_order G i a v w \<and> ord_ID v = i) (finalize_ready E S account v der refusal now) (\<lambda>_ _. True)"
      by (rule spec_pure) (use finalize_ready_spec [OF v] G in simp)
    then show ?thesis
      by (rule spec_conseq) (auto simp: owned_order_def)
  qed
  have step: "spec E G (owned_order G i a v) (do { now \<leftarrow> clock_Now E;
      (let refusal = refusal\<lparr>rf_CSR := der\<rparr>; status = StatusAt v now in
       if status = OrderReady then finalize_ready E S account v der refusal now
       else if (status = OrderProcessing \<or> status = OrderValid) \<and> ord_CSR v = der then writeOrder E S 200 v now
       else if status = OrderProcessing \<or> status = OrderValid
       then refuse E S refusal (NewProblem ErrorOrderNotReady ''order was already finalized with a different CSR'')
       else refuse E S refusal (NewProblem ErrorOrderNotReady (''order is '' @ order_status_string status))) }) (\<lambda>_ _. True)"
    for a v account der refusal
    unfolding Let_def
    by (intro bind_now stable_owned_order spec_if ready calm_spec [OF calm_refuse] calm_spec [OF calm_resource_writers(1)])
  show ?thesis
    unfolding serveFinalize_def
    by (rule serve_owned, unfold prod.case, rule spec_Let, rule spec_sum, rule calm_spec [OF calm_refuse], rule spec_option)
      (rule calm_spec [OF calm_refuse], rule spec_if, rule calm_spec [OF calm_refuse], rule step)
qed

subsection \<open>Dispatch\<close>

lemma calm_serveCertificate: "calm E G (serveCertificate E S r i)"
  unfolding serveCertificate_def by (rule serve_signed, rule spec_account, rule calm_spec, intro calm_rules)

lemma calm_serveRenewalInfo: "calm E G (serveRenewalInfo E S r i)"
  unfolding serveRenewalInfo_def renewal_answer_def by (intro calm_rules)

lemma calm_unsigned: "calm E G (serveDirectory E S r)" "calm E G (serveProfile E S r name)" "calm E G (serveNewNonce E S r)"
  unfolding serveDirectory_def serveProfile_def serveNewNonce_def by (intro calm_rules)+

lemma calm_servePOST: "calm E G h \<Longrightarrow> calm E G (servePOST E S r h)"
  unfolding servePOST_def by (intro calm_rules)

lemma calm_serveResource:
  assumes rel: "cut_prefix (rq_Path r) (srv_basePath S) = Some rel"
    and G: "\<And>t. task_of S r = Some t \<Longrightarrow> names_task E G t"
  shows "calm E G (serveResource E S r rel)"
proof (cases "cut rel CHR ''/''")
  case None
  then show ?thesis unfolding serveResource_def by (simp add: calm_writeProblem)
next
  case (Some p)
  obtain kind rest where p: "p = (kind, rest)" by fastforce
  obtain i suffix where i: "(case cut rest CHR ''/'' of None \<Rightarrow> (rest, []) | Some p \<Rightarrow> p) = (i, suffix)" by fastforce
  have task: "task_of S r = (if kind @ ''/'' = orderPathPrefix \<and> suffix = ''finalize'' then Some (TaskIssue, i)
      else if kind @ ''/'' = challengePathPrefix \<and> suffix = [] then Some (TaskValidate, i) else None)"
    unfolding task_of_def rel Some p bind.simps prod.case i Let_def ..
  have finalize: "calm E G (serveFinalize E S r i)" if "kind @ ''/'' = orderPathPrefix \<and> suffix = ''finalize''"
    using G that by (intro calm_serveFinalize) (simp add: task)
  have challenge: "calm E G (serveChallenge E S r i)" if "kind @ ''/'' = challengePathPrefix \<and> suffix = []"
    using G that by (intro calm_serveChallenge) (simp add: task)
  show ?thesis
    unfolding serveResource_def Some p option.case prod.case i Let_def
    by (intro calm_splits(1) calm_servePOST calm_serveRenewalInfo calm_unsigned calm_writeProblem calm_serveAccount
        calm_serveAccountOrders calm_serveOrder calm_serveAuthorization calm_serveCertificate finalize challenge)
qed

lemma calm_ServeHTTP:
  assumes ids: "ids_ok E" and G: "\<And>t. task_of S r = Some t \<Longrightarrow> names_task E G t"
  shows "calm E G (ServeHTTP E S r)"
proof -
  have revoke: "calm E G (serveRevokeCert E S r)"
    using ids by (intro calm_serveRevokeCert) (auto simp: ids_ok_def)
  show ?thesis
    unfolding ServeHTTP_def
    by (intro calm_bind calm_quiet calm_splits(1,2) calm_servePOST calm_unsigned calm_writeProblem calm_serveNewAccount
        calm_serveNewOrder [OF ids] revoke calm_serveKeyChange) (rule calm_serveResource, assumption, rule G)
qed

end

end
