(* ===== verification/System_Safety.thy ===== *)
theory System_Safety
  imports Server_Safety
begin

section \<open>The server and its workers together\<close>

text \<open>
  A run of the whole system is a sequence of requests and worker turns that share the store, the nonces and the record
  of events.  Every one of them runs in an environment of its own, in which the others act before each
  call.  The theorems hold in every state such a run reaches, from any healthy store: the empty one, or the one a
  server finds when it is started again.
\<close>

definition same_libraries :: "Env \<Rightarrow> Env \<Rightarrow> bool" where
  "same_libraries E E' \<longleftrightarrow> env_Names E' = env_Names E \<and> env_X509 E' = env_X509 E \<and> env_Crypto E' = env_Crypto E"

text \<open>The environment of one request or turn: it uses the libraries of \<open>E\<close>, and the others in it follow the protocol.\<close>

definition process_env :: "Env \<Rightarrow> naming \<Rightarrow> Env \<Rightarrow> bool" where
  "process_env E G E' \<longleftrightarrow> same_libraries E E' \<and> rely E' G"

text \<open>What the random source gives a request: distinct IDs, and task IDs that name the task they are drawn for.\<close>

definition request_env :: "Env \<Rightarrow> naming \<Rightarrow> Server \<Rightarrow> Request \<Rightarrow> bool" where
  "request_env E G S r \<longleftrightarrow> ids_ok E \<and> (\<forall>t. task_of S r = Some t \<longrightarrow> names_task E G t)"

inductive system :: "Env \<Rightarrow> naming \<Rightarrow> Server \<Rightarrow> World \<Rightarrow> bool" for E G S where
  system_start: "healthy G (w_store w) \<Longrightarrow> w_events w = [] \<Longrightarrow> system E G S w"
| system_request: "system E G S w \<Longrightarrow> process_env E G E' \<Longrightarrow> request_env E' G S r \<Longrightarrow>
    system E G S (snd (run_state (ServeHTTP E' S r) w))"
| system_worker: "system E G S w \<Longrightarrow> process_env E G E' \<Longrightarrow> system E G S (snd (run_state (run_once E' S) w))"

lemma event_ok_libraries: "same_libraries E E' \<Longrightarrow> event_ok E' G es e \<longleftrightarrow> event_ok E G es e"
  by (cases e) (simp_all add: same_libraries_def published_def dispatched_def revocation_recorded_def)

lemma good_libraries: "same_libraries E E' \<Longrightarrow> good E' G w \<longleftrightarrow> good E G w"
proof -
  assume "same_libraries E E'"
  then have "events_ok E' G es \<longleftrightarrow> events_ok E G es" for es
    by (induction es) (simp_all add: event_ok_libraries)
  then show ?thesis by (simp add: good_def)
qed

text \<open>One action in a process environment.\<close>

lemma process_step:
  assumes "process_env E G E'" "good E G w" "calm E' G m"
  shows "good E G (snd (run_state m w)) \<and> leads G w (snd (run_state m w))"
proof -
  obtain x w' where r: "run_state m w = (x, w')" by fastforce
  have "good E' G w" using assms(1,2) good_libraries by (auto simp: process_env_def)
  from specD [OF assms(3) this TrueI r] show ?thesis
    using assms(1) good_libraries by (auto simp: process_env_def r)
qed

lemma ServeHTTP_step:
  assumes E: "process_env E G E'" "request_env E' G S r" and w: "good E G w"
  shows "good E G (snd (run_state (ServeHTTP E' S r) w)) \<and> leads G w (snd (run_state (ServeHTTP E' S r) w))"
proof (rule process_step [OF E(1) w], rule world.calm_ServeHTTP [OF world.intro])
  show "rely E' G" using E(1) by (simp add: process_env_def)
qed (use E(2) in \<open>auto simp: request_env_def\<close>)

lemma run_once_step:
  assumes E: "process_env E G E'" and w: "good E G w"
  shows "good E G (snd (run_state (run_once E' S) w)) \<and> leads G w (snd (run_state (run_once E' S) w))"
  by (rule process_step [OF E w], rule world.run_once_spec [OF world.intro])
    (use E in \<open>auto simp: process_env_def stable_const\<close>)

lemma system_good: "system E G S w \<Longrightarrow> good E G w"
proof (induction rule: system.induct)
  case (system_start w)
  then show ?case by (simp add: good_def)
qed (use ServeHTTP_step run_once_step in blast)+

text \<open>An event of the record with what came before it.\<close>

lemma events_okD: "events_ok E G es \<Longrightarrow> e \<in> set es \<Longrightarrow> \<exists>es'. set es' \<subseteq> set es \<and> event_ok E G es' e"
  by (induction es) auto

lemma system_event:
  assumes "system E G S w" "e \<in> set (w_events w)"
  obtains es where "set es \<subseteq> set (w_events w)" "event_ok E G es e"
  using events_okD [of E G "w_events w" e] system_good [OF assms(1)] assms(2) by (auto simp: good_def)

lemma system_past:
  assumes "system E G S w" "e \<in> set (w_events w)" "s \<in> set (event_stores e)"
  shows "healthy G s" "proto G s (w_store w)"
  using system_good [OF assms(1)] assms(2,3) by (auto simp: good_def past_stores_def)

text \<open>A dispatched order keeps its dispatch.\<close>

lemma dispatched_now:
  assumes "dispatched E req s" "healthy G s" "proto G s t"
  obtains v st where "st_orders t (iq_OrderID req) = Some v" "ord_Issuance v = Some st"
    "iq_OperationID req = is_OperationID st" "iq_Validations req = is_Validations st" "iq_Deadline req = is_Deadline st"
    "iq_CSRDER req = ord_CSR v" "x5_ParseCSR (env_X509 E) (ord_CSR v) = Some (iq_CSR req)"
    "iq_Identifiers req = ord_Identifiers v" "iq_AccountID req = ord_AccountID v" "iq_Profile req = ord_Profile v"
proof -
  obtain v st where v: "st_orders s (iq_OrderID req) = Some v" "ord_Issuance v = Some st" "ord_Status v \<notin> {OrderPending, OrderReady}"
    "iq_OperationID req = is_OperationID st" "iq_Validations req = is_Validations st" "iq_Deadline req = is_Deadline st"
    "iq_CSRDER req = ord_CSR v" "x5_ParseCSR (env_X509 E) (ord_CSR v) = Some (iq_CSR req)"
    "iq_Identifiers req = ord_Identifiers v" "iq_AccountID req = ord_AccountID v" "iq_Profile req = ord_Profile v"
    using assms(1) unfolding dispatched_def by blast
  obtain v' where v': "st_orders t (iq_OrderID req) = Some v'" "order_le v v'"
    using proto_order [OF assms(3,2) v(1)] .
  have "ord_Issuance v' = Some st" "ord_CSR v' = ord_CSR v" "ord_Identifiers v' = ord_Identifiers v"
    "ord_AccountID v' = ord_AccountID v" "ord_Profile v' = ord_Profile v"
    using v'(2) v(2,3) by (auto simp: order_le_def)
  then show thesis using v v' by (intro that [of v' st]) simp_all
qed

end
