(* ===== verification/System_Sample.thy ===== *)
theory System_Sample
  imports System_Safety JWS_Sound
begin

section \<open>A concrete system\<close>

text \<open>
  A server with a worker on a store that holds one order ready to be issued and one challenge ready to be validated.  The witnesses of
  the system's theorems run it.
\<close>

text \<open>A request that revokes the certificate, signed by the account, as the JSON values of its parts.\<close>

definition run_header :: "(string \<times> string) list" where
  "run_header = [(''alg'', ''EdDSA''), (''nonce'', ''nn''), (''url'', ''https://ca/revoke-cert''), (''kid'', ''https://ca/acct/a1'')]"

definition run_payload :: "(string \<times> string) list" where
  "run_payload = [(''certificate'', encode_base64 [2])]"

definition run_envelope :: "(string \<times> string) list" where
  "run_envelope = [(''protected'', encode_base64 (string_bytes ''h'')), (''payload'', encode_base64 (string_bytes ''p'')),
     (''signature'', encode_base64 [1])]"

definition run_part :: "bytes \<Rightarrow> (string \<times> string) list" where
  "run_part b = (if b = string_bytes ''h'' then run_header else if b = string_bytes ''p'' then run_payload else run_envelope)"

definition run_json :: Json where
  "run_json = \<lparr>js_Tokens = \<lambda>b. (tokens_of (member_object (run_part b)), None), js_Decode = \<lambda>b. Inr (member_object (run_part b)),
     js_EqualFold = equal_fold, js_Quote = \<lambda>s. s, js_ParseInt = \<lambda>_. None\<rparr>"

definition run_crypto :: Crypto where
  "run_crypto = sample_crypto\<lparr>cr_Ed25519 := \<lambda>k m s. s = [1]\<rparr>"

definition run_account :: Account where
  "run_account = sample_key_account\<lparr>acc_Key := sample_public_key\<rparr>"

definition run_env :: Env where
  "run_env = \<lparr>env_Names = sample_names, env_X509 = sample_x509, env_Json = run_json, env_Crypto = run_crypto,
     env_Http = \<lparr>ht_ParseMediaType = Some, ht_ParseAddrPort = \<lambda>_. None, ht_ParseAddress = \<lambda>_. None, ht_QueryEscape = id,
       ht_ParseTime = \<lambda>_. None\<rparr>,
     env_now = \<lambda>n. 20 * second, env_ctx = \<lambda>_. None, env_other = \<lambda>_ s. s, env_other_nonces = \<lambda>_ m. m,
     env_random = \<lambda>n. Inr (replicate (Suc n) 1), env_nonce_reads = \<lambda>_. [], env_Validate = \<lambda>_ _ _. None,
     env_ValidateGrant = \<lambda>_ _ _. Inl (ErrorNew ''no grants''),
     env_Issue = \<lambda>_ _. (\<lparr>ir_Chain = [[2], [3]], ir_CAReference = [], ir_Pending = False, ir_RetryAfter = 0, ir_Rejected = None\<rparr>, None), env_AuthorizeIssuance = \<lambda>_ _. None, env_Revoke = \<lambda>_ _. None,
     env_Allow = \<lambda>_ _. None, env_NewAccount = \<lambda>_ _. None, env_NewOrder = \<lambda>_ _ v. (None, v), env_DefaultProfile = \<lambda>_ _. Inr [],
     env_PreApprove = \<lambda>_ _ v. (Inr [], v), env_MACKey = \<lambda>_ _. Inl (ErrorNew ''no keys''),
     env_RenewalInfo = \<lambda>_ _. Inl (ErrorNew ''no advice'')\<rparr>"

definition run_server :: Server where
  "run_server = \<lparr>srv_baseURL = ''https://ca/'', srv_basePath = ''/'', srv_meta = \<lparr>dm_TermsOfService = [], dm_Website = [],
     dm_CAAIdentities = [], dm_ExternalAccountRequired = False\<rparr>, srv_maxBody = 100, srv_hasMeta = False,
     srv_validators = [ChallengeHTTP01 \<mapsto> PlainValidator], srv_eabKeys = False, srv_singleUseEAB = False, srv_policy = \<lparr>pk_PreApprover = False, pk_ProfileChooser = False\<rparr>,
     srv_issuancePolicy = False, srv_requireTOS = False, srv_ipIdentifiers = False, srv_tnAuthList = False, srv_tnAuthListOutlive = False,
     srv_nfInstanceIDs = False, srv_tokenAuthority = [], srv_renewal = False, srv_profiles = Map.empty, srv_defaultProfile = [],
     srv_orderLifetime = 100 * second, srv_authzLifetime = 100 * second, srv_maxIdentifiers = 10, srv_maxValidations = 10,
     srv_detachedWrite = second, srv_workers = \<lparr>wc_Concurrency = 1, wc_PollInterval = second, wc_Lease = 30 * second,
       wc_TaskTimeout = 10 * second, wc_MaxAttempts = 3, wc_RetryDelay = second, wc_StaleAfter = 600 * second, wc_External = False\<rparr>,
     srv_revocationReasons = [0, 1], srv_reasonsText = [], srv_refusals = False, srv_limits = False\<rparr>"

definition run_order :: "string \<Rightarrow> string \<Rightarrow> Order" where
  "run_order i z = \<lparr>ord_ID = i, ord_AccountID = ''a1'', ord_Status = OrderPending, ord_Expires = 100 * second,
     ord_Identifiers = [mk_id IdentifierDNS ''example.org''], ord_NotBefore = 0, ord_NotAfter = 92 * second,
     ord_AuthorizationIDs = [z], ord_Error = None, ord_CSR = [], ord_CertificateID = [], ord_Issuance = None,
     ord_UnpublishedResult = None, ord_Replaces = [], ord_Profile = [], ord_CreatedAt = 5 * second, ord_Revision = 1\<rparr>"

definition run_authz :: "string \<Rightarrow> string \<Rightarrow> bool \<Rightarrow> string list \<Rightarrow> Authorization" where
  "run_authz z i approved cs = \<lparr>az_ID = z, az_AccountID = ''a1'', az_OrderID = i, az_Identifier = mk_id IdentifierDNS ''example.org'',
     az_Status = (if approved then AuthorizationValid else AuthorizationPending), az_Expires = 90 * second, az_Wildcard = False,
     az_ChallengeIDs = cs, az_CACertificate = False, az_GrantExpires = 0, az_GrantNames = [], az_GrantNFType = [],
     az_PreApproved = approved, az_CreatedAt = 5 * second, az_Revision = 1\<rparr>"

definition run_challenge :: Challenge where
  "run_challenge = \<lparr>ch_ID = ''c2'', ch_AuthorizationID = ''z2'', ch_AccountID = ''a1'', ch_Type = ChallengeHTTP01,
     ch_Status = ChallengePending, ch_Token = ''token'', ch_AuthorityToken = [], ch_KeyThumbprint = [], ch_Validated = 0,
     ch_Error = None, ch_Revision = 1\<rparr>"

definition run_task :: "string \<Rightarrow> TaskKind \<Rightarrow> string \<Rightarrow> time \<Rightarrow> Task" where
  "run_task i kind target t = new_task i kind target ''a1'' t"

text \<open>The store, built by the operations of the server in five steps.\<close>

definition run_store1 :: Store where
  "run_store1 = exec (OpCreateAccount run_account) empty_store"

definition run_store2 :: Store where
  "run_store2 = exec (OpCreateOrder (run_order ''o1'' ''z1'') [run_authz ''z1'' ''o1'' True []] []) run_store1"

definition run_store3 :: Store where
  "run_store3 = exec (OpFinalizeOrder (finalized_order (run_order ''o1'' ''z1'') [1]) (run_task ''t1'' TaskIssue ''o1'' 1)) run_store2"

definition run_store4 :: Store where
  "run_store4 = exec (OpCreateOrder (run_order ''o2'' ''z2'') [run_authz ''z2'' ''o2'' False [''c2'']] [run_challenge]) run_store3"

definition run_store :: Store where
  "run_store = exec (OpAcceptChallenge (run_challenge\<lparr>ch_Status := ChallengeProcessing, ch_KeyThumbprint := ''k''\<rparr>)
     (run_task ''t2'' TaskValidate ''c2'' 2)) run_store4"

lemmas run_samples = run_order_def run_authz_def run_challenge_def run_task_def new_task_def finalized_order_def

definition run_start :: World where
  "run_start = \<lparr>w_store = run_store, w_nonces = \<lparr>m_ttl = 100 * second, m_capacity = 9, m_live = [(''nn'', 50 * second)], m_queue = [], m_head = 0\<rparr>, w_tick = 0, w_events = [],
     w_request = \<lparr>rst_client = None, rst_nonceSpent = False\<rparr>, w_response = no_response\<rparr>"

definition run_naming :: naming where
  "run_naming i = (if i = ''t1'' then (TaskIssue, ''o1'') else (TaskValidate, ''c2''))"

lemma run_store1_tables:
  "st_accounts run_store1 = [''a1'' \<mapsto> run_account]" "st_orders run_store1 = Map.empty"
  "st_authzs run_store1 = Map.empty" "st_challenges run_store1 = Map.empty"
  "st_certificates run_store1 = Map.empty" "st_certByRenewal run_store1 = Map.empty" "st_tasks run_store1 = []"
  "st_taskSequence run_store1 = 0" "st_taskInsertion run_store1 = Map.empty"
  by (simp_all add: run_store1_def empty_store_def CreateAccount_def run_account_def sample_key_account_def Let_def)

lemma run_store2_tables:
  "st_accounts run_store2 = [''a1'' \<mapsto> run_account]" "st_orders run_store2 = [''o1'' \<mapsto> run_order ''o1'' ''z1'']"
  "st_authzs run_store2 = [''z1'' \<mapsto> run_authz ''z1'' ''o1'' True []]" "st_challenges run_store2 = Map.empty"
  "st_certificates run_store2 = Map.empty" "st_certByRenewal run_store2 = Map.empty" "st_tasks run_store2 = []"
  "st_taskSequence run_store2 = 0" "st_taskInsertion run_store2 = Map.empty"
  by (simp_all add: run_store2_def run_store1_tables CreateOrder_def store_new_authz_def run_samples Let_def)

lemma run_store3_tables:
  "st_accounts run_store3 = [''a1'' \<mapsto> run_account]" "st_orders run_store3 = [''o1'' \<mapsto> bump_order (finalized_order (run_order ''o1'' ''z1'') [1])]"
  "st_authzs run_store3 = [''z1'' \<mapsto> run_authz ''z1'' ''o1'' True []]" "st_challenges run_store3 = Map.empty"
  "st_certificates run_store3 = Map.empty" "st_certByRenewal run_store3 = Map.empty" "st_tasks run_store3 = [(''t1'', run_task ''t1'' TaskIssue ''o1'' 1)]"
  "st_taskSequence run_store3 = 1" "st_taskInsertion run_store3 = [''t1'' \<mapsto> 1]"
  by (simp_all add: run_store3_def run_store2_tables FinalizeOrder_def checkOrder_def checkNewTask_def insertTask_def put_order_def bump_order_def run_samples Let_def)

lemma run_store4_tables:
  "st_accounts run_store4 = [''a1'' \<mapsto> run_account]" "st_orders run_store4 = [''o1'' \<mapsto> bump_order (finalized_order (run_order ''o1'' ''z1'') [1]), ''o2'' \<mapsto> run_order ''o2'' ''z2'']"
  "st_authzs run_store4 = [''z1'' \<mapsto> run_authz ''z1'' ''o1'' True [], ''z2'' \<mapsto> run_authz ''z2'' ''o2'' False [''c2'']]" "st_challenges run_store4 = [''c2'' \<mapsto> run_challenge]"
  "st_certificates run_store4 = Map.empty" "st_certByRenewal run_store4 = Map.empty" "st_tasks run_store4 = [(''t1'', run_task ''t1'' TaskIssue ''o1'' 1)]"
  "st_taskSequence run_store4 = 1" "st_taskInsertion run_store4 = [''t1'' \<mapsto> 1]"
  by (simp_all add: run_store4_def run_store3_tables CreateOrder_def store_new_authz_def put_challenge_def run_samples Let_def)

lemma run_store_tables:
  "st_accounts run_store = [''a1'' \<mapsto> run_account]" "st_orders run_store = [''o1'' \<mapsto> bump_order (finalized_order (run_order ''o1'' ''z1'') [1]), ''o2'' \<mapsto> run_order ''o2'' ''z2'']"
  "st_authzs run_store = [''z1'' \<mapsto> run_authz ''z1'' ''o1'' True [], ''z2'' \<mapsto> run_authz ''z2'' ''o2'' False [''c2'']]" "st_challenges run_store = [''c2'' \<mapsto> bump_challenge (run_challenge\<lparr>ch_Status := ChallengeProcessing, ch_KeyThumbprint := ''k''\<rparr>)]"
  "st_certificates run_store = Map.empty" "st_certByRenewal run_store = Map.empty" "st_tasks run_store = [(''t1'', run_task ''t1'' TaskIssue ''o1'' 1), (''t2'', run_task ''t2'' TaskValidate ''c2'' 2)]"
  "st_taskSequence run_store = 2" "st_taskInsertion run_store = [''t1'' \<mapsto> 1, ''t2'' \<mapsto> 2]"
  by (simp_all add: run_store_def run_store4_tables AcceptChallenge_def numeral_2_eq_2 checkChallenge_def checkNewTask_def insertTask_def put_challenge_def bump_challenge_def run_samples Let_def)

lemma run_store_healthy: "healthy run_naming run_store"
proof -
  have "later empty_store run_store"
    unfolding run_store_def run_store4_def run_store3_def run_store2_def run_store1_def by (intro evolves_step evolves_refl TrueI)
  then have "store_ok run_store" using later_ok empty_store_ok by blast
  moreover have "linked run_naming run_store"
    unfolding linked_defs needs_valid_def undispatched_def has_task_def
    by (simp add: run_store_tables run_samples bump_order_def bump_challenge_def run_naming_def authz_Terminal_def)
      (auto intro!: exI [of _ "''t1''"])
  ultimately show ?thesis by (simp add: healthy_def)
qed

subsection \<open>Evaluating an action\<close>

text \<open>The rules by which \<open>simp\<close> runs an action in this environment; the congruence rule keeps it from looking at what comes later.\<close>

lemma bind_weak_cong: "m = m' \<Longrightarrow> State_Monad.bind m f = State_Monad.bind m' f"
  by simp

lemma run_bind: "run_state (State_Monad.bind m f) w = (case run_state m w of (x, w') \<Rightarrow> run_state (f x) w')"
  by (simp add: State_Monad.bind_def)

lemma run_return: "run_state (State_Monad.return x) w = (x, w)"
  by (simp add: State_Monad.return_def)

text \<open>Environments in which nothing else runs.\<close>

definition plain :: "Env \<Rightarrow> bool" where
  "plain E \<longleftrightarrow> env_other E = (\<lambda>_ s. s) \<and> env_other_nonces E = (\<lambda>_ m. m) \<and> env_ctx E = (\<lambda>_. None)"

lemma run_enter: "plain E \<Longrightarrow> run_state (enter E) w = (w_tick w, w\<lparr>w_tick := w_tick w + 1\<rparr>)"
  by (simp add: enter_def plain_def)

lemma run_now: "plain E \<Longrightarrow> run_state (clock_Now E) w = (env_now E (w_tick w), w\<lparr>w_tick := w_tick w + 1\<rparr>)"
  by (simp add: clock_Now_def run_bind run_return run_enter)

lemma run_read: "plain E \<Longrightarrow> run_state (store_read E f) w = (f None (w_store w), w\<lparr>w_tick := w_tick w + 1\<rparr>)"
  by (simp add: store_read_def run_bind run_return run_enter State_Monad.get_def) (simp add: plain_def)

lemma run_write:
  "plain E \<Longrightarrow> run_state (store_write E f) w = (case f None (w_store w) of
     Inl e \<Rightarrow> (Inl e, w\<lparr>w_tick := w_tick w + 1\<rparr>)
   | Inr (x, s') \<Rightarrow> (Inr x, w\<lparr>w_tick := w_tick w + 1, w_store := s', w_events := Wrote (w_store w) s' # w_events w\<rparr>))"
  by (simp add: store_write_def run_bind run_return run_enter State_Monad.get_def State_Monad.set_def split: sum.splits prod.splits)
    (simp add: plain_def)

lemma run_issue:
  "plain E \<Longrightarrow> run_state (issue E req) w = (env_Issue E (w_tick w) req,
     w\<lparr>w_tick := w_tick w + 1, w_events := Issued req (w_store w) (fst (env_Issue E (w_tick w) req)) (snd (env_Issue E (w_tick w) req)) # w_events w\<rparr>)"
  by (simp add: issue_def host_recorded_def run_bind run_return run_enter State_Monad.get_def record_event_def)

lemmas run_rules = run_bind run_return run_now run_read run_write run_issue

definition run_issued :: World where
  "run_issued = snd (run_state (run_once run_env run_server) run_start)"

definition run_validated :: World where
  "run_validated = snd (run_state (run_once run_env run_server) run_issued)"

definition run_request :: Request where
  "run_request = \<lparr>rq_Method = ''POST'', rq_Path = ''/revoke-cert'', rq_EscapedPath = ''/revoke-cert'', rq_RawQuery = [], rq_ForceQuery = False,
     rq_Query = \<lambda>_. [], rq_ContentType = contentTypeJOSE, rq_Body = Some (string_bytes ''e'', False), rq_RemoteAddr = []\<rparr>"

definition run_revoked :: World where
  "run_revoked = snd (run_state (ServeHTTP run_env run_server run_request) run_issued)"

subsection \<open>Parsing the request\<close>

lemma run_reads:
  "reads_members_of run_json ''h'' run_header" "reads_members_of run_json ''p'' run_payload"
  "reads_members_of run_json ''e'' run_envelope"
  by (simp_all add: reads_members_of_def run_json_def run_part_def string_bytes_def mk_byte_def)

lemma run_members:
  "checkMembers run_json (member_object run_header) header_type = None"
  "checkMembers run_json (member_object run_payload) revoke_type = None"
  "checkMembers run_json (member_object run_envelope) envelope_type = None"
  by code_simp+

lemma run_parse:
  "jws_Parse run_json run_crypto (string_bytes ''e'') = Inr
     \<lparr>msg_Header = \<lparr>hd_Algorithm = ''EdDSA'', hd_Nonce = ''nn'', hd_URL = ''https://ca/revoke-cert'', hd_KeyID = ''https://ca/acct/a1'', hd_Key = None\<rparr>,
      msg_Payload = string_bytes ''p'', msg_signingInput = string_bytes (encode_base64 (string_bytes ''h'') @ ''.'' @ encode_base64 (string_bytes ''p'')),
      msg_signature = [1]\<rparr>"
proof -
  have h: "UnmarshalStrict run_json header_type decode_header (string_bytes ''h'') =
      Inr \<lparr>hj_Alg = Some ''EdDSA'', hj_Nonce = Some ''nn'', hj_URL = Some ''https://ca/revoke-cert'', hj_KID = Some ''https://ca/acct/a1'',
        hj_JWK = None, hj_Crit = None, hj_B64 = None\<rparr>"
    by (rule UnmarshalStrict_members [OF run_reads(1) _ run_members(1)])
      (simp_all add: run_header_def decode_header_def member_object_def member_value_def as_raw_def)
  have e: "UnmarshalStrict run_json envelope_type decode_envelope (string_bytes ''e'') =
      Inr \<lparr>ev_Protected = Some (encode_base64 (string_bytes ''h'')), ev_Payload = Some (encode_base64 (string_bytes ''p'')),
        ev_Signature = Some (encode_base64 [1]), ev_Header = None, ev_Signatures = None\<rparr>"
    by (rule UnmarshalStrict_members [OF run_reads(3) _ run_members(3)])
      (simp_all add: run_envelope_def decode_envelope_def member_object_def member_value_def as_raw_def)
  have "isBase64URL ''nn''" "string_bytes ''h'' \<noteq> []" by code_simp+
  then show ?thesis
    by (simp add: jws_Parse_def parse_message_def e parseHeader_def h requestProfile_def Algorithms_def header_nonce_def header_key_def
        del: encode_base64.simps)
qed

lemma run_decoded:
  "decodePayload run_env revoke_type (decode_revoke run_json) (string_bytes ''p'') =
     Inr \<lparr>rv_Certificate = encode_base64 [2], rv_Reason = None\<rparr>"
proof -
  have "UnmarshalStrict run_json revoke_type (decode_revoke run_json) (string_bytes ''p'') = Inr \<lparr>rv_Certificate = encode_base64 [2], rv_Reason = None\<rparr>"
    by (rule UnmarshalStrict_members [OF run_reads(2) _ run_members(2)])
      (simp_all add: run_payload_def decode_revoke_def member_object_def member_value_def as_raw_def)
  then show ?thesis by (simp add: decodePayload_def run_env_def)
qed

subsection \<open>The runs\<close>

lemma run_server_sel:
  "srv_workers run_server = \<lparr>wc_Concurrency = 1, wc_PollInterval = second, wc_Lease = 30 * second, wc_TaskTimeout = 10 * second,
     wc_MaxAttempts = 3, wc_RetryDelay = second, wc_StaleAfter = 600 * second, wc_External = False\<rparr>"
  "srv_tnAuthListOutlive run_server = False" "srv_issuancePolicy run_server = False"
  "srv_validators run_server = [ChallengeHTTP01 \<mapsto> PlainValidator]" "srv_authzLifetime run_server = 100 * second"
  "srv_baseURL run_server = ''https://ca/''" "srv_basePath run_server = ''/''" "srv_maxBody run_server = 100"
  "srv_revocationReasons run_server = [0, 1]"
  by (simp_all add: run_server_def)

lemma run_plain: "plain run_env"
  by (simp add: plain_def run_env_def)

lemma run_env_sel:
  "env_now run_env n = 20 * second" "env_Validate run_env n ty vreq = None"
  "env_X509 run_env = sample_x509" "env_Names run_env = sample_names" "env_Crypto run_env = run_crypto" "env_Json run_env = run_json"
  "env_Issue run_env n req = (\<lparr>ir_Chain = [[2], [3]], ir_CAReference = [], ir_Pending = False, ir_RetryAfter = 0, ir_Rejected = None\<rparr>, None)"
  "cr_SHA256 run_crypto b = b"
  by (simp_all add: run_env_def run_crypto_def sample_crypto_def)

lemmas run_store_ops = ClaimTask_def runnable_def task_before_def insertion_def put_task_def get_Order_def get_Account_def
  get_Authorization_def get_Challenge_def BeginIssuance_def checkTask_def checkOrder_def checkAuthorization_def checkChallenge_def
  put_order_def CompleteIssuance_def store_certificate_def removeTask_def CompleteValidation_def

lemmas run_issuance = process_def runIssuance_def issuanceOrder_def beginIssuance_def dispatchSnapshot_def issuanceAuthorization_def
  validationEvidence_def orderIdentifier_def narrow_deadline_def checkIssuancePolicy_def issueRequest_def issuedNotAfter_def grantExpiry_def
  truncate_second_def accountURL_def storeDispatch_def conclude_issuance_def recordIssuedResult_def completeIssuance_def
  handleIssuanceCommit_def issued_certificate_def certificateID_def

lemmas run_chain = checkChain_def check_validity_def certificateIdentifiers_def certificateSANs_def certificateCommonName_def
  tnAuthListExtension_def NormalizeIdentifiers_def sample_normal coversIdentifiers_def checkLeafCACertificate_def checkSignatureFrom_def
  slhdsa_Parse_def ReadAlgorithm_def sample_x509_def sample_csr_def sample_leaf_def

lemma run_ids: "encode_base64 [2] = ''Ag''" "decode_strict ''Ag'' = Some [2]" "renewalID [9] (Some [5]) = ''CQ.BQ''"
  by code_simp+

lemmas run_eval = run_plain run_ids run_rules run_server_sel run_env_sel run_store_tables run_samples run_start_def run_once_def second_def Let_def
  bump_order_def bump_challenge_def effectiveAuthzStatus_def run_account_def sample_key_account_def run_store_ops run_issuance run_chain

text \<open>The first turn issues the certificate.\<close>

lemma run_issued_events:
  "\<exists>req s1 s2 s3 v v'. w_events run_issued =
       [Wrote s2 s3, Issued req s2 (fst (env_Issue run_env 0 req)) None, Wrote s1 s2, Wrote run_store s1] \<and>
     iq_OrderID req = ''o1'' \<and> iq_OperationID req = ''t1'' \<and> st_orders s2 ''o1'' = Some v \<and> ord_Status v = OrderProcessing \<and>
     st_orders s3 ''o1'' = Some v' \<and> ord_Status v' = OrderValid \<and> w_store run_issued = s3"
  by (simp add: run_issued_def run_eval del: encode_base64.simps cong: bind_weak_cong)

text \<open>The second turn validates the challenge.\<close>

lemma run_validate:
  "run_state (validate run_env PlainValidator req) w =
     (Inr no_grant, w\<lparr>w_tick := w_tick w + 1, w_events := Validated req (Inr no_grant) # w_events w\<rparr>)"
  by (simp add: validate_def host_call_def record_event_def run_bind run_return run_enter run_plain run_env_sel)

lemmas run_validation = runValidation_def validationTargets_def run_validator_def conclude_validation_def completeValidation_def
  numeral_3_eq_3 deriveOrderStatus_def accept_challenge_def accept_authz_def validation_request_def no_grant_def run_validate
  put_challenge_def put_authz_def bump_authz_def

lemma run_validated_events:
  "\<exists>req s s' a a' es. w_events run_validated = Wrote s s' # Validated req (Inr no_grant) # es \<and>
     st_authzs s ''z2'' = Some a \<and> az_Status a = AuthorizationPending \<and>
     st_authzs s' ''z2'' = Some a' \<and> az_Status a' = AuthorizationValid"
  by (simp add: run_validated_def run_issued_def run_eval run_validation del: encode_base64.simps cong: bind_weak_cong)

text \<open>The account revokes the certificate.\<close>

lemma run_begin_request: "run_state (begin_request E r) w =
    ((), w\<lparr>w_request := \<lparr>rst_client = clientAddr (env_Http E) r, rst_nonceSpent = False\<rparr>, w_response := no_response\<rparr>)"
  by (simp add: begin_request_def)

lemma run_Consume:
  "run_state (nonce_Consume run_env value) w =
     (fst (Consume None (20 * second) value (w_nonces w)),
      w\<lparr>w_tick := w_tick w + 1, w_nonces := snd (Consume None (20 * second) value (w_nonces w))\<rparr>)"
  by (simp add: nonce_Consume_def run_bind run_return run_enter State_Monad.get_def State_Monad.set_def run_plain run_env_sel split: prod.splits)
    (simp add: run_env_def)

lemma run_spend: "run_state spend_nonce w = ((), w\<lparr>w_request := (w_request w)\<lparr>rst_nonceSpent := True\<rparr>\<rparr>)"
  by (simp add: spend_nonce_def)

lemma run_respond: "run_state (respond f) w = ((), w\<lparr>w_response := f (w_response w)\<rparr>)"
  by (simp add: respond_def)

lemma run_draw: "run_state (draw_ID run_env) w = (Inr (encode_base64 (replicate (Suc (w_tick w)) 1)), w\<lparr>w_tick := w_tick w + 1\<rparr>)"
  by (simp add: draw_ID_def run_bind run_return run_enter run_plain newID_def) (simp add: run_env_def)

lemma run_revoking:
  "run_state (host_recorded run_env (\<lambda>n. env_Revoke run_env n req) ev) w =
     (None, w\<lparr>w_tick := w_tick w + 1, w_events := ev (w_store w) None # w_events w\<rparr>)"
  by (simp add: host_recorded_def run_bind run_return run_enter run_plain State_Monad.get_def record_event_def) (simp add: run_env_def)

lemma run_addNonce: "run_state (addNonce run_env) w = ((), w\<lparr>w_tick := w_tick w + 1\<rparr>)"
  by (simp add: addNonce_def nonce_Issue_def run_bind run_return run_enter run_plain State_Monad.get_def)
    (simp add: run_env_def Issue_def run_return Let_def)

lemma run_request_sel:
  "readBody run_server run_request = Inr (string_bytes ''e'')" "ht_ParseMediaType (env_Http run_env) (rq_ContentType run_request) = Some contentTypeJOSE"
  "rq_Method run_request = ''POST''" "cut_prefix (rq_Path run_request) ''/'' = Some ''revoke-cert''" "rq_EscapedPath run_request = ''/revoke-cert''"
  "expected_url run_server run_request ''revoke-cert'' = ''https://ca/revoke-cert''"
  "accountIDFromURL run_server ''https://ca/acct/a1'' = Some ''a1''"
  "jws_Verify run_json run_crypto \<lparr>msg_Header = \<lparr>hd_Algorithm = ''EdDSA'', hd_Nonce = n, hd_URL = u, hd_KeyID = k, hd_Key = None\<rparr>,
     msg_Payload = p, msg_signingInput = b, msg_signature = [1]\<rparr> sample_public_key = Inr ()"
  by (simp_all add: readBody_def run_request_def run_server_sel run_env_def string_bytes_def cut_prefix_def i64_def
    expected_url_def resourceURL_def resourceRevokeCert_def accountIDFromURL_def accountPathPrefix_def validID_def maxIDLength_def
    is_base64url_char_def jws_Verify_def verifySignature_def run_crypto_def sample_public_key_def)

lemmas run_serving = run_addNonce run_begin_request run_Consume run_spend run_respond run_draw run_revoking run_request_sel run_parse run_decoded ServeHTTP_def
  resourceDirectory_def resourceNewNonce_def resourceNewAccount_def resourceNewOrder_def resourceRevokeCert_def resourceKeyChange_def
  servePOST_def serveRevokeCert_def readSignedRequest_def Consume_def authenticate_def signing_key_def lookupAccount_def or_problem_def
  revocation_refusal_def revoke_certificate_def get_Certificate_def authorizeRevocation_def beginRevocation_def numeral_2_eq_2
  UpdateCertificate_def call_revoker_def revoke_request_def recordRevocation_def revoked_certificate_def

lemma run_revoked_events:
  "\<exists>req s. Revoking req s None \<in> set (w_events run_revoked) \<and> rr_DER req = [2]"
  by (simp add: run_revoked_def run_issued_def run_eval run_serving del: encode_base64.simps cong: bind_weak_cong)

text \<open>The nonce is spent.\<close>

lemma run_revoked_nonce: "map_of (m_live (w_nonces run_revoked)) ''nn'' = None"
  by (simp add: run_revoked_def run_issued_def run_eval run_serving del: encode_base64.simps cong: bind_weak_cong)

text \<open>The issuer first says that the certificate is pending; the challenge is validated meanwhile, and a third turn asks the issuer again.\<close>

definition run_pending :: Env where
  "run_pending = run_env\<lparr>env_Issue := \<lambda>_ _.
     (\<lparr>ir_Chain = [], ir_CAReference = [], ir_Pending = True, ir_RetryAfter = 0, ir_Rejected = None\<rparr>, None)\<rparr>"

definition run_later :: Env where
  "run_later = run_env\<lparr>env_now := \<lambda>_. 30 * second\<rparr>"

definition run_retried :: World where
  "run_retried = snd (run_state (run_once run_later run_server) (snd (run_state (run_once run_env run_server)
     (snd (run_state (run_once run_pending run_server) run_start)))))"

lemma run_plain2: "plain run_pending" "plain run_later"
  using run_plain by (simp_all add: plain_def run_pending_def run_later_def)

lemma run_env_sel2:
  "env_X509 run_pending = sample_x509" "env_Names run_pending = sample_names" "env_now run_pending n = 20 * second"
  "env_Issue run_pending n req = (\<lparr>ir_Chain = [], ir_CAReference = [], ir_Pending = True, ir_RetryAfter = 0, ir_Rejected = None\<rparr>, None)"
  "env_X509 run_later = sample_x509" "env_Names run_later = sample_names" "env_Crypto run_later = run_crypto" "env_now run_later n = 30 * second"
  "env_Issue run_later n req = (\<lparr>ir_Chain = [[2], [3]], ir_CAReference = [], ir_Pending = False, ir_RetryAfter = 0, ir_Rejected = None\<rparr>, None)"
  by (simp_all add: run_pending_def run_later_def run_env_sel)

lemma run_retried_events:
  "\<exists>req s res req' s' res' e1 e2 e3 e4 e5 e6 es. w_events run_retried =
       e1 # Issued req' s' res' None # e2 # e3 # e4 # e5 # e6 # Issued req s res None # es \<and>
     ir_Pending res \<and> \<not> ir_Pending res' \<and> iq_OrderID req = ''o1'' \<and> iq_OrderID req' = ''o1''"
  by (simp add: run_retried_def run_plain2 run_env_sel2 run_eval run_validation storeReschedule_def RescheduleTask_def release_task_def
    del: encode_base64.simps cong: bind_weak_cong)

subsection \<open>The runs are runs of the system\<close>

lemma run_process: "process_env run_env G run_env"
  by (simp add: process_env_def same_libraries_def rely_def run_env_def)

lemma run_ids_ok: "ids_ok run_env"
proof -
  have "encode_base64 (replicate (Suc m) 1) = encode_base64 (replicate (Suc n) 1) \<Longrightarrow> m = n" for m n
    using encode_base64_inj [of "replicate (Suc m) 1" "replicate (Suc n) 1"] by (auto dest: arg_cong [of _ _ length])
  moreover have "encode_base64 (replicate (Suc n) 1) \<noteq> []" for n
    using encode_base64_inj [of "replicate (Suc n) 1" "[]"] by auto
  ultimately show ?thesis
    by (auto simp: ids_ok_def newID_def run_env_def simp del: replicate.simps encode_base64.simps)
qed

lemma run_request_env: "request_env run_env G run_server run_request"
  by (simp add: request_env_def run_ids_ok task_of_def run_server_sel run_request_sel)

lemma run_retried_system: "system run_env run_naming run_server run_retried"
proof -
  have "process_env run_env run_naming run_pending" "process_env run_env run_naming run_later"
    using run_process by (simp_all add: process_env_def same_libraries_def rely_def run_pending_def run_later_def)
  moreover have "system run_env run_naming run_server run_start"
    by (rule system_start) (simp_all add: run_start_def run_store_healthy)
  ultimately show ?thesis
    unfolding run_retried_def by (intro system_worker run_process)
qed

lemma run_systems:
  "system run_env run_naming run_server run_start" "system run_env run_naming run_server run_issued"
  "system run_env run_naming run_server run_validated" "system run_env run_naming run_server run_revoked"
proof -
  show start: "system run_env run_naming run_server run_start"
    by (rule system_start) (simp_all add: run_start_def run_store_healthy)
  then show issued: "system run_env run_naming run_server run_issued"
    unfolding run_issued_def by (rule system_worker [OF _ run_process])
  then show "system run_env run_naming run_server run_validated"
    unfolding run_validated_def by (rule system_worker [OF _ run_process])
  show "system run_env run_naming run_server run_revoked"
    unfolding run_revoked_def by (rule system_request [OF issued run_process run_request_env])
qed

end
