(* ===== verification/Request_Auth.thy ===== *)
theory Request_Auth
  imports Server_Safety
begin

section \<open>Requests that are refused change nothing\<close>

text \<open>
  A request without a valid signature for its URL, or with a nonce that is not outstanding, is answered with a problem document and leaves no trace: no
  write, no call of a validator, issuer or revoker, no recorded refusal.  \<open>refuses\<close> says this of reading the request, \<open>inert\<close> of a whole
  handler.  Both hold from the worlds that satisfy a condition which a change of the response does not affect.
\<close>

named_theorems silent_rules \<open>actions that record nothing\<close>

definition silent :: "'a action \<Rightarrow> bool" where
  "silent m \<longleftrightarrow> (\<forall>w. w_events (snd (run_state m w)) = w_events w)"

lemma silent_return [silent_rules]: "silent (State_Monad.return x)"
  by (simp add: silent_def State_Monad.return_def)

lemma silent_bind [silent_rules]: "silent m \<Longrightarrow> (\<And>x. silent (f x)) \<Longrightarrow> silent (State_Monad.bind m f)"
  by (auto simp: silent_def State_Monad.bind_def split: prod.splits) (metis snd_conv)

lemma silent_splits [silent_rules]:
  "(b \<Longrightarrow> silent m) \<Longrightarrow> (\<not> b \<Longrightarrow> silent m') \<Longrightarrow> silent (if b then m else m')"
  "(o1 = None \<Longrightarrow> silent m) \<Longrightarrow> (\<And>x. o1 = Some x \<Longrightarrow> silent (f x)) \<Longrightarrow> silent (case o1 of None \<Rightarrow> m | Some x \<Rightarrow> f x)"
  "(\<And>x. s = Inl x \<Longrightarrow> silent (g x)) \<Longrightarrow> (\<And>x. s = Inr x \<Longrightarrow> silent (h x)) \<Longrightarrow> silent (case s of Inl x \<Rightarrow> g x | Inr x \<Rightarrow> h x)"
  "(\<And>x y. p = (x, y) \<Longrightarrow> silent (k x y)) \<Longrightarrow> silent (case p of (x, y) \<Rightarrow> k x y)"
  "(\<And>x. x = t \<Longrightarrow> silent (l x)) \<Longrightarrow> silent (let x = t in l x)"
  by (auto split: option.splits sum.splits prod.splits)

lemma silent_primitives [silent_rules]:
  "silent (enter E)" "silent (respond r)" "silent spend_nonce" "silent (begin_request E q)" "silent State_Monad.get"
  by (simp_all add: silent_def enter_def respond_def spend_nonce_def begin_request_def State_Monad.get_def)

lemma silent_calls [silent_rules]: "silent (store_read E f)" "silent (clock_Now E)" "silent (host_call E g)" "silent (draw_ID E)"
  unfolding store_read_def clock_Now_def host_call_def draw_ID_def by (intro silent_rules)+

lemma silent_set_nonces:
  "silent (do { w \<leftarrow> State_Monad.get; (case f w of (r, m) \<Rightarrow> do { _ \<leftarrow> State_Monad.set (w\<lparr>w_nonces := m\<rparr>); State_Monad.return r }) })"
  by (simp add: silent_def State_Monad.bind_def State_Monad.get_def State_Monad.set_def State_Monad.return_def split: prod.splits)

lemma silent_Consume [silent_rules]: "silent (nonce_Consume E v)"
  unfolding nonce_Consume_def by (rule silent_bind [OF silent_primitives(1)]) (rule silent_set_nonces)

lemma silent_Issue [silent_rules]: "silent (nonce_Issue E)"
  unfolding nonce_Issue_def
  by (rule silent_bind [OF silent_primitives(1)])
    (simp add: silent_def State_Monad.bind_def State_Monad.get_def State_Monad.set_def State_Monad.return_def split: prod.splits option.splits)

lemma silent_answers [silent_rules]:
  "silent (addNonce E)" "silent (checkLimit E S q)" "silent (writeProblemWithoutNonce S p)"
  unfolding addNonce_def checkLimit_def writeProblemWithoutNonce_def by (intro silent_rules)+

lemma silent_writeProblem [silent_rules]: "silent (writeProblem E S p)"
  unfolding writeProblem_def by (intro silent_rules)

lemma silent_unsigned [silent_rules]:
  "silent (writeMethodNotAllowed E S a)" "silent (serveDirectory E S r)" "silent (serveProfile E S r name)"
  "silent (serveNewNonce E S r)" "silent (serveRenewalInfo E S r i)"
  unfolding writeMethodNotAllowed_def serveDirectory_def serveProfile_def serveNewNonce_def serveRenewalInfo_def renewal_answer_def
  by (intro silent_rules)+

lemma silent_readSignedRequest: "silent (readSignedRequest E S r rel mode)"
  unfolding readSignedRequest_def authenticate_def signing_key_def lookupAccount_def by (intro silent_rules)

subsection \<open>Refusing\<close>

definition refuses :: "(World \<Rightarrow> bool) \<Rightarrow> ('e + 'a) action \<Rightarrow> bool" where
  "refuses P m \<longleftrightarrow> (\<forall>w. P w \<longrightarrow> (\<exists>p w'. run_state m w = (Inl p, w') \<and> w_events w' = w_events w))"

definition inert :: "(World \<Rightarrow> bool) \<Rightarrow> 'a action \<Rightarrow> bool" where
  "inert P m \<longleftrightarrow> (\<forall>w. P w \<longrightarrow> w_events (snd (run_state m w)) = w_events w)"

lemma silent_inert: "silent m \<Longrightarrow> inert P m"
  by (simp add: silent_def inert_def)

lemma inert_splits:
  "inert P m \<Longrightarrow> inert P m' \<Longrightarrow> inert P (if b then m else m')"
  "inert P m \<Longrightarrow> (\<And>x. inert P (f x)) \<Longrightarrow> inert P (case o1 of None \<Rightarrow> m | Some x \<Rightarrow> f x)"
  "(\<And>x y. inert P (k x y)) \<Longrightarrow> inert P (case p of (x, y) \<Rightarrow> k x y)"
  "(\<And>x. inert P (l x)) \<Longrightarrow> inert P (let x = t in l x)"
  by (auto split: option.splits prod.splits)

lemma inert_handler:
  assumes "refuses P m"
  shows "inert P (do { q \<leftarrow> m; or_problem E S q k })"
  unfolding inert_def
proof (intro allI impI)
  fix w
  assume "P w"
  then obtain p w' where "run_state m w = (Inl p, w')" "w_events w' = w_events w"
    using assms by (auto simp: refuses_def)
  then show "w_events (snd (run_state (do { q \<leftarrow> m; or_problem E S q k }) w)) = w_events w"
    using silent_writeProblem [of E S p] by (simp add: State_Monad.bind_def or_problem_def silent_def)
qed

lemma refuses_bind: "refuses P m \<Longrightarrow> (\<And>p. f (Inl p) = State_Monad.return (Inl (g p))) \<Longrightarrow> refuses P (State_Monad.bind m f)"
  unfolding refuses_def by (fastforce simp: State_Monad.bind_def State_Monad.return_def)

lemma refuses_owned:
  assumes "refuses P (readSignedRequest E S r rel keyModeAccount)"
  shows "refuses P (readOwnedAccount E S r i rel)" "refuses P (readOwnedOrder E S r i rel)"
  unfolding readOwnedAccount_def readOwnedOrder_def by (rule refuses_bind [OF assms], simp)+

text \<open>The dispatcher, when reading a signed request fails at every path.\<close>

lemma inert_servePOST: "inert P h \<Longrightarrow> inert P (servePOST E S r h)"
  unfolding servePOST_def by (simp add: silent_inert [OF silent_unsigned(1)])

lemma inert_respond: "(\<And>w y. P w \<Longrightarrow> P (w\<lparr>w_response := y\<rparr>)) \<Longrightarrow> inert P m \<Longrightarrow> inert P (State_Monad.bind (respond f) (\<lambda>_. m))"
  by (simp add: inert_def respond_def State_Monad.bind_def)

lemma inert_ServeHTTP:
  assumes read: "\<And>rel mode. refuses P (readSignedRequest E S r rel mode)"
    and P: "\<And>w x y. P w \<Longrightarrow> P (w\<lparr>w_request := x, w_response := y\<rparr>)" "\<And>w y. P w \<Longrightarrow> P (w\<lparr>w_response := y\<rparr>)"
  shows "inert P (ServeHTTP E S r)"
proof -
  have new: "inert P (serveNewAccount E S r)"
    unfolding serveNewAccount_def by (rule inert_respond [OF P(2) inert_handler [OF read]])
  note handlers = inert_handler [OF read] inert_handler [OF refuses_owned(1) [OF read]] inert_handler [OF refuses_owned(2) [OF read]]
  have others: "inert P (serveNewOrder E S r)" "inert P (serveRevokeCert E S r)" "inert P (serveKeyChange E S r)"
    "inert P (serveAccount E S r i)" "inert P (serveAccountOrders E S r i)" "inert P (serveOrder E S r i)" "inert P (serveFinalize E S r i)"
    "inert P (serveAuthorization E S r i)" "inert P (serveChallenge E S r i)" "inert P (serveCertificate E S r i)" for i
    unfolding serveNewOrder_def serveRevokeCert_def serveKeyChange_def serveAccount_def serveAccountOrders_def serveOrder_def
      serveFinalize_def serveAuthorization_def serveChallenge_def serveCertificate_def by (rule handlers)+
  have resource: "inert P (serveResource E S r rel)" for rel
    unfolding serveResource_def
    by (intro inert_splits silent_inert [OF silent_writeProblem] silent_inert [OF silent_unsigned(3)] silent_inert [OF silent_unsigned(5)]
        inert_servePOST others)
  have route: "inert P (case cut_prefix (rq_Path r) (srv_basePath S) of
        None \<Rightarrow> writeProblem E S notFound
      | Some rel \<Rightarrow>
          if rel = resourceDirectory then serveDirectory E S r
          else if rel = resourceNewNonce then serveNewNonce E S r
          else if rel = resourceNewAccount then servePOST E S r (serveNewAccount E S r)
          else if rel = resourceNewOrder then servePOST E S r (serveNewOrder E S r)
          else if rel = resourceRevokeCert then servePOST E S r (serveRevokeCert E S r)
          else if rel = resourceKeyChange then servePOST E S r (serveKeyChange E S r)
          else serveResource E S r rel)"
    by (intro inert_splits silent_inert [OF silent_writeProblem] silent_inert [OF silent_unsigned(2)]
        silent_inert [OF silent_unsigned(4)] inert_servePOST others new resource)
  show ?thesis
    using route P(1) unfolding ServeHTTP_def inert_def by (simp add: State_Monad.bind_def begin_request_def)
qed

subsection \<open>Why reading a request fails\<close>

lemma refuses_unauthentic:
  assumes "rely E G" and no: "\<And>key payload. \<not> authentic E S r rel key payload"
  shows "refuses (good E G) (readSignedRequest E S r rel mode)"
  unfolding refuses_def
proof (intro allI impI)
  fix w
  assume w: "good E G w"
  obtain q w' where q: "run_state (readSignedRequest E S r rel mode) w = (q, w')" by fastforce
  have "w_events w' = w_events w"
    using silent_readSignedRequest [of E S r rel mode] q by (auto simp: silent_def dest: spec [of _ w])
  moreover have "case q of Inl _ \<Rightarrow> True | Inr req \<Rightarrow> signed E G S r rel mode req w'"
    using specD(3) [OF world.readSignedRequest_spec [OF world.intro [OF assms(1)] stable_const] w TrueI q] .
  then obtain p where "q = Inl p" using no by (auto simp: signed_def split: sum.splits)
  ultimately show "\<exists>p w'. run_state (readSignedRequest E S r rel mode) w = (Inl p, w') \<and> w_events w' = w_events w"
    using q by blast
qed

lemma refuses_spent_nonce:
  assumes "env_other_nonces E = (\<lambda>_ m. m)" and "readBody S r = Inr body" "jws_Parse (env_Json E) (env_Crypto E) body = Inr msg"
  shows "refuses (\<lambda>w. map_of (m_live (w_nonces w)) (hd_Nonce (msg_Header msg)) = None) (readSignedRequest E S r rel mode)"
  unfolding refuses_def
proof (intro allI impI)
  fix w :: World
  assume "map_of (m_live (w_nonces w)) (hd_Nonce (msg_Header msg)) = None"
  then have "\<exists>p w'. run_state (readSignedRequest E S r rel mode) w = (Inl p, w')"
    using assms by (auto simp: readSignedRequest_def nonce_Consume_def enter_def State_Monad.bind_def State_Monad.get_def State_Monad.set_def
      State_Monad.return_def Consume_def split: option.splits)
  then show "\<exists>p w'. run_state (readSignedRequest E S r rel mode) w = (Inl p, w') \<and> w_events w' = w_events w"
    using silent_readSignedRequest [of E S r rel mode] by (auto simp: silent_def dest: spec [of _ w])
qed

lemma unauthentic_request_inert:
  assumes "rely E G" "\<And>rel key payload. \<not> authentic E S r rel key payload"
  shows "inert (good E G) (ServeHTTP E S r)"
  by (rule inert_ServeHTTP [OF refuses_unauthentic [OF assms]]) (simp_all add: good_def)

lemma replayed_request_inert:
  assumes "env_other_nonces E = (\<lambda>_ m. m)" "readBody S r = Inr body" "jws_Parse (env_Json E) (env_Crypto E) body = Inr msg"
  shows "inert (\<lambda>w. map_of (m_live (w_nonces w)) (hd_Nonce (msg_Header msg)) = None) (ServeHTTP E S r)"
  by (rule inert_ServeHTTP [OF refuses_spent_nonce [OF assms]]) simp_all

end
