(* ===== verification/Nonce_Refinement.thy ===== *)
theory Nonce_Refinement
  imports Nonce_Manager
begin

section \<open>The nonce manager as a bounded queue\<close>

text \<open>
  What a client of the manager sees is a queue of outstanding nonces: issuing drops the expired ones at the
  front, then the oldest until there is room, and appends the new one; consuming takes one out.  The manager keeps a map and
  a queue with a head index, leaves consumed entries in the queue and compacts it now and then.  \<open>fifo_of\<close> is the abstraction
  function, and every operation commutes with it.  The last part shows that the loop of \<^verbatim>\<open>Issue\<close> ends.
\<close>

subsection \<open>The abstract queue\<close>

definition fifo_purge :: "time \<Rightarrow> entry list \<Rightarrow> entry list" where
  "fifo_purge now l = dropWhile (\<lambda>e. \<not> Before now (e_expires e)) l"

definition fifo_room :: "nat \<Rightarrow> entry list \<Rightarrow> entry list" where
  "fifo_room capacity l = drop (Suc (length l) - capacity) l"

definition fifo_issue :: "nat \<Rightarrow> duration \<Rightarrow> time \<Rightarrow> string \<Rightarrow> entry list \<Rightarrow> entry list" where
  "fifo_issue capacity ttl now v l = fifo_room capacity (fifo_purge now l) @ [\<lparr>e_value = v, e_expires = now + ttl\<rparr>]"

definition fifo_accepts :: "time \<Rightarrow> string \<Rightarrow> entry list \<Rightarrow> bool" where
  "fifo_accepts now v l \<longleftrightarrow> (\<exists>e \<in> set l. e_value e = v \<and> Before now (e_expires e))"

definition fifo_consume :: "string \<Rightarrow> entry list \<Rightarrow> entry list" where
  "fifo_consume v l = filter (\<lambda>e. e_value e \<noteq> v) l"

subsection \<open>The abstraction\<close>

definition fifo_of :: "Manager \<Rightarrow> entry list" where
  "fifo_of m = filter (current m) (pending m)"

text \<open>No value is in the queue twice, which random values of 128 bits do not do.\<close>

definition queue_unique :: "Manager \<Rightarrow> bool" where
  "queue_unique m \<longleftrightarrow> distinct (map e_value (pending m))"

lemma pending_Cons:
  "m_head m < length (m_queue m) \<Longrightarrow>
   pending m = m_queue m ! m_head m # pending (m\<lparr>m_live := l, m_head := Suc (m_head m)\<rparr>)"
  by (simp add: pending_def Cons_nth_drop_Suc)

lemma live_is_current:
  assumes "manager_ok m" "queue_unique m" "e \<in> set (pending m)" "map_of (m_live m) (e_value e) = Some x"
  shows "current m e"
proof -
  have "\<lparr>e_value = e_value e, e_expires = x\<rparr> \<in> set (pending m)"
    using assms(1,4) by (simp add: manager_ok_def)
  then have "\<lparr>e_value = e_value e, e_expires = x\<rparr> = e"
    using assms(2,3) unfolding queue_unique_def distinct_map inj_on_def by (metis entry.select_convs(1))
  then have "e_expires e = x" by (metis entry.select_convs(2))
  then show ?thesis using assms(4) by (simp add: current_def)
qed

text \<open>Dropping the head of the queue with its nonce.\<close>

lemma fifo_of_drop:
  assumes u: "queue_unique m" and h: "m_head m < length (m_queue m)"
  defines "e \<equiv> m_queue m ! m_head m"
  defines "m1 \<equiv> m\<lparr>m_live := alist_del (e_value e) (m_live m), m_head := Suc (m_head m)\<rparr>"
  shows "fifo_of m = (if current m e then e # fifo_of m1 else fifo_of m1)" "queue_unique m1"
proof -
  have p: "pending m = e # pending m1" unfolding e_def m1_def by (rule pending_Cons [OF h])
  have "e_value e \<notin> e_value ` set (pending m1)"
    using u by (simp add: queue_unique_def p)
  then have "e_value x \<noteq> e_value e" if "x \<in> set (pending m1)" for x
    using that by (metis imageI)
  then have "filter (current m1) (pending m1) = filter (current m) (pending m1)"
    by (intro filter_cong) (auto simp: current_def m1_def)
  then show "fifo_of m = (if current m e then e # fifo_of m1 else fifo_of m1)"
    by (simp add: fifo_of_def p)
  show "queue_unique m1" using u by (simp add: queue_unique_def p)
qed

lemma fifo_of_compact: "fifo_of (compact m) = fifo_of m" "queue_unique m \<Longrightarrow> queue_unique (compact m)"
  by (auto simp: compact_def fifo_of_def pending_def current_def queue_unique_def distinct_map intro: inj_on_subset filter_cong)

lemma fifo_of_length:
  assumes "manager_ok m" "queue_unique m"
  shows "length (fifo_of m) = length (m_live m)"
proof -
  have "distinct (map e_value (fifo_of m))"
    using assms(2) by (simp add: queue_unique_def fifo_of_def distinct_map_filter)
  then have "length (fifo_of m) = card (set (map e_value (fifo_of m)))"
    by (metis distinct_card length_map)
  moreover have "set (map e_value (fifo_of m)) = fst ` set (m_live m)"
  proof
    show "set (map e_value (fifo_of m)) \<subseteq> fst ` set (m_live m)"
      by (auto simp: fifo_of_def current_def dest!: map_of_SomeD intro: rev_image_eqI)
    show "fst ` set (m_live m) \<subseteq> set (map e_value (fifo_of m))"
    proof
      fix v
      assume "v \<in> fst ` set (m_live m)"
      then obtain x where x: "map_of (m_live m) v = Some x" by (auto simp flip: dom_map_of_conv_image_fst)
      let ?e = "\<lparr>e_value = v, e_expires = x\<rparr>"
      have "?e \<in> set (fifo_of m)" using assms(1) x by (simp add: manager_ok_def fifo_of_def current_def)
      then show "v \<in> set (map e_value (fifo_of m))" by (force intro: rev_image_eqI)
    qed
  qed
  moreover have "card (fst ` set (m_live m)) = length (m_live m)"
    using assms(1) by (metis manager_ok_def distinct_card length_map set_map)
  ultimately show ?thesis by simp
qed

subsection \<open>The loops\<close>

lemma fifo_of_purge_loop:
  "manager_ok m \<Longrightarrow> queue_unique m \<Longrightarrow>
   fifo_of (purge_loop now m) = fifo_purge now (fifo_of m) \<and> queue_unique (purge_loop now m)"
proof (induction now m rule: purge_loop.induct)
  case (1 now m)
  show ?case
  proof (cases "m_head m < length (m_queue m)")
    case False
    then have "fifo_of m = []" "purge_loop now m = m" by (simp_all add: fifo_of_def pending_def purge_loop.simps [of now m])
    then show ?thesis using 1(3) by (simp add: fifo_purge_def)
  next
    case True
    let ?e = "m_queue m ! m_head m"
    let ?m1 = "m\<lparr>m_live := alist_del (e_value ?e) (m_live m), m_head := Suc (m_head m)\<rparr>"
    note d = fifo_of_drop [OF 1(3) True]
    have e: "?e \<in> set (pending m)" by (subst pending_Cons [OF True]) simp
    show ?thesis
    proof (cases "case map_of (m_live m) (e_value ?e) of Some expires \<Rightarrow> Before now expires | None \<Rightarrow> False")
      case stop: True
      then obtain x where x: "map_of (m_live m) (e_value ?e) = Some x" "Before now x" by (auto split: option.splits)
      from live_is_current [OF 1(2,3) e x(1)] have c: "current m ?e" .
      then have "Before now (e_expires ?e)" using x by (simp add: current_def)
      then show ?thesis
        using stop True d(1) c 1(3) by (simp add: purge_loop.simps [of now m] Let_def fifo_purge_def)
    next
      case go: False
      have "current m ?e \<Longrightarrow> \<not> Before now (e_expires ?e)" using go by (simp add: current_def)
      then have "fifo_purge now (fifo_of m) = fifo_purge now (fifo_of ?m1)"
        using d(1) by (simp add: fifo_purge_def)
      moreover have "purge_loop now m = purge_loop now ?m1"
        using go True by (simp add: purge_loop.simps [of now m] Let_def)
      ultimately show ?thesis
        using 1(1) [OF True refl go] drop_head_ok [OF 1(2) True] d(2) by simp
    qed
  qed
qed

lemma fifo_of_evict_loop:
  "manager_ok m \<Longrightarrow> queue_unique m \<Longrightarrow> fifo_of (evict_loop m) = tl (fifo_of m) \<and> queue_unique (evict_loop m)"
proof (induction m rule: evict_loop.induct)
  case (1 m)
  show ?case
  proof (cases "m_head m < length (m_queue m)")
    case False
    then have "fifo_of m = []" "evict_loop m = m" by (simp_all add: fifo_of_def pending_def evict_loop.simps [of m])
    then show ?thesis using 1(3) by simp
  next
    case True
    let ?e = "m_queue m ! m_head m"
    let ?m1 = "m\<lparr>m_live := alist_del (e_value ?e) (m_live m), m_head := Suc (m_head m)\<rparr>"
    note d = fifo_of_drop [OF 1(3) True]
    have e: "?e \<in> set (pending m)" by (subst pending_Cons [OF True]) simp
    show ?thesis
    proof (cases "map_of (m_live m) (e_value ?e)")
      case (Some x)
      then have "evict_loop m = ?m1" using True by (simp add: evict_loop.simps [of m] Let_def)
      then show ?thesis using d live_is_current [OF 1(2,3) e Some] by simp
    next
      case None
      then have "?m1 = m\<lparr>m_head := m_head m + 1\<rparr>" by (simp add: alist_del_absent)
      moreover have "evict_loop m = evict_loop (m\<lparr>m_head := m_head m + 1\<rparr>)"
        using True None by (simp add: evict_loop.simps [of m] Let_def)
      moreover have "\<not> current m ?e" using None by (simp add: current_def)
      ultimately show ?thesis
        using 1(1) [OF True refl refl] None d drop_head_ok [OF 1(2) True] by simp
    qed
  qed
qed

lemma fifo_of_evictOldest:
  "manager_ok m \<Longrightarrow> queue_unique m \<Longrightarrow> fifo_of (evictOldest m) = tl (fifo_of m) \<and> queue_unique (evictOldest m)"
  by (simp add: evictOldest_def fifo_of_compact fifo_of_evict_loop)

lemma fifo_room_tl: "nat c \<le> length l \<Longrightarrow> 0 < c \<Longrightarrow> fifo_room (nat c) (tl l) = fifo_room (nat c) l"
  by (cases l) (auto simp: fifo_room_def Suc_diff_le)

lemma fifo_of_evict_surplus:
  "manager_ok m \<Longrightarrow> queue_unique m \<Longrightarrow>
   fifo_of (evict_surplus m) = fifo_room (nat (m_capacity m)) (fifo_of m) \<and> queue_unique (evict_surplus m)"
proof (induction m rule: evict_surplus.induct)
  case (1 m)
  note len = fifo_of_length [OF 1(2,3)]
  have cap: "0 < m_capacity m" using 1(2) by (simp add: manager_ok_def)
  show ?case
  proof (cases "int (length (m_live m)) \<ge> m_capacity m \<and> m_head m < length (m_queue m)")
    case True
    have "m_capacity (evictOldest m) = m_capacity m" by (simp add: evictOldest_def)
    moreover have "nat (m_capacity m) \<le> length (fifo_of m)" using True len by linarith
    ultimately show ?thesis
      using 1(1) [OF True evictOldest_ok [OF 1(2)]] fifo_of_evictOldest [OF 1(2,3)] True fifo_room_tl [OF _ cap]
      by (simp add: evict_surplus.simps [of m])
  next
    case False
    have "length (fifo_of m) < nat (m_capacity m)"
    proof (cases "m_head m < length (m_queue m)")
      case True
      then show ?thesis using False len cap by linarith
    next
      case False
      then show ?thesis using cap by (simp add: fifo_of_def pending_def)
    qed
    moreover have "evict_surplus m = m" by (subst evict_surplus.simps) (use False in auto)
    ultimately show ?thesis using 1(3) by (simp add: fifo_room_def)
  qed
qed

lemma pending_live: "pending (m\<lparr>m_live := l\<rparr>) = pending m"
  by (simp add: pending_def)

lemma pending_next: "set (pending (m\<lparr>m_live := l, m_head := m_head m + 1\<rparr>)) \<subseteq> set (pending m)"
  using set_drop_subset_set_drop [of "m_head m" "Suc (m_head m)" "m_queue m"] by (simp add: pending_def)

lemma purge_loop_pending: "set (pending (purge_loop now m)) \<subseteq> set (pending m)"
proof (induction now m rule: purge_loop.induct)
  case (1 now m)
  show ?case
  proof (cases "m_head m < length (m_queue m) \<and> \<not> (case map_of (m_live m) (e_value (m_queue m ! m_head m)) of
      Some expires \<Rightarrow> Before now expires | None \<Rightarrow> False)")
    case True
    then show ?thesis
      using order_trans [OF 1 [OF _ refl] pending_next] by (subst purge_loop.simps) (simp add: Let_def)
  next
    case False
    then have "purge_loop now m = m" by (subst purge_loop.simps) (auto simp: Let_def)
    then show ?thesis by simp
  qed
qed

lemma evict_loop_subset: "set (pending (evict_loop m)) \<subseteq> set (pending m)"
proof (induction m rule: evict_loop.induct)
  case (1 m)
  show ?case
    using pending_next [of m "m_live m"] 1 [OF _ refl refl]
    by (subst evict_loop.simps) (auto simp: Let_def pending_live)
qed

lemma evict_surplus_subset: "set (pending (evict_surplus m)) \<subseteq> set (pending m)"
proof (induction m rule: evict_surplus.induct)
  case (1 m)
  have "set (pending (evictOldest m)) \<subseteq> set (pending m)"
    using evict_loop_subset [of m] pending_compact(1) [of "evict_loop m"] by (auto simp: evictOldest_def)
  then show ?case using 1 by (subst evict_surplus.simps) auto
qed

lemma cleaned_pending: "set (pending (evict_surplus (purge now m))) \<subseteq> set (pending m)"
  using evict_surplus_subset [of "purge now m"] pending_compact(1) [of "purge_loop now m"] purge_loop_pending [of now m]
  by (auto simp: purge_def)

subsection \<open>The operations refine those of the queue\<close>

lemma Issue_fifo:
  assumes m: "manager_ok m" "queue_unique m" and i: "Issue ctx now reads m = Some (Inr v, m')"
    and v: "v \<notin> e_value ` set (pending m)"
  shows "fifo_of m' = fifo_issue (nat (m_capacity m)) (m_ttl m) now v (fifo_of m)"
proof -
  let ?m1 = "evict_surplus (purge now m)"
  let ?e = "\<lparr>e_value = v, e_expires = now + m_ttl m\<rparr>"
  have p: "fifo_of (purge now m) = fifo_purge now (fifo_of m)" "queue_unique (purge now m)"
    using fifo_of_purge_loop [OF m] by (simp_all add: purge_def fifo_of_compact)
  have fifo: "fifo_of ?m1 = fifo_room (nat (m_capacity m)) (fifo_purge now (fifo_of m))"
    using fifo_of_evict_surplus [OF purge_ok [OF m(1)] p(2)] p(1) by simp
  have ok1: "manager_ok ?m1" using m(1) by (simp add: purge_ok evict_surplus_ok)
  have m': "m' = ?m1\<lparr>m_live := alist_put v (now + m_ttl m) (m_live ?m1), m_queue := m_queue ?m1 @ [?e]\<rparr>"
    using Issue_Inr(3) [OF i] by simp
  have pend: "pending m' = pending ?m1 @ [?e]"
    using ok1 by (simp add: m' pending_def manager_ok_def)
  have "set (pending ?m1) \<subseteq> set (pending m)"
    by (rule cleaned_pending)
  then have "v \<notin> e_value ` set (pending ?m1)" using v by blast
  then have "filter (current m') (pending ?m1) = filter (current ?m1) (pending ?m1)"
    by (intro filter_cong refl) (auto simp: current_def m' image_iff)
  moreover have "current m' ?e" by (simp add: current_def m')
  ultimately show ?thesis
    using fifo by (simp add: fifo_of_def pend fifo_issue_def)
qed

lemma Consume_fifo:
  assumes "manager_ok m" "queue_unique m" "Consume None now v m = (r, m')"
  shows "r = Inr (fifo_accepts now v (fifo_of m))" "fifo_of m' = fifo_consume v (fifo_of m)" "queue_unique m'"
proof -
  have live: "\<lparr>e_value = v, e_expires = x\<rparr> \<in> set (fifo_of m)" if "map_of (m_live m) v = Some x" for x
    using assms(1) that by (simp add: fifo_of_def current_def manager_ok_def)
  have expires: "map_of (m_live m) (e_value e) = Some (e_expires e)" if "e \<in> set (fifo_of m)" for e
    using that by (simp add: fifo_of_def current_def)
  have absent: "fifo_consume v (fifo_of m) = fifo_of m" if "map_of (m_live m) v = None"
    unfolding fifo_consume_def
  proof (rule filter_True, rule ballI, rule notI)
    fix e :: entry
    assume e: "e \<in> set (fifo_of m)" "e_value e = v"
    show False using expires [OF e(1)] e(2) that by simp
  qed
  have accepts: "fifo_accepts now v (fifo_of m) \<longleftrightarrow> (\<exists>x. map_of (m_live m) v = Some x \<and> Before now x)"
  proof
    assume "fifo_accepts now v (fifo_of m)"
    then obtain e where "e \<in> set (fifo_of m)" "e_value e = v" "Before now (e_expires e)"
      by (auto simp: fifo_accepts_def)
    then show "\<exists>x. map_of (m_live m) v = Some x \<and> Before now x" using expires by blast
  next
    assume "\<exists>x. map_of (m_live m) v = Some x \<and> Before now x"
    then obtain x where "map_of (m_live m) v = Some x" "Before now x" by blast
    then show "fifo_accepts now v (fifo_of m)"
      unfolding fifo_accepts_def by (intro bexI [OF _ live]) simp_all
  qed
  show "r = Inr (fifo_accepts now v (fifo_of m))"
    using assms(3) by (auto simp: accepts Consume_def split: option.splits)
  show "fifo_of m' = fifo_consume v (fifo_of m)"
  proof (cases "map_of (m_live m) v")
    case None
    then show ?thesis using assms(3) absent by (simp add: Consume_def)
  next
    case (Some x)
    then have "m' = m\<lparr>m_live := alist_del v (m_live m)\<rparr>" using assms(3) by (simp add: Consume_def)
    then show ?thesis by (auto simp: fifo_of_def fifo_consume_def pending_def current_def intro!: filter_cong split: if_splits)
  qed
  show "queue_unique m'"
    using assms(2,3) by (auto simp: Consume_def queue_unique_def pending_def split: option.splits)
qed


text \<open>C25. Issuing always ends: the server draws until it finds a value that is not outstanding, and as many different
  draws as the capacity always hold one, however many nonces were issued before.\<close>

theorem Issue_terminates:
  assumes "manager_ok m" "distinct bufs" "nat (m_capacity m) \<le> length bufs"
  shows "\<exists>v m'. Issue None now (map Inr bufs) m = Some (Inr v, m')"
proof -
  let ?live = "m_live (evict_surplus (purge now m))"
  have "int (length ?live) < m_capacity m"
    using evict_surplus_room [OF purge_ok [OF assms(1)], of now] by simp
  then have "length ?live < length bufs" using assms(3) by linarith
  moreover have "card (encode_base64 ` set bufs) = length bufs"
    using assms(2) encode_base64_inj by (metis card_image distinct_card inj_onI)
  moreover have "card (fst ` set ?live) \<le> length ?live"
    by (metis card_length length_map set_map)
  ultimately have "\<not> encode_base64 ` set bufs \<subseteq> fst ` set ?live"
    using card_mono [of "fst ` set ?live" "encode_base64 ` set bufs"] by auto
  then obtain b where "b \<in> set bufs" "map_of ?live (encode_base64 b) = None"
    by (auto simp: map_of_eq_None_iff)
  then have "draw (map Inr bufs) ?live \<noteq> None"
    using draw_returns [of "map Inr bufs" ?live] by force
  moreover have "draw (map Inr bs) live \<noteq> Some (Inl e)" for bs live e
    by (induction bs) auto
  ultimately obtain v where "draw (map Inr bufs) ?live = Some (Inr v)"
    by (metis not_Some_eq sum.exhaust)
  then show ?thesis by (simp add: Issue_def Let_def)
qed

text \<open>A manager with one nonce outstanding and room for no more.\<close>

definition sample_full :: Manager where
  "sample_full = \<lparr>m_ttl = 10, m_capacity = 1, m_live = [(''old'', 20)], m_queue = [\<lparr>e_value = ''gone'', e_expires = 19\<rparr>, \<lparr>e_value = ''old'', e_expires = 20\<rparr>], m_head = 0\<rparr>"


theorem Issue_terminates_witness:
  "\<exists>v m'. Issue None 12 [Inr (replicate 16 7)] sample_full = Some (Inr v, m')"
proof -
  have "manager_ok sample_full" by (auto simp: sample_full_def manager_ok_def pending_def)
  from Issue_terminates [OF this, of "[replicate 16 7]" 12] show ?thesis by (simp add: sample_full_def del: replicate.simps)
qed

end
