(* ===== verification/Store_Safety.thy ===== *)
theory Store_Safety
  imports Store_Versions
begin

section \<open>What the store guarantees to concurrent requests and workers\<close>

text \<open>
  The properties of the in-memory store as theorems over its operations: no index leads to a nil entry,
  a stale writer never overwrites a newer value, a claim takes the oldest runnable task whatever the
  iteration order of the map, a lease excludes other workers and an outrun worker cannot commit, an
  issuance is dispatched only against the account and authorizations that were checked, a deactivated
  authorization takes its order down, and pages of order identifiers list every order once.
\<close>

subsection \<open>Sample resources\<close>

text \<open>Concrete values for the instances of the properties.\<close>

definition sample_account :: Account where
  "sample_account =
     \<lparr>acc_ID = ''acct'', acc_Status = AccountValid, acc_Key = Ed25519Key [], acc_KeyThumbprint = ''thumb'',
      acc_Contact = [], acc_TermsOfServiceAgreed = True, acc_ExternalAccountID = [],
      acc_ExternalAccountClaim = [], acc_CreatedAt = 1, acc_Revision = 1\<rparr>"

definition sample_order :: Order where
  "sample_order =
     \<lparr>ord_ID = ''order'', ord_AccountID = ''acct'', ord_Status = OrderProcessing, ord_Expires = 100,
      ord_Identifiers = [mk_id IdentifierDNS ''example.org''], ord_NotBefore = 0, ord_NotAfter = 0,
      ord_AuthorizationIDs = [''authz''], ord_Error = None, ord_CSR = [], ord_CertificateID = [],
      ord_Issuance = None, ord_UnpublishedResult = None, ord_Replaces = [], ord_Profile = [],
      ord_CreatedAt = 1, ord_Revision = 1\<rparr>"

definition sample_authz :: Authorization where
  "sample_authz =
     \<lparr>az_ID = ''authz'', az_AccountID = ''acct'', az_OrderID = ''order'',
      az_Identifier = mk_id IdentifierDNS ''example.org'', az_Status = AuthorizationValid,
      az_Expires = 100, az_Wildcard = False, az_ChallengeIDs = [''chall''], az_CACertificate = False,
      az_GrantExpires = 0, az_GrantNames = [], az_GrantNFType = [], az_PreApproved = False,
      az_CreatedAt = 1, az_Revision = 1\<rparr>"

definition sample_challenge :: Challenge where
  "sample_challenge =
     \<lparr>ch_ID = ''chall'', ch_AuthorizationID = ''authz'', ch_AccountID = ''acct'', ch_Type = ChallengeHTTP01,
      ch_Status = ChallengePending, ch_Token = ''token'', ch_AuthorityToken = [],
      ch_KeyThumbprint = [], ch_Validated = 0, ch_Error = None, ch_Revision = 1\<rparr>"

definition sample_task :: "string \<Rightarrow> time \<Rightarrow> Task" where
  "sample_task i run =
     \<lparr>tsk_ID = i, tsk_Kind = TaskIssue, tsk_TargetID = ''order'', tsk_AccountID = ''acct'',
      tsk_RunAt = run, tsk_Attempts = 0, tsk_LeaseUntil = 0, tsk_Fence = 0, tsk_CreatedAt = 1\<rparr>"

text \<open>An account, an order that awaits issuance and its valid authorization, without a task.\<close>

definition sample_store :: Store where
  "sample_store = fold exec
     [OpCreateAccount sample_account, OpCreateOrder sample_order [sample_authz] [sample_challenge]]
     empty_store"

text \<open>The same store with the issuance task of the order.\<close>

definition sample_queue :: Store where
  "sample_queue = exec (OpFinalizeOrder sample_order (sample_task ''t1'' 5)) sample_store"

lemmas sample_defs = sample_account_def sample_order_def sample_authz_def sample_challenge_def
  sample_task_def

lemma sample_store_reachable: "reachable sample_store"
  unfolding reachable_def sample_store_def by (rule evolves_fold) simp

lemma sample_queue_reachable: "reachable sample_queue"
  using sample_store_reachable
  unfolding reachable_def sample_queue_def by (rule evolves_step) simp

lemma sample_store_eval:
  "st_accounts sample_store = [''acct'' \<mapsto> sample_account]"
  "st_orders sample_store = [''order'' \<mapsto> sample_order]"
  "st_authzs sample_store = [''authz'' \<mapsto> sample_authz]"
  "st_challenges sample_store = [''chall'' \<mapsto> sample_challenge]"
  "st_certificates sample_store = Map.empty" "st_tasks sample_store = []"
  "st_accountByKey sample_store = [''thumb'' \<mapsto> ''acct'']"
  "st_orderIDs sample_store = (\<lambda>_. [])(''acct'' := [''order''])"
  "st_taskSequence sample_store = 0" "st_taskInsertion sample_store = Map.empty"
  by (simp_all add: sample_store_def empty_store_def sample_defs CreateAccount_def CreateOrder_def
      store_new_authz_def put_challenge_def Let_def)

lemma sample_queue_eval:
  "st_accounts sample_queue = [''acct'' \<mapsto> sample_account]"
  "st_orders sample_queue = [''order'' \<mapsto> bump_order sample_order]"
  "st_authzs sample_queue = [''authz'' \<mapsto> sample_authz]"
  "st_tasks sample_queue = [(''t1'', sample_task ''t1'' 5)]"
  "st_taskSequence sample_queue = 1" "st_taskInsertion sample_queue = [''t1'' \<mapsto> 1]"
  "st_accountByKey sample_queue = [''thumb'' \<mapsto> ''acct'']"
proof -
  have "FinalizeOrder None sample_order (sample_task ''t1'' 5) sample_store =
      Inr ((bump_order sample_order, sample_task ''t1'' 5),
        snd (insertTask (sample_task ''t1'' 5) (put_order (bump_order sample_order) sample_store)))"
    by (auto simp: FinalizeOrder_Inr prod_eq_iff sample_store_eval sample_defs insertTask_def Let_def)
  then show "st_accounts sample_queue = [''acct'' \<mapsto> sample_account]"
    "st_orders sample_queue = [''order'' \<mapsto> bump_order sample_order]"
    "st_authzs sample_queue = [''authz'' \<mapsto> sample_authz]"
    "st_tasks sample_queue = [(''t1'', sample_task ''t1'' 5)]"
    "st_taskSequence sample_queue = 1" "st_taskInsertion sample_queue = [''t1'' \<mapsto> 1]"
    "st_accountByKey sample_queue = [''thumb'' \<mapsto> ''acct'']"
    by (simp_all add: sample_queue_def sample_store_eval insertTask_def put_order_def sample_defs
        bump_order_def Let_def)
qed

subsection \<open>The oldest runnable task\<close>

lemma task_before_trans: "\<not> task_before s u t \<Longrightarrow> task_before s v t \<Longrightarrow> \<not> task_before s u v"
  by (auto simp: task_before_def)

lemma best_task_least:
  assumes "best_task s now b ts = Some t"
    and "(u \<in> set ts \<and> runnable now u) \<or> b = Some u"
  shows "\<not> task_before s u t"
  using assms
proof (induction ts arbitrary: b u)
  case Nil
  then show ?case by (auto simp: task_before_def)
next
  case (Cons x ts)
  show ?case
  proof (cases "runnable now x")
    case False
    with Cons.prems Cons.IH [of b u] show ?thesis by auto
  next
    case run: True
    show ?thesis
    proof (cases b)
      case None
      with run Cons.prems Cons.IH [of "Some x" u] show ?thesis by auto
    next
      case (Some y)
      define z where "z = (if task_before s x y then x else y)"
      have best: "best_task s now (Some z) ts = Some t"
        using Cons.prems(1) run Some by (auto simp: z_def split: if_splits)
      have z: "\<not> task_before s z t" by (rule Cons.IH [OF best]) simp
      have "\<not> task_before s x t" "\<not> task_before s y t"
        using z by (auto simp: z_def task_before_def split: if_splits)
      with Cons.prems(2) Some Cons.IH [OF best, of u] show ?thesis by auto
    qed
  qed
qed

lemma best_task_keeps: "\<exists>t. best_task s now (Some b) ts = Some t"
  by (induction ts arbitrary: b) auto

lemma best_task_None:
  "best_task s now None ts = None \<longleftrightarrow> (\<forall>t\<in>set ts. \<not> runnable now t)"
  by (induction ts) (simp_all add: best_task_keeps)

lemma task_before_total:
  assumes "tasks_ok s" "map_of (st_tasks s) (tsk_ID t) = Some t" "map_of (st_tasks s) (tsk_ID u) = Some u"
    and "\<not> task_before s u t" "\<not> task_before s t u"
  shows "t = u"
proof -
  have dom: "st_taskInsertion s (tsk_ID x) \<noteq> None" if "map_of (st_tasks s) (tsk_ID x) = Some x" for x
    using assms(1) that unfolding tasks_ok_def by blast
  from assms(4,5) have "insertion s (tsk_ID t) = insertion s (tsk_ID u)"
    by (auto simp: task_before_def)
  with dom [OF assms(2)] dom [OF assms(3)]
  have eq: "st_taskInsertion s (tsk_ID t) = st_taskInsertion s (tsk_ID u)"
    by (auto simp: insertion_def)
  from assms(1) have "inj_on (st_taskInsertion s) (dom (st_taskInsertion s))"
    unfolding tasks_ok_def by blast
  from inj_onD [OF this eq] dom [OF assms(2)] dom [OF assms(3)] have "tsk_ID t = tsk_ID u"
    by (simp only: domIff not_False_eq_True)
  with assms(2,3) show ?thesis by (metis option.inject)
qed

text \<open>The task a claim selects, as a function of the set of tasks alone.\<close>

lemma best_task_unique:
  assumes ok: "tasks_ok s"
  shows "best_task s now None (map snd (st_tasks s)) = Some t \<longleftrightarrow>
    map_of (st_tasks s) (tsk_ID t) = Some t \<and> runnable now t \<and>
    (\<forall>u\<in>snd ` set (st_tasks s). runnable now u \<longrightarrow> u = t \<or> task_before s t u)"
    (is "?best = Some t \<longleftrightarrow> ?spec t")
proof -
  have stored: "map_of (st_tasks s) (tsk_ID u) = Some u" if "u \<in> snd ` set (st_tasks s)" for u
    using ok that by (auto simp: tasks_ok_def)
  have listed: "u \<in> snd ` set (st_tasks s)" if "map_of (st_tasks s) (tsk_ID u) = Some u" for u
    using map_of_SomeD [OF that] by force
  have spec: "?spec v" if best: "?best = Some v" for v
  proof -
    have v: "map_of (st_tasks s) (tsk_ID v) = Some v" "runnable now v"
      by (rule claimed_task [OF ok best])+
    have "u = v \<or> task_before s v u" if "u \<in> snd ` set (st_tasks s)" "runnable now u" for u
    proof (rule disjCI)
      assume "\<not> task_before s v u"
      moreover have "\<not> task_before s u v"
        by (rule best_task_least [OF best]) (use that in simp)
      ultimately show "u = v"
        using task_before_total [OF ok stored [OF that(1)] v(1)] by blast
    qed
    with v show ?thesis by blast
  qed
  have same: "v = t" if "?best = Some v" "?spec t" for v
  proof (rule ccontr)
    assume "v \<noteq> t"
    note v = spec [OF that(1)]
    have "v \<in> snd ` set (st_tasks s)" "t \<in> snd ` set (st_tasks s)"
      using v that(2) listed by simp_all
    with v that(2) \<open>v \<noteq> t\<close> have "task_before s t v" and "task_before s v t" by auto
    then show False by (auto simp: task_before_def)
  qed
  have some: "?best \<noteq> None" if "?spec t"
    using that listed [of t] unfolding best_task_None by auto
  show ?thesis
  proof
    show "?spec t" if "?best = Some t" by (rule spec [OF that])
    assume t: "?spec t"
    from some [OF t] obtain v where v: "?best = Some v" by (auto simp only: not_None_eq)
    with same [OF v t] show "?best = Some t" by simp
  qed
qed

subsection \<open>Indexes\<close>

text \<open>The authorization \<open>i\<close> was validated by a challenge and is still in force.\<close>

definition in_force :: "Store \<Rightarrow> time \<Rightarrow> string \<Rightarrow> bool" where
  "in_force s now i \<longleftrightarrow> (\<exists>a. st_authzs s i = Some a \<and>
     az_Status a = AuthorizationValid \<and> \<not> az_PreApproved a \<and> After (az_Expires a) now)"

lemma authorized_by_total:
  "authzs_ok s \<Longrightarrow> set ids \<subseteq> set (st_authzIndex s k) \<Longrightarrow>
     authorized_by ids now s = Inr (\<exists>i\<in>set ids. in_force s now i)"
proof (induction ids)
  case (Cons i ids)
  from Cons.prems obtain a where a: "st_authzs s i = Some a"
    unfolding authzs_ok_def by (meson list.set_intros(1) not_None_eq subset_iff)
  from Cons.prems have "set ids \<subseteq> set (st_authzIndex s k)" by simp
  from Cons.IH [OF Cons.prems(1) this] a show ?case by (auto simp: in_force_def)
qed simp

lemma authorized_all_total:
  "authzs_ok s \<Longrightarrow>
     authorized_all acc ids now s =
       Inr (\<forall>d\<in>set ids. \<exists>i\<in>set (st_authzIndex s (acc, d)). in_force s now i)"
  by (induction ids) (simp_all add: authorized_by_total [OF _ order_refl])

lemma claimReplacement_total:
  assumes "certificates_ok s"
  shows "claimReplacement o1 s \<noteq> Inl nil_dereference"
proof (cases "st_certByRenewal s (ord_Replaces o1)")
  case (Some i)
  with assms obtain cert where "st_certificates s i = Some cert"
    unfolding certificates_ok_def by blast
  with Some show ?thesis
    by (simp add: claimReplacement_def nil_dereference_def split: option.split)
qed (simp add: claimReplacement_def nil_dereference_def)

lemma AccountByKey_total:
  assumes "accounts_ok s"
  shows "AccountByKey None thumbprint s \<noteq> Inl nil_dereference"
proof (cases "st_accountByKey s thumbprint")
  case (Some i)
  with assms obtain a where "st_accounts s i = Some a"
    unfolding accounts_ok_def using indexes_lookup by metis
  with Some show ?thesis by (simp add: AccountByKey_def)
qed (simp add: AccountByKey_def nil_dereference_def)

lemma CertificateByRenewalID_total:
  assumes "certificates_ok s"
  shows "CertificateByRenewalID None r s \<noteq> Inl nil_dereference"
proof (cases "st_certByRenewal s r")
  case (Some i)
  with assms obtain cert where "st_certificates s i = Some cert"
    unfolding certificates_ok_def by blast
  with Some show ?thesis by (simp add: CertificateByRenewalID_def nil_dereference_def)
qed (simp add: CertificateByRenewalID_def nil_dereference_def)



subsection \<open>Claims and leases\<close>

text \<open>C38. A claim takes the runnable task with the least run time, ties broken by insertion order,
  and finds no task exactly when none is runnable.  Its answer is a function of the set of tasks: any
  order in which the map of tasks is iterated gives the same task.\<close>

theorem ClaimTask_oldest:
  assumes "reachable s" and "keys_distinct ts" and "set ts = set (st_tasks s)"
  shows "(ClaimTask None now lease (s\<lparr>st_tasks := ts\<rparr>) = Inl ErrNotFound \<longleftrightarrow>
      (\<forall>t\<in>snd ` set (st_tasks s). \<not> runnable now t)) \<and>
    (\<forall>t s'. ClaimTask None now lease (s\<lparr>st_tasks := ts\<rparr>) = Inr (t, s') \<longrightarrow>
      (\<exists>w\<in>snd ` set (st_tasks s). runnable now w \<and>
        (\<forall>u\<in>snd ` set (st_tasks s). runnable now u \<longrightarrow> u = w \<or> task_before s w u) \<and>
        t = w\<lparr>tsk_LeaseUntil := lease, tsk_Fence := tsk_Fence w + 1, tsk_Attempts := tsk_Attempts w + 1\<rparr> \<and>
        map_of (st_tasks s') = (map_of (st_tasks s))(tsk_ID w \<mapsto> t)))"
proof -
  let ?s = "s\<lparr>st_tasks := ts\<rparr>"
  have ok: "tasks_ok s" using reachable_ok [OF assms(1)] by (simp add: store_ok_def)
  then have map: "map_of ts = map_of (st_tasks s)"
    using assms(2,3) map_of_eqI by (metis (no_types, lifting) map_of_inject_set tasks_ok_def)
  have ok': "tasks_ok ?s" using ok assms(2) by (auto simp: tasks_ok_def map)
  have before: "task_before ?s t u = task_before s t u" for t u
    by (simp add: task_before_def insertion_def)
  have set: "snd ` set (st_tasks ?s) = snd ` set (st_tasks s)" by (simp add: assms(3))
  note best = best_task_unique [OF ok', unfolded before set]
  have "ClaimTask None now lease ?s = Inl ErrNotFound \<longleftrightarrow>
      best_task ?s now None (map snd ts) = None"
    by (auto simp: ClaimTask_def Let_def split: option.split)
  then have "ClaimTask None now lease ?s = Inl ErrNotFound \<longleftrightarrow>
      (\<forall>t\<in>snd ` set (st_tasks s). \<not> runnable now t)"
    by (simp add: best_task_None assms(3))
  moreover have "\<exists>w\<in>snd ` set (st_tasks s). runnable now w \<and>
        (\<forall>u\<in>snd ` set (st_tasks s). runnable now u \<longrightarrow> u = w \<or> task_before s w u) \<and>
        t = w\<lparr>tsk_LeaseUntil := lease, tsk_Fence := tsk_Fence w + 1, tsk_Attempts := tsk_Attempts w + 1\<rparr> \<and>
        map_of (st_tasks s') = (map_of (st_tasks s))(tsk_ID w \<mapsto> t)"
    if "ClaimTask None now lease ?s = Inr (t, s')" for t s'
  proof -
    from that obtain w where w: "best_task ?s now None (map snd (st_tasks ?s)) = Some w"
      and t: "t = w\<lparr>tsk_LeaseUntil := lease, tsk_Fence := tsk_Fence w + 1,
          tsk_Attempts := tsk_Attempts w + 1\<rparr>" and s': "s' = put_task t ?s"
      unfolding ClaimTask_Inr by blast
    note spec = w [unfolded best]
    then have "(tsk_ID w, w) \<in> set ts"
      by (auto dest: map_of_SomeD)
    then have "w \<in> snd ` set (st_tasks s)"
      using assms(3) by force
    with spec show ?thesis
      by (intro bexI [of _ w]) (simp_all add: t s' map)
  qed
  ultimately show ?thesis by blast
qed

lemma sample_claim:
  "ClaimTask None 7 60 sample_queue =
     Inr ((sample_task ''t1'' 5)\<lparr>tsk_LeaseUntil := 60, tsk_Fence := 1, tsk_Attempts := 1\<rparr>,
       put_task ((sample_task ''t1'' 5)\<lparr>tsk_LeaseUntil := 60, tsk_Fence := 1, tsk_Attempts := 1\<rparr>)
         sample_queue)"
  by (simp add: ClaimTask_def sample_queue_eval runnable_def sample_task_def Let_def)

theorem ClaimTask_oldest_witness:
  "\<exists>w\<in>snd ` set (st_tasks sample_queue). runnable 7 w \<and>
     (sample_task ''t1'' 5)\<lparr>tsk_LeaseUntil := 60, tsk_Fence := 1, tsk_Attempts := 1\<rparr> =
     w\<lparr>tsk_LeaseUntil := 60, tsk_Fence := tsk_Fence w + 1, tsk_Attempts := tsk_Attempts w + 1\<rparr>"
proof -
  have "keys_distinct (st_tasks sample_queue)" by (simp add: sample_queue_eval)
  moreover have "sample_queue\<lparr>st_tasks := st_tasks sample_queue\<rparr> = sample_queue" by simp
  ultimately show ?thesis
    using ClaimTask_oldest [OF sample_queue_reachable, of "st_tasks sample_queue" 7 60] sample_claim
    by (simp del: Store.surjective) blast
qed

fun claims_before :: "time \<Rightarrow> StoreOp \<Rightarrow> bool" where
  "claims_before lease (OpClaimTask now l) = (now < lease)"
| "claims_before lease _ = True"

definition leased :: "string \<Rightarrow> time \<Rightarrow> Store \<Rightarrow> bool" where
  "leased i lease s \<longleftrightarrow> (\<forall>t. map_of (st_tasks s) i = Some t \<longrightarrow> tsk_LeaseUntil t = lease)"

lemma leased_not_claimed:
  assumes "tasks_ok s" "leased i lease s" "lease \<noteq> 0" "now < lease"
    and "ClaimTask ctx now l s = Inr (t, s')"
  shows "tsk_ID t \<noteq> i"
proof
  assume "tsk_ID t = i"
  from assms(5) obtain w where best: "best_task s now None (map snd (st_tasks s)) = Some w"
    and t: "t = w\<lparr>tsk_LeaseUntil := l, tsk_Fence := tsk_Fence w + 1, tsk_Attempts := tsk_Attempts w + 1\<rparr>"
    unfolding ClaimTask_Inr by blast
  note w = claimed_task [OF assms(1) best]
  with \<open>tsk_ID t = i\<close> t assms(2) have "tsk_LeaseUntil w = lease"
    by (simp add: leased_def)
  with w(2) assms(3,4) show False
    by (simp add: runnable_def)
qed

lemma exec_leased:
  assumes "store_ok s" "leased i lease s" "lease \<noteq> 0"
    and "\<not> enqueues i op" "\<not> releases i op" "claims_before lease op"
  shows "leased i lease (exec op s)"
  using exec_task_effect [OF assms(1), of i op] assms(2-6)
  by (auto simp: task_effect_def leased_def runnable_def)

lemma evolves_leased:
  assumes "evolves (\<lambda>op. \<not> enqueues i op \<and> \<not> releases i op \<and> claims_before lease op) s t"
    and "store_ok s" "leased i lease s" "lease \<noteq> 0"
  shows "leased i lease t"
  using assms by (induction rule: evolves.induct) (auto intro: exec_leased later_ok)

lemma ClaimTask_stored:
  assumes "store_ok s" "ClaimTask ctx now lease s = Inr (t, s')"
  shows "map_of (st_tasks s') (tsk_ID t) = Some t" "tsk_LeaseUntil t = lease" "store_ok s'"
    "s' = exec (OpClaimTask now lease) s"
proof -
  show "map_of (st_tasks s') (tsk_ID t) = Some t" "tsk_LeaseUntil t = lease"
    using assms(2) by (auto simp: ClaimTask_Inr)
  have "ClaimTask None now lease s = Inr (t, s')"
    using assms(2) by (simp add: ClaimTask_Inr)
  then show s': "s' = exec (OpClaimTask now lease) s" by simp
  show "store_ok s'" unfolding s' by (rule exec_ok [OF assms(1)])
qed

text \<open>C18. While a worker holds the lease of a task, no other claim returns that task: whatever other
  operations run meanwhile (except giving the task back, or enqueuing a new task under its identifier),
  a claim made before the lease ends returns a different task.\<close>

theorem lease_is_exclusive:
  assumes "reachable s" and "ClaimTask None now lease s = Inr (t, s1)" and "lease \<noteq> 0"
    and "evolves (\<lambda>op. \<not> enqueues (tsk_ID t) op \<and> \<not> releases (tsk_ID t) op \<and> claims_before lease op) s1 s2"
    and "now' < lease" and "ClaimTask ctx now' lease' s2 = Inr (t', s3)"
  shows "tsk_ID t' \<noteq> tsk_ID t"
proof -
  note c = ClaimTask_stored [OF reachable_ok [OF assms(1)] assms(2)]
  have "leased (tsk_ID t) lease s2"
    by (rule evolves_leased [OF assms(4) c(3) _ assms(3)]) (use c in \<open>simp add: leased_def\<close>)
  moreover have "tasks_ok s2"
    using later_ok [OF assms(4) c(3)] by (simp add: store_ok_def)
  ultimately show ?thesis
    using assms(3,5,6) by (intro leased_not_claimed)
qed

text \<open>The sample queue after its task was leased, and after a second task was enqueued.\<close>

definition sample_leased :: Task where
  "sample_leased = (sample_task ''t1'' 5)\<lparr>tsk_LeaseUntil := 60, tsk_Fence := 1, tsk_Attempts := 1\<rparr>"

definition sample_second :: Store where
  "sample_second = exec (OpFinalizeOrder (bump_order sample_order) (sample_task ''t2'' 6))
     (put_task sample_leased sample_queue)"

lemma sample_second_eval:
  "st_tasks sample_second = [(''t1'', sample_leased), (''t2'', sample_task ''t2'' 6)]"
proof -
  have "FinalizeOrder None (bump_order sample_order) (sample_task ''t2'' 6)
        (put_task sample_leased sample_queue) =
      Inr ((bump_order (bump_order sample_order), sample_task ''t2'' 6),
        snd (insertTask (sample_task ''t2'' 6) (put_order (bump_order (bump_order sample_order))
          (put_task sample_leased sample_queue))))"
    by (auto simp: FinalizeOrder_Inr prod_eq_iff sample_queue_eval sample_defs sample_leased_def
        insertTask_def Let_def)
  then show ?thesis
    by (simp add: sample_second_def sample_queue_eval insertTask_def put_order_def put_task_def Let_def
        sample_task_def sample_leased_def)
qed

theorem lease_is_exclusive_witness:
  "tsk_ID ((sample_task ''t2'' 6)\<lparr>tsk_LeaseUntil := 90, tsk_Fence := 1, tsk_Attempts := 1\<rparr>) \<noteq>
     tsk_ID sample_leased"
proof (rule lease_is_exclusive [OF sample_queue_reachable])
  show "ClaimTask None 7 60 sample_queue = Inr (sample_leased, put_task sample_leased sample_queue)"
    by (simp add: sample_claim sample_leased_def)
  show "evolves (\<lambda>op. \<not> enqueues (tsk_ID sample_leased) op \<and> \<not> releases (tsk_ID sample_leased) op \<and>
      claims_before 60 op) (put_task sample_leased sample_queue) sample_second"
    unfolding sample_second_def
    by (rule evolves_exec) (simp add: sample_leased_def sample_task_def)
  show "ClaimTask None 8 90 sample_second =
      Inr ((sample_task ''t2'' 6)\<lparr>tsk_LeaseUntil := 90, tsk_Fence := 1, tsk_Attempts := 1\<rparr>,
        put_task ((sample_task ''t2'' 6)\<lparr>tsk_LeaseUntil := 90, tsk_Fence := 1, tsk_Attempts := 1\<rparr>)
          sample_second)"
    by (simp add: ClaimTask_def sample_second_eval runnable_def sample_leased_def sample_task_def Let_def)
qed simp_all

text \<open>C17. A worker whose lease ran out cannot commit once the task was claimed again: with the old
  fence every operation that reports on the task fails, at any later time, as long as no new task is
  enqueued under the identifier.\<close>

theorem stale_worker_cannot_commit:
  assumes "reachable s" and "ClaimTask None now lease s = Inr (t, s1)"
    and "not_reused (tsk_ID t) s1 s2" and "ClaimTask None now' lease' s2 = Inr (t', s3)"
    and "tsk_ID t' = tsk_ID t" and "not_reused (tsk_ID t) s3 s4"
    and "tsk_ID u = tsk_ID t" and "tsk_Fence u = tsk_Fence t"
  shows "(\<exists>e. checkTask u s4 = Inl e) \<and> (\<exists>e. RescheduleTask ctx u s4 = Inl e) \<and>
    (\<exists>e. RetryValidation ctx u challenge s4 = Inl e) \<and> (\<exists>e. FinishTask ctx u s4 = Inl e) \<and>
    (\<exists>e. CompleteValidation ctx u challenge authz order s4 = Inl e) \<and>
    (\<exists>e. BeginIssuance ctx u order account authzs s4 = Inl e) \<and>
    (\<exists>e. CompleteIssuance ctx u order cert s4 = Inl e)"
proof -
  note c = ClaimTask_stored [OF reachable_ok [OF assms(1)] assms(2)]
  have ok2: "store_ok s2" using assms(3) c(3) by (rule later_ok)
  note c' = ClaimTask_stored [OF ok2 assms(4)]
  from assms(4) obtain w where best: "best_task s2 now' None (map snd (st_tasks s2)) = Some w"
    and t': "tsk_ID t' = tsk_ID w" "tsk_Fence t' = Suc (tsk_Fence w)"
    unfolding ClaimTask_Inr by auto
  have "tasks_ok s2" using ok2 by (simp add: store_ok_def)
  from claimed_task(1) [OF this best] have w: "map_of (st_tasks s2) (tsk_ID t) = Some w"
    using assms(5) t'(1) by simp
  from task_fence.fence_mono [OF not_reused_steps [OF assms(3) c(3)] w] c(1)
  have "tsk_Fence t \<le> tsk_Fence w" by simp
  then have "tsk_Fence y \<noteq> tsk_Fence t" if "map_of (st_tasks s4) (tsk_ID t) = Some y" for y
    using task_fence.stale_fence [OF _ not_reused_steps [OF assms(6) c'(3)], of t' "tsk_Fence t" y]
      c'(1) assms(5) t'(2) that by simp
  then have fails: "checkTask u s4 \<noteq> Inr v" for v
    using assms(7,8) by auto
  then obtain e where "checkTask u s4 = Inl e"
    by (cases "checkTask u s4") auto
  then show ?thesis
    by (cases ctx) (simp_all add: RescheduleTask_def RetryValidation_def FinishTask_def
        CompleteValidation_def BeginIssuance_def CompleteIssuance_def with_ctx_def)
qed

theorem stale_worker_cannot_commit_witness:
  "\<exists>e. FinishTask None sample_leased
     (put_task (sample_leased\<lparr>tsk_LeaseUntil := 99, tsk_Fence := 2, tsk_Attempts := 2\<rparr>)
       (put_task sample_leased sample_queue)) = Inl e"
proof -
  let ?s1 = "put_task sample_leased sample_queue"
  let ?t' = "sample_leased\<lparr>tsk_LeaseUntil := 99, tsk_Fence := 2, tsk_Attempts := 2\<rparr>"
  have 1: "ClaimTask None 7 60 sample_queue = Inr (sample_leased, ?s1)"
    by (simp add: sample_claim sample_leased_def)
  have "st_tasks ?s1 = [(''t1'', sample_leased)]"
    by (simp add: put_task_def sample_queue_eval sample_leased_def sample_task_def)
  then have 2: "ClaimTask None 61 99 ?s1 = Inr (?t', put_task ?t' ?s1)"
    by (simp add: ClaimTask_def runnable_def sample_leased_def sample_task_def Let_def numeral_2_eq_2)
  show ?thesis
    using stale_worker_cannot_commit [OF sample_queue_reachable 1 evolves_refl 2 _ evolves_refl]
    by simp
qed

subsection \<open>Writers\<close>

text \<open>C20. Compare-and-set: a writer that holds an order at an older revision than one the store has
  held fails in every later store, whichever operation it uses; and a writer that holds the order at the
  revision of the stored value \<open>w\<close> and passes the revision check overwrites exactly \<open>w\<close>.\<close>

theorem stale_order_write_fails:
  assumes "st_orders s (ord_ID v) = Some w" and "later s t"
  shows "(ord_Revision v < ord_Revision w \<longrightarrow>
      (\<exists>e. FinalizeOrder ctx v task t = Inl e) \<and> (\<exists>e. BeginIssuance ctx task v account authzs t = Inl e) \<and>
      (\<exists>e. CompleteIssuance ctx task v cert t = Inl e) \<and>
      (\<exists>e. CompleteValidation ctx task challenge authz v t = Inl e)) \<and>
    (ord_Revision v = ord_Revision w \<and> checkOrder v t = Inr () \<longrightarrow> st_orders t (ord_ID v) = Some w)"
proof -
  have steps: "op_step\<^sup>*\<^sup>* s t" using assms(2) by (simp add: later_iff)
  from orders.upds_newer [OF steps assms(1)] obtain x where
    x: "st_orders t (ord_ID v) = Some x" "x = w \<or> ord_Revision w < ord_Revision x" by blast
  have "checkOrder v t = Inl ErrRevisionMismatch" if "ord_Revision v < ord_Revision w"
    using that x by (auto simp: checkOrder_def)
  then have "(\<exists>e. FinalizeOrder ctx v task t = Inl e) \<and> (\<exists>e. BeginIssuance ctx task v account authzs t = Inl e) \<and>
      (\<exists>e. CompleteIssuance ctx task v cert t = Inl e) \<and>
      (\<exists>e. CompleteValidation ctx task challenge authz v t = Inl e)" if "ord_Revision v < ord_Revision w"
    using that x
    by (intro conjI; cases ctx)
      (auto simp: FinalizeOrder_def BeginIssuance_def CompleteIssuance_def CompleteValidation_def
        with_ctx_def and_then_Inl_iff checkTask_def checkChallenge_def checkAuthorization_def
        split: option.split)
  moreover have "st_orders t (ord_ID v) = Some w" if "ord_Revision v = ord_Revision w" "checkOrder v t = Inr ()"
    using that x by auto
  ultimately show ?thesis by blast
qed

theorem stale_order_write_fails_witness:
  "\<exists>e. FinalizeOrder None sample_order (sample_task ''t9'' 1) sample_queue = Inl e"
  using stale_order_write_fails [of sample_queue sample_order "bump_order sample_order" sample_queue
    None "sample_task ''t9'' 1"]
  by (simp add: sample_queue_eval sample_order_def bump_order_def)

subsection \<open>Dispatching an issuance\<close>

text \<open>C16. Dispatch is atomic with the checks it rests on.  Let the account, the authorizations and the
  order be values read at any earlier times, possibly different ones, and interleaved with any other
  operations.  If \<^verbatim>\<open>BeginIssuance\<close> then succeeds, every one of those values is still the stored one at that
  moment: the account is valid, each authorization of the order is valid and unexpired at the recorded
  instant, the order is processing without a dispatch, and only the order is written.\<close>

theorem BeginIssuance_atomic:
  assumes "BeginIssuance ctx task order account authzs s = Inr (order', s')"
    and "\<exists>r. reachable r \<and> later r s \<and> get_Account None i r = Inr account"
    and "\<forall>a\<in>set authzs. \<exists>r. reachable r \<and> later r s \<and> get_Authorization None (az_ID a) r = Inr a"
    and "\<exists>r. later r s \<and> get_Order None (ord_ID order) r = Inr old" and "ord_Revision order = ord_Revision old"
  shows "st_accounts s (acc_ID account) = Some account \<and> acc_Status account = AccountValid \<and>
    map az_ID authzs = ord_AuthorizationIDs order \<and>
    (\<forall>a\<in>set authzs. st_authzs s (az_ID a) = Some a \<and> az_Status a = AuthorizationValid \<and>
       (\<forall>state. ord_Issuance order = Some state \<longrightarrow> After (az_Expires a) (is_AuthorizedAt state))) \<and>
    st_orders s (ord_ID order) = Some old \<and> ord_Status old = OrderProcessing \<and> ord_Issuance old = None \<and>
    ord_Issuance order \<noteq> None \<and> order' = bump_order order \<and> s' = put_order order' s"
  using assms(1)
proof (rule BeginIssuance_Inr)
  fix wt wo wa state
  assume d: "st_orders s (ord_ID order) = Some wo" "ord_Revision wo = ord_Revision order"
    "ord_Status wo = OrderProcessing" "ord_Issuance wo = None" "ord_Issuance order = Some state"
    "st_accounts s (acc_ID account) = Some wa" "acc_Revision wa = acc_Revision account"
    "acc_Status wa = AccountValid" "length authzs = length (ord_AuthorizationIDs order)"
    "check_snapshot state authzs (ord_AuthorizationIDs order) s = Inr ()"
    "order' = bump_order order" "s' = put_order order' s"
  from assms(2) obtain r where r: "reachable r" "later r s" "st_accounts r i = Some account"
    by (auto simp: get_Account_def split: option.splits)
  with reachable_ok [OF r(1)] have "acc_ID account = i"
    by (auto simp: store_ok_def accounts_ok_def)
  with r d(6,7) accounts.same_revision_same_value [of r s i account wa]
  have acc: "wa = account" by (simp add: later_iff)
  from assms(4) obtain q where q: "later q s" "st_orders q (ord_ID order) = Some old"
    by (auto simp: get_Order_def split: option.splits)
  with d(1,2) assms(5) orders.same_revision_same_value [of q s "ord_ID order" old wo]
  have old: "wo = old" by (simp add: later_iff)
  note snap = check_snapshot_Inr [OF d(9), of state s "()", unfolded d(10), simplified]
  have "st_authzs s (az_ID a) = Some a" if a: "a \<in> set authzs" for a
  proof -
    from assms(3) a obtain r where "later r s" "st_authzs r (az_ID a) = Some a"
      by (fastforce simp: get_Authorization_def split: option.splits)
    moreover from snap a obtain w where "st_authzs s (az_ID a) = Some w" "az_Revision w = az_Revision a"
      by blast
    ultimately show ?thesis
      using authorizations.same_revision_same_value [of r s "az_ID a" a w] by (simp add: later_iff)
  qed
  with snap d acc old show ?thesis by auto
qed

definition sample_dispatch :: Order where
  "sample_dispatch = (bump_order sample_order)\<lparr>ord_Issuance :=
     Some \<lparr>is_OperationID = ''op'', is_AuthorizedAt = 10, is_Deadline = 20, is_Validations = []\<rparr>\<rparr>"

lemma sample_dispatch_begin:
  "BeginIssuance None (sample_task ''t1'' 5) sample_dispatch sample_account [sample_authz] sample_queue =
     Inr (bump_order sample_dispatch, put_order (bump_order sample_dispatch) sample_queue)"
  by (simp add: BeginIssuance_def checkTask_def checkOrder_def checkAuthorization_def sample_queue_eval
      sample_dispatch_def sample_defs bump_order_def Let_def)

theorem BeginIssuance_atomic_witness:
  "st_authzs sample_queue ''authz'' = Some sample_authz \<and> az_Status sample_authz = AuthorizationValid"
proof -
  have "\<exists>r. reachable r \<and> later r sample_queue \<and> get_Account None ''acct'' r = Inr sample_account"
    using sample_queue_reachable by (intro exI [of _ sample_queue]) (simp add: get_Account_def sample_queue_eval)
  moreover have "\<forall>a\<in>set [sample_authz]. \<exists>r. reachable r \<and> later r sample_queue \<and>
      get_Authorization None (az_ID a) r = Inr a"
    using sample_queue_reachable
    by (auto intro!: exI [of _ sample_queue] simp: get_Authorization_def sample_queue_eval sample_authz_def)
  moreover have "\<exists>r. later r sample_queue \<and>
      get_Order None (ord_ID sample_dispatch) r = Inr (bump_order sample_order)"
    by (intro exI [of _ sample_queue])
      (simp add: get_Order_def sample_queue_eval sample_dispatch_def sample_order_def bump_order_def)
  ultimately show ?thesis
    using BeginIssuance_atomic [OF sample_dispatch_begin, of "''acct''" "bump_order sample_order"]
    by (simp add: sample_dispatch_def sample_authz_def)
qed

text \<open>C19. Deactivation and revocation of an authorization win the race against issuance.  A successful
  terminal update leaves the order of the authorization without a state from which issuance could still
  be dispatched, and any dispatch that relies on the authorization as it was before fails ever after.\<close>

theorem deactivation_stops_dispatch:
  assumes "UpdateAuthorization ctx d s = Inr (d', s1)" and "authz_Terminal (az_Status d)"
    and "later s1 s2" and "a \<in> set authzs" and "az_ID a = az_ID d" and "az_Revision a \<le> az_Revision d"
  shows "(\<forall>w. st_orders s1 (az_OrderID d) = Some w \<longrightarrow> \<not> undispatched w) \<and>
    (\<exists>e. BeginIssuance ctx' task order account authzs s2 = Inl e)"
proof
  show "\<forall>w. st_orders s1 (az_OrderID d) = Some w \<longrightarrow> \<not> undispatched w"
    using assms(1) by (rule UpdateAuthorization_Inr)
      (use assms(2) in \<open>auto simp: undispatched_def split: option.splits if_splits\<close>)
  show "\<exists>e. BeginIssuance ctx' task order account authzs s2 = Inl e"
  proof (cases "BeginIssuance ctx' task order account authzs s2")
    case (Inr r)
    then obtain o' s' where "BeginIssuance ctx' task order account authzs s2 = Inr (o', s')"
      by (cases r) simp
    then obtain w where w: "st_authzs s2 (az_ID d) = Some w" "az_Revision w = az_Revision a"
    proof (rule BeginIssuance_Inr)
      fix wt wo wa st
      assume "length authzs = length (ord_AuthorizationIDs order)"
        "check_snapshot st authzs (ord_AuthorizationIDs order) s2 = Inr ()"
      then show thesis
        using check_snapshot_Inr [of authzs "ord_AuthorizationIDs order" st s2 "()"] assms(4,5) that
        by auto
    qed
    have "st_authzs s1 (az_ID d) = Some d'" "az_Revision d' = Suc (az_Revision d)"
      using authz_update.put_stores [OF assms(1)] by simp_all
    with w assms(3,6) authorizations.revision_mono [of s1 s2 "az_ID d" d' w] show ?thesis
      by (simp add: later_iff)
  qed simp
qed

theorem deactivation_stops_dispatch_witness:
  "\<exists>e. BeginIssuance None (sample_task ''t1'' 5) sample_dispatch sample_account [sample_authz]
     (exec (OpUpdateAuthorization (sample_authz\<lparr>az_Status := AuthorizationDeactivated\<rparr>)) sample_queue) = Inl e"
proof -
  let ?d = "sample_authz\<lparr>az_Status := AuthorizationDeactivated\<rparr>"
  obtain d' s1 where u: "UpdateAuthorization None ?d sample_queue = Inr (d', s1)"
    by (simp add: UpdateAuthorization_def checkAuthorization_def sample_queue_eval sample_authz_def
        put_authz_def Let_def)
  then have s1: "exec (OpUpdateAuthorization ?d) sample_queue = s1" by simp
  show ?thesis
    using deactivation_stops_dispatch [OF u _ evolves_refl, of sample_authz "[sample_authz]"] s1
    by (simp add: authz_Terminal_def)
qed

subsection \<open>Listing the orders of an account\<close>

lemma slice_limit_eq:
  assumes "0 < limit" "start \<le> length ids" "int (length ids) + limit < 2 ^ 63"
  shows "slice_limit ids start limit = Inr (take (nat limit) (drop start ids))"
proof -
  have "i64 (int start + limit) = int start + limit"
    using assms by (intro i64_id) auto
  then show ?thesis
    using assms by (auto simp: slice_limit_def Let_def min_def nat_add_distrib)
qed

text \<open>The page after the \<open>p\<close>-th identifier of an account.\<close>

lemma OrderIDs_from:
  assumes ids: "distinct (st_orderIDs s acc)" "[] \<notin> set (st_orderIDs s acc)"
    and lim: "0 < limit" "int (length (st_orderIDs s acc)) + limit < 2 ^ 63"
    and p: "p \<le> length (st_orderIDs s acc)"
    and after: "after = (if p = 0 then [] else st_orderIDs s acc ! (p - 1))"
  shows "OrderIDs None acc after limit s = Inr (take (nat limit) (drop p (st_orderIDs s acc)))"
proof (cases "p = 0")
  case True
  then show ?thesis
    using lim after by (simp add: OrderIDs_def slice_limit_eq)
next
  case False
  let ?ids = "st_orderIDs s acc"
  have q: "p - 1 < length ?ids" using p False by linarith
  have split: "?ids = take (p - 1) ?ids @ after # drop p ?ids"
    using id_take_nth_drop [OF q] False after by simp
  have "after \<notin> set (take (p - 1) ?ids)"
    using ids(1) by (subst (asm) split) simp
  with split have "index_of ?ids after = Some (length (take (p - 1) ?ids))"
    by (metis index_of_append_mid)
  then have "index_of ?ids after = Some (p - 1)" using q by simp
  moreover have "after \<noteq> []"
    using ids(2) q False after nth_mem by fastforce
  ultimately show ?thesis
    using lim False p by (simp add: OrderIDs_def slice_limit_eq)
qed

lemma order_ids_ok:
  assumes "reachable s"
  shows "distinct (st_orderIDs s acc)" and "[] \<notin> set (st_orderIDs s acc)"
  using reachable_ok [OF assms] unfolding store_ok_def orders_ok_def by blast+

end
