(* ===== verification/Spec2Isabelle.thy ===== *)
theory Spec2Isabelle
  imports Challenge_Sample System_Sample Request_Auth Nonce_Refinement Store_Safety Acme_Status
begin

text \<open>
  A verification of an ACME server written in Go (RFC 8555 with renewal information, profiles, authority tokens and
  network-function identifiers).

  \<^bold>\<open>The program.\<close>  A \<^verbatim>\<open>Server\<close> answers HTTP requests (\<^verbatim>\<open>server.go\<close>) and runs workers (\<^verbatim>\<open>worker.go\<close>, \<^verbatim>\<open>issuance.go\<close>).  A request is
  a signed JSON document; it is authenticated (\<^verbatim>\<open>request.go\<close>, \<^verbatim>\<open>internal/jws\<close>), its nonce is spent (\<^verbatim>\<open>nonce/nonce.go\<close>), and
  a handler (\<^verbatim>\<open>account.go\<close>, \<^verbatim>\<open>eab.go\<close>, \<^verbatim>\<open>order.go\<close>, \<^verbatim>\<open>finalize.go\<close>, \<^verbatim>\<open>certificate.go\<close>, \<^verbatim>\<open>revoke.go\<close>, \<^verbatim>\<open>renewal.go\<close>) reads and writes
  the store (\<^verbatim>\<open>store.go\<close>, \<^verbatim>\<open>memstore/memstore.go\<close>).  Accepting a challenge response or finalizing an order puts a task in the
  store's queue.  A worker leases a task, calls a validator (\<^verbatim>\<open>challenge/\<close>) or the issuer of the host, checks the result
  (\<^verbatim>\<open>csr.go\<close>, \<^verbatim>\<open>chain.go\<close>) and commits it under the lease.  Requests and workers of several processes interleave on one store; every write
  carries the revision it is based on.

  \<^bold>\<open>Theories and the code they model.\<close>
  \<^item> \<^verbatim>\<open>Acme_Prelude\<close>: time, 64-bit integers, results, strings, lists and association lists.  \<^verbatim>\<open>Base64url\<close>: the encoding and the IDs of
    \<^verbatim>\<open>ids.go\<close>.  \<^verbatim>\<open>Net_IP\<close>: what is used of \<^verbatim>\<open>net/netip\<close>.
  \<^item> \<^verbatim>\<open>Acme_Status\<close> (\<^verbatim>\<open>status.go\<close>), \<^verbatim>\<open>Acme_Problem\<close> (\<^verbatim>\<open>problem.go\<close> and the error values), \<^verbatim>\<open>Acme_Resource\<close> (\<^verbatim>\<open>resource.go\<close>, \<^verbatim>\<open>work.go\<close>, the views of
    \<^verbatim>\<open>wire.go\<close>): one datatype or record for each Go type, with prefixed field names.
  \<^item> \<^verbatim>\<open>TN_Auth_List\<close> (\<^verbatim>\<open>tnauthlist.go\<close>), \<^verbatim>\<open>Acme_Identifier\<close> (\<^verbatim>\<open>identifier.go\<close>), \<^verbatim>\<open>Acme_Config\<close> (\<^verbatim>\<open>config.go\<close>, \<^verbatim>\<open>refusal.go\<close>, \<^verbatim>\<open>New\<close> of \<^verbatim>\<open>server.go\<close>),
    \<^verbatim>\<open>Acme_X509\<close> (\<^verbatim>\<open>csr.go\<close>, \<^verbatim>\<open>chain.go\<close>, \<^verbatim>\<open>slhdsa.go\<close>, \<^verbatim>\<open>internal/slhdsaspki\<close>), \<^verbatim>\<open>Json_Strict\<close> and \<^verbatim>\<open>Acme_JWS\<close> (\<^verbatim>\<open>internal/jws\<close>).
  \<^item> \<^verbatim>\<open>Memstore\<close> (\<^verbatim>\<open>memstore/memstore.go\<close>, every operation as a function on the record of the tables) and \<^verbatim>\<open>Nonce_Manager\<close>
    (\<^verbatim>\<open>nonce/nonce.go\<close>).
  \<^item> \<^verbatim>\<open>Acme_Http\<close>, \<^verbatim>\<open>Server_World\<close>: requests, responses, and the world a handler runs in.  \<^verbatim>\<open>Acme_Request\<close> (\<^verbatim>\<open>request.go\<close>, answers of \<^verbatim>\<open>server.go\<close> and
    \<^verbatim>\<open>wire.go\<close>), \<^verbatim>\<open>Acme_Accounts\<close>, \<^verbatim>\<open>Acme_Orders\<close>, \<^verbatim>\<open>Acme_Finalize\<close>, \<^verbatim>\<open>Acme_Server\<close> (the dispatch of \<^verbatim>\<open>ServeHTTP\<close>), \<^verbatim>\<open>Acme_Worker\<close> and
    \<^verbatim>\<open>Acme_Issuance\<close>: the handlers and workers, one action for each method.
  \<^item> \<^verbatim>\<open>Challenge_Wire\<close> and \<^verbatim>\<open>Challenge_Network\<close> (\<^verbatim>\<open>challenge/network.go\<close>): the network as the validators see it, the checks on a validation request and
    the egress policy.  \<^verbatim>\<open>Challenge_Resolver\<close> (\<^verbatim>\<open>challenge/resolver.go\<close>): the DNS client.  \<^verbatim>\<open>Challenge_DNS\<close>, \<^verbatim>\<open>Challenge_Http\<close>, \<^verbatim>\<open>Challenge_TLS\<close> and
    \<^verbatim>\<open>Challenge_TKAuth\<close> (\<^verbatim>\<open>dns.go\<close>, \<^verbatim>\<open>http.go\<close>, \<^verbatim>\<open>tlsalpn.go\<close> and \<^verbatim>\<open>tkauth.go\<close> of \<^verbatim>\<open>challenge/\<close>): the four validators.

  A handler or worker is an action of the state monad over \<^typ>\<open>World\<close>: the store, the nonces, the response, the number of calls made and the
  calls that matter to correctness.  Before each call of the store or of the host, the other requests and workers act on the store.  What
  they do is a parameter, as are the clock, the random source, the host's interfaces (\<^verbatim>\<open>issuer.go\<close>, \<^verbatim>\<open>limit.go\<close>) and the
  libraries that are not in the repository (\<^verbatim>\<open>crypto/x509\<close>, signature schemes, the JSON decoder, IDNA, \<^verbatim>\<open>url.Parse\<close>); see the records \<^typ>\<open>Env\<close>,
  \<^typ>\<open>Names\<close>, \<^typ>\<open>X509\<close>, \<^typ>\<open>Json\<close> and \<^typ>\<open>Crypto\<close>.

  A validator is an action over the history of its network calls: DNS queries, connections, HTTP requests and TLS handshakes.  What the network
  answers is the parameter \<^typ>\<open>Wire\<close>, a function of that history.  The codec of DNS messages and the parts of \<^verbatim>\<open>net/http\<close> that choose ports and classify errors
  are the records \<^typ>\<open>DnsMessage\<close> and \<^typ>\<open>HttpClient\<close>; the redirect loop of the HTTP client and the ASN.1 reader that the TLS proof needs are written out.  A host
  gives the server its validators through \<^typ>\<open>Env\<close>; the two parts meet at the \<^verbatim>\<open>ValidationRequest\<close>.

  \<^bold>\<open>What is shown.\<close>
  \<^item> \<^verbatim>\<open>Store_Contract\<close>, \<^verbatim>\<open>Store_Invariants\<close>, \<^verbatim>\<open>Store_Versions\<close>, \<^verbatim>\<open>Store_Safety\<close>: what each store operation changes, the invariant of the indexes and of
    the task queue, revisions and leases (the locales \<^verbatim>\<open>versioned\<close>, \<^verbatim>\<open>versioned_update\<close> and \<^verbatim>\<open>fenced\<close>, interpreted on every table), and from them: a
    stale write or a stale worker fails, a lease is exclusive, a deactivated authorization stops a dispatch.
  \<^item> \<^verbatim>\<open>Store_Protocol\<close>, \<^verbatim>\<open>Store_Guarantee\<close>: the protocol all processes follow on the store and which writes follow it.
  \<^item> \<^verbatim>\<open>Worker_Safety\<close>, \<^verbatim>\<open>Issuance_Safety\<close>, \<^verbatim>\<open>Request_Safety\<close>, \<^verbatim>\<open>Account_Safety\<close>, \<^verbatim>\<open>Order_Safety\<close>, \<^verbatim>\<open>Server_Safety\<close>: every handler and every worker follows the
    protocol if the others do (rely and guarantee), and what holds at its calls of the host.
  \<^item> \<^verbatim>\<open>System_Safety\<close> and this theory: any sequence of requests and worker turns.  An authorization is valid only after a validator accepted its
    key authorization or it was pre-approved, a published chain was checked against its order, the issuer sees one request for one operation, a revocation was
    recorded before the revoker was called, and the store stays sound.  \<^verbatim>\<open>System_Sample\<close> runs the server on concrete requests.
  \<^item> \<^verbatim>\<open>Request_Auth\<close>: a request that is not authentic, or whose nonce was spent, changes nothing.  \<^verbatim>\<open>JWS_Sound\<close>: what an accepted signature and key
    guarantee.  \<^verbatim>\<open>Nonce_Refinement\<close>: the nonce manager, with its lazily compacted queue, implements a bounded first-in first-out queue, and issuing ends.
  \<^item> \<^verbatim>\<open>Challenge_Resolver\<close> (the locale \<^verbatim>\<open>asking_resolver\<close>, interpreted on \<^verbatim>\<open>LookupNetIP\<close>) to \<^verbatim>\<open>Challenge_TKAuth\<close>: a validator accepts only what proves control.
    \<^verbatim>\<open>DNS-01\<close>: the digest was in a TXT record of the name or of an alias within the bound, in a response that matches its query.
    \<^verbatim>\<open>HTTP-01\<close>: a fetched document was the key authorization, and whatever redirects the peers send, only addresses that the egress policy permits are
    contacted, on the ports the code allows.  \<^verbatim>\<open>TLS-ALPN-01\<close>: the certificate of the handshake names only the identifier and carries the critical proof.
    \<^verbatim>\<open>tkauth-01\<close>: a trusted authority signed the token for the identifier and the account key.  \<^verbatim>\<open>Challenge_Sample\<close> runs each on a concrete network.
  \<^item> Equivalences and round trips: the strict JSON pass accepts exactly the documents within the limits, the DER checker exactly the canonical authorization
    lists, the DNS normaliser exactly the RFC 1123 names; keys and identifiers read back what was written.

  \<^bold>\<open>Bounds.\<close>  Loops that the code bounds by a counter carry that counter: three rounds of \<^verbatim>\<open>completeValidation\<close>, two of \<^verbatim>\<open>beginRevocation\<close> and
  \<^verbatim>\<open>recordRevocation\<close>, the configured numbers of aliases of a DNS lookup and of redirects of an HTTP request.  The other loops are recursion on the data they traverse, or have a measure.  The one loop of the code without a bound is
  \<^verbatim>\<open>Manager.Issue\<close>, which draws until it finds an unused nonce: the model takes the list of draws, and as many different ones as the
  capacity are proved to be enough.  Integers are unbounded where the code cannot overflow and reduced by \<^const>\<open>i64\<close> or kept as words where it can.

  \<^bold>\<open>Not modelled.\<close>  The goroutines, timers and the wake signal of \<^verbatim>\<open>Run\<close> (a run is any sequence of turns); logging; the floating point arithmetic of
  \<^verbatim>\<open>LifetimeRenewal\<close>, which is a host policy; reading the system clock; the text of JSON and PEM answers (an answer is the record that is
  encoded); the deadlines of the validators and the share of time each DNS server gets (a call that runs out of time is one that fails); the TLS handshake itself and the
  parsing of certificates in it.  The conformance suites \<^verbatim>\<open>storetest\<close> and \<^verbatim>\<open>noncetest\<close>, \<^verbatim>\<open>internal/slhdsatest\<close>, the example program and the programs and the SQL store under
  \<^verbatim>\<open>test/\<close> are not part of the server.
\<close>

section \<open>Properties of the whole server\<close>





text \<open>C4. An authorization becomes valid only on the word of a validator: before the write, a validator accepted the response to one of its challenges, for its
  identifier and with the key authorization of that challenge.\<close>

theorem valid_authorization_was_validated:
  assumes "system E G S w" "Wrote s s' \<in> set (w_events w)"
    and "st_authzs s i = Some a" "az_Status a \<noteq> AuthorizationValid" "st_authzs s' i = Some a'" "az_Status a' = AuthorizationValid"
  shows "\<exists>req g c. Validated req (Inr g) \<in> set (w_events w) \<and> st_challenges s (ch_ID (vr_Challenge req)) = Some c \<and>
    ch_AuthorizationID c = i \<and> vr_Identifier req = az_Identifier a \<and> vr_Wildcard req = az_Wildcard a \<and>
    vr_KeyAuthorization req = ch_Token c @ ''.'' @ ch_KeyThumbprint c"
proof -
  obtain es where "set es \<subseteq> set (w_events w)" "event_ok E G es (Wrote s s')"
    using system_event [OF assms(1,2)] .
  moreover have "healthy G s" using system_past(1) [OF assms(1,2)] by simp
  ultimately show ?thesis using assms(3-6) unfolding event_ok.simps proved_def by blast
qed

theorem valid_authorization_was_validated_witness:
  "\<exists>(s :: Store) req g c. Validated req (Inr g) \<in> set (w_events run_validated) \<and> st_challenges s (ch_ID (vr_Challenge req)) = Some c \<and>
     ch_AuthorizationID c = ''z2'' \<and> vr_KeyAuthorization req = ch_Token c @ ''.'' @ ch_KeyThumbprint c"
proof -
  obtain s s' a a' es where e: "w_events run_validated = Wrote s s' # es" "st_authzs s ''z2'' = Some a" "az_Status a = AuthorizationPending"
    "st_authzs s' ''z2'' = Some a'" "az_Status a' = AuthorizationValid"
    using run_validated_events by blast
  have "Wrote s s' \<in> set (w_events run_validated)" "az_Status a \<noteq> AuthorizationValid" by (simp_all add: e(1,3))
  from valid_authorization_was_validated [OF run_systems(3) this(1) e(2) this(2) e(4,5)] show ?thesis by blast
qed

text \<open>C5. A certificate is published only if the issuer returned it for the request of that very order and the chain passed every check.\<close>

theorem published_chain_was_checked:
  assumes "system E G S w" "Wrote s s' \<in> set (w_events w)"
    and "st_orders s i = Some v" "ord_Status v \<noteq> OrderValid" "st_orders s' i = Some v'" "ord_Status v' = OrderValid"
  shows "\<exists>req u res now leaf crt. Issued req u res None \<in> set (w_events w) \<and> iq_OrderID req = i \<and>
    checkChain (env_X509 E) (env_Names E) (ir_Chain res) (iq_CSR req) v now = Inr leaf \<and>
    st_certificates s' (ord_CertificateID v') = Some crt \<and> crt_Chain crt = ir_Chain res"
proof -
  obtain es where "set es \<subseteq> set (w_events w)" "event_ok E G es (Wrote s s')"
    using system_event [OF assms(1,2)] .
  moreover have "healthy G s" using system_past(1) [OF assms(1,2)] by simp
  ultimately show ?thesis using assms(3-6) unfolding event_ok.simps published_def by blast
qed

theorem published_chain_was_checked_witness:
  "\<exists>req u res now leaf v. Issued req u res None \<in> set (w_events run_issued) \<and>
     checkChain sample_x509 sample_names (ir_Chain res) (iq_CSR req) v now = Inr leaf"
proof -
  obtain req s1 s2 s3 v v' where e: "w_events run_issued =
      [Wrote s2 s3, Issued req s2 (fst (env_Issue run_env 0 req)) None, Wrote s1 s2, Wrote run_store s1]"
    "st_orders s2 ''o1'' = Some v" "ord_Status v = OrderProcessing" "st_orders s3 ''o1'' = Some v'" "ord_Status v' = OrderValid"
    using run_issued_events by blast
  have "Wrote s2 s3 \<in> set (w_events run_issued)" "ord_Status v \<noteq> OrderValid" by (simp_all add: e(1,3))
  from published_chain_was_checked [OF run_systems(2) this(1) e(2) this(2) e(4,5)] show ?thesis
    unfolding run_env_sel by blast
qed





text \<open>C6. No accepted work is lost, and no order is ready or finalized on less than it needs.  In every state of the system an order that is being issued and a challenge that is being
  validated have a task in the queue; an order that is ready or waits for its dispatch has only valid authorizations; a valid authorization was approved beforehand by the
  policy or has a valid challenge; and a valid order has its certificate.\<close>

theorem system_state_sound:
  assumes "system E G S w" "st_orders (w_store w) i = Some v"
  shows "(ord_Status v = OrderProcessing \<longrightarrow> has_task TaskIssue i (w_store w)) \<and>
    (ord_Status v = OrderReady \<or> ord_Status v = OrderProcessing \<and> ord_Issuance v = None \<longrightarrow>
       (\<forall>j \<in> set (ord_AuthorizationIDs v). \<exists>a. st_authzs (w_store w) j = Some a \<and> az_Status a = AuthorizationValid \<and>
          (az_PreApproved a \<or> (\<exists>k \<in> set (az_ChallengeIDs a). \<exists>c. st_challenges (w_store w) k = Some c \<and> ch_Status c = ChallengeValid)))) \<and>
    (ord_Status v = OrderValid \<longrightarrow>
       (\<exists>crt. st_certificates (w_store w) (ord_CertificateID v) = Some crt \<and> crt_OrderID crt = i)) \<and>
    (\<forall>k c. st_challenges (w_store w) k = Some c \<and> ch_Status c = ChallengeProcessing \<longrightarrow> has_task TaskValidate k (w_store w))"
proof -
  have l: "linked G (w_store w)" using system_good [OF assms(1)] healthy_linked by (simp add: good_def)
  then have k: "work_kept (w_store w)" by (simp add: linked_def)
  note o1 = linkedD(3) [OF l assms(2), unfolded order_linked_def]
  have valid: "\<exists>a. st_authzs (w_store w) j = Some a \<and> az_Status a = AuthorizationValid \<and>
      (az_PreApproved a \<or> (\<exists>k \<in> set (az_ChallengeIDs a). \<exists>c. st_challenges (w_store w) k = Some c \<and> ch_Status c = ChallengeValid))"
    if "needs_valid v" "j \<in> set (ord_AuthorizationIDs v)" for j
  proof -
    have "\<exists>a. st_authzs (w_store w) j = Some a \<and> az_Status a = AuthorizationValid" using o1 that by auto
    then obtain a where a: "st_authzs (w_store w) j = Some a" "az_Status a = AuthorizationValid" by blast
    with linkedD(2) [OF l a(1)] have "az_PreApproved a \<or> (\<exists>k \<in> set (az_ChallengeIDs a). \<exists>c. st_challenges (w_store w) k = Some c \<and> ch_Status c = ChallengeValid)"
      by (simp add: authz_linked_def)
    with a show ?thesis by blast
  qed
  have "ord_Status v = OrderProcessing \<longrightarrow> has_task TaskIssue i (w_store w)"
    "\<forall>k c. st_challenges (w_store w) k = Some c \<and> ch_Status c = ChallengeProcessing \<longrightarrow> has_task TaskValidate k (w_store w)"
    using k assms(2) by (simp_all add: work_kept_def)
  moreover have "ord_Status v = OrderValid \<longrightarrow>
      (\<exists>crt. st_certificates (w_store w) (ord_CertificateID v) = Some crt \<and> crt_OrderID crt = i)"
    using o1 by simp
  moreover note valid [unfolded needs_valid_def]
  ultimately show ?thesis by (intro conjI impI ballI) simp_all
qed

theorem system_state_sound_witness:
  "has_task TaskIssue ''o1'' run_store \<and> has_task TaskValidate ''c2'' run_store"
proof -
  have "st_orders (w_store run_start) ''o1'' = Some (bump_order (finalized_order (run_order ''o1'' ''z1'') [1]))"
    "st_challenges (w_store run_start) ''c2'' = Some (bump_challenge (run_challenge\<lparr>ch_Status := ChallengeProcessing, ch_KeyThumbprint := ''k''\<rparr>))"
    by (simp_all add: run_start_def run_store_tables)
  with system_state_sound [OF run_systems(1) this(1)] show ?thesis
    by (simp add: run_start_def run_samples bump_order_def bump_challenge_def)
qed





end
